(* ===== verification/Prelude.thy ===== *)
theory Prelude
  imports Main
begin

text \<open>
  The shared vocabulary of the development.

  Every handler and service function of the program is an \<open>async fn\<close> returning
  \<^verbatim>\<open>Result<T, E>\<close> over a mutable store.  It is modelled by an \<open>op\<close>: a function from the
  state to an outcome (\<open>Inl\<close> the error, \<open>Inr\<close> the value) \<^emph>\<open>and\<close> the new state.  The state is
  returned on the error path too, because the program does not roll back statements that were
  executed before a later \<^verbatim>\<open>?\<close> returns early.

  The combinators below are the program's control flow: \<open>bind\<close> is \<^verbatim>\<open>?\<close> followed by the rest
  of the function, \<open>require\<close> an early return guarded by a condition, \<open>reads\<close>/\<open>writes\<close> a
  statement on the store, \<open>catch\<close> a \<^verbatim>\<open>match\<close> on the \<^verbatim>\<open>Result\<close>.
\<close>

section \<open>Operations: state passing with errors as values\<close>

type_synonym ('s, 'e, 'a) op = "'s \<Rightarrow> ('e + 'a) \<times> 's"

definition ret :: "'a \<Rightarrow> ('s, 'e, 'a) op" where
  "ret a s = (Inr a, s)"

definition throw :: "'e \<Rightarrow> ('s, 'e, 'a) op" where
  "throw e s = (Inl e, s)"

definition bind :: "('s, 'e, 'a) op \<Rightarrow> ('a \<Rightarrow> ('s, 'e, 'b) op) \<Rightarrow> ('s, 'e, 'b) op" where
  "bind m f s = (case m s of (Inl e, t) \<Rightarrow> (Inl e, t) | (Inr a, t) \<Rightarrow> f a t)"

definition seq :: "('s, 'e, unit) op \<Rightarrow> ('s, 'e, 'b) op \<Rightarrow> ('s, 'e, 'b) op" where
  "seq m n = bind m (\<lambda>_. n)"

definition reads :: "('s \<Rightarrow> 'a) \<Rightarrow> ('s, 'e, 'a) op" where
  "reads g s = (Inr (g s), s)"

definition writes :: "('s \<Rightarrow> 's) \<Rightarrow> ('s, 'e, unit) op" where
  "writes f s = (Inr (), f s)"

definition require :: "bool \<Rightarrow> 'e \<Rightarrow> ('s, 'e, unit) op" where
  "require b e s = (if b then (Inr (), s) else (Inl e, s))"

definition lift_result :: "'e + 'a \<Rightarrow> ('s, 'e, 'a) op" where
  "lift_result r s = (r, s)"

definition catch :: "('s, 'e, 'a) op \<Rightarrow> ('e \<Rightarrow> ('s, 'f, 'b) op) \<Rightarrow> ('a \<Rightarrow> ('s, 'f, 'b) op) \<Rightarrow>
    ('s, 'f, 'b) op" where
  "catch m h f s = (case m s of (Inl e, t) \<Rightarrow> h e t | (Inr a, t) \<Rightarrow> f a t)"

definition map_error :: "('e \<Rightarrow> 'f) \<Rightarrow> ('s, 'e, 'a) op \<Rightarrow> ('s, 'f, 'a) op" where
  "map_error h m = catch m (\<lambda>e. throw (h e)) ret"

text \<open>\<open>ok_or\<close> is \<^verbatim>\<open>Option::ok_or\<close>; \<open>the_or\<close> is \<^verbatim>\<open>Option::ok_or(..)?\<close> inside an operation.\<close>

definition ok_or :: "'a option \<Rightarrow> 'e \<Rightarrow> 'e + 'a" where
  "ok_or x e = (case x of None \<Rightarrow> Inl e | Some a \<Rightarrow> Inr a)"

definition the_or :: "'a option \<Rightarrow> 'e \<Rightarrow> ('s, 'e, 'a) op" where
  "the_or x e = lift_result (ok_or x e)"

definition outcome :: "('s, 'e, 'a) op \<Rightarrow> 's \<Rightarrow> 'e + 'a" where
  "outcome m s = fst (m s)"

definition after :: "('s, 'e, 'a) op \<Rightarrow> 's \<Rightarrow> 's" where
  "after m s = snd (m s)"

definition succeeds :: "('s, 'e, 'a) op \<Rightarrow> 's \<Rightarrow> bool" where
  "succeeds m s = (\<exists>a. fst (m s) = Inr a)"

subsection \<open>Evaluation and inversion rules\<close>

named_theorems op_eval \<open>evaluation of operations on a given state\<close>
named_theorems op_success \<open>when an operation returns a value, and with which state\<close>
named_theorems op_failure \<open>when an operation returns an error, and with which state\<close>

lemmas op_defs = ret_def throw_def bind_def seq_def reads_def writes_def require_def
  lift_result_def catch_def map_error_def ok_or_def the_or_def

declare op_defs [op_eval]

lemma ret_eq [simp]: "ret a s = (Inr a, s)" by (simp add: ret_def)
lemma throw_eq [simp]: "throw e s = (Inl e, s)" by (simp add: throw_def)
lemma reads_eq [simp]: "reads g s = (Inr (g s), s)" by (simp add: reads_def)
lemma writes_eq [simp]: "writes f s = (Inr (), f s)" by (simp add: writes_def)

lemma bind_success [op_success]:
  "bind m f s = (Inr b, t) \<longleftrightarrow> (\<exists>a u. m s = (Inr a, u) \<and> f a u = (Inr b, t))"
  by (auto simp: bind_def split: prod.splits sum.splits)

lemma seq_success [op_success]:
  "seq m n s = (Inr b, t) \<longleftrightarrow> (\<exists>u. m s = (Inr (), u) \<and> n u = (Inr b, t))"
  by (auto simp: seq_def bind_success)

lemma require_success [op_success]: "require b e s = (Inr u, t) \<longleftrightarrow> b \<and> t = s"
  by (auto simp: require_def)

lemma lift_result_success [op_success]: "lift_result r s = (Inr a, t) \<longleftrightarrow> r = Inr a \<and> t = s"
  by (auto simp: lift_result_def)

lemma ok_or_success [op_success]: "ok_or x e = Inr a \<longleftrightarrow> x = Some a"
  by (auto simp: ok_or_def split: option.splits)

lemma the_or_success [op_success]: "the_or x e s = (Inr a, t) \<longleftrightarrow> x = Some a \<and> t = s"
  by (auto simp: the_or_def op_success)

lemma catch_success [op_success]:
  "catch m h f s = (Inr b, t) \<longleftrightarrow>
    (\<exists>e u. m s = (Inl e, u) \<and> h e u = (Inr b, t)) \<or>
    (\<exists>a u. m s = (Inr a, u) \<and> f a u = (Inr b, t))"
  by (auto simp: catch_def split: prod.splits sum.splits)

lemma map_error_success [op_success]: "map_error h m s = (Inr a, t) \<longleftrightarrow> m s = (Inr a, t)"
  by (auto simp: map_error_def catch_success)

lemma bind_failure [op_failure]:
  "bind m f s = (Inl e, t) \<longleftrightarrow>
    m s = (Inl e, t) \<or> (\<exists>a u. m s = (Inr a, u) \<and> f a u = (Inl e, t))"
  by (auto simp: bind_def split: prod.splits sum.splits)

lemma seq_failure [op_failure]:
  "seq m n s = (Inl e, t) \<longleftrightarrow> m s = (Inl e, t) \<or> (\<exists>u. m s = (Inr (), u) \<and> n u = (Inl e, t))"
  by (auto simp: seq_def bind_failure)

lemma require_failure [op_failure]: "require b e s = (Inl f, t) \<longleftrightarrow> \<not> b \<and> f = e \<and> t = s"
  by (auto simp: require_def)

lemma lift_result_failure [op_failure]: "lift_result r s = (Inl e, t) \<longleftrightarrow> r = Inl e \<and> t = s"
  by (auto simp: lift_result_def)

lemma ok_or_failure [op_failure]: "ok_or x e = Inl f \<longleftrightarrow> x = None \<and> f = e"
  by (auto simp: ok_or_def split: option.splits)

lemma the_or_failure [op_failure]: "the_or x e s = (Inl f, t) \<longleftrightarrow> x = None \<and> f = e \<and> t = s"
  by (auto simp: the_or_def op_failure)

lemma catch_failure [op_failure]:
  "catch m h f s = (Inl g, t) \<longleftrightarrow>
    (\<exists>e u. m s = (Inl e, u) \<and> h e u = (Inl g, t)) \<or>
    (\<exists>a u. m s = (Inr a, u) \<and> f a u = (Inl g, t))"
  by (auto simp: catch_def split: prod.splits sum.splits)

lemma map_error_failure [op_failure]:
  "map_error h m s = (Inl e, t) \<longleftrightarrow> (\<exists>f. m s = (Inl f, t) \<and> e = h f)"
  by (auto simp: map_error_def catch_failure)

lemma succeeds_iff: "succeeds m s \<longleftrightarrow> (\<exists>a t. m s = (Inr a, t))"
  by (cases "m s") (auto simp: succeeds_def)

lemma outcome_Inr_iff: "outcome m s = Inr a \<longleftrightarrow> (\<exists>t. m s = (Inr a, t))"
  by (cases "m s") (auto simp: outcome_def)

subsection \<open>Invariants of operations\<close>

text \<open>
  \<open>preserves I m\<close>: \<open>m\<close> keeps \<open>I\<close>, on its error paths too.  The introduction rules follow the
  structure of an operation, so that a preservation proof is \<open>intro preserve\<close> and the
  arithmetic of the writes.
\<close>

definition preserves :: "('s \<Rightarrow> bool) \<Rightarrow> ('s, 'e, 'a) op \<Rightarrow> bool" where
  "preserves I m \<longleftrightarrow> (\<forall>s. I s \<longrightarrow> I (snd (m s)))"

named_theorems preserve \<open>rules that an operation keeps an invariant\<close>

lemma preservesI: "(\<And>s. I s \<Longrightarrow> I (snd (m s))) \<Longrightarrow> preserves I m"
  by (simp add: preserves_def)

lemma preservesD: "preserves I m \<Longrightarrow> I s \<Longrightarrow> I (snd (m s))"
  by (simp add: preserves_def)

lemma preserves_step: "preserves I m \<Longrightarrow> m s = (r, t) \<Longrightarrow> I s \<Longrightarrow> I t"
  using preservesD [of I m s] by simp

lemma preserves_ret [preserve]: "preserves I (ret a)" by (simp add: preserves_def)
lemma preserves_throw [preserve]: "preserves I (throw e)" by (simp add: preserves_def)
lemma preserves_reads [preserve]: "preserves I (reads g)" by (simp add: preserves_def)
lemma preserves_require [preserve]: "preserves I (require b e)"
  by (simp add: preserves_def require_def)
lemma preserves_lift_result [preserve]: "preserves I (lift_result r)"
  by (simp add: preserves_def lift_result_def)
lemma preserves_the_or [preserve]: "preserves I (the_or x e)"
  by (simp add: the_or_def preserves_lift_result)

lemma preserves_writes: "(\<And>s. I s \<Longrightarrow> I (f s)) \<Longrightarrow> preserves I (writes f)"
  by (simp add: preserves_def)

lemma preserves_bind [preserve]:
  "preserves I m \<Longrightarrow> (\<And>a. preserves I (f a)) \<Longrightarrow> preserves I (bind m f)"
  by (auto simp: preserves_def bind_def split: prod.splits sum.splits; metis snd_conv)

lemma preserves_seq [preserve]:
  "preserves I m \<Longrightarrow> preserves I n \<Longrightarrow> preserves I (seq m n)"
  by (simp add: seq_def preserves_bind)

lemma preserves_catch [preserve]:
  "preserves I m \<Longrightarrow> (\<And>e. preserves I (h e)) \<Longrightarrow> (\<And>a. preserves I (f a)) \<Longrightarrow>
    preserves I (catch m h f)"
  by (auto simp: preserves_def catch_def split: prod.splits sum.splits; metis snd_conv)

lemma preserves_map_error [preserve]: "preserves I m \<Longrightarrow> preserves I (map_error h m)"
  by (simp add: map_error_def preserves_catch preserves_ret preserves_throw)

lemma preserves_if [preserve]:
  "preserves I m \<Longrightarrow> preserves I n \<Longrightarrow> preserves I (if b then m else n)"
  by simp

lemma preserves_case_option [preserve]:
  "preserves I m \<Longrightarrow> (\<And>a. preserves I (f a)) \<Longrightarrow>
    preserves I (case x of None \<Rightarrow> m | Some a \<Rightarrow> f a)"
  by (simp split: option.split)

section \<open>Tables\<close>

text \<open>
  A table of the store is the list of its rows.  \<open>update_where P f\<close> is
  \<^verbatim>\<open>UPDATE t SET f WHERE P\<close>, \<open>delete_where\<close> is \<^verbatim>\<open>DELETE\<close>, \<open>count_where\<close> is
  \<^verbatim>\<open>SELECT count() ... WHERE\<close>, and \<^verbatim>\<open>find P\<close> of HOL is \<^verbatim>\<open>SELECT ... WHERE P LIMIT 1\<close>.
\<close>

definition update_where :: "('r \<Rightarrow> bool) \<Rightarrow> ('r \<Rightarrow> 'r) \<Rightarrow> 'r list \<Rightarrow> 'r list" where
  "update_where P f rs = map (\<lambda>r. if P r then f r else r) rs"

definition delete_where :: "('r \<Rightarrow> bool) \<Rightarrow> 'r list \<Rightarrow> 'r list" where
  "delete_where P rs = filter (\<lambda>r. \<not> P r) rs"

definition count_where :: "('r \<Rightarrow> bool) \<Rightarrow> 'r list \<Rightarrow> nat" where
  "count_where P rs = length (filter P rs)"

text \<open>\<open>upsert k f\<close> is \<^verbatim>\<open>UPSERT type::record(t, k)\<close> on a table keyed by record id.\<close>

fun upsert :: "'k \<Rightarrow> ('r option \<Rightarrow> 'r) \<Rightarrow> ('k \<times> 'r) list \<Rightarrow> ('k \<times> 'r) list" where
  "upsert k f [] = [(k, f None)]"
| "upsert k f ((k', r) # t) = (if k = k' then (k, f (Some r)) # t else (k', r) # upsert k f t)"

lemma map_of_upsert [simp]: "map_of (upsert k f m) = (map_of m)(k \<mapsto> f (map_of m k))"
  by (induction k f m rule: upsert.induct) (auto simp: fun_eq_iff)

lemma keys_upsert: "fst ` set (upsert k f m) = insert k (fst ` set m)"
  by (induction k f m rule: upsert.induct) auto

lemma distinct_upsert: "distinct (map fst m) \<Longrightarrow> distinct (map fst (upsert k f m))"
proof (induction k f m rule: upsert.induct)
  case (2 k f k' r t)
  then show ?case using keys_upsert [of k f t] by (auto simp: image_set [symmetric] simp del: image_set)
qed simp

text \<open>\<^verbatim>\<open>collect::<Result<Vec<_>>>\<close>: the values, or the first error.\<close>

fun collect_results :: "('e + 'a) list \<Rightarrow> 'e + 'a list" where
  "collect_results [] = Inr []"
| "collect_results (Inl e # rs) = Inl e"
| "collect_results (Inr a # rs) =
    (case collect_results rs of Inl e \<Rightarrow> Inl e | Inr as \<Rightarrow> Inr (a # as))"

lemma collect_results_map [simp]: "collect_results (map Inr as) = Inr as"
  by (induction as) simp_all

lemma collect_results_Inr: "collect_results rs = Inr as \<longleftrightarrow> rs = map Inr as"
proof
  show "collect_results rs = Inr as \<Longrightarrow> rs = map Inr as"
    by (induction rs arbitrary: as rule: collect_results.induct) (auto split: sum.splits)
qed simp

lemma length_update_where [simp]: "length (update_where P f rs) = length rs"
  by (simp add: update_where_def)

lemma update_where_simps [simp]:
  "update_where P f [] = []"
  "update_where P f (r # rs) = (if P r then f r else r) # update_where P f rs"
  by (simp_all add: update_where_def)

lemma set_update_where: "set (update_where P f rs) = (\<lambda>r. if P r then f r else r) ` set rs"
  by (simp add: update_where_def)

lemma ball_update_where:
  "(\<forall>r\<in>set (update_where P f rs). Q r) \<longleftrightarrow> (\<forall>r\<in>set rs. if P r then Q (f r) else Q r)"
  by (induction rs) auto

lemma key_image_update_where:
  "(\<And>r. key (f r) = key r) \<Longrightarrow> key ` set (update_where P f rs) = key ` set rs"
  by (induction rs) auto

lemma update_where_none: "\<forall>r\<in>set rs. \<not> P r \<Longrightarrow> update_where P f rs = rs"
  by (induction rs) auto

lemma set_delete_where [simp]: "set (delete_where P rs) = {r \<in> set rs. \<not> P r}"
  by (auto simp: delete_where_def)

lemma delete_where_simps [simp]:
  "delete_where P [] = []"
  "delete_where P (r # rs) = (if P r then delete_where P rs else r # delete_where P rs)"
  by (simp_all add: delete_where_def)

lemma map_key_update_where [simp]:
  "(\<And>r. key (f r) = key r) \<Longrightarrow> map key (update_where P f rs) = map key rs"
  by (induction rs) auto

lemma distinct_map_delete_where:
  "distinct (map key rs) \<Longrightarrow> distinct (map key (delete_where P rs))"
  by (simp add: delete_where_def distinct_map_filter)

lemma map_of_delete_where:
  "distinct (map fst m) \<Longrightarrow> map_of (delete_where P m) k =
    (case map_of m k of Some v \<Rightarrow> if P (k, v) then None else Some v | None \<Rightarrow> None)"
proof (induction m)
  case (Cons kv m)
  have "map_of m (fst kv) = None" using Cons.prems by (simp add: map_of_eq_None_iff)
  then show ?case using Cons by (cases kv) (auto split: option.split)
qed simp

lemma find_Some_in: "find P rs = Some r \<Longrightarrow> r \<in> set rs \<and> P r"
  by (induction rs) (auto split: if_splits)

lemma find_None_all: "find P rs = None \<longleftrightarrow> (\<forall>r\<in>set rs. \<not> P r)"
  by (induction rs) auto

lemma find_None_update_where:
  "find P (update_where Q f rs) = None \<longleftrightarrow> (\<forall>r\<in>set rs. \<not> P (if Q r then f r else r))"
  by (induction rs) auto

lemma find_unique:
  "distinct (map key rs) \<Longrightarrow> r \<in> set rs \<Longrightarrow> key r = k \<Longrightarrow> find (\<lambda>r. key r = k) rs = Some r"
  by (induction rs) (auto simp: rev_image_eqI)

lemma find_update_where_key:
  assumes "\<And>r. key (f r) = key r"
  shows "find (\<lambda>r. key r = k) (update_where P f rs) =
    map_option (\<lambda>r. if P r then f r else r) (find (\<lambda>r. key r = k) rs)"
  using assms by (induction rs) auto

lemma find_delete_where_other:
  "(\<And>r. P r \<Longrightarrow> \<not> Q r) \<Longrightarrow> find P (delete_where Q rs) = find P rs"
  by (induction rs) auto

lemma count_where_simps [simp]:
  "count_where P [] = 0"
  "count_where P (r # rs) = (if P r then 1 else 0) + count_where P rs"
  by (simp_all add: count_where_def)

lemma count_where_0: "count_where P rs = 0 \<longleftrightarrow> (\<forall>r\<in>set rs. \<not> P r)"
  by (auto simp: count_where_def filter_empty_conv)

section \<open>Sorted lists\<close>

lemma sorted_le_last: "sorted xs \<Longrightarrow> x \<in> set xs \<Longrightarrow> x \<le> last xs"
  by (induction xs) auto

section \<open>Runs of an operation\<close>

text \<open>
  Concurrent requests reach the store as a sequence of atomic statements.  \<open>run f xs s\<close> applies
  \<open>f\<close> to each element of such a sequence and collects the answers in order.
\<close>

primrec run :: "('x \<Rightarrow> 's \<Rightarrow> 'a \<times> 's) \<Rightarrow> 'x list \<Rightarrow> 's \<Rightarrow> 'a list \<times> 's" where
  "run f [] s = ([], s)"
| "run f (x # xs) s = (let (a, t) = f x s; (as, u) = run f xs t in (a # as, u))"

lemma length_run [simp]: "length (fst (run f xs s)) = length xs"
  by (induction xs arbitrary: s) (auto split: prod.splits, metis fst_conv)

lemma run_append:
  "run f (xs @ ys) s =
    (let (as, t) = run f xs s; (bs, u) = run f ys t in (as @ bs, u))"
  by (induction xs arbitrary: s) (auto split: prod.splits)

lemma run_invariant:
  "(\<And>x s. I s \<Longrightarrow> I (snd (f x s))) \<Longrightarrow> I s \<Longrightarrow> I (snd (run f xs s))"
  by (induction xs arbitrary: s) (auto split: prod.splits, metis snd_conv)

lemma run_snoc:
  "run f (xs @ [x]) s =
    (let (as, t) = run f xs s; (a, u) = f x t in (as @ [a], u))"
  by (simp add: run_append split: prod.splits)

lemma run_nth:
  "i < length xs \<Longrightarrow> fst (run f xs s) ! i = fst (f (xs ! i) (snd (run f (take i xs) s)))"
proof (induction xs arbitrary: i s)
  case (Cons x xs)
  obtain a t where "f x s = (a, t)" by fastforce
  then show ?case
    using Cons.IH [of "i - 1" t] Cons.prems by (cases i) (auto split: prod.splits)
qed simp

end
