(* ===== verification/Strings.thy ===== *)
theory Strings
  imports Prelude "HOL-Library.Char_ord"
begin

text \<open>
  Rust's \<^verbatim>\<open>str\<close> as the program uses it: a \<open>str\<close> is the list of the string's \<^verbatim>\<open>char\<close>s
  (Unicode scalar values, as natural numbers), \<open>lit\<close> turns an ASCII literal into a \<open>str\<close>, and
  \<open>utf8\<close> is the byte sequence that \<^verbatim>\<open>str::len\<close>, \<^verbatim>\<open>as_bytes\<close> and the hash functions see.
  The standard library's \<^verbatim>\<open>char\<close> predicates are written out where they are finite sets
  (\<^verbatim>\<open>is_whitespace\<close>, \<^verbatim>\<open>is_control\<close>, the ASCII classes); the three that need the Unicode
  tables take the table beyond ASCII as a parameter.
\<close>

type_synonym str = "nat list"
type_synonym byte = nat

definition lit :: "string \<Rightarrow> str" where
  "lit s = map of_char s"

lemma lit_eq_iff [simp]: "lit s = lit t \<longleftrightarrow> s = t"
  unfolding lit_def by (rule inj_map_eq_map) (simp add: inj_def)

lemma lit_Nil [simp]: "lit [] = []" by (simp add: lit_def)

section \<open>Character classes\<close>

definition is_whitespace :: "nat \<Rightarrow> bool" where
  "is_whitespace c \<longleftrightarrow> (9 \<le> c \<and> c \<le> 13) \<or> c = 32 \<or> c = 0x85 \<or> c = 0xA0 \<or> c = 0x1680 \<or>
    (0x2000 \<le> c \<and> c \<le> 0x200A) \<or> c = 0x2028 \<or> c = 0x2029 \<or> c = 0x202F \<or> c = 0x205F \<or> c = 0x3000"

definition is_control :: "nat \<Rightarrow> bool" where
  "is_control c \<longleftrightarrow> c \<le> 31 \<or> (127 \<le> c \<and> c \<le> 159)"

definition is_ascii_digit :: "nat \<Rightarrow> bool" where
  "is_ascii_digit c \<longleftrightarrow> 48 \<le> c \<and> c \<le> 57"

definition is_ascii_lowercase :: "nat \<Rightarrow> bool" where
  "is_ascii_lowercase c \<longleftrightarrow> 97 \<le> c \<and> c \<le> 122"

definition is_ascii_uppercase :: "nat \<Rightarrow> bool" where
  "is_ascii_uppercase c \<longleftrightarrow> 65 \<le> c \<and> c \<le> 90"

definition is_ascii_alphanumeric :: "nat \<Rightarrow> bool" where
  "is_ascii_alphanumeric c \<longleftrightarrow> is_ascii_digit c \<or> is_ascii_lowercase c \<or> is_ascii_uppercase c"

lemmas char_classes = is_whitespace_def is_control_def is_ascii_digit_def is_ascii_lowercase_def
  is_ascii_uppercase_def is_ascii_alphanumeric_def

definition ascii_lower :: "nat \<Rightarrow> nat" where
  "ascii_lower c = (if is_ascii_uppercase c then c + 32 else c)"

definition to_ascii_lowercase :: "str \<Rightarrow> str" where
  "to_ascii_lowercase s = map ascii_lower s"

text \<open>The part of the Unicode tables beyond ASCII, and the three predicates over it.\<close>

record unicode =
  uni_lower :: "nat \<Rightarrow> bool"
  uni_upper :: "nat \<Rightarrow> bool"
  uni_alnum :: "nat \<Rightarrow> bool"

definition is_lowercase :: "unicode \<Rightarrow> nat \<Rightarrow> bool" where
  "is_lowercase U c = (if c < 128 then is_ascii_lowercase c else uni_lower U c)"

definition is_uppercase :: "unicode \<Rightarrow> nat \<Rightarrow> bool" where
  "is_uppercase U c = (if c < 128 then is_ascii_uppercase c else uni_upper U c)"

definition is_alphanumeric :: "unicode \<Rightarrow> nat \<Rightarrow> bool" where
  "is_alphanumeric U c = (if c < 128 then is_ascii_alphanumeric c else uni_alnum U c)"

section \<open>UTF-8\<close>

definition utf8_char :: "nat \<Rightarrow> byte list" where
  "utf8_char c =
    (if c < 0x80 then [c]
     else if c < 0x800 then [0xC0 + c div 64, 0x80 + c mod 64]
     else if c < 0x10000 then [0xE0 + c div 4096, 0x80 + (c div 64) mod 64, 0x80 + c mod 64]
     else [0xF0 + c div 262144, 0x80 + (c div 4096) mod 64, 0x80 + (c div 64) mod 64,
           0x80 + c mod 64])"

definition utf8 :: "str \<Rightarrow> byte list" where
  "utf8 s = concat (map utf8_char s)"

text \<open>\<^verbatim>\<open>str::len\<close>: the number of bytes.\<close>

definition byte_len :: "str \<Rightarrow> nat" where
  "byte_len s = length (utf8 s)"

text \<open>The characters of a Rust string are Unicode scalar values.\<close>

definition is_scalar :: "nat \<Rightarrow> bool" where
  "is_scalar c \<longleftrightarrow> c < 0xD800 \<or> (0xE000 \<le> c \<and> c < 0x110000)"

definition valid_text :: "str \<Rightarrow> bool" where
  "valid_text s \<longleftrightarrow> list_all is_scalar s"

fun utf8_decode :: "byte list \<Rightarrow> str" where
  "utf8_decode [] = []"
| "utf8_decode (a # bs) =
    (if a < 0x80 then a # utf8_decode bs
     else if a < 0xE0 then
       (case bs of b # r \<Rightarrow> ((a - 0xC0) * 64 + (b - 0x80)) # utf8_decode r | _ \<Rightarrow> [])
     else if a < 0xF0 then
       (case bs of b # c # r \<Rightarrow>
          ((a - 0xE0) * 4096 + (b - 0x80) * 64 + (c - 0x80)) # utf8_decode r | _ \<Rightarrow> [])
     else
       (case bs of b # c # d # r \<Rightarrow>
          ((a - 0xF0) * 262144 + (b - 0x80) * 4096 + (c - 0x80) * 64 + (d - 0x80)) # utf8_decode r
        | _ \<Rightarrow> []))"

lemma utf8_decode_char:
  assumes "c < 0x110000"
  shows "utf8_decode (utf8_char c @ bs) = c # utf8_decode bs"
proof -
  have two: "c div 64 * 64 + c mod 64 = c" by simp
  have three: "c div 4096 * 4096 + c div 64 mod 64 * 64 + c mod 64 = c"
  proof -
    have "c div 4096 = c div 64 div 64" by (simp add: div_mult2_eq [symmetric])
    then have "c div 4096 * 64 + c div 64 mod 64 = c div 64" by simp
    then have "(c div 4096 * 64 + c div 64 mod 64) * 64 + c mod 64 = c" using two by simp
    then show ?thesis by (simp add: algebra_simps)
  qed
  have four: "c div 262144 * 262144 + c div 4096 mod 64 * 4096 + c div 64 mod 64 * 64 + c mod 64 = c"
  proof -
    have "c div 262144 = c div 4096 div 64" by (simp add: div_mult2_eq [symmetric])
    then have "c div 262144 * 64 + c div 4096 mod 64 = c div 4096" by simp
    then have "(c div 262144 * 64 + c div 4096 mod 64) * 4096 + c div 64 mod 64 * 64 + c mod 64 = c"
      using three by simp
    then show ?thesis by (simp add: algebra_simps)
  qed
  consider "c < 0x80" | "0x80 \<le> c" "c < 0x800" | "0x800 \<le> c" "c < 0x10000" | "0x10000 \<le> c"
    by linarith
  then show ?thesis
  proof cases
    case 1
    then show ?thesis by (simp add: utf8_char_def)
  next
    case 2
    then show ?thesis using two by (simp add: utf8_char_def div_less_iff_less_mult)
  next
    case 3
    then show ?thesis using three by (simp add: utf8_char_def div_less_iff_less_mult)
  next
    case 4
    then show ?thesis using four by (simp add: utf8_char_def)
  qed
qed

lemma utf8_decode_utf8: "valid_text s \<Longrightarrow> utf8_decode (utf8 s) = s"
  by (induction s) (auto simp: utf8_def valid_text_def is_scalar_def utf8_decode_char)

lemma utf8_inject: "valid_text s \<Longrightarrow> valid_text t \<Longrightarrow> utf8 s = utf8 t \<longleftrightarrow> s = t"
  by (metis utf8_decode_utf8)

lemma utf8_Nil [simp]: "utf8 [] = []" by (simp add: utf8_def)
lemma utf8_Cons [simp]: "utf8 (c # s) = utf8_char c @ utf8 s" by (simp add: utf8_def)
lemma utf8_append [simp]: "utf8 (s @ t) = utf8 s @ utf8 t" by (simp add: utf8_def)

lemma is_scalar_le: "is_scalar c \<Longrightarrow> c < 0x110000"
  by (auto simp: is_scalar_def)

lemma utf8_char_bytes: "c < 0x110000 \<Longrightarrow> b \<in> set (utf8_char c) \<Longrightarrow> b < 256"
proof -
  have m: "0x80 + x mod 64 < 256" for x :: nat
  proof -
    have "x mod 64 < 64" by simp
    then show ?thesis by linarith
  qed
  assume c: "c < 0x110000" and b: "b \<in> set (utf8_char c)"
  have "c div 64 < 32" if "c < 0x800" using that by (simp add: div_less_iff_less_mult)
  moreover have "c div 4096 < 16" if "c < 0x10000" using that by (simp add: div_less_iff_less_mult)
  moreover have "c div 262144 < 5" using c by (simp add: div_less_iff_less_mult)
  ultimately show "b < 256"
    using b m by (auto simp: utf8_char_def split: if_splits)
qed

lemma utf8_bytes: "valid_text s \<Longrightarrow> b \<in> set (utf8 s) \<Longrightarrow> b < 256"
  by (induction s) (auto simp: valid_text_def dest: utf8_char_bytes [OF is_scalar_le])

lemma utf8_char_length: "1 \<le> length (utf8_char c) \<and> length (utf8_char c) \<le> 4"
  by (simp add: utf8_char_def)

lemma length_le_byte_len: "length s \<le> byte_len s"
proof (induction s)
  case (Cons c s)
  then show ?case using utf8_char_length [of c] by (simp add: byte_len_def)
qed (simp add: byte_len_def)

lemma byte_len_ascii: "\<forall>c\<in>set s. c < 128 \<Longrightarrow> byte_len s = length s"
  by (induction s) (simp_all add: byte_len_def utf8_char_def)

section \<open>Trimming, splitting, prefixes\<close>

definition trim_by :: "(nat \<Rightarrow> bool) \<Rightarrow> str \<Rightarrow> str" where
  "trim_by p s = rev (dropWhile p (rev (dropWhile p s)))"

abbreviation trim :: "str \<Rightarrow> str" where
  "trim \<equiv> trim_by is_whitespace"

definition trim_char :: "nat \<Rightarrow> str \<Rightarrow> str" where
  "trim_char c = trim_by (\<lambda>x. x = c)"

lemma dropWhile_length_eq:
  assumes "length (dropWhile p s) = length s" shows "dropWhile p s = s"
proof (cases s)
  case (Cons c r)
  then show ?thesis using assms length_dropWhile_le [of p r] by (auto split: if_splits)
qed simp

lemma trim_by_length: "length (trim_by p s) \<le> length s"
  using length_dropWhile_le [of p "rev (dropWhile p s)"] length_dropWhile_le [of p s]
  by (simp add: trim_by_def)

lemma trim_by_length_eq:
  assumes "length (trim_by p s) = length s" shows "trim_by p s = s"
proof -
  let ?d = "dropWhile p s"
  have len: "length (dropWhile p (rev ?d)) = length s" using assms by (simp add: trim_by_def)
  have "length (dropWhile p (rev ?d)) \<le> length ?d" "length ?d \<le> length s"
    using length_dropWhile_le [of p "rev ?d"] length_dropWhile_le [of p s] by simp_all
  then have d: "?d = s" using len dropWhile_length_eq [of p s] by simp
  then have "length (dropWhile p (rev s)) = length (rev s)" using len by simp
  then have "dropWhile p (rev s) = rev s" by (rule dropWhile_length_eq)
  with d show ?thesis by (simp add: trim_by_def)
qed

lemma trim_by_fixed_iff:
  "trim_by p s = s \<longleftrightarrow> (s = [] \<or> \<not> p (hd s) \<and> \<not> p (last s))"
proof (cases s)
  case (Cons c r)
  show ?thesis
  proof
    assume fixed: "trim_by p s = s"
    have "\<not> p c"
    proof
      assume "p c"
      then have "length (dropWhile p s) \<le> length r" using Cons length_dropWhile_le [of p r] by simp
      moreover have "length (trim_by p s) \<le> length (dropWhile p s)"
        using length_dropWhile_le [of p "rev (dropWhile p s)"] by (simp add: trim_by_def)
      ultimately show False using fixed Cons by simp
    qed
    then have d: "dropWhile p s = s" using Cons by simp
    have "rev (dropWhile p (rev s)) = s" using fixed d by (simp add: trim_by_def)
    then have "dropWhile p (rev s) = rev s" by (metis rev_rev_ident)
    moreover have "rev s \<noteq> []" using Cons by simp
    ultimately have "\<not> p (hd (rev s))" by (metis hd_dropWhile)
    then have "\<not> p (last s)" by (simp only: hd_rev not_False_eq_True)
    moreover have "\<not> p (hd s)" using \<open>\<not> p c\<close> Cons by simp
    ultimately show "s = [] \<or> \<not> p (hd s) \<and> \<not> p (last s)" by blast
  next
    assume "s = [] \<or> \<not> p (hd s) \<and> \<not> p (last s)"
    then have h: "\<not> p c" and l: "\<not> p (last s)" using Cons by auto
    have "dropWhile p s = s" using h Cons by simp
    moreover have "\<not> p (hd (rev s))" using l by (simp only: hd_rev not_False_eq_True)
    then have "dropWhile p (rev s) = rev s" by (cases "rev s") simp_all
    ultimately show "trim_by p s = s" by (simp add: trim_by_def)
  qed
qed (simp add: trim_by_def)

lemma set_trim_by: "set (trim_by p s) \<subseteq> set s"
proof
  fix x assume "x \<in> set (trim_by p s)"
  then have "x \<in> set (dropWhile p (rev (dropWhile p s)))" by (simp add: trim_by_def)
  then have "x \<in> set (dropWhile p s)" by (metis set_dropWhileD set_rev)
  then show "x \<in> set s" by (metis set_dropWhileD)
qed

lemma trim_by_idem [simp]: "trim_by p (trim_by p s) = trim_by p s"
proof -
  let ?d = "dropWhile p s"
  let ?t = "rev (dropWhile p (rev ?d))"
  have "?t = [] \<or> \<not> p (hd ?t) \<and> \<not> p (last ?t)"
  proof (cases "?t = []")
    case False
    then have ne: "dropWhile p (rev ?d) \<noteq> []" by simp
    then have l: "\<not> p (last ?t)" by (simp add: last_rev hd_dropWhile)
    have "rev ?d = takeWhile p (rev ?d) @ dropWhile p (rev ?d)" by simp
    then have "?d = ?t @ rev (takeWhile p (rev ?d))" by (metis rev_append rev_rev_ident)
    then have "hd ?d = hd ?t" using False by (metis hd_append2)
    moreover have "?d \<noteq> []" using ne by (metis dropWhile.simps(1) rev.simps(1))
    ultimately show ?thesis using l by (metis hd_dropWhile)
  qed simp
  then show ?thesis using trim_by_fixed_iff [of p ?t] by (simp add: trim_by_def)
qed

text \<open>A trim is the unique way to cut matching characters off both ends.\<close>

definition clean_ends :: "(nat \<Rightarrow> bool) \<Rightarrow> str \<Rightarrow> bool" where
  "clean_ends p s \<longleftrightarrow> s = [] \<or> \<not> p (hd s) \<and> \<not> p (last s)"

lemma clean_ends_trim [simp]: "clean_ends p (trim_by p s)"
  using trim_by_fixed_iff [of p "trim_by p s"] by (simp add: clean_ends_def)

lemma trim_by_split: "\<exists>a b. s = a @ trim_by p s @ b \<and> (\<forall>c\<in>set a. p c) \<and> (\<forall>c\<in>set b. p c)"
proof -
  let ?d = "dropWhile p s"
  have "?d = rev (takeWhile p (rev ?d) @ dropWhile p (rev ?d))" by simp
  then have "?d = trim_by p s @ rev (takeWhile p (rev ?d))"
    unfolding trim_by_def by (simp only: rev_append)
  then have "s = takeWhile p s @ trim_by p s @ rev (takeWhile p (rev ?d))"
    by (metis takeWhile_dropWhile_id)
  moreover have "\<forall>c\<in>set (takeWhile p s). p c" "\<forall>c\<in>set (rev (takeWhile p (rev ?d))). p c"
    by (auto dest: set_takeWhileD)
  ultimately show ?thesis by blast
qed

lemma trim_by_cut:
  assumes "\<forall>c\<in>set a. p c" "\<forall>c\<in>set b. p c" "clean_ends p t"
  shows "trim_by p (a @ t @ b) = t"
proof (cases "t = []")
  case True
  have "dropWhile p (a @ b) = []" using assms by (metis Un_iff dropWhile_eq_Nil_conv set_append)
  then show ?thesis unfolding trim_by_def True append_Nil
    by (simp only: dropWhile.simps rev.simps)
next
  case False
  then have "dropWhile p (a @ t @ b) = t @ b"
    using assms by (cases t) (auto simp: dropWhile_append2 clean_ends_def)
  moreover have "dropWhile p (rev (t @ b)) = dropWhile p (rev t)"
    using assms(2) dropWhile_append2 [of "rev b" p "rev t"] by simp
  moreover have "\<not> p (hd (rev t))" using assms(3) False unfolding clean_ends_def hd_rev by blast
  then have "dropWhile p (rev t) = rev t" by (cases "rev t") simp_all
  ultimately show ?thesis by (simp add: trim_by_def)
qed

lemma trim_by_weaker:
  assumes "\<And>c. p c \<Longrightarrow> q c" shows "trim_by q (trim_by p s) = trim_by q s"
proof -
  obtain a b where s: "s = a @ trim_by p s @ b" "\<forall>c\<in>set a. p c" "\<forall>c\<in>set b. p c"
    using trim_by_split by blast
  obtain c d where t: "trim_by p s = c @ trim_by q (trim_by p s) @ d"
    "\<forall>x\<in>set c. q x" "\<forall>x\<in>set d. q x"
    using trim_by_split by blast
  have "s = a @ (c @ trim_by q (trim_by p s) @ d) @ b"
    by (subst t(1) [symmetric]) (rule s(1))
  then have "s = (a @ c) @ trim_by q (trim_by p s) @ (d @ b)" by simp
  then have "trim_by q s = trim_by q ((a @ c) @ trim_by q (trim_by p s) @ (d @ b))" by simp
  also have "\<dots> = trim_by q (trim_by p s)"
    using assms s t by (intro trim_by_cut) auto
  finally show ?thesis by simp
qed

text \<open>\<^verbatim>\<open>split_once\<close>: the parts before and after the first occurrence.\<close>

fun split_once :: "nat \<Rightarrow> str \<Rightarrow> (str \<times> str) option" where
  "split_once d [] = None"
| "split_once d (c # s) =
    (if c = d then Some ([], s)
     else map_option (\<lambda>(l, r). (c # l, r)) (split_once d s))"

lemma split_once_SomeD: "split_once d s = Some (l, r) \<Longrightarrow> s = l @ d # r \<and> d \<notin> set l"
  by (induction s arbitrary: l) (auto split: if_splits)

lemma split_once_None: "split_once d s = None \<longleftrightarrow> d \<notin> set s"
  by (induction s) auto

lemma split_once_append: "d \<notin> set l \<Longrightarrow> split_once d (l @ d # r) = Some (l, r)"
  by (induction l) auto

fun strip_prefix :: "str \<Rightarrow> str \<Rightarrow> str option" where
  "strip_prefix [] s = Some s"
| "strip_prefix (p # ps) [] = None"
| "strip_prefix (p # ps) (c # s) = (if p = c then strip_prefix ps s else None)"

lemma strip_prefix_Some [simp]: "strip_prefix p s = Some r \<longleftrightarrow> s = p @ r"
  by (induction p s rule: strip_prefix.induct) auto

lemma strip_prefix_append [simp]: "strip_prefix p (p @ r) = Some r"
  by simp

lemma strip_prefix_None: "strip_prefix p s = None \<longleftrightarrow> (\<nexists>r. s = p @ r)"
  by (metis not_None_eq strip_prefix_Some)

text \<open>\<^verbatim>\<open>str::contains\<close>.\<close>

fun contains :: "str \<Rightarrow> str \<Rightarrow> bool" where
  "contains p [] = (p = [])"
| "contains p (c # s) = (strip_prefix p (c # s) \<noteq> None \<or> contains p s)"

text \<open>\<^verbatim>\<open>split(d)\<close>, which keeps empty pieces, and \<^verbatim>\<open>split_whitespace\<close>, which does not.\<close>

fun split_on :: "(nat \<Rightarrow> bool) \<Rightarrow> str \<Rightarrow> str list" where
  "split_on p [] = [[]]"
| "split_on p (c # s) =
    (if p c then [] # split_on p s
     else (case split_on p s of w # ws \<Rightarrow> (c # w) # ws | [] \<Rightarrow> [[c]]))"

definition split_whitespace :: "str \<Rightarrow> str list" where
  "split_whitespace s = filter (\<lambda>w. w \<noteq> []) (split_on is_whitespace s)"

fun join :: "str \<Rightarrow> str list \<Rightarrow> str" where
  "join d [] = []"
| "join d [w] = w"
| "join d (w # v # ws) = w @ d @ join d (v # ws)"

lemma split_on_not_Nil [simp]: "split_on p s \<noteq> []"
  by (induction s) (auto split: list.splits)

lemma split_on_clean: "w \<in> set (split_on p s) \<Longrightarrow> c \<in> set w \<Longrightarrow> \<not> p c"
  by (induction s arbitrary: w c) (fastforce split: if_splits list.splits)+

lemma split_on_word: "\<forall>c\<in>set w. \<not> p c \<Longrightarrow> split_on p w = [w]"
  by (induction w) auto

lemma split_on_append_sep:
  "\<forall>c\<in>set w. \<not> p c \<Longrightarrow> p d \<Longrightarrow> split_on p (w @ d # s) = w # split_on p s"
  by (induction w) auto

lemma split_on_join:
  assumes "p d" "ws \<noteq> []" "\<forall>w\<in>set ws. \<forall>c\<in>set w. \<not> p c"
  shows "split_on p (join [d] ws) = ws"
  using assms(2,3)
proof (induction "[d]" ws rule: join.induct)
  case (3 w v ws)
  then show ?case using assms(1) by (simp add: split_on_append_sep)
qed (simp_all add: split_on_word)

lemma split_whitespace_clean:
  "w \<in> set (split_whitespace s) \<Longrightarrow> w \<noteq> [] \<and> (\<forall>c\<in>set w. \<not> is_whitespace c)"
  by (auto simp: split_whitespace_def dest: split_on_clean)

lemma split_whitespace_join:
  assumes "\<forall>w\<in>set ws. w \<noteq> [] \<and> (\<forall>c\<in>set w. \<not> is_whitespace c)"
  shows "split_whitespace (join [32] ws) = ws"
proof (cases "ws = []")
  case False
  have "split_on is_whitespace (join [32] ws) = ws"
    using assms False by (intro split_on_join) (auto simp: is_whitespace_def)
  moreover have "filter (\<lambda>w. w \<noteq> []) ws = ws" using assms by (simp add: filter_id_conv)
  ultimately show ?thesis by (simp add: split_whitespace_def)
qed (simp add: split_whitespace_def)

section \<open>Decimal numbers\<close>

text \<open>\<^verbatim>\<open>to_string\<close> and \<^verbatim>\<open>{}\<close> on integers.\<close>

fun dec :: "nat \<Rightarrow> str" where
  "dec n = (if n < 10 then [48 + n] else dec (n div 10) @ [48 + n mod 10])"

declare dec.simps [simp del]

definition dec_int :: "int \<Rightarrow> str" where
  "dec_int i = (if i < 0 then 45 # dec (nat (- i)) else dec (nat i))"

lemma dec_digits: "c \<in> set (dec n) \<Longrightarrow> is_ascii_digit c"
proof (induction n rule: dec.induct)
  case (1 n)
  show ?case
  proof (cases "n < 10")
    case False
    then have "c \<in> set (dec (n div 10)) \<or> c = 48 + n mod 10"
      using 1(2) by (subst (asm) dec.simps) auto
    then show ?thesis using 1(1) False by (auto simp: is_ascii_digit_def)
  qed (use 1(2) in \<open>simp add: dec.simps [of n] is_ascii_digit_def\<close>)
qed

primrec undec :: "str \<Rightarrow> nat \<Rightarrow> nat" where
  "undec [] n = n"
| "undec (c # s) n = undec s (n * 10 + (c - 48))"

lemma undec_append: "undec (s @ t) n = undec t (undec s n)"
  by (induction s arbitrary: n) simp_all

lemma undec_dec: "undec (dec n) 0 = n"
proof (induction n rule: dec.induct)
  case (1 n)
  then show ?case by (subst dec.simps) (auto simp: undec_append)
qed

lemma dec_inject [simp]: "dec m = dec n \<longleftrightarrow> m = n"
  by (metis undec_dec)

lemma dec_not_Nil [simp]: "dec n \<noteq> []"
  by (subst dec.simps) simp

lemma dec_int_inject [simp]: "dec_int i = dec_int j \<longleftrightarrow> i = j"
proof -
  have "45 \<notin> set (dec n)" for n using dec_digits [of 45 n] by (auto simp: is_ascii_digit_def)
  then have "dec m \<noteq> 45 # dec n" "45 # dec n \<noteq> dec m" for m n by (metis list.set_intros(1))+
  then show ?thesis by (auto simp: dec_int_def)
qed

end
