(* ===== verification/Json.thy ===== *)
theory Json
  imports Strings
begin

text \<open>
  The JSON values the program builds and reads (\<^verbatim>\<open>serde_json::Value\<close>, with integers as its
  numbers).  An object is kept in key order, as \<^verbatim>\<open>serde_json::Map\<close> does without its
  \<^verbatim>\<open>preserve_order\<close> feature, and \<open>obj_insert\<close> is \<^verbatim>\<open>Map::insert\<close>.
\<close>

datatype json =
    JNull
  | JBool bool
  | JNum int
  | JStr str
  | JArr "json list"
  | JObj "(str \<times> json) list"

text \<open>The byte-wise order of Rust strings, on code points (UTF-8 preserves it).\<close>

fun str_less :: "str \<Rightarrow> str \<Rightarrow> bool" where
  "str_less _ [] = False"
| "str_less [] (_ # _) = True"
| "str_less (a # s) (b # t) = (a < b \<or> (a = b \<and> str_less s t))"

lemma str_less_irrefl [simp]: "\<not> str_less s s"
  by (induction s) auto

lemma str_less_trans: "str_less s t \<Longrightarrow> str_less t u \<Longrightarrow> str_less s u"
proof (induction s t arbitrary: u rule: str_less.induct)
  case (3 a s b t)
  then show ?case by (cases u) auto
qed (auto elim: str_less.elims)

lemma str_less_linear: "s \<noteq> t \<Longrightarrow> str_less s t \<or> str_less t s"
proof (induction s t rule: str_less.induct)
  case (1 s)
  then show ?case by (cases s) auto
qed auto

lemma str_less_asym: "str_less s t \<Longrightarrow> \<not> str_less t s"
  using str_less_trans str_less_irrefl by blast

fun obj_insert :: "str \<Rightarrow> 'v \<Rightarrow> (str \<times> 'v) list \<Rightarrow> (str \<times> 'v) list" where
  "obj_insert k v [] = [(k, v)]"
| "obj_insert k v ((k', v') # m) =
    (if k = k' then (k, v) # m
     else if str_less k k' then (k, v) # (k', v') # m
     else (k', v') # obj_insert k v m)"

lemma map_of_obj_insert [simp]: "map_of (obj_insert k v m) = (map_of m)(k \<mapsto> v)"
  by (induction k v m rule: obj_insert.induct) (auto simp: fun_eq_iff)

lemma keys_obj_insert: "fst ` set (obj_insert k v m) = insert k (fst ` set m)"
  by (induction k v m rule: obj_insert.induct) auto

fun ordered_keys :: "(str \<times> 'v) list \<Rightarrow> bool" where
  "ordered_keys [] = True"
| "ordered_keys ((k, v) # m) = ((\<forall>k'\<in>fst ` set m. str_less k k') \<and> ordered_keys m)"

lemma ordered_keys_insert: "ordered_keys m \<Longrightarrow> ordered_keys (obj_insert k v m)"
proof (induction k v m rule: obj_insert.induct)
  case (2 k v k' v' m)
  show ?case
  proof (cases "k = k'")
    case False
    show ?thesis
    proof (cases "str_less k k'")
      case True
      then show ?thesis using 2(2) False by (auto intro: str_less_trans)
    next
      case less: False
      then have "str_less k' k" using False str_less_linear by blast
      then show ?thesis using 2 False less by (simp add: keys_obj_insert)
    qed
  qed (use 2(2) in auto)
qed simp

lemma ordered_keys_distinct: "ordered_keys m \<Longrightarrow> distinct (map fst m)"
proof (induction m rule: ordered_keys.induct)
  case (2 k v m)
  then have "k \<notin> fst ` set m" using str_less_irrefl [of k] by auto
  then show ?case using 2 by simp
qed simp

text \<open>Two objects with the same bindings in key order are the same list.\<close>

lemma ordered_keys_unique:
  assumes "ordered_keys m" "ordered_keys n" "map_of m = map_of n"
  shows "m = n"
  using assms
proof (induction m arbitrary: n)
  case Nil
  then show ?case by (metis map_of_eq_empty_iff)
next
  case (Cons p m)
  obtain k v where p: "p = (k, v)" by fastforce
  show ?case
  proof (cases n)
    case Nil
    then show ?thesis using Cons.prems(3) p by (auto simp: fun_eq_iff split: if_splits)
  next
    case (Cons q n')
    obtain k' v' where q: "q = (k', v')" by fastforce
    have doms: "insert k (fst ` set m) = insert k' (fst ` set n')"
      using arg_cong [OF Cons.prems(3), of dom] p q \<open>n = q # n'\<close>
      dom_map_of_conv_image_fst [of "p # m"] dom_map_of_conv_image_fst [of "q # n'"]
    by (simp del: map_of.simps)
    have kk: "k = k'"
    proof (rule ccontr)
      assume ne: "k \<noteq> k'"
      then have "k \<in> fst ` set n'" "k' \<in> fst ` set m" using doms by auto
      then have "str_less k' k" "str_less k k'"
        using Cons.prems(1,2) p q \<open>n = q # n'\<close> by auto
      then show False using str_less_asym by blast
    qed
    have km: "k \<notin> fst ` set m" "k \<notin> fst ` set n'"
      using Cons.prems(1,2) p q kk \<open>n = q # n'\<close> by auto
    have "v = v'" using fun_cong [OF Cons.prems(3), of k] p q kk \<open>n = q # n'\<close> by simp
    have "map_of m x = map_of n' x" for x
    proof (cases "x = k")
      case True
      then show ?thesis using km by (metis map_of_eq_None_iff)
    next
      case False
      then show ?thesis using fun_cong [OF Cons.prems(3), of x] p q kk \<open>n = q # n'\<close> by simp
    qed
    then have "m = n'" using Cons.IH [of n'] Cons.prems(1,2) p q \<open>n = q # n'\<close> by auto
    then show ?thesis using p q kk \<open>v = v'\<close> \<open>n = q # n'\<close> by simp
  qed
qed

text \<open>\<^verbatim>\<open>Value::get\<close>, \<^verbatim>\<open>as_str\<close>, \<^verbatim>\<open>as_i64\<close>, \<^verbatim>\<open>is_null\<close>.\<close>

fun json_get :: "json \<Rightarrow> str \<Rightarrow> json option" where
  "json_get (JObj m) k = map_of m k"
| "json_get _ k = None"

fun as_str :: "json \<Rightarrow> str option" where
  "as_str (JStr s) = Some s"
| "as_str _ = None"

fun as_num :: "json \<Rightarrow> int option" where
  "as_num (JNum n) = Some n"
| "as_num _ = None"

abbreviation is_null :: "json \<Rightarrow> bool" where
  "is_null v \<equiv> v = JNull"

definition json_opt_num :: "int option \<Rightarrow> json" where
  "json_opt_num x = (case x of None \<Rightarrow> JNull | Some n \<Rightarrow> JNum n)"

definition json_opt_str :: "str option \<Rightarrow> json" where
  "json_opt_str x = (case x of None \<Rightarrow> JNull | Some s \<Rightarrow> JStr s)"

end
