(* ===== verification/Errors.thy ===== *)
theory Errors
  imports Json
begin

text \<open>
  \<^verbatim>\<open>src/error.rs\<close>: the error type of every handler, its machine-readable code, its HTTP status,
  the message shown to a client, and the response body \<^verbatim>\<open>IntoResponse\<close> builds from them.
\<close>

datatype auth_error =
    DatabaseError str
  | InvalidCredentials
  | EmailNotVerified
  | TokenError str
  | UserNotFound
  | EmailExists
  | UsernameExists
  | InvalidToken
  | ServerError str
  | OAuthError str
  | PasswordAlreadySet
  | InvalidUserId
  | NotFound str
  | ValidationError str
  | PermissionDenied
  | InsufficientPermissions
  | MissingPermission str
  | AccountSuspended
  | AccountInactive
  | AccountDeleted
  | Forbidden str
  | BadRequest str
  | NotConfigured str
  | Unauthorized str
  | AccountLocked str "int option"
  | ServiceUnavailable str

type_synonym ('s, 'a) handler = "('s, auth_error, 'a) op"

definition error_code :: "auth_error \<Rightarrow> str" where
  "error_code e = lit (case e of
      DatabaseError _ \<Rightarrow> ''internal_error''
    | ServerError _ \<Rightarrow> ''internal_error''
    | InvalidCredentials \<Rightarrow> ''invalid_credentials''
    | EmailNotVerified \<Rightarrow> ''email_not_verified''
    | TokenError _ \<Rightarrow> ''invalid_token''
    | InvalidToken \<Rightarrow> ''invalid_token''
    | UserNotFound \<Rightarrow> ''user_not_found''
    | EmailExists \<Rightarrow> ''email_exists''
    | UsernameExists \<Rightarrow> ''username_exists''
    | OAuthError _ \<Rightarrow> ''oauth_error''
    | PasswordAlreadySet \<Rightarrow> ''password_already_set''
    | InvalidUserId \<Rightarrow> ''invalid_user_id''
    | NotFound _ \<Rightarrow> ''not_found''
    | ValidationError _ \<Rightarrow> ''validation_error''
    | PermissionDenied \<Rightarrow> ''permission_denied''
    | InsufficientPermissions \<Rightarrow> ''insufficient_permissions''
    | MissingPermission _ \<Rightarrow> ''missing_permission''
    | AccountSuspended \<Rightarrow> ''account_suspended''
    | AccountInactive \<Rightarrow> ''account_inactive''
    | AccountDeleted \<Rightarrow> ''account_deleted''
    | Forbidden _ \<Rightarrow> ''forbidden''
    | BadRequest _ \<Rightarrow> ''bad_request''
    | NotConfigured _ \<Rightarrow> ''not_configured''
    | Unauthorized _ \<Rightarrow> ''unauthorized''
    | AccountLocked _ _ \<Rightarrow> ''account_locked''
    | ServiceUnavailable _ \<Rightarrow> ''service_unavailable'')"

definition error_status :: "auth_error \<Rightarrow> nat" where
  "error_status e = (case e of
      DatabaseError _ \<Rightarrow> 500
    | ServerError _ \<Rightarrow> 500
    | InvalidCredentials \<Rightarrow> 401
    | TokenError _ \<Rightarrow> 401
    | InvalidToken \<Rightarrow> 401
    | Unauthorized _ \<Rightarrow> 401
    | EmailNotVerified \<Rightarrow> 403
    | PermissionDenied \<Rightarrow> 403
    | InsufficientPermissions \<Rightarrow> 403
    | MissingPermission _ \<Rightarrow> 403
    | AccountSuspended \<Rightarrow> 403
    | AccountInactive \<Rightarrow> 403
    | AccountDeleted \<Rightarrow> 403
    | Forbidden _ \<Rightarrow> 403
    | UserNotFound \<Rightarrow> 404
    | NotFound _ \<Rightarrow> 404
    | EmailExists \<Rightarrow> 409
    | UsernameExists \<Rightarrow> 409
    | PasswordAlreadySet \<Rightarrow> 409
    | OAuthError _ \<Rightarrow> 400
    | InvalidUserId \<Rightarrow> 400
    | ValidationError _ \<Rightarrow> 400
    | BadRequest _ \<Rightarrow> 400
    | NotConfigured _ \<Rightarrow> 501
    | AccountLocked _ _ \<Rightarrow> 429
    | ServiceUnavailable _ \<Rightarrow> 503)"

text \<open>The \<^verbatim>\<open>#[error("..")]\<close> attributes: the text of \<^verbatim>\<open>to_string()\<close>.\<close>

definition display :: "auth_error \<Rightarrow> str" where
  "display e = (case e of
      DatabaseError m \<Rightarrow> lit ''Database error: '' @ m
    | InvalidCredentials \<Rightarrow> lit ''Invalid credentials''
    | EmailNotVerified \<Rightarrow> lit ''Email not verified''
    | TokenError m \<Rightarrow> lit ''Token error: '' @ m
    | UserNotFound \<Rightarrow> lit ''User not found''
    | EmailExists \<Rightarrow> lit ''Email already exists''
    | UsernameExists \<Rightarrow> lit ''Username already exists''
    | InvalidToken \<Rightarrow> lit ''Invalid token''
    | ServerError m \<Rightarrow> lit ''Server error: '' @ m
    | OAuthError m \<Rightarrow> lit ''OAuth error: '' @ m
    | PasswordAlreadySet \<Rightarrow> lit ''Password already set''
    | InvalidUserId \<Rightarrow> lit ''Invalid user ID''
    | NotFound m \<Rightarrow> lit ''Not found: '' @ m
    | ValidationError m \<Rightarrow> lit ''Validation error: '' @ m
    | PermissionDenied \<Rightarrow> lit ''Permission denied''
    | InsufficientPermissions \<Rightarrow> lit ''Insufficient permissions''
    | MissingPermission p \<Rightarrow> lit ''Missing permission: '' @ p
    | AccountSuspended \<Rightarrow> lit ''Account suspended''
    | AccountInactive \<Rightarrow> lit ''Account inactive''
    | AccountDeleted \<Rightarrow> lit ''Account deleted''
    | Forbidden m \<Rightarrow> lit ''Forbidden: '' @ m
    | BadRequest m \<Rightarrow> lit ''Bad request: '' @ m
    | NotConfigured m \<Rightarrow> lit ''Not configured: '' @ m
    | Unauthorized m \<Rightarrow> lit ''Unauthorized: '' @ m
    | AccountLocked m _ \<Rightarrow> m
    | ServiceUnavailable m \<Rightarrow> lit ''Service unavailable: '' @ m)"

definition error_message :: "auth_error \<Rightarrow> str" where
  "error_message e = (case e of
      DatabaseError _ \<Rightarrow> lit ''Internal server error''
    | ServerError _ \<Rightarrow> lit ''Internal server error''
    | NotFound m \<Rightarrow> m
    | ValidationError m \<Rightarrow> m
    | Forbidden m \<Rightarrow> m
    | BadRequest m \<Rightarrow> m
    | NotConfigured m \<Rightarrow> m
    | Unauthorized m \<Rightarrow> m
    | ServiceUnavailable m \<Rightarrow> m
    | AccountLocked m _ \<Rightarrow> m
    | other \<Rightarrow> display other)"

definition error_details :: "auth_error \<Rightarrow> (str \<times> json) list" where
  "error_details e = (case e of
      MissingPermission p \<Rightarrow> [(lit ''required_permission'', JStr p)]
    | AccountLocked _ t \<Rightarrow> [(lit ''locked_until_seconds'', json_opt_num t)]
    | _ \<Rightarrow> [])"

definition error_body :: "auth_error \<Rightarrow> (str \<times> json) list" where
  "error_body e = fold (\<lambda>(k, v) b. obj_insert k v b) (error_details e)
    (obj_insert (lit ''message'') (JStr (error_message e))
      (obj_insert (lit ''error'') (JStr (error_code e)) []))"

definition into_response :: "auth_error \<Rightarrow> nat \<times> json" where
  "into_response e = (error_status e, JObj (error_body e))"

section \<open>Properties of the error contract\<close>

lemma status_is_error: "400 \<le> error_status e \<and> error_status e < 600"
  by (cases e) (simp_all add: error_status_def)

lemma error_body_fields:
  "map_of (error_body e) (lit ''error'') = Some (JStr (error_code e))"
  "map_of (error_body e) (lit ''message'') = Some (JStr (error_message e))"
  by (cases e; simp add: error_body_def error_details_def)+

lemma error_body_extra:
  "fst ` set (error_body e) = {lit ''error'', lit ''message''} \<union> fst ` set (error_details e)"
  by (cases e) (auto simp: error_body_def error_details_def keys_obj_insert)

text \<open>The code determines the status: what a client branches on is consistent.\<close>

lemma status_by_code:
  "error_status e =
    (if error_code e = lit ''internal_error'' then 500
     else if error_code e \<in> lit ` {''invalid_credentials'', ''invalid_token'', ''unauthorized''} then 401
     else if error_code e \<in> lit ` {''user_not_found'', ''not_found''} then 404
     else if error_code e \<in> lit ` {''email_exists'', ''username_exists'', ''password_already_set''} then 409
     else if error_code e \<in> lit ` {''oauth_error'', ''invalid_user_id'', ''validation_error'', ''bad_request''}
       then 400
     else if error_code e = lit ''not_configured'' then 501
     else if error_code e = lit ''account_locked'' then 429
     else if error_code e = lit ''service_unavailable'' then 503
     else 403)"
  by (cases e) (simp_all add: error_code_def error_status_def)

lemma code_determines_status: "error_code e = error_code f \<Longrightarrow> error_status e = error_status f"
  by (simp only: status_by_code)

lemma internal_error_hides: "error_status e = 500 \<Longrightarrow>
  error_body e = [(lit ''error'', JStr (lit ''internal_error'')),
    (lit ''message'', JStr (lit ''Internal server error''))]"
  by (cases e) (simp_all add: error_status_def error_body_def error_message_def error_code_def error_details_def lit_def)

lemma details_iff:
  "error_details e \<noteq> [] \<longleftrightarrow> (\<exists>p. e = MissingPermission p) \<or> (\<exists>m t. e = AccountLocked m t)"
  by (cases e) (simp_all add: error_details_def)

section \<open>Statements that can fail\<close>

text \<open>
  Every statement goes to the database under a label.  \<open>F label i\<close> is the error the database
  answers to the \<open>i\<close>-th attempt of the statement \<open>label\<close>, \<open>None\<close> when it executes; the statement has
  its effect only in the second case.
\<close>

type_synonym faults = "str \<Rightarrow> nat \<Rightarrow> auth_error option"

definition no_faults :: faults where
  "no_faults = (\<lambda>_ _. None)"

definition database_up :: "faults \<Rightarrow> string \<Rightarrow> ('s, unit) handler" where
  "database_up F label s = (case F (lit label) 0 of None \<Rightarrow> (Inr (), s) | Some e \<Rightarrow> (Inl e, s))"

definition db_read :: "faults \<Rightarrow> string \<Rightarrow> ('s \<Rightarrow> 'a) \<Rightarrow> ('s, 'a) handler" where
  "db_read F label g = seq (database_up F label) (reads g)"

definition db_write :: "faults \<Rightarrow> string \<Rightarrow> ('s \<Rightarrow> 's) \<Rightarrow> ('s, unit) handler" where
  "db_write F label f = seq (database_up F label) (writes f)"

text \<open>A statement that returns rows and changes the table: an atomic test-and-set.\<close>

definition db_exec :: "faults \<Rightarrow> string \<Rightarrow> ('s \<Rightarrow> 'a \<times> 's) \<Rightarrow> ('s, 'a) handler" where
  "db_exec F label f =
    seq (database_up F label) (\<lambda>s. let (a, t) = f s in (Inr a, t))"

lemma database_up_success [op_success]: "database_up F l s = (Inr u, t) \<longleftrightarrow> F (lit l) 0 = None \<and> t = s"
  by (auto simp: database_up_def split: option.splits)

lemma database_up_failure [op_failure]:
  "database_up F l s = (Inl e, t) \<longleftrightarrow> F (lit l) 0 = Some e \<and> t = s"
  by (auto simp: database_up_def split: option.splits)

lemma db_read_success [op_success]:
  "db_read F l g s = (Inr a, t) \<longleftrightarrow> F (lit l) 0 = None \<and> a = g s \<and> t = s"
  by (auto simp: db_read_def op_success)

lemma db_write_success [op_success]:
  "db_write F l f s = (Inr u, t) \<longleftrightarrow> F (lit l) 0 = None \<and> t = f s"
  by (auto simp: db_write_def op_success)

lemma db_exec_success [op_success]:
  "db_exec F l f s = (Inr a, t) \<longleftrightarrow> F (lit l) 0 = None \<and> (a, t) = f s"
  by (auto simp: db_exec_def op_success split: prod.splits)

lemma db_read_failure [op_failure]:
  "db_read F l g s = (Inl e, t) \<longleftrightarrow> F (lit l) 0 = Some e \<and> t = s"
  by (auto simp: db_read_def op_failure op_success)

lemma db_write_failure [op_failure]:
  "db_write F l f s = (Inl e, t) \<longleftrightarrow> F (lit l) 0 = Some e \<and> t = s"
  by (auto simp: db_write_def op_failure op_success)

lemma db_exec_failure [op_failure]:
  "db_exec F l f s = (Inl e, t) \<longleftrightarrow> F (lit l) 0 = Some e \<and> t = s"
  by (auto simp: db_exec_def op_failure op_success split: prod.splits)

lemma preserves_database_up [preserve]: "preserves I (database_up F l)"
  by (simp add: preserves_def database_up_def split: option.split)

lemma preserves_db_read [preserve]: "preserves I (db_read F l g)"
  by (simp add: db_read_def preserves_seq preserves_database_up preserves_reads)

lemma preserves_db_write: "(\<And>s. I s \<Longrightarrow> I (f s)) \<Longrightarrow> preserves I (db_write F l f)"
  by (simp add: db_write_def preserves_seq preserves_database_up preserves_writes)

lemma preserves_db_exec: "(\<And>s. I s \<Longrightarrow> I (snd (f s))) \<Longrightarrow> preserves I (db_exec F l f)"
  unfolding db_exec_def
  by (intro preserves_seq preserves_database_up preservesI) (simp add: case_prod_unfold Let_def)

lemmas db_defs = database_up_def db_read_def db_write_def db_exec_def

lemma no_faults_simps [simp]:
  "no_faults k i = None"
  "database_up no_faults l s = (Inr (), s)"
  "db_read no_faults l g s = (Inr (g s), s)"
  "db_write no_faults l f s = (Inr (), f s)"
  "db_exec no_faults l x s = (Inr (fst (x s)), snd (x s))"
  by (simp_all add: no_faults_def db_defs op_defs case_prod_unfold Let_def)

text \<open>Retry on write conflicts, as the rate limiter and the lock-out counter do.\<close>

definition is_write_conflict :: "auth_error \<Rightarrow> bool" where
  "is_write_conflict e = contains (lit ''Transaction conflict'') (display e)"

function retry_attempts :: "nat \<Rightarrow> (nat \<Rightarrow> auth_error option) \<Rightarrow> nat \<Rightarrow> auth_error option" where
  "retry_attempts limit fault attempt =
    (case fault attempt of
       None \<Rightarrow> None
     | Some e \<Rightarrow>
         if is_write_conflict e \<and> attempt + 1 < limit
         then retry_attempts limit fault (attempt + 1)
         else Some e)"
  by pat_completeness auto
termination
  by (relation "measure (\<lambda>(limit, _, attempt). limit - attempt)") auto

declare retry_attempts.simps [simp del]

lemma retry_attempts_None_from:
  "retry_attempts limit fault a = None \<longleftrightarrow>
    (\<exists>n\<ge>a. n < max (a + 1) limit \<and> fault n = None \<and>
      (\<forall>i. a \<le> i \<longrightarrow> i < n \<longrightarrow> (\<exists>e. fault i = Some e \<and> is_write_conflict e)))"
proof (induction limit fault a rule: retry_attempts.induct)
  case (1 limit fault a)
  show ?case
  proof (cases "fault a")
    case None
    then show ?thesis by (subst retry_attempts.simps) (auto intro!: exI [of _ a])
  next
    case (Some e)
    show ?thesis
    proof (cases "is_write_conflict e \<and> a + 1 < limit")
      case True
      then have "retry_attempts limit fault a = None \<longleftrightarrow> retry_attempts limit fault (a + 1) = None"
        using Some by (subst retry_attempts.simps) simp
      also have "\<dots> \<longleftrightarrow> (\<exists>n\<ge>a + 1. n < limit \<and> fault n = None \<and>
          (\<forall>i. a + 1 \<le> i \<longrightarrow> i < n \<longrightarrow> (\<exists>e. fault i = Some e \<and> is_write_conflict e)))"
        using 1 [OF Some] True by (simp add: max_absorb2)
      also have "\<dots> \<longleftrightarrow> (\<exists>n\<ge>a. n < limit \<and> fault n = None \<and>
          (\<forall>i. a \<le> i \<longrightarrow> i < n \<longrightarrow> (\<exists>e. fault i = Some e \<and> is_write_conflict e)))"
      proof -
        have "(\<forall>i. a \<le> i \<longrightarrow> i < n \<longrightarrow> (\<exists>e. fault i = Some e \<and> is_write_conflict e)) \<longleftrightarrow>
            (\<forall>i. a + 1 \<le> i \<longrightarrow> i < n \<longrightarrow> (\<exists>e. fault i = Some e \<and> is_write_conflict e))" for n
          using Some True by (auto simp: Suc_le_eq dest!: le_imp_less_or_eq)
        moreover have "a \<le> n \<and> fault n = None \<longleftrightarrow> a + 1 \<le> n \<and> fault n = None" for n
          using Some by (auto simp: le_less Suc_le_eq)
        ultimately show ?thesis by blast
      qed
      finally show ?thesis using True by (simp add: max_absorb2)
    next
      case False
      then have "retry_attempts limit fault a = Some e" using Some by (subst retry_attempts.simps) auto
      moreover have "n = a \<or> \<not> is_write_conflict e"
        if "a \<le> n" "n < max (a + 1) limit" for n
        using that False by auto
      ultimately show ?thesis using Some by (metis le_neq_implies_less le_refl option.distinct(1)
        option.inject)
    qed
  qed
qed

text \<open>At most \<open>limit\<close> attempts are made, and only past write conflicts.\<close>

lemma retry_attempts_None:
  "0 < limit \<Longrightarrow> retry_attempts limit fault 0 = None \<longleftrightarrow>
    (\<exists>n<limit. fault n = None \<and> (\<forall>i<n. \<exists>e. fault i = Some e \<and> is_write_conflict e))"
  unfolding retry_attempts_None_from by (auto simp: max_def)

end
