(* ===== verification/Validation.thy ===== *)
theory Validation
  imports Errors
begin

text \<open>
  \<^verbatim>\<open>src/utils/validation.rs\<close> and \<^verbatim>\<open>src/utils/record_id.rs\<close>: the checks on e-mail addresses,
  passwords and user names, and the normalisation of record references.  The two normalisation
  loops are recursive functions with a termination proof; the delimiter loop is shown equal to a
  single trim, and the reference loops to strip exactly their own table's prefix.
\<close>

section \<open>E-mail, password and user name\<close>

abbreviation quoted :: "string \<Rightarrow> str" where
  "quoted s \<equiv> [39] @ lit s @ [39]"

definition validate_email :: "str \<Rightarrow> auth_error + str" where
  "validate_email input =
    (let email = trim input in
     if email = [] then Inl (ValidationError (lit ''Email is required''))
     else if 254 < byte_len email then Inl (ValidationError (lit ''Email is too long''))
     else if list_ex is_whitespace email
       then Inl (ValidationError (lit ''Email must not contain whitespace''))
     else if list_ex is_control email
       then Inl (ValidationError (lit ''Email must not contain control characters''))
     else (case split_once 64 email of
         None \<Rightarrow> Inl (ValidationError (lit ''Email must contain '' @ quoted ''@''))
       | Some (local, domain) \<Rightarrow>
           if local = [] \<or> domain = []
             then Inl (ValidationError (lit ''Email is not a valid address''))
           else if 64 \<in> set domain
             then Inl (ValidationError (lit ''Email must contain exactly one '' @ quoted ''@''))
           else if 46 \<notin> set domain \<or> hd domain = 46 \<or> last domain = 46
             then Inl (ValidationError (lit ''Email domain is not valid''))
           else Inr (to_ascii_lowercase email)))"

definition validate_password :: "unicode \<Rightarrow> str \<Rightarrow> nat \<Rightarrow> auth_error + unit" where
  "validate_password U password min_length =
    (if length password < min_length
       then Inl (ValidationError (lit ''Password must be at least '' @ dec min_length @
         lit '' characters long''))
     else if 1024 < byte_len password
       then Inl (ValidationError (lit ''Password must be at most 1024 bytes long''))
     else
       let has_lower = list_ex (is_lowercase U) password;
           has_upper = list_ex (is_uppercase U) password;
           has_digit = list_ex is_ascii_digit password;
           has_symbol = list_ex (\<lambda>c. \<not> is_alphanumeric U c \<and> \<not> is_whitespace c) password;
           classes = length (filter (\<lambda>b. b) [has_lower, has_upper, has_digit, has_symbol])
       in if classes < 3
            then Inl (ValidationError (lit
              ''Password must contain at least three of: lowercase, uppercase, digit, symbol''))
          else Inr ())"

definition username_char :: "nat \<Rightarrow> bool" where
  "username_char c \<longleftrightarrow> is_ascii_alphanumeric c \<or> c = 95 \<or> c = 45"

definition validate_username :: "str \<Rightarrow> auth_error + str" where
  "validate_username input =
    (let username = trim input in
     if byte_len username < 3 \<or> 32 < byte_len username
       then Inl (ValidationError (lit ''Username must be between 3 and 32 characters''))
     else if \<not> list_all username_char username
       then Inl (ValidationError (lit ''Username may only contain letters, digits, '' @
         quoted ''_'' @ lit '' and '' @ quoted ''-''))
     else Inr username)"

subsection \<open>What an accepted address looks like\<close>

definition email_shape :: "str \<Rightarrow> bool" where
  "email_shape e \<longleftrightarrow> (\<exists>local domain. e = local @ 64 # domain \<and> local \<noteq> [] \<and>
      64 \<notin> set local \<and> 64 \<notin> set domain \<and> 46 \<in> set domain \<and>
      hd domain \<noteq> 46 \<and> last domain \<noteq> 46) \<and>
    (\<forall>c\<in>set e. \<not> is_whitespace c \<and> \<not> is_control c \<and> \<not> is_ascii_uppercase c) \<and>
    byte_len e \<le> 254"

lemma ascii_lower_idem [simp]: "ascii_lower (ascii_lower c) = ascii_lower c"
  by (auto simp: ascii_lower_def char_classes)

lemma ascii_lower_not_upper: "\<not> is_ascii_uppercase (ascii_lower c)"
  by (auto simp: ascii_lower_def char_classes)

lemma ascii_lower_classes [simp]:
  "is_whitespace (ascii_lower c) = is_whitespace c"
  "is_control (ascii_lower c) = is_control c"
  "(ascii_lower c = 64) = (c = 64)" "(ascii_lower c = 46) = (c = 46)"
  "length (utf8_char (ascii_lower c)) = length (utf8_char c)"
  by (auto simp: ascii_lower_def char_classes utf8_char_def)

lemma byte_len_lower [simp]: "byte_len (to_ascii_lowercase s) = byte_len s"
  by (induction s) (simp_all add: byte_len_def to_ascii_lowercase_def)

lemma list_ex_lower [simp]:
  "(\<And>c. P (ascii_lower c) = P c) \<Longrightarrow> list_ex P (to_ascii_lowercase s) = list_ex P s"
  by (induction s) (simp_all add: to_ascii_lowercase_def)

lemma split_once_lower [simp]:
  "split_once 64 (to_ascii_lowercase s) =
    map_option (map_prod to_ascii_lowercase to_ascii_lowercase) (split_once 64 s)"
  by (induction s) (simp_all add: to_ascii_lowercase_def option.map_comp comp_def map_prod_def
    case_prod_unfold)

lemma to_ascii_lowercase_simps [simp]:
  "to_ascii_lowercase (to_ascii_lowercase s) = to_ascii_lowercase s"
  "to_ascii_lowercase s = [] \<longleftrightarrow> s = []"
  "s \<noteq> [] \<Longrightarrow> hd (to_ascii_lowercase s) = ascii_lower (hd s)"
  "s \<noteq> [] \<Longrightarrow> last (to_ascii_lowercase s) = ascii_lower (last s)"
  "set (to_ascii_lowercase s) = ascii_lower ` set s"
  by (simp_all add: to_ascii_lowercase_def hd_map last_map)

lemma in_lower_iff [simp]: "d \<in> {64, 46} \<Longrightarrow> d \<in> ascii_lower ` A \<longleftrightarrow> d \<in> A"
  by (auto simp: image_iff)

lemma trim_clean: "\<forall>c\<in>set s. \<not> p c \<Longrightarrow> trim_by p s = s"
  by (simp add: trim_by_fixed_iff) (cases s, auto)

lemma validate_email_accepts:
  assumes "validate_email input = Inr e"
  shows "e = to_ascii_lowercase (trim input)" "email_shape e" "validate_email e = Inr e"
proof -
  let ?t = "trim input"
  obtain l d where sp: "split_once 64 ?t = Some (l, d)"
    using assms by (auto simp: validate_email_def Let_def split: if_splits option.splits)
  note facts = assms [unfolded validate_email_def Let_def, simplified sp option.case prod.case]
  show e: "e = to_ascii_lowercase ?t" using facts by (auto split: if_splits)
  have ok: "?t \<noteq> []" "byte_len ?t \<le> 254" "\<not> list_ex is_whitespace ?t" "\<not> list_ex is_control ?t"
    "l \<noteq> []" "d \<noteq> []" "64 \<notin> set d" "46 \<in> set d" "hd d \<noteq> 46" "last d \<noteq> 46"
    using facts by (auto split: if_splits)
  have t: "?t = l @ 64 # d" "64 \<notin> set l" using split_once_SomeD [OF sp] by auto
  have l64: "ascii_lower 64 = 64" by simp
  have "e = to_ascii_lowercase l @ 64 # to_ascii_lowercase d"
    using e t(1) l64 by (simp add: to_ascii_lowercase_def del: ascii_lower_classes)
  moreover have "64 \<notin> set (to_ascii_lowercase l)" "64 \<notin> set (to_ascii_lowercase d)"
    "46 \<in> set (to_ascii_lowercase d)" "hd (to_ascii_lowercase d) \<noteq> 46"
    "last (to_ascii_lowercase d) \<noteq> 46" "to_ascii_lowercase l \<noteq> []"
    using ok t(2) by simp_all
  moreover have "\<forall>c\<in>set e. \<not> is_whitespace c \<and> \<not> is_control c \<and> \<not> is_ascii_uppercase c"
    unfolding e using ok(3,4) by (auto simp: list_ex_iff ascii_lower_not_upper)
  moreover have "byte_len e \<le> 254" unfolding e using ok(2) by simp
  ultimately show "email_shape e" unfolding email_shape_def by blast
  have "trim e = e" using ok(3) e by (intro trim_clean) (auto simp: list_ex_iff)
  then show "validate_email e = Inr e"
    unfolding validate_email_def Let_def using ok sp e by simp
qed

text \<open>A well-shaped address is accepted unchanged: the two sides characterise acceptance.\<close>

lemma lowercase_id: "\<forall>c\<in>set e. \<not> is_ascii_uppercase c \<Longrightarrow> to_ascii_lowercase e = e"
  by (induction e) (auto simp: to_ascii_lowercase_def ascii_lower_def)

lemma validate_email_complete:
  assumes "email_shape e" shows "validate_email e = Inr e"
proof -
  obtain l d where e: "e = l @ 64 # d" "l \<noteq> []" "64 \<notin> set l" "64 \<notin> set d" "46 \<in> set d"
      "hd d \<noteq> 46" "last d \<noteq> 46"
    and cs: "\<forall>c\<in>set e. \<not> is_whitespace c \<and> \<not> is_control c \<and> \<not> is_ascii_uppercase c"
    and len: "byte_len e \<le> 254"
    using assms by (auto simp: email_shape_def)
  have "trim e = e" using cs by (simp add: trim_clean)
  moreover have "split_once 64 e = Some (l, d)" using e by (simp add: split_once_append)
  moreover have "\<not> list_ex is_whitespace e" "\<not> list_ex is_control e" "e \<noteq> []"
    using cs e by (auto simp: list_ex_iff)
  ultimately show ?thesis
    unfolding validate_email_def Let_def using e len cs by (auto simp: lowercase_id)
qed

lemma validate_password_accepts:
  "validate_password U pw n = Inr () \<longleftrightarrow>
    n \<le> length pw \<and> byte_len pw \<le> 1024 \<and>
    3 \<le> length (filter (\<lambda>b. b) [\<exists>c\<in>set pw. is_lowercase U c, \<exists>c\<in>set pw. is_uppercase U c,
      \<exists>c\<in>set pw. is_ascii_digit c, \<exists>c\<in>set pw. \<not> is_alphanumeric U c \<and> \<not> is_whitespace c])"
  by (simp add: validate_password_def Let_def not_less list_ex_iff)

lemma validate_username_accepts:
  "validate_username input = Inr u \<Longrightarrow>
    u = trim input \<and> 3 \<le> length u \<and> length u \<le> 32 \<and> (\<forall>c\<in>set u. username_char c) \<and>
    validate_username u = Inr u"
proof -
  assume a: "validate_username input = Inr u"
  have u: "u = trim input" "3 \<le> byte_len u" "byte_len u \<le> 32" "\<forall>c\<in>set u. username_char c"
    using a by (auto simp: validate_username_def Let_def list_all_iff split: if_splits)
  moreover have "byte_len u = length u"
    using u(4) by (intro byte_len_ascii) (auto simp: username_char_def char_classes)
  moreover have "validate_username u = Inr u"
    using u by (simp add: validate_username_def Let_def list_all_iff)
  ultimately show ?thesis by simp
qed

section \<open>Record references\<close>

text \<open>
  One turn of the loop of \<^verbatim>\<open>normalize_record_id_key\<close>: white space, then the six delimiters in the
  order of the chained \<^verbatim>\<open>trim_matches\<close> calls, then white space again.
\<close>

definition delimiters :: "nat list" where
  "delimiters = [0x27E8, 0x27E9, 60, 62, 34, 96]"

definition strip_layer :: "str \<Rightarrow> str" where
  "strip_layer s = trim (fold trim_char delimiters (trim s))"

text \<open>Functions that either leave their argument alone or shorten it.\<close>

definition shrinking :: "(str \<Rightarrow> str) \<Rightarrow> bool" where
  "shrinking f \<longleftrightarrow> (\<forall>s. f s = s \<or> length (f s) < length s)"

lemma shrinkingD: "shrinking f \<Longrightarrow> f s \<noteq> s \<Longrightarrow> length (f s) < length s"
  by (auto simp: shrinking_def)

lemma shrinking_le: "shrinking f \<Longrightarrow> length (f s) \<le> length s"
  by (metis shrinking_def le_refl less_imp_le)

text \<open>
  The shape of the three loops of \<^verbatim>\<open>record_id.rs\<close>: apply a shrinking layer until nothing
  changes.  What a loop computes is a fixed point of its layer, keeps everything the layer
  keeps, and does not change a second time.
\<close>

locale fixpoint_loop =
  fixes layer :: "str \<Rightarrow> str" and loop :: "str \<Rightarrow> str"
  assumes layer_shrinks: "shrinking layer"
    and loop_unfold: "loop s = (let next = layer s in if next = s then next else loop next)"
begin

lemma loop_at_fixpoint: "layer s = s \<Longrightarrow> loop s = s"
  using loop_unfold [of s] by simp

lemma loop_step: "layer s \<noteq> s \<Longrightarrow> loop s = loop (layer s)"
  using loop_unfold [of s] by (simp add: Let_def)

lemma loop_induct [case_names fixpoint layer]:
  assumes "\<And>s. layer s = s \<Longrightarrow> P s" "\<And>s. layer s \<noteq> s \<Longrightarrow> P (layer s) \<Longrightarrow> P s"
  shows "P s"
proof (induction "length s" arbitrary: s rule: less_induct)
  case less
  then show ?case using assms shrinkingD [OF layer_shrinks] by (cases "layer s = s") auto
qed

lemma loop_fixed: "layer (loop s) = loop s"
  by (induction s rule: loop_induct) (simp_all add: loop_at_fixpoint loop_step)

lemma loop_idem: "loop (loop s) = loop s"
  by (rule loop_at_fixpoint) (rule loop_fixed)

lemma loop_keeps: "(\<And>s. m (layer s) = m s) \<Longrightarrow> m (loop s) = m s"
  by (induction s rule: loop_induct) (simp_all add: loop_at_fixpoint loop_step)

lemma loop_shorter: "length (loop s) \<le> length s"
proof (induction s rule: loop_induct)
  case (layer s)
  then show ?case using shrinking_le [OF layer_shrinks, of s] by (simp add: loop_step)
qed (simp add: loop_at_fixpoint)

end

lemma shrinking_trim_by [intro]: "shrinking (trim_by p)"
  unfolding shrinking_def using trim_by_length trim_by_length_eq le_neq_implies_less by blast

lemma shrinking_trim_char [intro]: "shrinking (trim_char d)"
  unfolding trim_char_def by (rule shrinking_trim_by)

lemma shrinking_comp: "shrinking f \<Longrightarrow> shrinking g \<Longrightarrow> shrinking (\<lambda>s. f (g s))"
  unfolding shrinking_def by (metis order.strict_trans)

lemma shrinking_chain: "shrinking f \<Longrightarrow> shrinking g \<Longrightarrow> f (g s) = s \<Longrightarrow> g s = s \<and> f s = s"
  by (metis leD shrinkingD shrinking_le)

lemma shrinking_fold: "(\<And>d. shrinking (f d)) \<Longrightarrow> shrinking (\<lambda>s. fold f ds s)"
proof (induction ds)
  case (Cons d ds)
  then show ?case using shrinking_comp [of "\<lambda>s. fold f ds s" "f d"] by simp
qed (simp add: shrinking_def)

lemma fold_fixed:
  assumes "\<And>d. shrinking (f d)" "fold f ds s = s" shows "\<forall>d\<in>set ds. f d s = s"
  using assms(2)
proof (induction ds)
  case (Cons d ds)
  have "shrinking (\<lambda>s. fold f ds s)" using assms(1) by (rule shrinking_fold)
  then have "f d s = s \<and> fold f ds s = s"
    using shrinking_chain [OF _ assms(1) [of d]] Cons.prems by simp
  then show ?case using Cons.IH by simp
qed simp

lemma shrinking_strip_layer: "shrinking strip_layer"
proof -
  have "shrinking (\<lambda>s. trim (fold trim_char delimiters (trim s)))"
    using shrinking_comp [OF shrinking_trim_by
      shrinking_comp [OF shrinking_fold [OF shrinking_trim_char] shrinking_trim_by]] .
  then show ?thesis by (simp add: strip_layer_def [abs_def])
qed

function normalize_key_loop :: "str \<Rightarrow> str" where
  "normalize_key_loop s =
    (let next = strip_layer s in if next = s then next else normalize_key_loop next)"
  by pat_completeness auto
termination
  by (relation "measure length") (auto simp: shrinkingD [OF shrinking_strip_layer])

declare normalize_key_loop.simps [simp del]

definition normalize_record_id_key :: "str \<Rightarrow> str" where
  "normalize_record_id_key value = normalize_key_loop (trim value)"

text \<open>The loop is one trim of all delimiters.\<close>

definition delim :: "nat \<Rightarrow> bool" where
  "delim c \<longleftrightarrow> is_whitespace c \<or> c \<in> set delimiters"

lemma delim_fold_trim:
  "set ds \<subseteq> set delimiters \<Longrightarrow> trim_by delim (fold trim_char ds s) = trim_by delim s"
proof (induction ds arbitrary: s)
  case (Cons d ds)
  have "trim_by delim (trim_char d s) = trim_by delim s"
    unfolding trim_char_def using Cons.prems by (intro trim_by_weaker) (auto simp: delim_def)
  then show ?case using Cons by simp
qed simp

lemma delim_strip_layer: "trim_by delim (strip_layer s) = trim_by delim s"
proof -
  have "trim_by delim (trim u) = trim_by delim u" for u
    by (rule trim_by_weaker) (simp add: delim_def)
  then show ?thesis by (simp add: strip_layer_def delim_fold_trim)
qed

lemma strip_layer_fixed: "strip_layer s = s \<Longrightarrow> clean_ends delim s"
proof -
  assume a: "strip_layer s = s"
  note sh = shrinking_fold [of trim_char, OF shrinking_trim_char]
  have "trim s = s" and "trim (fold trim_char delimiters s) = s"
    using shrinking_chain [OF shrinking_comp [OF shrinking_trim_by sh] shrinking_trim_by] a
    by (auto simp: strip_layer_def)
  moreover from this have "fold trim_char delimiters s = s"
    using shrinking_chain [OF shrinking_trim_by sh] by auto
  then have "\<forall>d\<in>set delimiters. trim_char d s = s" by (intro fold_fixed) auto
  ultimately show ?thesis
    unfolding trim_char_def by (auto simp: trim_by_fixed_iff clean_ends_def delim_def)
qed

interpretation key_loop: fixpoint_loop strip_layer normalize_key_loop
  by unfold_locales (rule shrinking_strip_layer, rule normalize_key_loop.simps)

lemma normalize_key_loop_trim: "normalize_key_loop s = trim_by delim s"
proof -
  let ?r = "normalize_key_loop s"
  have "clean_ends delim ?r" by (rule strip_layer_fixed) (rule key_loop.loop_fixed)
  then have "trim_by delim ?r = ?r" by (simp add: trim_by_fixed_iff clean_ends_def)
  moreover have "trim_by delim ?r = trim_by delim s"
    by (rule key_loop.loop_keeps) (rule delim_strip_layer)
  ultimately show ?thesis by simp
qed

lemma normalize_record_id_key_eq: "normalize_record_id_key s = trim_by delim s"
  unfolding normalize_record_id_key_def normalize_key_loop_trim
  by (rule trim_by_weaker) (simp add: delim_def)

lemma shrinking_normalize_key: "shrinking normalize_record_id_key"
  using shrinking_trim_by [of delim] by (simp add: normalize_record_id_key_eq [abs_def])

subsection \<open>The reference loops\<close>

definition reference_layer :: "str \<Rightarrow> str \<Rightarrow> str" where
  "reference_layer prefix s =
    (case strip_prefix prefix s of
       Some key \<Rightarrow> normalize_record_id_key key
     | None \<Rightarrow> normalize_record_id_key s)"

lemma shrinking_reference_layer: "shrinking (reference_layer prefix)"
  unfolding shrinking_def
proof
  fix s
  show "reference_layer prefix s = s \<or> length (reference_layer prefix s) < length s"
  proof (cases "strip_prefix prefix s")
    case None
    then show ?thesis using shrinking_normalize_key by (simp add: reference_layer_def shrinking_def)
  next
    case (Some k)
    then have s: "s = prefix @ k" by simp
    have "length (normalize_record_id_key k) \<le> length k"
      by (rule shrinking_le [OF shrinking_normalize_key])
    then show ?thesis using s Some shrinkingD [OF shrinking_normalize_key, of k]
      by (cases prefix) (auto simp: reference_layer_def)
  qed
qed

function normalize_user_loop :: "str \<Rightarrow> str" where
  "normalize_user_loop s =
    (let next = reference_layer (lit ''user:'') s
     in if next = s then next else normalize_user_loop next)"
  by pat_completeness auto
termination
  by (relation "measure length") (auto simp: shrinkingD [OF shrinking_reference_layer])

declare normalize_user_loop.simps [simp del]

interpretation user_loop: fixpoint_loop "reference_layer (lit ''user:'')" normalize_user_loop
  by unfold_locales (rule shrinking_reference_layer, rule normalize_user_loop.simps)

definition normalize_user_id :: "str \<Rightarrow> str" where
  "normalize_user_id value = normalize_user_loop (normalize_record_id_key value)"

function normalize_actor_loop :: "str \<Rightarrow> str" where
  "normalize_actor_loop s =
    (let next = reference_layer (lit ''actor_identity:'') s
     in if next = s then next else normalize_actor_loop next)"
  by pat_completeness auto
termination
  by (relation "measure length") (auto simp: shrinkingD [OF shrinking_reference_layer])

declare normalize_actor_loop.simps [simp del]

interpretation actor_loop: fixpoint_loop "reference_layer (lit ''actor_identity:'')"
  normalize_actor_loop
  by unfold_locales (rule shrinking_reference_layer, rule normalize_actor_loop.simps)

definition normalize_actor_id :: "str \<Rightarrow> str" where
  "normalize_actor_id value = normalize_actor_loop (normalize_record_id_key value)"

text \<open>A key that no reference form decorates.\<close>

definition bare_key :: "str \<Rightarrow> str \<Rightarrow> bool" where
  "bare_key prefix k \<longleftrightarrow> clean_ends delim k \<and> strip_prefix prefix k = None"

lemma normalize_key_clean: "clean_ends delim k \<Longrightarrow> normalize_record_id_key k = k"
  unfolding normalize_record_id_key_eq clean_ends_def by (simp add: trim_by_fixed_iff)

lemma reference_layer_fixed:
  "prefix \<noteq> [] \<Longrightarrow> reference_layer prefix s = s \<longleftrightarrow> bare_key prefix s"
proof
  assume p: "prefix \<noteq> []" and f: "reference_layer prefix s = s"
  show "bare_key prefix s"
  proof (cases "strip_prefix prefix s")
    case None
    then have "trim_by delim s = s"
      using f by (simp add: reference_layer_def normalize_record_id_key_eq)
    then show ?thesis using None clean_ends_trim [of delim s] by (simp add: bare_key_def)
  next
    case (Some k)
    then have "length (normalize_record_id_key k) = length prefix + length k"
      using f by (auto simp: reference_layer_def)
    then show ?thesis using p shrinking_le [OF shrinking_normalize_key, of k] by simp
  qed
qed (simp add: bare_key_def reference_layer_def normalize_key_clean)

lemma lit_prefixes [simp]: "lit ''user:'' \<noteq> []" "lit ''actor_identity:'' \<noteq> []"
  by (simp_all add: lit_def)

lemmas reference_fixed =
  reference_layer_fixed [OF lit_prefixes(1)] reference_layer_fixed [OF lit_prefixes(2)]

lemma normalize_user_loop_bare: "bare_key (lit ''user:'') (normalize_user_loop s)"
  using user_loop.loop_fixed [of s] by (simp only: reference_fixed)

lemma normalize_actor_loop_bare: "bare_key (lit ''actor_identity:'') (normalize_actor_loop s)"
  using actor_loop.loop_fixed [of s] by (simp only: reference_fixed)

lemma normalize_user_loop_fixed: "bare_key (lit ''user:'') s \<Longrightarrow> normalize_user_loop s = s"
  by (rule user_loop.loop_at_fixpoint) (simp only: reference_fixed)

lemma normalize_actor_loop_fixed: "bare_key (lit ''actor_identity:'') s \<Longrightarrow> normalize_actor_loop s = s"
  by (rule actor_loop.loop_at_fixpoint) (simp only: reference_fixed)

lemma normalize_user_id_bare: "bare_key (lit ''user:'') (normalize_user_id s)"
  by (simp add: normalize_user_id_def normalize_user_loop_bare)

lemma normalize_actor_id_bare: "bare_key (lit ''actor_identity:'') (normalize_actor_id s)"
  by (simp add: normalize_actor_id_def normalize_actor_loop_bare)

lemma normalize_actor_id_fixed: "bare_key (lit ''actor_identity:'') k \<Longrightarrow> normalize_actor_id k = k"
  by (simp add: normalize_actor_id_def normalize_key_clean bare_key_def normalize_actor_loop_fixed)

lemma normalize_user_id_fixed: "bare_key (lit ''user:'') k \<Longrightarrow> normalize_user_id k = k"
  by (simp add: normalize_user_id_def normalize_key_clean bare_key_def normalize_user_loop_fixed)

text \<open>Every spelling of a reference to \<open>k\<close> (\<open>k\<close>, \<open>user:k\<close>, \<open>user:<k>\<close>) has the key \<open>k\<close>.\<close>

lemma normalize_user_id_prefixed:
  assumes "bare_key (lit ''user:'') k" "k \<noteq> []"
    "\<forall>c\<in>set a. delim c" "\<forall>c\<in>set b. delim c" "\<forall>c\<in>set c. delim c"
  shows "normalize_user_id (a @ lit ''user:'' @ b @ k @ c) = k"
proof -
  let ?u = "lit ''user:''"
  have u: "?u = [117, 115, 101, 114, 58]" by (simp add: lit_def)
  have k: "clean_ends delim k" using assms(1) by (simp add: bare_key_def)
  have "clean_ends delim (?u @ b @ k)"
    using k assms(2) by (auto simp: clean_ends_def u delim_def is_whitespace_def delimiters_def)
  then have "trim_by delim (a @ (?u @ b @ k) @ c) = ?u @ b @ k"
    using assms by (intro trim_by_cut) auto
  then have n: "normalize_record_id_key (a @ ?u @ b @ k @ c) = ?u @ b @ k"
    by (simp add: normalize_record_id_key_eq)
  have "trim_by delim (b @ k @ []) = k" using assms k by (intro trim_by_cut) auto
  then have l: "reference_layer ?u (?u @ b @ k) = k"
    by (simp add: reference_layer_def normalize_record_id_key_eq)
  have "length k \<noteq> length (?u @ b @ k)" by (simp add: u)
  then have ne: "(k = ?u @ b @ k) = False" by metis
  have "normalize_user_loop (?u @ b @ k) = normalize_user_loop k"
    by (subst normalize_user_loop.simps) (simp only: Let_def l ne if_False)
  then show ?thesis
    by (simp add: normalize_user_id_def n normalize_user_loop_fixed assms(1))
qed

section \<open>Foreign namespaces\<close>

definition table_char :: "nat \<Rightarrow> bool" where
  "table_char c \<longleftrightarrow> is_ascii_lowercase c \<or> is_ascii_digit c \<or> c = 95"

definition foreign_table_prefix :: "str \<Rightarrow> str option" where
  "foreign_table_prefix value =
    (case split_once 58 value of
       None \<Rightarrow> None
     | Some (table, rest) \<Rightarrow>
         if table = [] \<or> rest = [] then None
         else if list_all table_char table \<and> table \<noteq> lit ''user'' then Some table
         else None)"

text \<open>\<open>ForeignNamespace\<close> carries the table name; a \<open>RecordId\<close> of table \<open>user\<close> is its key.\<close>

datatype foreign_namespace = ForeignNamespace str

definition user_record_id :: "str \<Rightarrow> foreign_namespace + str" where
  "user_record_id value =
    (let normalized = normalize_user_id value in
     case foreign_table_prefix normalized of
       Some table \<Rightarrow> Inl (ForeignNamespace table)
     | None \<Rightarrow> Inr normalized)"

text \<open>The conversion of \<^verbatim>\<open>src/error.rs\<close>: the table name is not disclosed.\<close>

definition user_record_id_err :: "str \<Rightarrow> auth_error + str" where
  "user_record_id_err value =
    (case user_record_id value of Inl _ \<Rightarrow> Inl InvalidUserId | Inr k \<Rightarrow> Inr k)"

lemma table_char_not_colon: "\<not> table_char 58"
  by (simp add: table_char_def char_classes)

lemma user_record_id_accepts:
  assumes "user_record_id v = Inr k"
  shows "k = normalize_user_id v" "bare_key (lit ''user:'') k"
    "\<And>table rest. k = table @ 58 # rest \<Longrightarrow> list_all table_char table \<Longrightarrow> table = [] \<or> rest = []"
proof -
  show k: "k = normalize_user_id v" and b: "bare_key (lit ''user:'') k"
    using assms normalize_user_id_bare [of v]
    by (auto simp: user_record_id_def Let_def split: option.splits)
  fix table rest
  assume t: "k = table @ 58 # rest" "list_all table_char table"
  have "58 \<notin> set table" using t(2) table_char_not_colon by (auto simp: list_all_iff)
  then have sp: "split_once 58 k = Some (table, rest)" using t(1) by (simp add: split_once_append)
  have "table \<noteq> lit ''user''"
    using b t(1) by (auto simp: bare_key_def strip_prefix_None lit_def)
  then show "table = [] \<or> rest = []"
    using assms sp t(2) k
    by (auto simp: user_record_id_def Let_def foreign_table_prefix_def split: if_splits)
qed

lemma user_record_id_rejects:
  assumes "bare_key (lit ''user:'') (table @ 58 # rest)" "list_all table_char table"
    "table \<noteq> []" "rest \<noteq> []" "table \<noteq> lit ''user''"
  shows "user_record_id (table @ 58 # rest) = Inl (ForeignNamespace table)"
proof -
  have "58 \<notin> set table" using assms(2) table_char_not_colon by (auto simp: list_all_iff)
  then have "foreign_table_prefix (table @ 58 # rest) = Some table"
    using assms by (simp add: foreign_table_prefix_def split_once_append)
  then show ?thesis using assms(1) by (simp add: user_record_id_def normalize_user_id_fixed)
qed

end
