(* ===== verification/Rate_Limiter.thy ===== *)
theory Rate_Limiter
  imports Errors
begin

text \<open>
  \<^verbatim>\<open>src/services/rate_limiter.rs\<close> and \<^verbatim>\<open>src/utils/rate_limit_middleware.rs\<close>: the two layers of
  rate limiting (sliding window in the process, fixed window in the shared table) and the
  middleware around every route.

  Instants and durations are integers in nanoseconds.  The wall clock (seconds) gives the shared
  window number, the database clock decides whether a shared block is over.  One call reads each
  clock once.  \<open>bucket\<close> is \<^verbatim>\<open>DefaultHasher\<close> (its algorithm is unspecified by the standard
  library) and \<open>fault i\<close> the outcome of the \<open>i\<close>-th attempt of the shared query.
\<close>

section \<open>Rules and the records of one process\<close>

record rate_limit_rule =
  window_duration :: int
  max_requests :: nat
  block_duration :: int

definition secs :: "int \<Rightarrow> int" where
  "secs n = n * 1000000000"

definition as_secs :: "int \<Rightarrow> int" where
  "as_secs d = d div 1000000000"

definition default_rate_limit_rule :: rate_limit_rule where
  "default_rate_limit_rule =
    \<lparr>window_duration = secs 60, max_requests = 10, block_duration = secs 300\<rparr>"

definition login_rule :: rate_limit_rule where
  "login_rule = \<lparr>window_duration = secs 300, max_requests = 5, block_duration = secs 900\<rparr>"

definition register_rule :: rate_limit_rule where
  "register_rule = \<lparr>window_duration = secs 300, max_requests = 3, block_duration = secs 600\<rparr>"

definition password_reset_rule :: rate_limit_rule where
  "password_reset_rule = \<lparr>window_duration = secs 900, max_requests = 3, block_duration = secs 1800\<rparr>"

definition general_api_rule :: rate_limit_rule where
  "general_api_rule = \<lparr>window_duration = secs 60, max_requests = 30, block_duration = secs 60\<rparr>"

record request_record =
  timestamps :: "int list"
  blocked_until :: "int option"

definition new_record :: request_record where
  "new_record = \<lparr>timestamps = [], blocked_until = None\<rparr>"

definition is_blocked :: "int \<Rightarrow> request_record \<Rightarrow> bool" where
  "is_blocked now r = (case blocked_until r of Some u \<Rightarrow> now < u | None \<Rightarrow> False)"

definition cleanup_expired :: "int \<Rightarrow> int \<Rightarrow> request_record \<Rightarrow> request_record" where
  "cleanup_expired now window r = r\<lparr>timestamps := filter (\<lambda>t. now - window < t) (timestamps r)\<rparr>"

definition add_request :: "int \<Rightarrow> request_record \<Rightarrow> request_record" where
  "add_request now r = r\<lparr>timestamps := timestamps r @ [now]\<rparr>"

definition block :: "int \<Rightarrow> int \<Rightarrow> request_record \<Rightarrow> request_record" where
  "block now duration r = r\<lparr>blocked_until := Some (now + duration)\<rparr>"

definition is_rate_limited :: "nat \<Rightarrow> request_record \<Rightarrow> bool" where
  "is_rate_limited n r \<longleftrightarrow> n \<le> length (timestamps r)"

datatype decision = Allowed | JustBlocked | StillBlocked

definition allowed :: "decision \<Rightarrow> bool" where
  "allowed d \<longleftrightarrow> d = Allowed"

record rate_limiter =
  default_rule :: rate_limit_rule
  endpoint_rules :: "str \<rightharpoonup> rate_limit_rule"
  records :: "str \<rightharpoonup> request_record"
  shared_backend :: bool

definition new_rate_limiter :: rate_limiter where
  "new_rate_limiter = \<lparr>default_rule = default_rate_limit_rule, endpoint_rules = Map.empty,
    records = Map.empty, shared_backend = False\<rparr>"

definition with_shared_backend :: "rate_limiter \<Rightarrow> rate_limiter" where
  "with_shared_backend l = l\<lparr>shared_backend := True\<rparr>"

definition with_default_rule :: "rate_limit_rule \<Rightarrow> rate_limiter \<Rightarrow> rate_limiter" where
  "with_default_rule rule l = l\<lparr>default_rule := rule\<rparr>"

definition with_endpoint_rule :: "str \<Rightarrow> rate_limit_rule \<Rightarrow> rate_limiter \<Rightarrow> rate_limiter" where
  "with_endpoint_rule endpoint rule l =
    l\<lparr>endpoint_rules := (endpoint_rules l)(endpoint \<mapsto> rule)\<rparr>"

definition get_rule :: "rate_limiter \<Rightarrow> str \<Rightarrow> rate_limit_rule" where
  "get_rule l endpoint =
    (case endpoint_rules l endpoint of Some r \<Rightarrow> r | None \<Rightarrow> default_rule l)"

definition record_key :: "str \<Rightarrow> str \<Rightarrow> str" where
  "record_key client endpoint = client @ [1] @ endpoint"

section \<open>The shared table\<close>

record shared_row =
  hits :: nat
  window_index :: int
  row_client :: str
  row_endpoint :: str
  row_blocked_until :: "int option"
  row_updated_at :: int

record clock =
  instant :: int
  wall_secs :: int
  db_now :: int

record rl_world =
  limiter :: rate_limiter
  shared_table :: "str \<rightharpoonup> shared_row"

definition write_conflict_retries :: nat where
  "write_conflict_retries = 4"

text \<open>
  The four statements of the query, on the row of one bucket: reset the window, count the hit,
  set a block when the quota is exceeded and none is running, read the result.
\<close>

definition shared_reset :: "int \<Rightarrow> shared_row \<Rightarrow> shared_row" where
  "shared_reset w row = (if window_index row \<noteq> w then row\<lparr>hits := 0, window_index := w\<rparr> else row)"

definition shared_upsert :: "str \<Rightarrow> str \<Rightarrow> int \<Rightarrow> int \<Rightarrow> shared_row option \<Rightarrow> shared_row" where
  "shared_upsert key endpoint w now row =
    (case row of
       None \<Rightarrow> \<lparr>hits = 1, window_index = w, row_client = key, row_endpoint = endpoint,
                row_blocked_until = None, row_updated_at = now\<rparr>
     | Some r \<Rightarrow> r\<lparr>hits := hits r + 1, window_index := w, row_client := key,
                   row_endpoint := endpoint, row_updated_at := now\<rparr>)"

definition shared_must_block :: "nat \<Rightarrow> int \<Rightarrow> shared_row \<Rightarrow> bool" where
  "shared_must_block n now r \<longleftrightarrow> n < hits r \<and>
    (case row_blocked_until r of None \<Rightarrow> True | Some u \<Rightarrow> u < now)"

definition shared_query :: "str \<Rightarrow> str \<Rightarrow> rate_limit_rule \<Rightarrow> int \<Rightarrow> int \<Rightarrow>
    shared_row option \<Rightarrow> decision \<times> shared_row" where
  "shared_query key endpoint rule w now row =
    (let r = shared_upsert key endpoint w now (map_option (shared_reset w) row);
         must = shared_must_block (max_requests rule) now r;
         r' = (if must
               then r\<lparr>row_blocked_until := Some (now + secs (max (as_secs (block_duration rule)) 1))\<rparr>
               else r);
         blocked = (case row_blocked_until r' of None \<Rightarrow> False | Some u \<Rightarrow> now < u)
     in (if must then JustBlocked else if blocked then StillBlocked else Allowed, r'))"

definition shared_window :: "rate_limit_rule \<Rightarrow> int \<Rightarrow> int" where
  "shared_window rule wall = wall div max (as_secs (window_duration rule)) 1"

definition shared_attempts :: "(nat \<Rightarrow> auth_error option) \<Rightarrow> auth_error option" where
  "shared_attempts fault = retry_attempts write_conflict_retries fault 0"

definition shared_decision :: "(str \<Rightarrow> str \<Rightarrow> str) \<Rightarrow> (nat \<Rightarrow> auth_error option) \<Rightarrow> clock \<Rightarrow>
    str \<Rightarrow> str \<Rightarrow> rate_limit_rule \<Rightarrow> (rl_world, decision) handler" where
  "shared_decision bucket fault c key endpoint rule w =
    (case shared_attempts fault of
       Some e \<Rightarrow> (Inl e, w)
     | None \<Rightarrow>
         let b = bucket key endpoint;
             (d, row) = shared_query key endpoint rule (shared_window rule (wall_secs c)) (db_now c)
               (shared_table w b)
         in (Inr d, w\<lparr>shared_table := (shared_table w)(b \<mapsto> row)\<rparr>))"

section \<open>The check\<close>

definition check_shared :: "(str \<Rightarrow> str \<Rightarrow> str) \<Rightarrow> (nat \<Rightarrow> auth_error option) \<Rightarrow> clock \<Rightarrow>
    str \<Rightarrow> str \<Rightarrow> rate_limit_rule \<Rightarrow> (rl_world, decision) handler" where
  "check_shared bucket fault c key endpoint rule w =
    (if \<not> shared_backend (limiter w) then (Inr Allowed, w)
     else if endpoint_rules (limiter w) endpoint = None then (Inr Allowed, w)
     else catch (shared_decision bucket fault c key endpoint rule) (\<lambda>_. ret Allowed) ret w)"

text \<open>The part of \<^verbatim>\<open>check_rate_limit_verbose\<close> under the lock of \<open>records\<close>.\<close>

definition local_check :: "int \<Rightarrow> rate_limit_rule \<Rightarrow> request_record \<Rightarrow> decision \<times> request_record" where
  "local_check now rule r =
    (if is_blocked now r then (StillBlocked, r)
     else
       let r' = cleanup_expired now (window_duration rule) r in
       if is_rate_limited (max_requests rule) r'
       then (JustBlocked, block now (block_duration rule) r')
       else (Allowed, add_request now r'))"

definition record_of :: "rate_limiter \<Rightarrow> str \<Rightarrow> str \<Rightarrow> request_record" where
  "record_of l key endpoint =
    (case records l (record_key key endpoint) of Some r \<Rightarrow> r | None \<Rightarrow> new_record)"

definition check_rate_limit_verbose :: "(str \<Rightarrow> str \<Rightarrow> str) \<Rightarrow> (nat \<Rightarrow> auth_error option) \<Rightarrow> clock \<Rightarrow>
    str \<Rightarrow> str \<Rightarrow> (rl_world, decision) handler" where
  "check_rate_limit_verbose bucket fault c key endpoint w =
    (let l = limiter w;
         rule = get_rule l endpoint;
         (d, r) = local_check (instant c) rule (record_of l key endpoint);
         w' = w\<lparr>limiter := l\<lparr>records := (records l)(record_key key endpoint \<mapsto> r)\<rparr>\<rparr>
     in if d = Allowed then check_shared bucket fault c key endpoint rule w'
        else (Inr d, w'))"

definition check_rate_limit :: "(str \<Rightarrow> str \<Rightarrow> str) \<Rightarrow> (nat \<Rightarrow> auth_error option) \<Rightarrow> clock \<Rightarrow>
    str \<Rightarrow> str \<Rightarrow> (rl_world, bool) handler" where
  "check_rate_limit bucket fault c key endpoint =
    bind (check_rate_limit_verbose bucket fault c key endpoint) (\<lambda>d. ret (allowed d))"

definition reset_limit :: "str \<Rightarrow> rate_limiter \<Rightarrow> rate_limiter" where
  "reset_limit key l =
    l\<lparr>records := (\<lambda>k. if strip_prefix (key @ [1]) k \<noteq> None then None else records l k)\<rparr>"

text \<open>\<^verbatim>\<open>len as u32\<close> wraps; \<^verbatim>\<open>saturating_sub\<close> is subtraction on \<open>nat\<close>.\<close>

definition get_remaining_requests :: "int \<Rightarrow> str \<Rightarrow> str \<Rightarrow> rate_limiter \<Rightarrow> nat" where
  "get_remaining_requests now key endpoint l =
    (let rule = get_rule l endpoint in
     case records l (record_key key endpoint) of
       Some r \<Rightarrow> if is_blocked now r then 0
                 else max_requests rule - length (timestamps r) mod 2 ^ 32
     | None \<Rightarrow> max_requests rule)"

definition keep_record :: "int \<Rightarrow> request_record \<Rightarrow> bool" where
  "keep_record now r \<longleftrightarrow> is_blocked now r \<or>
    (timestamps r \<noteq> [] \<and> now - last (timestamps r) < secs 3600)"

definition cleanup_shared_records :: "bool \<Rightarrow> int \<Rightarrow> rl_world \<Rightarrow> rl_world" where
  "cleanup_shared_records fails now w =
    (if \<not> shared_backend (limiter w) \<or> fails then w
     else w\<lparr>shared_table := (\<lambda>b. case shared_table w b of
         None \<Rightarrow> None
       | Some row \<Rightarrow>
           if (case row_blocked_until row of None \<Rightarrow> True | Some u \<Rightarrow> u < now) \<and>
              row_updated_at row < now - secs 3600
           then None else Some row)\<rparr>)"

definition cleanup_expired_records :: "bool \<Rightarrow> clock \<Rightarrow> rl_world \<Rightarrow> rl_world" where
  "cleanup_expired_records fails c w =
    cleanup_shared_records fails (db_now c)
      (w\<lparr>limiter := (limiter w)\<lparr>records := (\<lambda>k. case records (limiter w) k of
           None \<Rightarrow> None
         | Some r \<Rightarrow> if keep_record (instant c) r then Some r else None)\<rparr>\<rparr>)"

section \<open>The middleware\<close>

text \<open>\<open>headers n\<close> is the value of header \<open>n\<close> when it is present and \<^verbatim>\<open>to_str\<close> accepts it.\<close>

definition client_ip :: "str \<Rightarrow> (str \<Rightarrow> str option) \<Rightarrow> bool \<Rightarrow> str" where
  "client_ip addr headers trust =
    (if \<not> trust then addr
     else
       let fwd = (case headers (lit ''X-Forwarded-For'') of
                    Some v \<Rightarrow> trim (hd (split_on (\<lambda>c. c = 44) v)) | None \<Rightarrow> []);
           real = (case headers (lit ''X-Real-IP'') of Some v \<Rightarrow> trim v | None \<Rightarrow> [])
       in if fwd \<noteq> [] then fwd else if real \<noteq> [] then real else addr)"

definition rate_limit_endpoint :: "str option \<Rightarrow> str \<Rightarrow> str" where
  "rate_limit_endpoint matched path = (case matched of Some m \<Rightarrow> m | None \<Rightarrow> path)"

datatype layer_outcome = NextRun | RateLimited429

definition rate_limit_layer :: "(str \<Rightarrow> str \<Rightarrow> str) \<Rightarrow> (nat \<Rightarrow> auth_error option) \<Rightarrow> clock \<Rightarrow>
    bool \<Rightarrow> str \<Rightarrow> (str \<Rightarrow> str option) \<Rightarrow> str option \<Rightarrow> str \<Rightarrow>
    rl_world \<Rightarrow> layer_outcome \<times> (str \<times> str \<times> str) list \<times> rl_world" where
  "rate_limit_layer bucket fault c trust addr headers matched path w =
    (let ip = client_ip addr headers trust;
         endpoint = rate_limit_endpoint matched path;
         ua = take 256 (case headers (lit ''user-agent'') of Some v \<Rightarrow> v | None \<Rightarrow> lit ''Unknown'')
     in case check_rate_limit_verbose bucket fault c ip endpoint w of
          (Inr Allowed, w') \<Rightarrow> (NextRun, [], w')
        | (Inr JustBlocked, w') \<Rightarrow> (RateLimited429, [(ip, ua, endpoint)], w')
        | (Inr StillBlocked, w') \<Rightarrow> (RateLimited429, [], w')
        | (Inl e, w') \<Rightarrow> (NextRun, [], w'))"

section \<open>One check\<close>

text \<open>The shared query is run up to four times, and only past write conflicts.\<close>

lemma shared_attempts_None:
  "shared_attempts fault = None \<longleftrightarrow>
    (\<exists>n<4. fault n = None \<and> (\<forall>i<n. \<exists>e. fault i = Some e \<and> is_write_conflict e))"
  by (simp add: shared_attempts_def write_conflict_retries_def retry_attempts_None)

lemma check_shared_total:
  "\<exists>d t. check_shared bucket fault c key endpoint rule w = (Inr d, w\<lparr>shared_table := t\<rparr>)"
proof (cases "shared_backend (limiter w) \<and> endpoint_rules (limiter w) endpoint \<noteq> None \<and>
    shared_attempts fault = None")
  case True
  then show ?thesis
    by (auto simp: check_shared_def shared_decision_def catch_def Let_def split: prod.splits)
next
  case False
  then have "check_shared bucket fault c key endpoint rule w = (Inr Allowed, w\<lparr>shared_table := shared_table w\<rparr>)"
    by (auto simp: check_shared_def shared_decision_def catch_def)
  then show ?thesis by blast
qed

text \<open>Everything the callers need to know of one check.\<close>

lemma check_verbose_facts:
  assumes "check_rate_limit_verbose bucket fault c key endpoint w = (res, w')"
    and l: "local_check (instant c) (get_rule (limiter w) endpoint) (record_of (limiter w) key endpoint)
      = (dl, r)"
  shows "limiter w' = (limiter w)\<lparr>records := (records (limiter w))(record_key key endpoint \<mapsto> r)\<rparr>"
    and "\<exists>d. res = Inr d" and "dl \<noteq> Allowed \<Longrightarrow> res = Inr dl" and "res = Inr Allowed \<Longrightarrow> dl = Allowed"
    and "\<not> (shared_backend (limiter w) \<and> endpoint_rules (limiter w) endpoint \<noteq> None) \<Longrightarrow> res = Inr dl"
proof -
  let ?w = "w\<lparr>limiter := (limiter w)\<lparr>records := (records (limiter w))(record_key key endpoint \<mapsto> r)\<rparr>\<rparr>"
  let ?r = "get_rule (limiter w) endpoint"
  obtain d t where s: "check_shared bucket fault c key endpoint ?r ?w = (Inr d, ?w\<lparr>shared_table := t\<rparr>)"
    using check_shared_total by blast
  have *: "(res, w') = (if dl = Allowed then (Inr d, ?w\<lparr>shared_table := t\<rparr>) else (Inr dl, ?w))"
    using assms s by (auto simp: check_rate_limit_verbose_def Let_def split: if_splits)
  then show "limiter w' = (limiter w)\<lparr>records := (records (limiter w))(record_key key endpoint \<mapsto> r)\<rparr>"
    "\<exists>d. res = Inr d" "dl \<noteq> Allowed \<Longrightarrow> res = Inr dl" "res = Inr Allowed \<Longrightarrow> dl = Allowed"
    by (auto split: if_splits)
  assume "\<not> (shared_backend (limiter w) \<and> endpoint_rules (limiter w) endpoint \<noteq> None)"
  then have "check_shared bucket fault c key endpoint ?r ?w = (Inr Allowed, ?w)"
    by (auto simp: check_shared_def)
  then show "res = Inr dl" using * s by (auto split: if_splits)
qed

lemma check_never_fails:
  "\<exists>d. fst (check_rate_limit_verbose bucket fault c key endpoint w) = Inr d"
proof -
  obtain dl r where l: "local_check (instant c) (get_rule (limiter w) endpoint)
      (record_of (limiter w) key endpoint) = (dl, r)" by fastforce
  show ?thesis
    using check_verbose_facts(2) [OF _ l, of bucket fault]
    by (cases "check_rate_limit_verbose bucket fault c key endpoint w") auto
qed

lemma record_key_inject:
  "1 \<notin> set k \<Longrightarrow> 1 \<notin> set k' \<Longrightarrow> record_key k e = record_key k' e' \<longleftrightarrow> k = k' \<and> e = e'"
  unfolding record_key_def by (metis append_Cons append_Nil option.inject prod.inject split_once_append)

section \<open>Runs of one process\<close>

text \<open>
  The requests of a process and its hourly clean-up, in the order in which they take the lock of
  \<open>records\<close>.
\<close>

datatype rl_event =
    CheckEv str str clock "nat \<Rightarrow> auth_error option"
  | CleanupEv clock bool

primrec event_time :: "rl_event \<Rightarrow> int" where
  "event_time (CheckEv key endpoint c fault) = instant c"
| "event_time (CleanupEv c fails) = instant c"

primrec rl_step :: "(str \<Rightarrow> str \<Rightarrow> str) \<Rightarrow> rl_event \<Rightarrow> rl_world \<Rightarrow>
    (auth_error + decision) option \<times> rl_world" where
  "rl_step bucket (CheckEv key endpoint c fault) w =
    (let (res, w') = check_rate_limit_verbose bucket fault c key endpoint w in (Some res, w'))"
| "rl_step bucket (CleanupEv c fails) w = (None, cleanup_expired_records fails c w)"

text \<open>The times at which a bucket's requests were let through.\<close>

fun is_check_of :: "str \<Rightarrow> rl_event \<Rightarrow> bool" where
  "is_check_of b (CheckEv key endpoint c fault) = (record_key key endpoint = b)"
| "is_check_of b (CleanupEv c fails) = False"

definition allowed_times :: "str \<Rightarrow> (rl_event \<times> (auth_error + decision) option) list \<Rightarrow> int list" where
  "allowed_times b tr =
    map (\<lambda>(ev, _). event_time ev)
      (filter (\<lambda>(ev, ans). is_check_of b ev \<and> ans = Some (Inr Allowed)) tr)"

lemma allowed_times_append [simp]:
  "allowed_times b (xs @ ys) = allowed_times b xs @ allowed_times b ys"
  by (simp add: allowed_times_def)

lemma cleanup_limiter [simp]:
  "limiter (cleanup_expired_records fails c w) = (limiter w)\<lparr>records := (\<lambda>k.
     case records (limiter w) k of
       None \<Rightarrow> None
     | Some r \<Rightarrow> if keep_record (instant c) r then Some r else None)\<rparr>"
  by (simp add: cleanup_expired_records_def cleanup_shared_records_def)

lemma get_rule_records [simp]: "get_rule (l\<lparr>records := m\<rparr>) = get_rule l"
  by (simp add: get_rule_def fun_eq_iff split: option.split)

lemma rl_step_rules:
  "get_rule (limiter (snd (rl_step bucket ev w))) = get_rule (limiter w)"
proof (cases ev)
  case (CheckEv key endpoint c fault)
  obtain dl r where l: "local_check (instant c) (get_rule (limiter w) endpoint)
      (record_of (limiter w) key endpoint) = (dl, r)" by fastforce
  obtain res w' where e: "check_rate_limit_verbose bucket fault c key endpoint w = (res, w')"
    by fastforce
  show ?thesis
    using check_verbose_facts(1) [OF e l] e CheckEv by simp
next
  case (CleanupEv c fails)
  then show ?thesis by simp
qed

subsection \<open>The sliding window\<close>

definition stamps :: "rl_world \<Rightarrow> str \<Rightarrow> int list" where
  "stamps w b = (case records (limiter w) b of Some r \<Rightarrow> timestamps r | None \<Rightarrow> [])"

text \<open>
  After a prefix of the run that ends at \<open>now\<close>: the bucket's record holds at least the requests
  let through in the last window, it never holds more than the quota, and every past window
  satisfies the quota.
\<close>

definition window_inv :: "int \<Rightarrow> nat \<Rightarrow> int \<Rightarrow> int list \<Rightarrow> int list \<Rightarrow> bool" where
  "window_inv W n now H ts \<longleftrightarrow>
    length ts \<le> n \<and> sorted ts \<and> (\<forall>t\<in>set ts. t \<le> now) \<and> (\<forall>h\<in>set H. h \<le> now) \<and>
    (\<forall>cut\<ge>now - W. length (filter (\<lambda>h. cut < h) H) \<le> length (filter (\<lambda>h. cut < h) ts)) \<and>
    (\<forall>t. length (filter (\<lambda>h. t - W < h \<and> h \<le> t) H) \<le> n)"

lemma window_inv_later:
  "window_inv W n now H ts \<Longrightarrow> now \<le> now' \<Longrightarrow> window_inv W n now' H ts"
  unfolding window_inv_def by (intro conjI allI ballI; fastforce)

lemma window_inv_expire:
  assumes "window_inv W n now H ts"
  shows "window_inv W n now H (filter (\<lambda>t. now - W < t) ts)"
proof -
  have "filter (\<lambda>h. cut < h) (filter (\<lambda>t. now - W < t) ts) = filter (\<lambda>h. cut < h) ts"
    if "now - W \<le> cut" for cut
    using that by (simp add: filter_filter) (rule filter_cong, auto)
  then show ?thesis
    using assms length_filter_le [of "\<lambda>t. now - W < t" ts] unfolding window_inv_def
    by (auto simp: sorted_filter [of id, simplified] simp del: filter_filter
      intro: le_trans [OF length_filter_le])
qed

lemma window_inv_add:
  assumes inv: "window_inv W n now H ts" and room: "length ts < n" and W: "0 \<le> W"
  shows "window_inv W n now (H @ [now]) (ts @ [now])"
proof -
  have counts: "length (filter (\<lambda>h. cut < h) (H @ [now])) \<le> length (filter (\<lambda>h. cut < h) (ts @ [now]))"
    if "now - W \<le> cut" for cut
    using inv that by (simp add: window_inv_def)
  have "length (filter (\<lambda>h. t - W < h \<and> h \<le> t) (H @ [now])) \<le> n" for t
  proof (cases "t < now")
    case True
    then show ?thesis using inv by (simp add: window_inv_def)
  next
    case False
    then have "filter (\<lambda>h. t - W < h \<and> h \<le> t) (H @ [now]) = filter (\<lambda>h. t - W < h) (H @ [now])"
      using inv by (intro filter_cong) (auto simp: window_inv_def)
    also have "length \<dots> \<le> length (filter (\<lambda>h. t - W < h) (ts @ [now]))"
      using False by (intro counts) simp
    also have "\<dots> \<le> length (ts @ [now])" by (rule length_filter_le)
    finally show ?thesis using room by simp
  qed
  then show ?thesis
    using inv room counts unfolding window_inv_def by (auto simp: sorted_append)
qed

lemma window_inv_skip: "window_inv W n now H ts \<Longrightarrow> length (ts @ [now]) \<le> n \<Longrightarrow>
    window_inv W n now H (ts @ [now])"
  unfolding window_inv_def by (auto simp: sorted_append)

lemma window_inv_drop:
  assumes "window_inv W n now H ts" "ts = [] \<or> last ts \<le> now - W"
  shows "window_inv W n now H []"
proof -
  have "filter (\<lambda>h. cut < h) ts = []" if "now - W \<le> cut" for cut
  proof (cases "ts = []")
    case False
    then have "t \<le> last ts" if "t \<in> set ts" for t
      using assms(1) that unfolding window_inv_def by (simp add: sorted_le_last)
    then show ?thesis using assms(2) False that by (fastforce simp: filter_empty_conv)
  qed simp
  then show ?thesis using assms(1) unfolding window_inv_def by fastforce
qed

lemma local_check_cases:
  assumes "local_check now rule r = (d, r')"
  obtains (still) "d = StillBlocked" "r' = r"
    | (just) "d = JustBlocked"
        "timestamps r' = filter (\<lambda>t. now - window_duration rule < t) (timestamps r)"
    | (pass) "d = Allowed"
        "length (filter (\<lambda>t. now - window_duration rule < t) (timestamps r)) < max_requests rule"
        "timestamps r' = filter (\<lambda>t. now - window_duration rule < t) (timestamps r) @ [now]"
proof (cases "is_blocked now r")
  case True
  then show ?thesis using assms still by (simp add: local_check_def)
next
  case False
  then show ?thesis
    using assms just pass
    by (cases "is_rate_limited (max_requests rule) (cleanup_expired now (window_duration rule) r)")
      (auto simp: local_check_def cleanup_expired_def is_rate_limited_def block_def add_request_def)
qed

lemma local_check_window:
  assumes inv: "window_inv (window_duration rule) (max_requests rule) now H (timestamps r)"
    and l: "local_check now rule r = (d, r')" and W: "0 \<le> window_duration rule"
  shows "window_inv (window_duration rule) (max_requests rule) now
      (if d = Allowed then H @ [now] else H) (timestamps r')"
    "window_inv (window_duration rule) (max_requests rule) now H (timestamps r')"
proof -
  let ?W = "window_duration rule" and ?n = "max_requests rule"
  let ?ts = "filter (\<lambda>t. now - ?W < t) (timestamps r)"
  have e: "window_inv ?W ?n now H ?ts" using inv by (rule window_inv_expire)
  consider "d = StillBlocked" "r' = r" | "d = JustBlocked" "timestamps r' = ?ts"
    | "d = Allowed" "length ?ts < ?n" "timestamps r' = ?ts @ [now]"
    by (rule local_check_cases [OF l])
  then have "window_inv ?W ?n now (if d = Allowed then H @ [now] else H) (timestamps r') \<and>
      window_inv ?W ?n now H (timestamps r')"
  proof cases
    case 1
    then show ?thesis using inv by (simp only: decision.distinct if_False simp_thms)
  next
    case 2
    then show ?thesis using e by (simp only: decision.distinct if_False simp_thms)
  next
    case 3
    have "window_inv ?W ?n now (H @ [now]) (?ts @ [now])" by (rule window_inv_add [OF e 3(2) W])
    moreover have "window_inv ?W ?n now H (?ts @ [now])"
      using 3(2) by (intro window_inv_skip [OF e]) simp
    ultimately show ?thesis unfolding 3 by (simp only: simp_thms if_True)
  qed
  then show "window_inv ?W ?n now (if d = Allowed then H @ [now] else H) (timestamps r')"
    "window_inv ?W ?n now H (timestamps r')" by blast+
qed

lemma stamps_record_of: "stamps w (record_key key endpoint) = timestamps (record_of (limiter w) key endpoint)"
  by (simp add: stamps_def record_of_def new_record_def split: option.split)

text \<open>The invariant along a run: \<open>b\<close> is a bucket whose checks all follow the rule \<open>rule\<close>.\<close>

definition rule_of_bucket :: "str \<Rightarrow> rate_limit_rule \<Rightarrow> rl_world \<Rightarrow> rl_event list \<Rightarrow> bool" where
  "rule_of_bucket b rule w evs \<longleftrightarrow>
    (\<forall>key endpoint c fault. CheckEv key endpoint c fault \<in> set evs \<longrightarrow>
      record_key key endpoint = b \<longrightarrow> get_rule (limiter w) endpoint = rule)"

lemma rl_step_window:
  assumes inv: "window_inv (window_duration rule) (max_requests rule) now H (stamps w b)"
    and now: "now \<le> event_time ev"
    and rule: "\<And>key endpoint c fault. ev = CheckEv key endpoint c fault \<Longrightarrow>
      record_key key endpoint = b \<Longrightarrow> get_rule (limiter w) endpoint = rule"
    and W: "0 \<le> window_duration rule" "window_duration rule \<le> secs 3600"
    and st: "rl_step bucket ev w = (ans, w')"
  shows "window_inv (window_duration rule) (max_requests rule) (event_time ev)
    (H @ allowed_times b [(ev, ans)]) (stamps w' b)"
proof (cases ev)
  case (CheckEv key endpoint c fault)
  have inv': "window_inv (window_duration rule) (max_requests rule) (instant c) H (stamps w b)"
    using window_inv_later [OF inv now] CheckEv by simp
  obtain dl r where l: "local_check (instant c) (get_rule (limiter w) endpoint)
      (record_of (limiter w) key endpoint) = (dl, r)" by fastforce
  obtain res where e: "check_rate_limit_verbose bucket fault c key endpoint w = (res, w')"
    and ans: "ans = Some res" using st CheckEv by (auto split: prod.splits)
  note facts = check_verbose_facts [OF e l]
  show ?thesis
  proof (cases "record_key key endpoint = b")
    case True
    then have "stamps w' b = timestamps r" using facts(1) by (simp add: stamps_def)
    moreover have "get_rule (limiter w) endpoint = rule" using rule CheckEv True by simp
    moreover have "timestamps (record_of (limiter w) key endpoint) = stamps w b"
      using True stamps_record_of by metis
    ultimately show ?thesis
      using local_check_window [OF _ l] inv' W(1) facts(4) CheckEv True ans
      by (auto simp: allowed_times_def)
  next
    case False
    then have "stamps w' b = stamps w b" using facts(1) by (simp add: stamps_def)
    then show ?thesis using inv' False CheckEv by (simp add: allowed_times_def)
  qed
next
  case (CleanupEv c fails)
  have inv': "window_inv (window_duration rule) (max_requests rule) (instant c) H (stamps w b)"
    using window_inv_later [OF inv now] CleanupEv by simp
  have w': "w' = cleanup_expired_records fails c w" using st CleanupEv by simp
  have "stamps w' b = stamps w b \<or>
      stamps w' b = [] \<and> (stamps w b = [] \<or> last (stamps w b) \<le> instant c - secs 3600)"
    unfolding w' by (auto simp: stamps_def keep_record_def split: option.splits)
  then show ?thesis
    using inv' window_inv_drop [OF inv'] W(2) CleanupEv by (auto simp: allowed_times_def)
qed

lemma run_window:
  assumes "window_inv (window_duration rule) (max_requests rule) now H (stamps w b)"
    and "rule_of_bucket b rule w evs"
    and "sorted (now # map event_time evs)"
    and "0 \<le> window_duration rule" "window_duration rule \<le> secs 3600"
    and "run (rl_step bucket) evs w = (as, w')"
  shows "\<exists>now'. window_inv (window_duration rule) (max_requests rule) now'
    (H @ allowed_times b (zip evs as)) (stamps w' b)"
  using assms
proof (induction evs arbitrary: now H w as)
  case Nil
  then show ?case by (auto simp: allowed_times_def)
next
  case (Cons ev evs)
  obtain a t where st: "rl_step bucket ev w = (a, t)" by fastforce
  obtain as' where as': "run (rl_step bucket) evs t = (as', w')" "as = a # as'"
    using Cons.prems(6) st by (auto split: prod.splits)
  have step: "window_inv (window_duration rule) (max_requests rule) (event_time ev)
      (H @ allowed_times b [(ev, a)]) (stamps t b)"
    by (rule rl_step_window [OF Cons.prems(1) _ _ Cons.prems(4,5) st])
      (use Cons.prems(2,3) in \<open>auto simp: rule_of_bucket_def\<close>)
  have "rule_of_bucket b rule t evs"
    using Cons.prems(2) rl_step_rules [of bucket ev w] st by (auto simp: rule_of_bucket_def)
  then have "\<exists>now'. window_inv (window_duration rule) (max_requests rule) now'
      ((H @ allowed_times b [(ev, a)]) @ allowed_times b (zip evs as')) (stamps w' b)"
    using Cons.IH [OF step _ _ Cons.prems(4,5) as'(1)] Cons.prems(3) by simp
  moreover have "allowed_times b (zip (ev # evs) as) =
      allowed_times b [(ev, a)] @ allowed_times b (zip evs as')"
    using allowed_times_append [of b "[(ev, a)]" "zip evs as'"] as'(2) by simp
  ultimately show ?case by simp
qed

subsection \<open>Blocks\<close>

lemma rl_step_blocked:
  assumes "records (limiter w) b = Some r" "is_blocked (event_time ev) r"
    and "rl_step bucket ev w = (a, w')"
  shows "records (limiter w') b = Some r \<and> (is_check_of b ev \<longrightarrow> a = Some (Inr StillBlocked))"
proof (cases ev)
  case (CheckEv key endpoint c fault)
  obtain dl r' where l: "local_check (instant c) (get_rule (limiter w) endpoint)
      (record_of (limiter w) key endpoint) = (dl, r')" by fastforce
  obtain res where e: "check_rate_limit_verbose bucket fault c key endpoint w = (res, w')"
    and a: "a = Some res" using assms(3) CheckEv by (auto split: prod.splits)
  note facts = check_verbose_facts [OF e l]
  show ?thesis
  proof (cases "record_key key endpoint = b")
    case True
    then have "(dl, r') = (StillBlocked, r)"
      using l assms(1,2) CheckEv by (simp add: local_check_def record_of_def)
    then show ?thesis using facts(1,3) True a by simp
  qed (use facts(1) assms(1) CheckEv in simp)
next
  case (CleanupEv c fails)
  then show ?thesis using assms by (auto simp: keep_record_def)
qed

lemma run_blocked:
  assumes "records (limiter w) b = Some r" "blocked_until r = Some u"
    and "\<forall>ev\<in>set evs. event_time ev < u" "run (rl_step bucket) evs w = (as, w')"
  shows "\<forall>(ev, a)\<in>set (zip evs as). is_check_of b ev \<longrightarrow> a = Some (Inr StillBlocked)"
  using assms
proof (induction evs arbitrary: w as)
  case (Cons ev evs)
  obtain a t where st: "rl_step bucket ev w = (a, t)" by fastforce
  obtain as' where as': "run (rl_step bucket) evs t = (as', w')" "as = a # as'"
    using Cons.prems(4) st by (auto split: prod.splits)
  have "is_blocked (event_time ev) r" using Cons.prems(2,3) by (simp add: is_blocked_def)
  from rl_step_blocked [OF Cons.prems(1) this st] show ?case
    using Cons.IH [OF _ Cons.prems(2) _ as'(1)] Cons.prems(3) as'(2) by auto
qed simp

lemma just_blocked_record:
  assumes "check_rate_limit_verbose bucket fault c key endpoint w = (Inr JustBlocked, w')"
    and "\<not> (shared_backend (limiter w) \<and> endpoint_rules (limiter w) endpoint \<noteq> None)"
  shows "\<exists>r. records (limiter w') (record_key key endpoint) = Some r \<and>
    blocked_until r = Some (instant c + block_duration (get_rule (limiter w) endpoint))"
proof -
  let ?rule = "get_rule (limiter w) endpoint"
  obtain dl r where l: "local_check (instant c) ?rule (record_of (limiter w) key endpoint) = (dl, r)"
    by fastforce
  note facts = check_verbose_facts [OF assms(1) l]
  have "dl = JustBlocked" using facts(5) assms(2) by simp
  then have "blocked_until r = Some (instant c + block_duration ?rule)"
    using l by (auto simp: local_check_def Let_def block_def split: if_splits)
  then show ?thesis using facts(1) by simp
qed

section \<open>Runs against the shared table\<close>

text \<open>
  All replicas run their queries for one bucket, in one window \<open>W\<close>, against one row.
\<close>

definition shared_step :: "str \<Rightarrow> str \<Rightarrow> rate_limit_rule \<Rightarrow> int \<Rightarrow> int \<Rightarrow>
    shared_row option \<Rightarrow> decision \<times> shared_row option" where
  "shared_step key endpoint rule W now row =
    (let (d, r) = shared_query key endpoint rule W now row in (d, Some r))"

text \<open>The hits already counted in window \<open>W\<close>, and the block the row carries.\<close>

definition hits_in :: "int \<Rightarrow> shared_row option \<Rightarrow> nat" where
  "hits_in W row = (case row of Some r \<Rightarrow> if window_index r = W then hits r else 0 | None \<Rightarrow> 0)"

definition block_end :: "shared_row option \<Rightarrow> int option" where
  "block_end row = (case row of Some r \<Rightarrow> row_blocked_until r | None \<Rightarrow> None)"

lemma shared_step_facts:
  assumes "shared_step key endpoint rule W now row = (d, row')"
  shows "hits_in W row' = Suc (hits_in W row)"
    and "d = (if max_requests rule < Suc (hits_in W row) \<and>
                (case block_end row of None \<Rightarrow> True | Some u \<Rightarrow> u < now) then JustBlocked
              else if (case block_end row of None \<Rightarrow> False | Some u \<Rightarrow> now < u) then StillBlocked
              else Allowed)"
    and "block_end row' = (if d = JustBlocked
            then Some (now + secs (max (as_secs (block_duration rule)) 1)) else block_end row)"
proof -
  note defs = shared_step_def shared_query_def shared_upsert_def shared_reset_def hits_in_def
    block_end_def shared_must_block_def secs_def Let_def
  have d: "d = fst (shared_step key endpoint rule W now row)"
    and r: "row' = snd (shared_step key endpoint rule W now row)" using assms by simp_all
  show "hits_in W row' = Suc (hits_in W row)"
    unfolding r by (cases row) (simp_all add: defs)
  show "d = (if max_requests rule < Suc (hits_in W row) \<and>
                (case block_end row of None \<Rightarrow> True | Some u \<Rightarrow> u < now) then JustBlocked
              else if (case block_end row of None \<Rightarrow> False | Some u \<Rightarrow> now < u) then StillBlocked
              else Allowed)"
    unfolding d by (cases row) (auto simp: defs split: option.split)
  show "block_end row' = (if d = JustBlocked
            then Some (now + secs (max (as_secs (block_duration rule)) 1)) else block_end row)"
    unfolding d r by (cases row) (auto simp: defs split: option.split)
qed

lemma run_shared_hits:
  "run (shared_step key endpoint rule W) nows row = (ds, row') \<Longrightarrow>
    hits_in W row' = hits_in W row + length nows"
proof (induction nows arbitrary: row ds)
  case (Cons now nows)
  obtain d r where st: "shared_step key endpoint rule W now row = (d, r)" by fastforce
  obtain ds' where "run (shared_step key endpoint rule W) nows r = (ds', row')"
    using Cons.prems st by (auto split: prod.splits)
  then show ?case using Cons.IH shared_step_facts(1) [OF st] by simp
qed simp

section \<open>Properties\<close>

text \<open>
  C2: The sliding-window quota.  Take any sequence of requests and hourly clean-ups of one
  process, in time order, and a bucket (client, endpoint) whose record starts out absent.  In every
  window of the rule's length, however placed, at most \<open>max_requests\<close> requests of the bucket are let
  through; the clean-up does not weaken this as long as the window is at most one hour.
\<close>

theorem sliding_window_quota:
  assumes "records (limiter w) b = None" "rule_of_bucket b rule w evs"
    and "sorted (map event_time evs)"
    and "0 \<le> window_duration rule" "window_duration rule \<le> secs 3600"
  shows "length (filter (\<lambda>h. t - window_duration rule < h \<and> h \<le> t)
      (allowed_times b (zip evs (fst (run (rl_step bucket) evs w))))) \<le> max_requests rule"
proof (cases evs)
  case (Cons ev evs')
  obtain as w' where r: "run (rl_step bucket) evs w = (as, w')" by fastforce
  have "window_inv (window_duration rule) (max_requests rule) (event_time ev) [] (stamps w b)"
    using assms(1) by (simp add: window_inv_def stamps_def)
  from run_window [OF this assms(2) _ assms(4,5) r] show ?thesis
    using assms(3) Cons r by (auto simp: window_inv_def)
qed (simp add: allowed_times_def)

definition demo_clock :: "int \<Rightarrow> clock" where
  "demo_clock n = \<lparr>instant = secs n, wall_secs = n, db_now = secs n\<rparr>"

theorem sliding_window_quota_witness:
  "length (filter (\<lambda>h. secs 200 - secs 60 < h \<and> h \<le> secs 200)
      (allowed_times (record_key (lit ''ip'') (lit ''/a''))
        (zip [CheckEv (lit ''ip'') (lit ''/a'') (demo_clock 150) (\<lambda>_. None),
              CleanupEv (demo_clock 160) False,
              CheckEv (lit ''ip'') (lit ''/a'') (demo_clock 170) (\<lambda>_. None)]
          (fst (run (rl_step (\<lambda>_ _. []))
            [CheckEv (lit ''ip'') (lit ''/a'') (demo_clock 150) (\<lambda>_. None),
              CleanupEv (demo_clock 160) False,
              CheckEv (lit ''ip'') (lit ''/a'') (demo_clock 170) (\<lambda>_. None)]
            \<lparr>limiter = new_rate_limiter, shared_table = Map.empty\<rparr>))))) \<le> 10"
proof -
  let ?w = "\<lparr>limiter = new_rate_limiter, shared_table = Map.empty\<rparr>"
  let ?evs = "[CheckEv (lit ''ip'') (lit ''/a'') (demo_clock 150) (\<lambda>_. None),
    CleanupEv (demo_clock 160) False, CheckEv (lit ''ip'') (lit ''/a'') (demo_clock 170) (\<lambda>_. None)]"
  have "rule_of_bucket (record_key (lit ''ip'') (lit ''/a'')) default_rate_limit_rule ?w ?evs"
    by (simp add: rule_of_bucket_def get_rule_def new_rate_limiter_def)
  moreover have "sorted (map event_time ?evs)" by (simp add: demo_clock_def secs_def)
  ultimately show ?thesis
    using sliding_window_quota [of ?w "record_key (lit ''ip'') (lit ''/a'')"
        default_rate_limit_rule ?evs "secs 200" "\<lambda>_ _. []"]
    by (simp add: default_rate_limit_rule_def new_rate_limiter_def secs_def)
qed

text \<open>
  A block is reported once and then holds.  When a check on an endpoint without a shared
  counter answers \<open>JustBlocked\<close>, every later check of the same client on the same endpoint before the
  end of the block answers \<open>StillBlocked\<close>, whatever other requests and clean-ups happen in between;
  so one audit event is written per block, however large the flood.
\<close>

theorem block_reported_once:
  assumes "check_rate_limit_verbose bucket fault c key endpoint w = (Inr JustBlocked, w')"
    and "\<not> (shared_backend (limiter w) \<and> endpoint_rules (limiter w) endpoint \<noteq> None)"
    and "\<forall>ev\<in>set evs. event_time ev < instant c + block_duration (get_rule (limiter w) endpoint)"
    and "(ev, a) \<in> set (zip evs (fst (run (rl_step bucket) evs w')))"
    and "is_check_of (record_key key endpoint) ev"
  shows "a = Some (Inr StillBlocked)"
proof -
  obtain r where "records (limiter w') (record_key key endpoint) = Some r"
    "blocked_until r = Some (instant c + block_duration (get_rule (limiter w) endpoint))"
    using just_blocked_record [OF assms(1,2)] by blast
  moreover obtain as w'' where "run (rl_step bucket) evs w' = (as, w'')" by fastforce
  ultimately show ?thesis using run_blocked [OF _ _ assms(3)] assms(4,5) by fastforce
qed

theorem block_reported_once_witness:
  "\<exists>w'. check_rate_limit_verbose (\<lambda>_ _. []) (\<lambda>_. None) (demo_clock 5) (lit ''ip'') (lit ''/a'')
      \<lparr>limiter = with_default_rule \<lparr>window_duration = secs 60, max_requests = 0,
          block_duration = secs 300\<rparr> new_rate_limiter, shared_table = Map.empty\<rparr>
      = (Inr JustBlocked, w') \<and>
    fst (run (rl_step (\<lambda>_ _. [])) [CheckEv (lit ''ip'') (lit ''/a'') (demo_clock 304) (\<lambda>_. None)] w')
      = [Some (Inr StillBlocked)]"
proof -
  let ?w = "\<lparr>limiter = with_default_rule \<lparr>window_duration = secs 60, max_requests = 0,
          block_duration = secs 300\<rparr> new_rate_limiter, shared_table = Map.empty\<rparr>"
  let ?ev = "CheckEv (lit ''ip'') (lit ''/a'') (demo_clock 304) (\<lambda>_. None)"
  let ?chk = "check_rate_limit_verbose (\<lambda>_ _. []) (\<lambda>_. None) (demo_clock 5) (lit ''ip'') (lit ''/a'') ?w"
  have "fst ?chk = Inr JustBlocked"
    by (simp add: check_rate_limit_verbose_def local_check_def record_of_def new_record_def
      with_default_rule_def new_rate_limiter_def get_rule_def is_blocked_def cleanup_expired_def
      is_rate_limited_def)
  then obtain w' where chk: "?chk = (Inr JustBlocked, w')" by (metis prod.collapse)
  obtain a where a: "fst (run (rl_step (\<lambda>_ _. [])) [?ev] w') = [a]"
    by (cases "rl_step (\<lambda>_ _. []) ?ev w'") simp
  have "a = Some (Inr StillBlocked)"
    by (rule block_reported_once [OF chk, of "[?ev]" ?ev a])
      (simp_all only: a, simp_all add: with_default_rule_def new_rate_limiter_def get_rule_def
        demo_clock_def secs_def)
  then show ?thesis using chk a by auto
qed

text \<open>
  The check never fails and never touches another bucket.  Whatever the shared backend does
  (every attempt failing included) the caller gets a decision, the rules and the backend switch are
  unchanged, and the records of all other (client, endpoint) pairs are as before; with client keys
  that cannot contain the separator, two different pairs never share a bucket.
\<close>

theorem check_isolated:
  assumes "check_rate_limit_verbose bucket fault c key endpoint w = (res, w')"
  shows "(\<exists>d. res = Inr d) \<and> get_rule (limiter w') = get_rule (limiter w) \<and>
    shared_backend (limiter w') = shared_backend (limiter w) \<and>
    (\<forall>key' endpoint'. 1 \<notin> set key \<longrightarrow> 1 \<notin> set key' \<longrightarrow> (key', endpoint') \<noteq> (key, endpoint) \<longrightarrow>
      record_of (limiter w') key' endpoint' = record_of (limiter w) key' endpoint')"
proof -
  obtain dl r where l: "local_check (instant c) (get_rule (limiter w) endpoint)
      (record_of (limiter w) key endpoint) = (dl, r)" by fastforce
  note facts = check_verbose_facts [OF assms l]
  show ?thesis using facts(1,2) by (auto simp: record_of_def record_key_inject)
qed

theorem check_isolated_witness:
  "\<exists>res w'. check_rate_limit_verbose (\<lambda>_ _. []) (\<lambda>_. Some InvalidToken) (demo_clock 5) (lit ''a'')
      (lit ''/x'') \<lparr>limiter = with_shared_backend new_rate_limiter, shared_table = Map.empty\<rparr>
      = (res, w') \<and> (\<exists>d. res = Inr d) \<and>
    record_of (limiter w') (lit ''b'') (lit ''/x'') = new_record"
proof -
  let ?w = "\<lparr>limiter = with_shared_backend new_rate_limiter, shared_table = Map.empty\<rparr>"
  obtain res w' where chk: "check_rate_limit_verbose (\<lambda>_ _. []) (\<lambda>_. Some InvalidToken)
      (demo_clock 5) (lit ''a'') (lit ''/x'') ?w = (res, w')" by fastforce
  have "1 \<notin> set (lit ''a'')" "1 \<notin> set (lit ''b'')" by (simp_all add: lit_def)
  moreover have "record_of (limiter ?w) (lit ''b'') (lit ''/x'') = new_record"
    by (simp add: record_of_def with_shared_backend_def new_rate_limiter_def)
  ultimately show ?thesis using check_isolated [OF chk] chk by auto
qed

text \<open>
  The cross-replica quota of the shared counter.  Let the replicas' queries for one bucket and
  one window reach the database in any order, starting from a row without hits in that window: the
  \<open>i\<close>-th of them (from 0) is counted as hit \<open>i + 1\<close>, and once \<open>i \<ge> max_requests\<close> it is let through
  only when the database clock is exactly the end of the running block, the one instant that the
  two strict comparisons of the query leave open.
\<close>

theorem shared_window_quota:
  assumes "hits_in W row = 0" "i < length nows" "max_requests rule \<le> i"
  shows "fst (run (shared_step key endpoint rule W) nows row) ! i = Allowed \<longleftrightarrow>
    block_end (snd (run (shared_step key endpoint rule W) (take i nows) row)) = Some (nows ! i)"
proof -
  let ?f = "shared_step key endpoint rule W"
  obtain ds row' where r: "run ?f (take i nows) row = (ds, row')" by fastforce
  obtain d r' where st: "?f (nows ! i) row' = (d, r')" by fastforce
  have "hits_in W row' = i" using run_shared_hits [OF r] assms(1,2) by simp
  then have "d = Allowed \<longleftrightarrow> block_end row' = Some (nows ! i)"
    using shared_step_facts(2) [OF st] assms(3) by (auto split: option.splits if_splits)
  then show ?thesis using run_nth [OF assms(2), of ?f row] r st by simp
qed

theorem shared_window_quota_witness:
  "fst (run (shared_step (lit ''ip'') (lit ''/login'')
      \<lparr>window_duration = secs 300, max_requests = 1, block_duration = secs 10\<rparr> 7)
      [secs 1, secs 2, secs 12] None) ! 2 = Allowed \<longleftrightarrow>
    block_end (snd (run (shared_step (lit ''ip'') (lit ''/login'')
      \<lparr>window_duration = secs 300, max_requests = 1, block_duration = secs 10\<rparr> 7)
      (take 2 [secs 1, secs 2, secs 12]) None)) = Some ([secs 1, secs 2, secs 12] ! 2)"
  by (rule shared_window_quota) (simp_all add: hits_in_def)

text \<open>
  Without trusted proxy headers the client cannot choose its rate-limit identity: the
  middleware's decision and its effect on the limiter are the same for all values of the headers,
  because the bucket is built from the address of the connection and the matched route.
\<close>

theorem untrusted_headers_ignored:
  "(let (o1, _, w1) = rate_limit_layer bucket fault c False addr headers1 matched path w;
        (o2, _, w2) = rate_limit_layer bucket fault c False addr headers2 matched path w
    in o1 = o2 \<and> w1 = w2)"
  by (simp add: rate_limit_layer_def client_ip_def Let_def split: prod.splits sum.splits decision.splits)

text \<open>\<open>reset_limit\<close> clears the buckets of one client, all of them and no others.\<close>

lemma reset_limit_exact:
  assumes "1 \<notin> set key" "1 \<notin> set key'"
  shows "records (reset_limit key l) (record_key key' endpoint) =
    (if key' = key then None else records l (record_key key' endpoint))"
proof -
  have "(\<exists>r. record_key key' endpoint = (key @ [1]) @ r) \<longleftrightarrow> key' = key"
    using record_key_inject [OF assms(2,1)] by (auto simp: record_key_def)
  then show ?thesis by (auto simp: reset_limit_def strip_prefix_None)
qed

end
