(* ===== verification/Lockout.thy ===== *)
theory Lockout
  imports Errors
begin

text \<open>
  \<^verbatim>\<open>src/models/account_lockout.rs\<close> and \<^verbatim>\<open>src/services/account_lockout.rs\<close>: counting failed logins
  per account and per address, locking at the configured number, unlocking on expiry, on success
  and by hand.  Times are nanoseconds; one operation reads the clock once.  The table is the list
  of (record id, row) pairs, so that \<^verbatim>\<open>UPSERT type::record(..)\<close> addresses a row by its id while
  the look-up goes by \<open>identifier\<close> and \<open>lockout_type\<close>, as in the source.
\<close>

section \<open>The record\<close>

datatype lockout_status = Normal | Locked | TemporaryLocked

datatype lockout_type = UserLockout | IpAddressLockout

record account_lockout =
  lock_ident :: str
  lock_type :: lockout_type
  failed_attempts :: nat
  lock_status :: lockout_status
  locked_at :: "int option"
  locked_until :: "int option"
  last_attempt_at :: int
  created_at :: int
  updated_at :: int

record lockout_config =
  max_attempts :: nat
  lockout_duration_minutes :: nat
  reset_window_minutes :: nat
  enable_ip_lockout :: bool
  enable_user_lockout :: bool

definition default_lockout_config :: lockout_config where
  "default_lockout_config = \<lparr>max_attempts = 5, lockout_duration_minutes = 15,
    reset_window_minutes = 60, enable_ip_lockout = True, enable_user_lockout = True\<rparr>"

definition minutes :: "nat \<Rightarrow> int" where
  "minutes n = int n * 60000000000"

definition num_seconds :: "int \<Rightarrow> int" where
  "num_seconds d = (if 0 \<le> d then d div 1000000000 else - ((- d) div 1000000000))"

definition unlock_account :: "int \<Rightarrow> account_lockout \<Rightarrow> account_lockout" where
  "unlock_account now r =
    r\<lparr>lock_status := Normal, failed_attempts := 0, locked_at := None, locked_until := None,
      updated_at := now\<rparr>"

definition is_locked :: "int \<Rightarrow> account_lockout \<Rightarrow> bool" where
  "is_locked now r =
    (case lock_status r of
       Normal \<Rightarrow> False
     | _ \<Rightarrow> (case locked_until r of Some u \<Rightarrow> now < u | None \<Rightarrow> True))"

definition is_lock_expired :: "int \<Rightarrow> account_lockout \<Rightarrow> bool" where
  "is_lock_expired now r = (case locked_until r of Some u \<Rightarrow> u \<le> now | None \<Rightarrow> False)"

definition remaining_lockout_seconds :: "int \<Rightarrow> account_lockout \<Rightarrow> int option" where
  "remaining_lockout_seconds now r =
    (case locked_until r of
       Some u \<Rightarrow> if 0 < num_seconds (u - now) then Some (num_seconds (u - now)) else None
     | None \<Rightarrow> None)"

definition should_reset_attempts :: "lockout_config \<Rightarrow> int \<Rightarrow> account_lockout \<Rightarrow> bool" where
  "should_reset_attempts cfg now r \<longleftrightarrow> last_attempt_at r < now - minutes (reset_window_minutes cfg)"

record lockout_check_result =
  res_locked :: bool
  remaining_attempts :: nat
  remaining_seconds :: "int option"
  res_type :: "lockout_type option"
  res_message :: str

definition normal_result :: "nat \<Rightarrow> lockout_check_result" where
  "normal_result n = \<lparr>res_locked = False, remaining_attempts = n, remaining_seconds = None,
    res_type = None,
    res_message = lit ''Login allowed. '' @ dec n @ lit '' attempts remaining.''\<rparr>"

definition locked_result :: "lockout_type \<Rightarrow> int option \<Rightarrow> lockout_check_result" where
  "locked_result ty secs = \<lparr>res_locked = True, remaining_attempts = 0, remaining_seconds = secs,
    res_type = Some ty,
    res_message = (case secs of
        Some n \<Rightarrow>
          if 0 < n div 60
          then lit ''Account locked. Try again in '' @ dec_int (n div 60) @ lit '' minutes.''
          else lit ''Account locked. Try again in '' @ dec_int n @ lit '' seconds.''
      | None \<Rightarrow> lit ''Account is locked.'')\<rparr>"

section \<open>The table and the audit events\<close>

record lock_event =
  ev_ip :: str
  ev_scope :: lockout_type
  ev_attempts :: nat

record lockout_world =
  lockouts :: "(str \<times> account_lockout) list"
  lock_events :: "lock_event list"

type_synonym 'a lockout_op = "(lockout_world, 'a) handler"

definition lockout_record_id :: "str \<Rightarrow> lockout_type \<Rightarrow> str" where
  "lockout_record_id ident ty =
    (case ty of UserLockout \<Rightarrow> lit ''user'' | IpAddressLockout \<Rightarrow> lit ''ipaddress'') @ [58] @
    map (\<lambda>c. if c = 32 then 95 else c) ident"

definition get_lockout_record :: "faults \<Rightarrow> str \<Rightarrow> lockout_type \<Rightarrow> account_lockout lockout_op" where
  "get_lockout_record F ident ty =
    bind (map_error (\<lambda>e. DatabaseError (display e))
        (db_read F ''get_lockout_record''
          (\<lambda>w. find (\<lambda>(_, r). lock_ident r = ident \<and> lock_type r = ty) (lockouts w))))
      (\<lambda>row. the_or (map_option snd row) UserNotFound)"

definition save_lockout_record :: "faults \<Rightarrow> account_lockout \<Rightarrow> unit lockout_op" where
  "save_lockout_record F r =
    map_error (\<lambda>e. DatabaseError (display e))
      (db_write F ''save_lockout_record''
        (\<lambda>w. w\<lparr>lockouts := upsert (lockout_record_id (lock_ident r) (lock_type r)) (\<lambda>_. r) (lockouts w)\<rparr>))"

section \<open>Checking\<close>

definition check_lockout :: "faults \<Rightarrow> lockout_config \<Rightarrow> int \<Rightarrow> bool \<Rightarrow> lockout_type \<Rightarrow> str \<Rightarrow>
    lockout_check_result lockout_op" where
  "check_lockout F cfg now enabled ty ident =
    (if \<not> enabled then ret (normal_result (max_attempts cfg))
     else catch (get_lockout_record F ident ty)
       (\<lambda>e. if e = UserNotFound then ret (normal_result (max_attempts cfg)) else throw e)
       (\<lambda>r. if is_lock_expired now r \<and> lock_status r \<noteq> Normal
            then seq (save_lockout_record F (unlock_account now r))
                   (ret (normal_result (max_attempts cfg)))
            else
              let reset = should_reset_attempts cfg now r \<and> lock_status r = Normal;
                  r' = (if reset then r\<lparr>failed_attempts := 0, updated_at := now\<rparr> else r)
              in seq (if reset then save_lockout_record F r' else ret ())
                   (ret (if is_locked now r' then locked_result ty (remaining_lockout_seconds now r')
                         else normal_result (max_attempts cfg - failed_attempts r')))))"

definition check_user_lockout :: "faults \<Rightarrow> lockout_config \<Rightarrow> int \<Rightarrow> str \<Rightarrow>
    lockout_check_result lockout_op" where
  "check_user_lockout F cfg now user = check_lockout F cfg now (enable_user_lockout cfg) UserLockout user"

definition check_ip_lockout :: "faults \<Rightarrow> lockout_config \<Rightarrow> int \<Rightarrow> str \<Rightarrow>
    lockout_check_result lockout_op" where
  "check_ip_lockout F cfg now ip = check_lockout F cfg now (enable_ip_lockout cfg) IpAddressLockout ip"

section \<open>Counting\<close>

record attempt_outcome =
  out_attempts :: nat
  just_locked :: bool

definition lockout_conflict_retries :: nat where
  "lockout_conflict_retries = 5"

text \<open>
  The three statements of the counter, on the addressed row: create or increment, lock when the
  threshold is reached and the row is not locked, read back.
\<close>

definition increment_row :: "lockout_config \<Rightarrow> int \<Rightarrow> str \<Rightarrow> lockout_type \<Rightarrow>
    account_lockout option \<Rightarrow> account_lockout" where
  "increment_row cfg now ident ty row =
    (case row of
       None \<Rightarrow> \<lparr>lock_ident = ident, lock_type = ty, failed_attempts = 1, lock_status = Normal,
                locked_at = None, locked_until = None, last_attempt_at = now, created_at = now,
                updated_at = now\<rparr>
     | Some r \<Rightarrow> r\<lparr>lock_ident := ident, lock_type := ty, failed_attempts := failed_attempts r + 1,
                   last_attempt_at := now, updated_at := now\<rparr>)"

definition must_lock :: "lockout_config \<Rightarrow> account_lockout \<Rightarrow> bool" where
  "must_lock cfg r \<longleftrightarrow> max_attempts cfg \<le> failed_attempts r \<and> lock_status r \<noteq> Locked"

definition lock_row :: "lockout_config \<Rightarrow> int \<Rightarrow> account_lockout \<Rightarrow> account_lockout" where
  "lock_row cfg now r = r\<lparr>lock_status := Locked, locked_at := Some now,
    locked_until := Some (now + minutes (lockout_duration_minutes cfg))\<rparr>"

definition increment_query :: "lockout_config \<Rightarrow> int \<Rightarrow> str \<Rightarrow> lockout_type \<Rightarrow>
    (str \<times> account_lockout) list \<Rightarrow> attempt_outcome \<times> (str \<times> account_lockout) list" where
  "increment_query cfg now ident ty rows =
    (let id = lockout_record_id ident ty;
         r = increment_row cfg now ident ty (map_of rows id);
         must = must_lock cfg r;
         r' = (if must then lock_row cfg now r else r)
     in (\<lparr>out_attempts = failed_attempts r', just_locked = must\<rparr>, upsert id (\<lambda>_. r') rows))"

definition increment_failed_attempts :: "faults \<Rightarrow> lockout_config \<Rightarrow> int \<Rightarrow> str \<Rightarrow> lockout_type \<Rightarrow>
    attempt_outcome lockout_op" where
  "increment_failed_attempts F cfg now ident ty w =
    (case retry_attempts lockout_conflict_retries (F (lit ''lockout_increment_attempts'')) 0 of
       Some e \<Rightarrow> (Inl e, w)
     | None \<Rightarrow>
         let (out, rows) = increment_query cfg now ident ty (lockouts w)
         in (Inr out, w\<lparr>lockouts := rows\<rparr>))"

definition record_lockout_event :: "str \<Rightarrow> lockout_type \<Rightarrow> nat \<Rightarrow> lockout_world \<Rightarrow> lockout_world" where
  "record_lockout_event ident ty n w =
    w\<lparr>lock_events := lock_events w @
      [\<lparr>ev_ip = (if ty = IpAddressLockout then ident else []), ev_scope = ty, ev_attempts = n\<rparr>]\<rparr>"

definition record_failed_attempt :: "faults \<Rightarrow> lockout_config \<Rightarrow> int \<Rightarrow> bool \<Rightarrow> lockout_type \<Rightarrow> str \<Rightarrow>
    unit lockout_op" where
  "record_failed_attempt F cfg now enabled ty ident =
    (if \<not> enabled then ret ()
     else bind (increment_failed_attempts F cfg now ident ty) (\<lambda>out.
       if just_locked out then writes (record_lockout_event ident ty (out_attempts out))
       else ret ()))"

definition record_failed_user_attempt :: "faults \<Rightarrow> lockout_config \<Rightarrow> int \<Rightarrow> str \<Rightarrow> unit lockout_op" where
  "record_failed_user_attempt F cfg now user =
    record_failed_attempt F cfg now (enable_user_lockout cfg) UserLockout user"

definition record_failed_ip_attempt :: "faults \<Rightarrow> lockout_config \<Rightarrow> int \<Rightarrow> str \<Rightarrow> unit lockout_op" where
  "record_failed_ip_attempt F cfg now ip =
    record_failed_attempt F cfg now (enable_ip_lockout cfg) IpAddressLockout ip"

section \<open>Resetting and unlocking\<close>

definition reset_attempts :: "faults \<Rightarrow> int \<Rightarrow> lockout_type \<Rightarrow> str \<Rightarrow> unit lockout_op" where
  "reset_attempts F now ty ident =
    catch (get_lockout_record F ident ty)
      (\<lambda>e. if e = UserNotFound then ret () else throw e)
      (\<lambda>r. save_lockout_record F (unlock_account now r))"

definition reset_user_attempts :: "faults \<Rightarrow> int \<Rightarrow> str \<Rightarrow> unit lockout_op" where
  "reset_user_attempts F now user = reset_attempts F now UserLockout user"

definition reset_ip_attempts :: "faults \<Rightarrow> int \<Rightarrow> str \<Rightarrow> unit lockout_op" where
  "reset_ip_attempts F now ip = reset_attempts F now IpAddressLockout ip"

definition unlock :: "faults \<Rightarrow> int \<Rightarrow> lockout_type \<Rightarrow> str \<Rightarrow> bool lockout_op" where
  "unlock F now ty ident =
    catch (get_lockout_record F ident ty)
      (\<lambda>e. if e = UserNotFound then ret False else throw e)
      (\<lambda>r. if is_locked now r
           then seq (save_lockout_record F (unlock_account now r)) (ret True)
           else ret False)"

definition unlock_user :: "faults \<Rightarrow> int \<Rightarrow> str \<Rightarrow> bool lockout_op" where
  "unlock_user F now user = unlock F now UserLockout user"

definition unlock_ip :: "faults \<Rightarrow> int \<Rightarrow> str \<Rightarrow> bool lockout_op" where
  "unlock_ip F now ip = unlock F now IpAddressLockout ip"

definition stale_lockout :: "lockout_config \<Rightarrow> int \<Rightarrow> account_lockout \<Rightarrow> bool" where
  "stale_lockout cfg now r \<longleftrightarrow>
    (lock_status r \<in> {Locked, TemporaryLocked} \<and>
      (case locked_until r of Some u \<Rightarrow> u < now | None \<Rightarrow> False)) \<or>
    (lock_status r = Normal \<and> last_attempt_at r < now - minutes (reset_window_minutes cfg))"

definition cleanup_expired_lockouts :: "faults \<Rightarrow> lockout_config \<Rightarrow> int \<Rightarrow> nat lockout_op" where
  "cleanup_expired_lockouts F cfg now =
    seq (map_error (\<lambda>e. DatabaseError (display e))
        (db_write F ''cleanup_expired_lockouts''
          (\<lambda>w. w\<lparr>lockouts := delete_where (\<lambda>(_, r). stale_lockout cfg now r) (lockouts w)\<rparr>)))
      (ret 0)"

section \<open>The table invariant and look-up\<close>

text \<open>
  Every row sits under the id computed from its own identifier and type, and ids are unique: then
  the schema's unique index on (identifier, lockout_type) is never violated and a look-up by
  identifier finds at most the row under the computed id.
\<close>

definition rows_ok :: "(str \<times> account_lockout) list \<Rightarrow> bool" where
  "rows_ok rows \<longleftrightarrow> distinct (map fst rows) \<and>
    (\<forall>(k, r)\<in>set rows. k = lockout_record_id (lock_ident r) (lock_type r))"

definition record_for :: "lockout_world \<Rightarrow> str \<Rightarrow> lockout_type \<Rightarrow> account_lockout option" where
  "record_for w ident ty =
    (case map_of (lockouts w) (lockout_record_id ident ty) of
       Some r \<Rightarrow> if lock_ident r = ident \<and> lock_type r = ty then Some r else None
     | None \<Rightarrow> None)"

lemma rows_ok_upsert:
  assumes "rows_ok rows" "k = lockout_record_id (lock_ident r) (lock_type r)"
  shows "rows_ok (upsert k (\<lambda>_. r) rows)"
proof -
  have "set (upsert k (\<lambda>_. r) rows) \<subseteq> insert (k, r) (set rows)"
    by (induction k "\<lambda>_ :: account_lockout option. r" rows rule: upsert.induct) auto
  then show ?thesis using assms distinct_upsert [of rows k "\<lambda>_. r"] unfolding rows_ok_def by blast
qed

lemma rows_ok_delete: "rows_ok rows \<Longrightarrow> rows_ok (delete_where P rows)"
  by (auto simp: rows_ok_def distinct_map_delete_where)

lemma find_record:
  assumes "rows_ok (lockouts w)"
  shows "map_option snd (find (\<lambda>(_, r). lock_ident r = ident \<and> lock_type r = ty) (lockouts w)) =
    record_for w ident ty"
proof (cases "find (\<lambda>(_, r). lock_ident r = ident \<and> lock_type r = ty) (lockouts w)")
  case None
  then have none: "\<forall>(k, r)\<in>set (lockouts w). \<not> (lock_ident r = ident \<and> lock_type r = ty)"
    by (auto simp: find_None_all)
  have "record_for w ident ty = None"
    using none by (auto simp: record_for_def split: option.split dest!: map_of_SomeD)
  then show ?thesis using None by simp
next
  case (Some kr)
  obtain k r where kr: "kr = (k, r)" by fastforce
  have "(k, r) \<in> set (lockouts w)" "lock_ident r = ident" "lock_type r = ty"
    using find_Some_in [OF Some] kr by auto
  moreover from this have "k = lockout_record_id ident ty"
    using assms by (auto simp: rows_ok_def)
  ultimately have "record_for w ident ty = Some r"
    using assms by (simp add: record_for_def rows_ok_def)
  then show ?thesis using Some kr by simp
qed

lemma get_lockout_record_eq:
  "rows_ok (lockouts w) \<Longrightarrow> F (lit ''get_lockout_record'') 0 = None \<Longrightarrow>
    get_lockout_record F ident ty w =
      (case record_for w ident ty of Some r \<Rightarrow> (Inr r, w) | None \<Rightarrow> (Inl UserNotFound, w))"
  by (auto simp: get_lockout_record_def db_defs op_defs find_record [symmetric] split: option.split)

lemma get_lockout_record_frame: "snd (get_lockout_record F ident ty w) = w"
  by (simp add: get_lockout_record_def db_defs op_defs split: option.split)

text \<open>Every operation keeps the invariant, on every path.\<close>

definition lockout_inv :: "lockout_world \<Rightarrow> bool" where
  "lockout_inv w \<longleftrightarrow> rows_ok (lockouts w)"

lemma preserves_get [preserve]: "preserves I (get_lockout_record F ident ty)"
  by (simp add: preserves_def get_lockout_record_frame)

lemma preserves_save [preserve]: "preserves lockout_inv (save_lockout_record F r)"
  unfolding save_lockout_record_def
  by (intro preserve preserves_db_write) (simp add: lockout_inv_def rows_ok_upsert)

lemma increment_query_ok:
  "rows_ok rows \<Longrightarrow> rows_ok (snd (increment_query cfg now ident ty rows))"
  by (auto simp: increment_query_def Let_def lock_row_def increment_row_def
    intro!: rows_ok_upsert split: option.split)

lemma preserves_increment [preserve]:
  "preserves lockout_inv (increment_failed_attempts F cfg now ident ty)"
proof (rule preservesI)
  fix w assume "lockout_inv w"
  then show "lockout_inv (snd (increment_failed_attempts F cfg now ident ty w))"
    using increment_query_ok [of "lockouts w" cfg now ident ty]
    by (auto simp: increment_failed_attempts_def lockout_inv_def split: option.split prod.splits)
qed

lemma preserves_check: "preserves lockout_inv (check_lockout F cfg now enabled ty ident)"
  unfolding check_lockout_def Let_def by (intro preserve)

lemma preserves_record_failed: "preserves lockout_inv (record_failed_attempt F cfg now enabled ty ident)"
  unfolding record_failed_attempt_def
  by (intro preserve preserves_writes) (simp add: lockout_inv_def record_lockout_event_def)

lemma preserves_reset: "preserves lockout_inv (reset_attempts F now ty ident)"
  unfolding reset_attempts_def by (intro preserve)

lemma preserves_unlock: "preserves lockout_inv (unlock F now ty ident)"
  unfolding unlock_def by (intro preserve)

lemma preserves_cleanup: "preserves lockout_inv (cleanup_expired_lockouts F cfg now)"
  unfolding cleanup_expired_lockouts_def
  by (intro preserve preserves_db_write) (simp add: lockout_inv_def rows_ok_delete)

section \<open>Sequences of failures\<close>

lemma lockout_record_id_type: "lockout_record_id i ty = lockout_record_id j ty' \<Longrightarrow> ty = ty'"
  by (cases ty; cases ty') (auto simp: lockout_record_id_def lit_def)

lemma lockout_record_id_inject:
  assumes "32 \<notin> set i" "32 \<notin> set j"
  shows "lockout_record_id i ty = lockout_record_id j ty' \<longleftrightarrow> i = j \<and> ty = ty'"
proof -
  have id: "map (\<lambda>c. if c = 32 then 95 else c) k = k" if "32 \<notin> set k" for k :: str
    using that by (induction k) auto
  show ?thesis
    using lockout_record_id_type [of i ty j ty'] assms by (auto simp: lockout_record_id_def id)
qed

text \<open>One recorded failure, as an atomic step of the database.\<close>

definition failure_step :: "lockout_config \<Rightarrow> int \<times> lockout_type \<times> str \<Rightarrow>
    (str \<times> account_lockout) list \<Rightarrow> attempt_outcome \<times> (str \<times> account_lockout) list" where
  "failure_step cfg ev rows = (case ev of (now, ty, ident) \<Rightarrow> increment_query cfg now ident ty rows)"

text \<open>The failures of a sequence that are counted against \<open>(ident, ty)\<close>.\<close>

definition own_failures :: "lockout_type \<Rightarrow> str \<Rightarrow> (int \<times> lockout_type \<times> str) list \<Rightarrow> int list" where
  "own_failures ty ident evs = map fst (filter (\<lambda>(_, t, i). t = ty \<and> i = ident) evs)"

definition own_outcomes :: "lockout_type \<Rightarrow> str \<Rightarrow> (int \<times> lockout_type \<times> str) list \<Rightarrow>
    attempt_outcome list \<Rightarrow> attempt_outcome list" where
  "own_outcomes ty ident evs outs =
    map snd (filter (\<lambda>((_, t, i), _). t = ty \<and> i = ident) (zip evs outs))"

text \<open>
  The row after the failures at times \<open>ts\<close> (oldest first): the abstract state the detailed
  statements implement.
\<close>

definition counted_row :: "lockout_config \<Rightarrow> lockout_type \<Rightarrow> str \<Rightarrow> int list \<Rightarrow> account_lockout option" where
  "counted_row cfg ty ident ts =
    (if ts = [] then None
     else Some \<lparr>lock_ident = ident, lock_type = ty, failed_attempts = length ts,
       lock_status = (if max_attempts cfg \<le> length ts then Locked else Normal),
       locked_at = (if max_attempts cfg \<le> length ts then Some (ts ! (max_attempts cfg - 1)) else None),
       locked_until = (if max_attempts cfg \<le> length ts
         then Some (ts ! (max_attempts cfg - 1) + minutes (lockout_duration_minutes cfg)) else None),
       last_attempt_at = last ts, created_at = hd ts, updated_at = last ts\<rparr>)"

lemma counted_row_step:
  assumes "0 < max_attempts cfg"
    and "increment_query cfg now ident ty rows = (out, rows')"
    and "map_of rows (lockout_record_id ident ty) = counted_row cfg ty ident ts"
  shows "map_of rows' (lockout_record_id ident ty) = counted_row cfg ty ident (ts @ [now])"
    and "out = \<lparr>out_attempts = Suc (length ts), just_locked = (Suc (length ts) = max_attempts cfg)\<rparr>"
proof -
  have rows': "rows' = snd (increment_query cfg now ident ty rows)"
    and out: "out = fst (increment_query cfg now ident ty rows)" using assms(2) by simp_all
  note defs = increment_query_def increment_row_def must_lock_def lock_row_def counted_row_def Let_def
  show "map_of rows' (lockout_record_id ident ty) = counted_row cfg ty ident (ts @ [now])"
    unfolding rows' using assms(1,3) by (cases "ts = []") (auto simp: defs nth_append)
  show "out = \<lparr>out_attempts = Suc (length ts), just_locked = (Suc (length ts) = max_attempts cfg)\<rparr>"
    unfolding out using assms(1,3) by (cases "ts = []") (auto simp: defs)
qed

lemma increment_query_other:
  assumes "increment_query cfg now ident ty rows = (out, rows')" "k \<noteq> lockout_record_id ident ty"
  shows "map_of rows' k = map_of rows k"
proof -
  have "rows' = snd (increment_query cfg now ident ty rows)" using assms(1) by simp
  then show ?thesis using assms(2) by (simp add: increment_query_def Let_def)
qed

abbreviation no_alias :: "lockout_type \<Rightarrow> str \<Rightarrow> (int \<times> lockout_type \<times> str) list \<Rightarrow> bool" where
  "no_alias ty ident evs \<equiv>
    \<forall>(now, t, i)\<in>set evs. lockout_record_id i t = lockout_record_id ident ty \<longrightarrow> i = ident"

abbreviation is_own :: "lockout_type \<Rightarrow> str \<Rightarrow> int \<times> lockout_type \<times> str \<Rightarrow> bool" where
  "is_own ty ident ev \<equiv> fst (snd ev) = ty \<and> snd (snd ev) = ident"

lemma failure_step_counts:
  assumes "0 < max_attempts cfg"
    and "map_of rows (lockout_record_id ident ty) = counted_row cfg ty ident ts"
    and "no_alias ty ident [ev]"
    and st: "failure_step cfg ev rows = (out, mid)"
  shows "map_of mid (lockout_record_id ident ty) =
      counted_row cfg ty ident (if is_own ty ident ev then ts @ [fst ev] else ts)"
    and "is_own ty ident ev \<Longrightarrow>
      out = \<lparr>out_attempts = Suc (length ts), just_locked = (Suc (length ts) = max_attempts cfg)\<rparr>"
proof -
  obtain now t i where ev: "ev = (now, t, i)" by (cases ev) auto
  have st: "increment_query cfg now i t rows = (out, mid)"
    using st by (simp add: failure_step_def ev)
  have "\<not> is_own ty ident ev \<Longrightarrow> lockout_record_id ident ty \<noteq> lockout_record_id i t"
    using assms(3) ev lockout_record_id_type [of ident ty i t] by auto
  then show "map_of mid (lockout_record_id ident ty) =
      counted_row cfg ty ident (if is_own ty ident ev then ts @ [fst ev] else ts)"
    using counted_row_step(1) [OF assms(1) _ assms(2)] increment_query_other [OF st] st assms(2) ev
    by auto
  assume "is_own ty ident ev"
  then show "out = \<lparr>out_attempts = Suc (length ts), just_locked = (Suc (length ts) = max_attempts cfg)\<rparr>"
    using counted_row_step(2) [OF assms(1) _ assms(2)] st ev by auto
qed

lemma own_Cons [simp]:
  "own_failures ty ident (ev # evs) =
    (if is_own ty ident ev then fst ev # own_failures ty ident evs else own_failures ty ident evs)"
  "own_outcomes ty ident (ev # evs) (out # outs) =
    (if is_own ty ident ev then out # own_outcomes ty ident evs outs else own_outcomes ty ident evs outs)"
  "own_failures ty ident [] = []" "own_outcomes ty ident [] outs = []"
  by (cases ev; simp add: own_failures_def own_outcomes_def)+

lemma run_failures_outcomes:
  assumes "0 < max_attempts cfg"
    and "map_of rows (lockout_record_id ident ty) = counted_row cfg ty ident ts"
    and "no_alias ty ident evs" "run (failure_step cfg) evs rows = (outs, rows')"
  shows "own_outcomes ty ident evs outs =
      map (\<lambda>n. \<lparr>out_attempts = Suc n, just_locked = (Suc n = max_attempts cfg)\<rparr>)
        [length ts..<length ts + length (own_failures ty ident evs)]"
  using assms(2-)
proof (induction evs arbitrary: ts rows outs)
  case (Cons ev evs)
  obtain out mid where st: "failure_step cfg ev rows = (out, mid)" by fastforce
  obtain outs' where r: "run (failure_step cfg) evs mid = (outs', rows')" "outs = out # outs'"
    using Cons.prems(3) st by (auto split: prod.splits)
  have "no_alias ty ident [ev]" using Cons.prems(2) by simp
  note step = failure_step_counts [OF assms(1) Cons.prems(1) this st]
  have cons: "[n..<n + Suc k] = n # [Suc n..<Suc n + k]" for n k by (simp add: upt_conv_Cons)
  show ?case
  proof (cases "is_own ty ident ev")
    case True
    then show ?thesis
      using Cons.IH [of mid "ts @ [fst ev]", OF _ _ r(1)] step Cons.prems(2) r(2) cons by simp
  next
    case False
    then show ?thesis using Cons.IH [of mid ts, OF _ _ r(1)] step(1) Cons.prems(2) r(2) by auto
  qed
qed simp

section \<open>What a check answers\<close>

text \<open>The contract of a check, as a function of the one row it is about.\<close>

definition lockout_answer :: "lockout_config \<Rightarrow> int \<Rightarrow> lockout_type \<Rightarrow> account_lockout option \<Rightarrow>
    lockout_check_result" where
  "lockout_answer cfg now ty row =
    (case row of
       None \<Rightarrow> normal_result (max_attempts cfg)
     | Some r \<Rightarrow>
         if is_locked now r then locked_result ty (remaining_lockout_seconds now r)
         else normal_result
           (if lock_status r \<noteq> Normal \<or> should_reset_attempts cfg now r then max_attempts cfg
            else max_attempts cfg - failed_attempts r))"

lemma check_lockout_refines:
  assumes "lockout_inv w"
  shows "outcome (check_lockout no_faults cfg now True ty ident) w =
    Inr (lockout_answer cfg now ty (record_for w ident ty))"
  using assms
  by (auto simp: outcome_def check_lockout_def lockout_answer_def catch_def get_lockout_record_eq
    lockout_inv_def is_locked_def is_lock_expired_def seq_def bind_def Let_def
    save_lockout_record_def map_error_def should_reset_attempts_def
    split: option.splits lockout_status.splits if_splits)

section \<open>Properties\<close>

text \<open>
  Failures are counted exactly, and the lock is set and reported exactly once.  Let failed
  attempts against any identifiers reach the database in any order, none of them aliasing the
  record id of \<open>(ident, ty)\<close>, which has no record before.  The \<open>n\<close>-th failure of \<open>(ident, ty)\<close> is
  answered with the count \<open>n\<close>, and it is the one that locks (and is audited) exactly when
  \<open>n = max_attempts\<close>.
\<close>

theorem failures_counted:
  assumes "0 < max_attempts cfg" "map_of rows (lockout_record_id ident ty) = None"
    and "no_alias ty ident evs"
  shows "own_outcomes ty ident evs (fst (run (failure_step cfg) evs rows)) =
    map (\<lambda>n. \<lparr>out_attempts = Suc n, just_locked = (Suc n = max_attempts cfg)\<rparr>)
      [0..<length (own_failures ty ident evs)]"
  using run_failures_outcomes [OF assms(1) _ assms(3), of rows "[]"] assms(2)
  by (cases "run (failure_step cfg) evs rows") (simp add: counted_row_def)

theorem failures_counted_witness:
  "own_outcomes UserLockout (lit ''a@b.c'') [(1, UserLockout, lit ''a@b.c''), (2, IpAddressLockout, lit ''::1''),
      (3, UserLockout, lit ''a@b.c'')]
    (fst (run (failure_step (default_lockout_config\<lparr>max_attempts := 2\<rparr>))
      [(1, UserLockout, lit ''a@b.c''), (2, IpAddressLockout, lit ''::1''),
       (3, UserLockout, lit ''a@b.c'')] [])) =
    [\<lparr>out_attempts = 1, just_locked = False\<rparr>, \<lparr>out_attempts = 2, just_locked = True\<rparr>]"
proof -
  let ?evs = "[(1, UserLockout, lit ''a@b.c''), (2, IpAddressLockout, lit ''::1''),
    (3 :: int, UserLockout, lit ''a@b.c'')]"
  have "no_alias UserLockout (lit ''a@b.c'') ?evs" by (auto simp: lockout_record_id_def lit_def)
  then show ?thesis
    using failures_counted [of "default_lockout_config\<lparr>max_attempts := 2\<rparr>" "[]" "lit ''a@b.c''"
      UserLockout ?evs] by (simp add: default_lockout_config_def upt_rec)
qed

text \<open>
  The periodic clean-up is invisible.  Deleting expired locks and stale counters at time \<open>t\<close>
  changes the answer of no check at any later time: no active lock is lifted and no counter that
  still counts is lost.
\<close>

theorem cleanup_invisible:
  assumes "lockout_inv w" "t \<le> now"
  shows "outcome (check_lockout no_faults cfg now True ty ident)
      (after (cleanup_expired_lockouts no_faults cfg t) w) =
    outcome (check_lockout no_faults cfg now True ty ident) w"
proof -
  let ?w = "after (cleanup_expired_lockouts no_faults cfg t) w"
  have w: "?w = w\<lparr>lockouts := delete_where (\<lambda>(_, r). stale_lockout cfg t r) (lockouts w)\<rparr>"
    by (simp add: after_def cleanup_expired_lockouts_def op_defs)
  have inv: "lockout_inv ?w" using preservesD [OF preserves_cleanup assms(1)] by (simp add: after_def)
  have "record_for ?w ident ty =
      (case record_for w ident ty of Some r \<Rightarrow> if stale_lockout cfg t r then None else Some r
       | None \<Rightarrow> None)"
    unfolding w record_for_def using assms(1)
    by (auto simp: map_of_delete_where lockout_inv_def rows_ok_def split: option.split)
  moreover have "lockout_answer cfg now ty (Some r) = lockout_answer cfg now ty None"
    if "stale_lockout cfg t r" for r
    using that assms(2)
    by (auto simp: stale_lockout_def lockout_answer_def is_locked_def should_reset_attempts_def
      split: option.splits)
  ultimately show ?thesis
    using check_lockout_refines [OF inv] check_lockout_refines [OF assms(1)]
    by (auto split: option.splits if_splits)
qed

theorem cleanup_invisible_witness:
  "outcome (check_lockout no_faults default_lockout_config 9 True UserLockout (lit ''a''))
      (after (cleanup_expired_lockouts no_faults default_lockout_config 7)
        \<lparr>lockouts = [(lockout_record_id (lit ''a'') UserLockout,
            lock_row default_lockout_config 1
              (increment_row default_lockout_config 1 (lit ''a'') UserLockout None))], lock_events = []\<rparr>) =
    outcome (check_lockout no_faults default_lockout_config 9 True UserLockout (lit ''a''))
      \<lparr>lockouts = [(lockout_record_id (lit ''a'') UserLockout,
            lock_row default_lockout_config 1
              (increment_row default_lockout_config 1 (lit ''a'') UserLockout None))], lock_events = []\<rparr>"
  by (rule cleanup_invisible)
    (simp_all add: lockout_inv_def rows_ok_def lock_row_def increment_row_def)

text \<open>
  The record id is not injective: spaces become underscores, so two identifiers can share one
  row, and a failure recorded for the first rewrites the row's identifier.  A lock held for the
  second is then invisible: the next check of it answers with the full number of attempts.  (The
  login route records failures under the e-mail as it was typed, so a leading space is enough to
  alias an account whose address starts with an underscore.)
\<close>

theorem aliased_failure_hides_lock:
  assumes "lockout_inv w" "i \<noteq> j" "lockout_record_id i ty = lockout_record_id j ty"
  shows "outcome (check_lockout no_faults cfg now True ty j)
      (after (record_failed_attempt no_faults cfg t True ty i) w) =
    Inr (normal_result (max_attempts cfg))"
proof -
  let ?w = "after (record_failed_attempt no_faults cfg t True ty i) w"
  have inv: "lockout_inv ?w"
    using preservesD [OF preserves_record_failed assms(1)] by (simp add: after_def)
  have "retry_attempts n (no_faults l) 0 = None" for n l by (subst retry_attempts.simps) simp
  then have "lockouts ?w = snd (increment_query cfg t i ty (lockouts w))"
    by (simp add: after_def record_failed_attempt_def bind_def increment_failed_attempts_def
      record_lockout_event_def split: prod.split)
  then have "record_for ?w j ty = None"
    using assms(2,3) by (auto simp: record_for_def increment_query_def increment_row_def lock_row_def
      Let_def split: option.splits)
  then show ?thesis using check_lockout_refines [OF inv] by (simp add: lockout_answer_def)
qed

theorem aliased_failure_hides_lock_witness:
  "outcome (check_lockout no_faults default_lockout_config 9 True UserLockout (lit ''_a@b.c''))
      (after (record_failed_attempt no_faults default_lockout_config 8 True UserLockout (lit '' a@b.c''))
        \<lparr>lockouts = [(lockout_record_id (lit ''_a@b.c'') UserLockout,
            lock_row default_lockout_config 7
              (increment_row default_lockout_config 7 (lit ''_a@b.c'') UserLockout None))],
         lock_events = []\<rparr>) = Inr (normal_result 5)"
proof -
  have "outcome (check_lockout no_faults default_lockout_config 9 True UserLockout (lit ''_a@b.c''))
      (after (record_failed_attempt no_faults default_lockout_config 8 True UserLockout (lit '' a@b.c''))
        \<lparr>lockouts = [(lockout_record_id (lit ''_a@b.c'') UserLockout,
            lock_row default_lockout_config 7
              (increment_row default_lockout_config 7 (lit ''_a@b.c'') UserLockout None))],
         lock_events = []\<rparr>) = Inr (normal_result (max_attempts default_lockout_config))"
    by (rule aliased_failure_hides_lock)
      (simp_all add: lockout_inv_def rows_ok_def lock_row_def increment_row_def
        lockout_record_id_def lit_def)
  then show ?thesis by (simp add: default_lockout_config_def)
qed

end
