(* ===== verification/Lockout_Runs.thy ===== *)
theory Lockout_Runs
  imports Lockout
begin

text \<open>
  Runs of the lock-out service of \<^verbatim>\<open>src/services/account_lockout.rs\<close>: any sequence of failures, checks,
  resets, unlocks and clean-ups, with faults, and the lock they cannot get around.
\<close>

section \<open>Runs of the service\<close>

text \<open>
  One step is one operation of the service, run whole, with its own faults, clock and arguments; the
  state it leaves, on its error paths too, is the next one.
\<close>

datatype lockout_call =
    FailStep faults int bool lockout_type str
  | CheckStep faults int bool lockout_type str
  | ResetStep faults int lockout_type str
  | UnlockStep faults int lockout_type str
  | CleanupStep faults int

fun lockout_step :: "lockout_config \<Rightarrow> lockout_call \<Rightarrow> lockout_world \<Rightarrow> lockout_world" where
  "lockout_step cfg (FailStep F t en ty i) = after (record_failed_attempt F cfg t en ty i)"
| "lockout_step cfg (CheckStep F t en ty i) = after (check_lockout F cfg t en ty i)"
| "lockout_step cfg (ResetStep F t ty i) = after (reset_attempts F t ty i)"
| "lockout_step cfg (UnlockStep F t ty i) = after (unlock F t ty i)"
| "lockout_step cfg (CleanupStep F t) = after (cleanup_expired_lockouts F cfg t)"

fun step_time :: "lockout_call \<Rightarrow> int" where
  "step_time (FailStep F t en ty i) = t"
| "step_time (CheckStep F t en ty i) = t"
| "step_time (ResetStep F t ty i) = t"
| "step_time (UnlockStep F t ty i) = t"
| "step_time (CleanupStep F t) = t"

text \<open>
  A failure of \<open>(ident, ty)\<close> that reaches the table: counting is enabled and the statement goes through
  within its retries.
\<close>

definition counter_up :: "faults \<Rightarrow> bool" where
  "counter_up F \<longleftrightarrow> retry_attempts lockout_conflict_retries (F (lit ''lockout_increment_attempts'')) 0 = None"

fun counted_failure :: "lockout_type \<Rightarrow> str \<Rightarrow> lockout_call \<Rightarrow> bool" where
  "counted_failure ty ident (FailStep F t en ty' i) \<longleftrightarrow> en \<and> counter_up F \<and> ty' = ty \<and> i = ident"
| "counted_failure ty ident _ \<longleftrightarrow> False"

text \<open>The steps that lift a lock by right, and the failures recorded under an alias of the record id.\<close>

fun lifts :: "lockout_type \<Rightarrow> str \<Rightarrow> lockout_call \<Rightarrow> bool" where
  "lifts ty ident (ResetStep F t ty' i) \<longleftrightarrow> ty' = ty \<and> i = ident"
| "lifts ty ident (UnlockStep F t ty' i) \<longleftrightarrow> ty' = ty \<and> i = ident"
| "lifts ty ident _ \<longleftrightarrow> False"

fun aliases :: "lockout_type \<Rightarrow> str \<Rightarrow> lockout_call \<Rightarrow> bool" where
  "aliases ty ident (FailStep F t en ty' i) \<longleftrightarrow>
    i \<noteq> ident \<and> lockout_record_id i ty' = lockout_record_id ident ty"
| "aliases ty ident _ \<longleftrightarrow> False"

text \<open>The steps that forget a counter which has seen no failure for the reset window.\<close>

fun forgets :: "lockout_call \<Rightarrow> bool" where
  "forgets (CheckStep F t en ty i) \<longleftrightarrow> True"
| "forgets (CleanupStep F t) \<longleftrightarrow> True"
| "forgets _ \<longleftrightarrow> False"

lemma get_row:
  assumes "rows_ok (lockouts w)" "get_lockout_record F i ty w = (x, w')"
  shows "w' = w" "x = Inr r \<Longrightarrow> map_of (lockouts w) (lockout_record_id i ty) = Some r \<and> lock_ident r = i \<and> lock_type r = ty"
proof -
  show "w' = w" using get_lockout_record_frame [of F i ty w] assms(2) by simp
  assume "x = Inr r"
  then have "get_lockout_record F i ty w = (Inr r, w')" using assms(2) by simp
  then have "find (\<lambda>(_, r). lock_ident r = i \<and> lock_type r = ty) (lockouts w) \<noteq> None \<and>
      map_option snd (find (\<lambda>(_, r). lock_ident r = i \<and> lock_type r = ty) (lockouts w)) = Some r"
    by (auto simp: get_lockout_record_def op_success)
  then have "record_for w i ty = Some r" using find_record [OF assms(1), of i ty] by simp
  then show "map_of (lockouts w) (lockout_record_id i ty) = Some r \<and> lock_ident r = i \<and> lock_type r = ty"
    by (auto simp: record_for_def split: option.splits if_splits)
qed

lemma save_row: "map_of (lockouts (after (save_lockout_record F r) w)) k =
    (if F (lit ''save_lockout_record'') 0 = None \<and> k = lockout_record_id (lock_ident r) (lock_type r)
     then Some r else map_of (lockouts w) k)"
  by (auto simp: save_lockout_record_def after_def db_defs op_defs split: option.split)

text \<open>What an operation may do to the row under one id.\<close>

definition changes_row :: "lockout_world \<Rightarrow> lockout_world \<Rightarrow> str \<Rightarrow>
    (account_lockout \<Rightarrow> account_lockout option \<Rightarrow> bool) \<Rightarrow> bool" where
  "changes_row w w' k P \<longleftrightarrow> map_of (lockouts w') k = map_of (lockouts w) k \<or>
    (\<exists>r. map_of (lockouts w) k = Some r \<and> P r (map_of (lockouts w') k))"

lemma changes_row_refl: "changes_row w w k P"
  by (simp add: changes_row_def)

lemma changes_row_save:
  assumes "map_of (lockouts w) (lockout_record_id i ty) = Some r" "lock_ident r' = i" "lock_type r' = ty" "P r (Some r')"
  shows "changes_row w (after (save_lockout_record F r') w) k P"
  using assms by (auto simp: changes_row_def save_row)

lemma after_catch: "after (catch m f g) w =
  (case m w of (Inl e, w') \<Rightarrow> after (f e) w' | (Inr a, w') \<Rightarrow> after (g a) w')"
  by (simp add: after_def catch_def split: prod.split sum.split)

lemma after_ret [simp]: "after (ret a) w = w" "after (throw e) w = w"
  by (simp_all add: after_def op_defs)

lemma after_seq_ret: "after (seq m (ret a)) w = after m w"
  by (auto simp: after_def op_defs split: prod.split sum.split)

lemma check_row:
  assumes "rows_ok (lockouts w)"
  shows "changes_row w (after (check_lockout F cfg t en ty i) w) k
    (\<lambda>r r'. lock_ident r = i \<and> lock_type r = ty \<and>
      (is_lock_expired t r \<and> lock_status r \<noteq> Normal \<and> r' = Some (unlock_account t r) \<or>
       should_reset_attempts cfg t r \<and> lock_status r = Normal \<and>
         r' = Some (r\<lparr>failed_attempts := 0, updated_at := t\<rparr>)))"
proof -
  obtain x w' where g: "get_lockout_record F i ty w = (x, w')" by fastforce
  note row = get_row [OF assms g]
  show ?thesis
  proof (cases x)
    case (Inl e)
    then show ?thesis using row(1) g
      by (simp add: check_lockout_def after_catch changes_row_refl)
  next
    case (Inr r)
    then have r: "map_of (lockouts w) (lockout_record_id i ty) = Some r" "lock_ident r = i" "lock_type r = ty"
      using row(2) by simp_all
    show ?thesis using row(1) g Inr r
      by (auto simp: check_lockout_def after_catch after_seq_ret Let_def changes_row_refl unlock_account_def
        intro!: changes_row_save)
  qed
qed

lemma lift_row:
  assumes "rows_ok (lockouts w)"
  shows "changes_row w (after (reset_attempts F t ty i) w) k
      (\<lambda>r r'. lock_ident r = i \<and> lock_type r = ty \<and> r' = Some (unlock_account t r))"
    "changes_row w (after (unlock F t ty i) w) k
      (\<lambda>r r'. lock_ident r = i \<and> lock_type r = ty \<and> r' = Some (unlock_account t r))"
proof -
  obtain x w' where g: "get_lockout_record F i ty w = (x, w')" by fastforce
  note row = get_row [OF assms g]
  show "changes_row w (after (reset_attempts F t ty i) w) k
      (\<lambda>r r'. lock_ident r = i \<and> lock_type r = ty \<and> r' = Some (unlock_account t r))"
    "changes_row w (after (unlock F t ty i) w) k
      (\<lambda>r r'. lock_ident r = i \<and> lock_type r = ty \<and> r' = Some (unlock_account t r))"
    using row g by (cases x; auto simp: reset_attempts_def unlock_def after_catch after_seq_ret
      changes_row_refl unlock_account_def intro!: changes_row_save)+
qed

lemma cleanup_row:
  assumes "rows_ok (lockouts w)"
  shows "changes_row w (after (cleanup_expired_lockouts F cfg t) w) k (\<lambda>r r'. stale_lockout cfg t r \<and> r' = None)"
  using assms
  by (auto simp: cleanup_expired_lockouts_def after_def db_defs op_defs changes_row_def map_of_delete_where
    rows_ok_def split: option.split)

lemma fail_row:
  "map_of (lockouts (after (record_failed_attempt F cfg t en ty i) w)) k =
    (if en \<and> counter_up F \<and> k = lockout_record_id i ty
     then let r = increment_row cfg t i ty (map_of (lockouts w) k)
          in Some (if must_lock cfg r then lock_row cfg t r else r)
     else map_of (lockouts w) k)"
  by (auto simp: record_failed_attempt_def after_def increment_failed_attempts_def counter_up_def op_defs
    increment_query_def record_lockout_event_def Let_def split: option.split)

section \<open>While failures are counted\<close>

definition counting :: "lockout_type \<Rightarrow> str \<Rightarrow> int \<Rightarrow> nat \<Rightarrow> lockout_world \<Rightarrow> bool" where
  "counting ty ident t0 n w \<longleftrightarrow> lockout_inv w \<and>
    (case map_of (lockouts w) (lockout_record_id ident ty) of
       None \<Rightarrow> n = 0
     | Some r \<Rightarrow> lock_status r = Normal \<and> failed_attempts r = n \<and>
         (0 < n \<longrightarrow> lock_ident r = ident \<and> lock_type r = ty \<and> t0 \<le> last_attempt_at r))"

definition holding :: "lockout_type \<Rightarrow> str \<Rightarrow> int \<Rightarrow> lockout_world \<Rightarrow> bool" where
  "holding ty ident u w \<longleftrightarrow> lockout_inv w \<and>
    (\<exists>r. map_of (lockouts w) (lockout_record_id ident ty) = Some r \<and> lock_ident r = ident \<and> lock_type r = ty \<and>
      lock_status r = Locked \<and> locked_until r = Some u)"

lemma lockout_step_inv: "lockout_inv w \<Longrightarrow> lockout_inv (lockout_step cfg st w)"
  by (cases st; simp add: after_def;
      rule preservesD [OF preserves_record_failed] preservesD [OF preserves_check] preservesD [OF preserves_reset]
        preservesD [OF preserves_unlock] preservesD [OF preserves_cleanup]; assumption)

lemma counting_row:
  assumes "counting ty ident t0 n w" "lockout_inv w'"
    and "changes_row w w' (lockout_record_id ident ty) P"
    and "\<And>r r'. P r r' \<Longrightarrow> lock_status r = Normal \<Longrightarrow> failed_attempts r = n \<Longrightarrow>
      0 < n \<longrightarrow> lock_ident r = ident \<and> lock_type r = ty \<and> t0 \<le> last_attempt_at r \<Longrightarrow>
      n = 0 \<and> (\<forall>q. r' = Some q \<longrightarrow> lock_status q = Normal \<and> failed_attempts q = 0)"
  shows "counting ty ident t0 n w'"
  using assms(1,2,3) assms(4) unfolding counting_def changes_row_def
  by (fastforce split: option.splits)

lemma stale_normal: "lock_status r = Normal \<Longrightarrow> stale_lockout cfg t r \<longleftrightarrow> should_reset_attempts cfg t r"
  by (simp add: stale_lockout_def should_reset_attempts_def)

lemma counting_step:
  assumes "counting ty ident t0 n w" "\<not> lifts ty ident st" "\<not> aliases ty ident st"
    and "counted_failure ty ident st \<longrightarrow> t0 \<le> step_time st \<and> Suc n < max_attempts cfg"
    and "forgets st \<longrightarrow> step_time st \<le> t0 + minutes (reset_window_minutes cfg)"
  shows "counting ty ident t0 (if counted_failure ty ident st then Suc n else n) (lockout_step cfg st w)"
proof -
  have inv: "lockout_inv w" "rows_ok (lockouts w)" using assms(1) by (simp_all add: counting_def lockout_inv_def)
  note inv' = lockout_step_inv [OF inv(1), of cfg st]
  show ?thesis
  proof (cases st)
    case (FailStep F t en ty' i)
    let ?k = "lockout_record_id ident ty"
    show ?thesis
    proof (cases "en \<and> counter_up F \<and> ?k = lockout_record_id i ty'")
      case True
      then have "ty' = ty" "i = ident" using assms(3) lockout_record_id_type FailStep by fastforce+
      then have st: "st = FailStep F t True ty ident" "counter_up F" using FailStep True by simp_all
      then have own: "counted_failure ty ident st" "t0 \<le> t" "Suc n < max_attempts cfg"
        using assms(4) by simp_all
      have row: "map_of (lockouts (lockout_step cfg st w)) ?k =
          Some (increment_row cfg t ident ty (map_of (lockouts w) ?k))"
        if "failed_attempts (increment_row cfg t ident ty (map_of (lockouts w) ?k)) = Suc n"
        using own(3) st that by (simp add: fail_row must_lock_def Let_def)
      show ?thesis
      proof (cases "map_of (lockouts w) ?k")
        case None
        then have "n = 0" using assms(1) by (simp add: counting_def)
        then show ?thesis using row own inv' None by (simp add: counting_def increment_row_def)
      next
        case (Some r)
        then have "lock_status r = Normal" "failed_attempts r = n" using assms(1) by (simp_all add: counting_def)
        then show ?thesis using row own inv' Some by (simp add: counting_def increment_row_def)
      qed
    next
      case False
      then have "map_of (lockouts (lockout_step cfg st w)) ?k = map_of (lockouts w) ?k"
        "\<not> counted_failure ty ident st" by (auto simp: FailStep fail_row)
      then show ?thesis using assms(1) inv' unfolding counting_def by simp
    qed
  next
    case (CheckStep F t en ty' i)
    have fresh: "\<not> should_reset_attempts cfg t r" if "t0 \<le> last_attempt_at r" for r
      using assms(5) that by (simp add: CheckStep should_reset_attempts_def)
    have "counting ty ident t0 n (lockout_step cfg st w)"
      using inv' unfolding CheckStep lockout_step.simps
      by (rule counting_row [OF assms(1) _ check_row [OF inv(2)]]) (use fresh in auto)
    then show ?thesis by (simp add: CheckStep)
  next
    case (ResetStep F t ty' i)
    have "counting ty ident t0 n (lockout_step cfg st w)"
      using inv' unfolding ResetStep lockout_step.simps
      by (rule counting_row [OF assms(1) _ lift_row(1) [OF inv(2)]]) (use assms(2) ResetStep in \<open>auto simp: unlock_account_def\<close>)
    then show ?thesis by (simp add: ResetStep)
  next
    case (UnlockStep F t ty' i)
    have "counting ty ident t0 n (lockout_step cfg st w)"
      using inv' unfolding UnlockStep lockout_step.simps
      by (rule counting_row [OF assms(1) _ lift_row(2) [OF inv(2)]]) (use assms(2) UnlockStep in \<open>auto simp: unlock_account_def\<close>)
    then show ?thesis by (simp add: UnlockStep)
  next
    case (CleanupStep F t)
    have fresh: "\<not> should_reset_attempts cfg t r" if "t0 \<le> last_attempt_at r" for r
      using assms(5) that by (simp add: CleanupStep should_reset_attempts_def)
    have "counting ty ident t0 n (lockout_step cfg st w)"
      using inv' unfolding CleanupStep lockout_step.simps
      by (rule counting_row [OF assms(1) _ cleanup_row [OF inv(2)]]) (use fresh in \<open>auto simp: stale_normal\<close>)
    then show ?thesis by (simp add: CleanupStep)
  qed
qed

lemma locking_step:
  assumes "counting ty ident t0 n w" "Suc n = max_attempts cfg" "counted_failure ty ident st"
  shows "holding ty ident (step_time st + minutes (lockout_duration_minutes cfg)) (lockout_step cfg st w)"
proof -
  obtain F t where st: "st = FailStep F t True ty ident" "counter_up F"
    using assms(3) by (cases "(ty, ident, st)" rule: counted_failure.cases) auto
  have "lockout_inv (lockout_step cfg st w)" using assms(1) lockout_step_inv by (simp add: counting_def)
  then show ?thesis using assms(1,2) st unfolding counting_def holding_def
    by (auto simp: fail_row increment_row_def must_lock_def lock_row_def Let_def split: option.splits)
qed

lemma holding_row:
  assumes "holding ty ident u w" "lockout_inv w'" "changes_row w w' (lockout_record_id ident ty) P"
    and "\<And>r r'. P r r' \<Longrightarrow> lock_ident r = ident \<Longrightarrow> lock_type r = ty \<Longrightarrow> lock_status r = Locked \<Longrightarrow>
      locked_until r = Some u \<Longrightarrow> False"
  shows "holding ty ident u w'"
  using assms(1,2,3) assms(4) unfolding holding_def changes_row_def by fastforce

lemma holding_step:
  assumes "holding ty ident u w" "\<not> lifts ty ident st" "\<not> aliases ty ident st" "step_time st < u"
  shows "holding ty ident u (lockout_step cfg st w)"
proof -
  have inv: "lockout_inv w" "rows_ok (lockouts w)" using assms(1) by (simp_all add: holding_def lockout_inv_def)
  note inv' = lockout_step_inv [OF inv(1), of cfg st]
  show ?thesis
  proof (cases st)
    case (FailStep F t en ty' i)
    obtain r where r: "map_of (lockouts w) (lockout_record_id ident ty) = Some r" "lock_ident r = ident"
      "lock_type r = ty" "lock_status r = Locked" "locked_until r = Some u"
      using assms(1) by (auto simp: holding_def)
    have same: "ty' = ty \<and> i = ident" if "lockout_record_id i ty' = lockout_record_id ident ty"
      using assms(3) lockout_record_id_type that FailStep by fastforce
    show ?thesis
    proof (cases "lockout_record_id ident ty = lockout_record_id i ty'")
      case True
      with same have "ty' = ty" "i = ident" by simp_all
      then show ?thesis using inv' r unfolding holding_def FailStep
        by (simp add: fail_row increment_row_def must_lock_def Let_def)
    next
      case False
      then show ?thesis using inv' r unfolding holding_def FailStep by (simp add: fail_row)
    qed
  next
    case (CheckStep F t en ty' i)
    show ?thesis using inv' unfolding CheckStep lockout_step.simps
      by (rule holding_row [OF assms(1) _ check_row [OF inv(2)]])
        (use assms(4) CheckStep in \<open>auto simp: is_lock_expired_def\<close>)
  next
    case (ResetStep F t ty' i)
    show ?thesis using inv' unfolding ResetStep lockout_step.simps
      by (rule holding_row [OF assms(1) _ lift_row(1) [OF inv(2)]]) (use assms(2) ResetStep in auto)
  next
    case (UnlockStep F t ty' i)
    show ?thesis using inv' unfolding UnlockStep lockout_step.simps
      by (rule holding_row [OF assms(1) _ lift_row(2) [OF inv(2)]]) (use assms(2) UnlockStep in auto)
  next
    case (CleanupStep F t)
    show ?thesis using inv' unfolding CleanupStep lockout_step.simps
      by (rule holding_row [OF assms(1) _ cleanup_row [OF inv(2)]])
        (use assms(4) CleanupStep in \<open>auto simp: stale_lockout_def\<close>)
  qed
qed

lemma holding_check:
  assumes "holding ty ident u w" "now < u"
  shows "check_lockout F cfg now True ty ident w =
    (case F (lit ''get_lockout_record'') 0 of
       Some e \<Rightarrow> (Inl (DatabaseError (display e)), w)
     | None \<Rightarrow> (Inr (locked_result ty (if 0 < num_seconds (u - now) then Some (num_seconds (u - now)) else None)), w))"
proof -
  obtain r where r: "map_of (lockouts w) (lockout_record_id ident ty) = Some r" "lock_ident r = ident"
      "lock_type r = ty" "lock_status r = Locked" "locked_until r = Some u"
    and inv: "rows_ok (lockouts w)" using assms(1) by (auto simp: holding_def lockout_inv_def)
  have "record_for w ident ty = Some r" using r by (simp add: record_for_def)
  then show ?thesis using get_lockout_record_eq [OF inv] r assms(2)
    by (auto simp: check_lockout_def catch_def get_lockout_record_def db_defs op_defs is_locked_def
      is_lock_expired_def remaining_lockout_seconds_def Let_def split: option.splits)
qed

section \<open>Brute force\<close>

definition lockout_run :: "lockout_config \<Rightarrow> lockout_call list \<Rightarrow> lockout_world \<Rightarrow> lockout_world" where
  "lockout_run cfg calls w = fold (lockout_step cfg) calls w"

lemma counting_run:
  assumes "counting ty ident t0 n w" "\<forall>st\<in>set calls. \<not> lifts ty ident st \<and> \<not> aliases ty ident st"
    and "\<forall>st\<in>set calls. (counted_failure ty ident st \<longrightarrow> t0 \<le> step_time st) \<and>
      (forgets st \<longrightarrow> step_time st \<le> t0 + minutes (reset_window_minutes cfg))"
    and "n + length (filter (counted_failure ty ident) calls) < max_attempts cfg"
  shows "counting ty ident t0 (n + length (filter (counted_failure ty ident) calls)) (lockout_run cfg calls w)"
  using assms
proof (induction calls arbitrary: n w)
  case (Cons st calls)
  have "counting ty ident t0 (if counted_failure ty ident st then Suc n else n) (lockout_step cfg st w)"
    by (rule counting_step) (use Cons.prems in auto)
  from Cons.IH [OF this] Cons.prems show ?case by (simp add: lockout_run_def split: if_splits)
qed (simp add: lockout_run_def)

lemma holding_run:
  assumes "holding ty ident u w"
    and "\<forall>st\<in>set calls. \<not> lifts ty ident st \<and> \<not> aliases ty ident st \<and> step_time st < u"
  shows "holding ty ident u (lockout_run cfg calls w)"
  using assms by (induction calls arbitrary: w) (auto simp: lockout_run_def holding_step)

text \<open>
  C3: Brute force is stopped.  Let the operations of the service - failures, checks, resets, unlocks and
  clean-ups for any identifiers, one after another and each with any faults - run in any order from a
  table in which \<open>(ident, ty)\<close> has no failures, and let \<open>hit\<close> be the \<open>max_attempts\<close>-th failure of
  \<open>(ident, ty)\<close> that is counted.  Then every check of \<open>(ident, ty)\<close> before the lock's end, the time of
  \<open>hit\<close> plus the configured duration, answers that it is locked, or fails because the row cannot be
  read - provided that nobody resets or unlocks \<open>(ident, ty)\<close> itself, that no failure is recorded for
  another identifier with the same record id, and that no check or clean-up before \<open>hit\<close> comes later
  than the reset window after the first of those failures.
\<close>

theorem brute_force_locked:
  assumes "lockout_inv w"
    and "\<forall>r. map_of (lockouts w) (lockout_record_id ident ty) = Some r \<longrightarrow>
      lock_status r = Normal \<and> failed_attempts r = 0"
    and calls: "\<forall>st\<in>set (pre @ hit # post). \<not> lifts ty ident st \<and> \<not> aliases ty ident st"
    and hit: "counted_failure ty ident hit"
      "Suc (length (filter (counted_failure ty ident) pre)) = max_attempts cfg"
    and window: "\<forall>st\<in>set pre. (counted_failure ty ident st \<longrightarrow> t0 \<le> step_time st) \<and>
      (forgets st \<longrightarrow> step_time st \<le> t0 + minutes (reset_window_minutes cfg))"
    and later: "\<forall>st\<in>set post. step_time st < step_time hit + minutes (lockout_duration_minutes cfg)"
    and "now < step_time hit + minutes (lockout_duration_minutes cfg)"
  shows "case check_lockout F cfg now True ty ident (lockout_run cfg (pre @ hit # post) w) of
      (Inl e, _) \<Rightarrow> F (lit ''get_lockout_record'') 0 \<noteq> None
    | (Inr r, _) \<Rightarrow> res_locked r"
proof -
  let ?u = "step_time hit + minutes (lockout_duration_minutes cfg)"
  let ?n = "length (filter (counted_failure ty ident) pre)"
  have "counting ty ident t0 0 w" using assms(1,2) by (simp add: counting_def split: option.split)
  from counting_run [OF this _ window] calls hit(2)
  have "counting ty ident t0 ?n (lockout_run cfg pre w)" by simp
  from locking_step [OF this hit(2,1)] holding_run [where calls = post] calls later
  have "holding ty ident ?u (lockout_run cfg post (lockout_step cfg hit (lockout_run cfg pre w)))" by simp
  then have "holding ty ident ?u (lockout_run cfg (pre @ hit # post) w)" by (simp add: lockout_run_def)
  from holding_check [OF this assms(8), where F = F and cfg = cfg] show ?thesis
    by (simp add: locked_result_def split: option.split)
qed

text \<open>Two failures lock, although a check runs between them and a clean-up after them.\<close>

theorem brute_force_locked_witness:
  "case check_lockout no_faults (default_lockout_config\<lparr>max_attempts := 2\<rparr>) 9 True IpAddressLockout (lit ''::1'')
      (lockout_run (default_lockout_config\<lparr>max_attempts := 2\<rparr>)
        ([FailStep no_faults 3 True IpAddressLockout (lit ''::1''),
          CheckStep no_faults 4 True IpAddressLockout (lit ''::1''),
          ResetStep no_faults 4 UserLockout (lit ''a@b.c'')] @
         FailStep no_faults 5 True IpAddressLockout (lit ''::1'') # [CleanupStep no_faults 8])
        \<lparr>lockouts = [], lock_events = []\<rparr>) of
      (Inl e, _) \<Rightarrow> no_faults (lit ''get_lockout_record'') 0 \<noteq> None
    | (Inr r, _) \<Rightarrow> res_locked r"
proof -
  have "counter_up no_faults"
    unfolding counter_up_def by (subst retry_attempts.simps) simp
  then show ?thesis
    by (intro brute_force_locked [where ?t0.0 = 3])
      (simp_all add: default_lockout_config_def lockout_inv_def rows_ok_def minutes_def)
qed

end
