(* ===== verification/Crypto.thy ===== *)
theory Crypto
  imports Errors "HOL-Library.Word"
begin

unbundle bit_operations_syntax

text \<open>
  \<^verbatim>\<open>src/utils/crypto.rs\<close>: the cipher for TOTP secrets at rest, the hashes of recovery codes, and the
  constant-time comparison.  The primitives are third-party crates and are fields of \<open>primitives\<close>;
  what the code relies on is stated as the named hypotheses \<open>aead_law\<close> and \<open>base64_law\<close> (their
  documented behaviour), which \<open>toy_primitives\<close> satisfies.
\<close>

type_synonym bytes = "8 word list"

definition as_bytes :: "str \<Rightarrow> bytes" where
  "as_bytes s = map of_nat (utf8 s)"

text \<open>\<^verbatim>\<open>String::from_utf8\<close>: defined exactly on the encodings of strings.\<close>

definition from_utf8 :: "bytes \<Rightarrow> str option" where
  "from_utf8 bs =
    (let s = utf8_decode (map unat bs) in
     if valid_text s \<and> as_bytes s = bs then Some s else None)"

record primitives =
  b64_encode :: "bytes \<Rightarrow> str"
  b64_decode :: "str \<Rightarrow> bytes option"
  seal :: "bytes \<Rightarrow> bytes \<Rightarrow> bytes \<Rightarrow> bytes option"
  unseal :: "bytes \<Rightarrow> bytes \<Rightarrow> bytes \<Rightarrow> bytes option"
  argon2_hash :: "bytes \<Rightarrow> str \<Rightarrow> str option"
  argon2_verify :: "str \<Rightarrow> str \<Rightarrow> bool option"

definition ciphertext_prefix :: str where
  "ciphertext_prefix = lit ''enc.v1.''"

definition nonce_len :: nat where
  "nonce_len = 12"

text \<open>\<open>SecretCipher\<close> is the key it was built from.\<close>

type_synonym secret_cipher = bytes

definition cipher_from_config :: "primitives \<Rightarrow> str option \<Rightarrow> auth_error + secret_cipher option" where
  "cipher_from_config P mfa_encryption_key =
    (case mfa_encryption_key of
       None \<Rightarrow> Inr None
     | Some encoded \<Rightarrow>
         (case b64_decode P (trim encoded) of
            None \<Rightarrow> Inl (ServerError (lit ''MFA_SECRET_ENCRYPTION_KEY is not valid base64''))
          | Some decoded \<Rightarrow>
              if length decoded \<noteq> 32
              then Inl (ServerError (lit ''MFA_SECRET_ENCRYPTION_KEY must decode to 32 bytes, got '' @
                dec (length decoded)))
              else Inr (Some decoded)))"

definition encrypt :: "primitives \<Rightarrow> secret_cipher \<Rightarrow> bytes \<Rightarrow> str \<Rightarrow> auth_error + str" where
  "encrypt P key nonce plaintext =
    (case seal P key nonce (as_bytes plaintext) of
       None \<Rightarrow> Inl (ServerError (lit ''Failed to encrypt secret''))
     | Some ciphertext \<Rightarrow> Inr (ciphertext_prefix @ b64_encode P (nonce @ ciphertext)))"

definition decrypt :: "primitives \<Rightarrow> secret_cipher \<Rightarrow> str \<Rightarrow> auth_error + str" where
  "decrypt P key stored =
    (case strip_prefix ciphertext_prefix stored of
       None \<Rightarrow> Inr stored
     | Some encoded \<Rightarrow>
         (case b64_decode P encoded of
            None \<Rightarrow> Inl (ServerError (lit ''Stored secret is not valid base64''))
          | Some payload \<Rightarrow>
              if length payload \<le> nonce_len
              then Inl (ServerError (lit ''Stored secret is truncated''))
              else (case unseal P key (take nonce_len payload) (drop nonce_len payload) of
                  None \<Rightarrow> Inl (ServerError (lit ''Failed to decrypt secret (wrong MFA encryption key?)''))
                | Some plaintext \<Rightarrow>
                    (case from_utf8 plaintext of
                       None \<Rightarrow> Inl (ServerError (lit ''Decrypted secret is not valid UTF-8''))
                     | Some s \<Rightarrow> Inr s))))"

definition is_encrypted :: "str \<Rightarrow> bool" where
  "is_encrypted stored \<longleftrightarrow> strip_prefix ciphertext_prefix stored \<noteq> None"

definition hash_backup_code :: "primitives \<Rightarrow> bytes \<Rightarrow> str \<Rightarrow> auth_error + str" where
  "hash_backup_code P salt code =
    ok_or (argon2_hash P salt code) (ServerError (lit ''Failed to hash backup code''))"

definition constant_time_eq :: "bytes \<Rightarrow> bytes \<Rightarrow> bool" where
  "constant_time_eq a b =
    (if length a \<noteq> length b then False
     else fold (\<lambda>(x, y) acc. acc OR (x XOR y)) (zip a b) 0 = 0)"

definition verify_backup_code :: "primitives \<Rightarrow> str \<Rightarrow> str \<Rightarrow> bool" where
  "verify_backup_code P stored provided =
    (if strip_prefix (lit ''$argon2'') stored \<noteq> None
     then (case argon2_verify P stored provided of Some b \<Rightarrow> b | None \<Rightarrow> False)
     else constant_time_eq (as_bytes stored) (as_bytes provided))"

text \<open>The digest under which bearer secrets (sessions, codes, tokens) are stored.\<close>

record hashing =
  sha256 :: "bytes \<Rightarrow> bytes"
  b64url :: "bytes \<Rightarrow> str"

definition hash_bearer :: "hashing \<Rightarrow> str \<Rightarrow> str" where
  "hash_bearer H secret = b64url H (sha256 H (as_bytes secret))"

definition digest_injective :: "hashing \<Rightarrow> bool" where
  "digest_injective H \<longleftrightarrow> (\<forall>s t. valid_text s \<longrightarrow> valid_text t \<longrightarrow> hash_bearer H s = hash_bearer H t \<longrightarrow> s = t)"

text \<open>Lower-case hexadecimal, two digits per byte.\<close>

definition hex_digit :: "nat \<Rightarrow> nat" where
  "hex_digit n = (if n < 10 then 48 + n else 87 + n)"

definition hex :: "bytes \<Rightarrow> str" where
  "hex bs = concat (map (\<lambda>b. [hex_digit (unat b div 16), hex_digit (unat b mod 16)]) bs)"

section \<open>The comparison\<close>

lemma or_word_eq_0: "(a OR b = (0 :: 'a :: len word)) \<longleftrightarrow> a = 0 \<and> b = 0"
  by (auto simp: bit_eq_iff bit_simps)

lemma xor_word_eq_0: "(a XOR b = (0 :: 'a :: len word)) \<longleftrightarrow> a = b"
  by (auto simp: bit_eq_iff bit_simps)

lemma fold_differences:
  "fold (\<lambda>(x, y) acc. acc OR (x XOR y)) xs acc = (0 :: 8 word) \<longleftrightarrow>
    acc = 0 \<and> (\<forall>(x, y)\<in>set xs. x = y)"
  by (induction xs arbitrary: acc) (auto simp: or_word_eq_0 xor_word_eq_0)

lemma constant_time_eq_iff: "constant_time_eq a b \<longleftrightarrow> a = b"
proof (cases "length a = length b")
  case True
  then have "(\<forall>(x, y)\<in>set (zip a b). x = y) \<longleftrightarrow> a = b"
    by (induction a b rule: list_induct2) auto
  then show ?thesis using True by (simp add: constant_time_eq_def fold_differences)
qed (auto simp: constant_time_eq_def)

lemma unat_as_bytes: "valid_text s \<Longrightarrow> map unat (as_bytes s) = utf8 s"
  unfolding as_bytes_def map_map
  by (rule map_idI) (auto dest!: utf8_bytes simp: unat_of_nat take_bit_nat_eq_self)

lemma as_bytes_inject: "valid_text s \<Longrightarrow> valid_text t \<Longrightarrow> as_bytes s = as_bytes t \<longleftrightarrow> s = t"
  by (metis unat_as_bytes utf8_inject)

lemma from_utf8_as_bytes: "valid_text s \<Longrightarrow> from_utf8 (as_bytes s) = Some s"
  by (simp add: from_utf8_def unat_as_bytes utf8_decode_utf8 Let_def)

lemma from_utf8_SomeD: "from_utf8 bs = Some s \<Longrightarrow> valid_text s \<and> as_bytes s = bs"
  by (auto simp: from_utf8_def Let_def split: if_splits)

section \<open>The cipher\<close>

definition base64_law :: "primitives \<Rightarrow> bool" where
  "base64_law P \<longleftrightarrow> (\<forall>bs. b64_decode P (b64_encode P bs) = Some bs)"

text \<open>Authenticated encryption: opening a sealed message gives it back, and the tag is not empty.\<close>

definition aead_law :: "primitives \<Rightarrow> bool" where
  "aead_law P \<longleftrightarrow> (\<forall>key nonce m c. length nonce = nonce_len \<longrightarrow> seal P key nonce m = Some c \<longrightarrow>
    c \<noteq> [] \<and> unseal P key nonce c = Some m)"

lemma decrypt_encrypt:
  assumes "base64_law P" "aead_law P" "length nonce = nonce_len" "valid_text s"
    and "encrypt P key nonce s = Inr stored"
  shows "decrypt P key stored = Inr s" "is_encrypted stored"
proof -
  obtain c where c: "seal P key nonce (as_bytes s) = Some c"
    "stored = ciphertext_prefix @ b64_encode P (nonce @ c)"
    using assms(5) by (auto simp: encrypt_def split: option.splits)
  then have "c \<noteq> []" "unseal P key nonce c = Some (as_bytes s)"
    using assms(2,3) by (auto simp: aead_law_def)
  then show "decrypt P key stored = Inr s"
    using assms(1,3,4) c(2) by (auto simp: decrypt_def base64_law_def from_utf8_as_bytes)
  show "is_encrypted stored" using c(2) by (simp add: is_encrypted_def)
qed

lemma encrypt_is_encrypted: "encrypt P key nonce s = Inr stored \<Longrightarrow> is_encrypted stored"
  by (auto simp: encrypt_def is_encrypted_def split: option.splits)

text \<open>A toy instance of the primitives (identity encodings, a fixed tag).\<close>

definition toy_primitives :: primitives where
  "toy_primitives =
    \<lparr>b64_encode = map unat, b64_decode = (\<lambda>s. Some (map of_nat s)),
     seal = (\<lambda>_ _ m. Some (7 # m)), unseal = (\<lambda>_ _ c. Some (tl c)),
     argon2_hash = (\<lambda>_ c. Some (lit ''$argon2'' @ c)),
     argon2_verify = (\<lambda>h c. Some (h = lit ''$argon2'' @ c))\<rparr>"

lemma toy_laws: "base64_law toy_primitives" "aead_law toy_primitives"
  by (simp_all add: base64_law_def aead_law_def toy_primitives_def comp_def)

section \<open>Properties\<close>

text \<open>
  The constant-time comparison decides equality: on equal lengths it inspects every byte and
  answers \<open>True\<close> exactly for equal byte strings; and on the bytes of two strings it decides equality
  of the strings.
\<close>

theorem constant_time_eq_correct:
  "constant_time_eq a b \<longleftrightarrow> a = b"
  by (rule constant_time_eq_iff)

text \<open>
  A secret survives its rest in the database.  With base64 and the authenticated cipher behaving
  as documented, whatever was encrypted under the configured key and a fresh 12-byte nonce is marked
  as ciphertext and decrypts, under the same key, to the same string.
\<close>

theorem secret_round_trip:
  assumes "base64_law P" "aead_law P" "length nonce = 12" "valid_text s"
    and "encrypt P key nonce s = Inr stored"
  shows "is_encrypted stored \<and> decrypt P key stored = Inr s"
  using decrypt_encrypt assms by (simp add: nonce_len_def)

theorem secret_round_trip_witness:
  "is_encrypted (ciphertext_prefix @ map unat (replicate 12 (0 :: 8 word) @ 7 # as_bytes (lit ''JBSW''))) \<and>
    decrypt toy_primitives [] (ciphertext_prefix @
      map unat (replicate 12 (0 :: 8 word) @ 7 # as_bytes (lit ''JBSW''))) = Inr (lit ''JBSW'')"
  by (rule secret_round_trip [OF toy_laws, of "replicate 12 0"])
    (simp_all add: valid_text_def lit_def is_scalar_def encrypt_def toy_primitives_def)

end
