(* ===== verification/Interfaces.thy ===== *)
theory Interfaces
  imports Errors
begin

text \<open>
  The contracts that several components share.

  \<open>spending\<close> is the contract of everything that is checked and consumed by one conditional
  statement: a request \<open>k\<close> claims the credential \<open>slot k\<close>; it succeeds iff the credential is
  claimable, its success makes every credential it \<open>covers\<close> unclaimable, and no request makes
  anything claimable.  Then no later request for a covered credential succeeds, whatever the
  interleaving.  \<open>one_shot\<close> is the case in which a credential covers itself (authorization codes,
  refresh tokens, recovery codes, challenges, reset tokens), \<open>exclusive_one_shot\<close> the case in which
  claims do not interfere, where exactly one request succeeds, and \<open>spending_env\<close> admits other
  statements in between.
\<close>

section \<open>Runs with a frame\<close>

text \<open>\<open>zoom\<close> runs an operation of a component on its part of a larger state.\<close>

definition zoom :: "('s \<Rightarrow> 't) \<Rightarrow> ('t \<Rightarrow> 's \<Rightarrow> 's) \<Rightarrow> ('t, 'e, 'a) op \<Rightarrow> ('s, 'e, 'a) op" where
  "zoom get put m s = (case m (get s) of (r, t) \<Rightarrow> (r, put t s))"

lemma zoom_success [op_success]:
  "zoom get put m s = (Inr a, s') \<longleftrightarrow> (\<exists>t. m (get s) = (Inr a, t) \<and> s' = put t s)"
  by (auto simp: zoom_def split: prod.splits)

lemma zoom_failure [op_failure]:
  "zoom get put m s = (Inl e, s') \<longleftrightarrow> (\<exists>t. m (get s) = (Inl e, t) \<and> s' = put t s)"
  by (auto simp: zoom_def split: prod.splits)

lemma zoom_outcome: "outcome (zoom get put m) s = outcome m (get s)"
  by (simp add: outcome_def zoom_def split: prod.split)

section \<open>Credentials that are spent\<close>

text \<open>
  \<open>closing\<close> is the weaker contract of a request that may be refused for other reasons too: a success
  needs a claimable credential and closes all it covers, in every state with the invariant \<open>ok\<close>.
\<close>

locale closing =
  fixes claim :: "'k \<Rightarrow> 's \<Rightarrow> bool \<times> 's" and slot :: "'k \<Rightarrow> 'c"
    and claimable :: "'c \<Rightarrow> 's \<Rightarrow> bool" and covers :: "'c \<Rightarrow> 'c \<Rightarrow> bool" and ok :: "'s \<Rightarrow> bool"
  assumes ok_stays: "ok s \<Longrightarrow> ok (snd (claim k s))"
    and success_needs: "ok s \<Longrightarrow> fst (claim k s) \<Longrightarrow> claimable (slot k) s"
    and success_closes: "ok s \<Longrightarrow> fst (claim k s) \<Longrightarrow> covers (slot k) d \<Longrightarrow> \<not> claimable d (snd (claim k s))"
    and nothing_opens: "ok s \<Longrightarrow> claimable c (snd (claim k s)) \<Longrightarrow> claimable c s"
begin

lemma run_ok: "ok s \<Longrightarrow> ok (snd (run claim ks s))"
  by (rule run_invariant) (auto intro: ok_stays)

lemma closed_stays: "ok s \<Longrightarrow> \<not> claimable c s \<Longrightarrow> \<not> claimable c (snd (run claim ks s))"
  using run_invariant [of "\<lambda>s. ok s \<and> \<not> claimable c s" claim s ks] by (auto intro: ok_stays dest: nothing_opens)

lemma closed_after_success:
  assumes "ok s" "i < j" "j < length ks" "covers (slot (ks ! i)) (slot (ks ! j))" "fst (run claim ks s) ! i"
  shows "\<not> fst (run claim ks s) ! j"
proof -
  let ?s = "snd (run claim (take i ks) s)" and ?rest = "drop (Suc i) (take j ks)"
  have "take j ks = take i (take j ks) @ take j ks ! i # ?rest"
    by (rule id_take_nth_drop) (use assms(2,3) in simp)
  then have "take j ks = take i ks @ ks ! i # ?rest"
    using assms(2) by (simp add: min_absorb1)
  then have "run claim (take j ks) s = run claim (take i ks @ ks ! i # ?rest) s"
    by (rule arg_cong)
  then have split: "snd (run claim (take j ks) s) = snd (run claim ?rest (snd (claim (ks ! i) ?s)))"
    by (simp add: run_append case_prod_unfold Let_def)
  have ok: "ok ?s" by (rule run_ok [OF assms(1)])
  have "fst (claim (ks ! i) ?s)" using assms(2,3,5) by (simp add: run_nth)
  then have "\<not> claimable (slot (ks ! j)) (snd (claim (ks ! i) ?s))" by (rule success_closes [OF ok _ assms(4)])
  then have "\<not> claimable (slot (ks ! j)) (snd (run claim (take j ks) s))"
    unfolding split by (rule closed_stays [OF ok_stays [OF ok]])
  then show ?thesis using assms(3) success_needs [OF run_ok [OF assms(1)]] by (auto simp: run_nth)
qed

end

locale spending =
  fixes claim :: "'k \<Rightarrow> 's \<Rightarrow> bool \<times> 's" and slot :: "'k \<Rightarrow> 'c"
    and claimable :: "'c \<Rightarrow> 's \<Rightarrow> bool" and covers :: "'c \<Rightarrow> 'c \<Rightarrow> bool"
  assumes claim_iff: "fst (claim k s) \<longleftrightarrow> claimable (slot k) s"
    and claim_spends: "claimable (slot k) s \<Longrightarrow> covers (slot k) d \<Longrightarrow> \<not> claimable d (snd (claim k s))"
    and claim_grants_nothing: "claimable c (snd (claim k s)) \<Longrightarrow> claimable c s"

sublocale spending \<subseteq> closing claim slot claimable covers "\<lambda>_. True"
  by unfold_locales (auto simp: claim_iff claim_spends dest: claim_grants_nothing)

context spending
begin

lemma spent_stays: "\<not> claimable c s \<Longrightarrow> \<not> claimable c (snd (run claim ks s))"
  by (rule closed_stays [OF TrueI])

lemma spent_refused:
  assumes "\<not> claimable c s" "i < length ks" "slot (ks ! i) = c"
  shows "\<not> fst (run claim ks s) ! i"
  using spent_stays [OF assms(1), of "take i ks"] assms(2,3) by (simp add: run_nth claim_iff)

lemma success_was_claimable:
  assumes "i < length ks" "fst (run claim ks s) ! i" shows "claimable (slot (ks ! i)) s"
  using spent_stays [of "slot (ks ! i)" s "take i ks"] assms by (auto simp: run_nth claim_iff)

lemma covered_refused:
  "i < j \<Longrightarrow> j < length ks \<Longrightarrow> covers (slot (ks ! i)) (slot (ks ! j)) \<Longrightarrow> fst (run claim ks s) ! i \<Longrightarrow>
    \<not> fst (run claim ks s) ! j"
  by (rule closed_after_success [OF TrueI])

end

locale one_shot =
  fixes claim :: "'k \<Rightarrow> 's \<Rightarrow> bool \<times> 's" and slot :: "'k \<Rightarrow> 'c"
    and claimable :: "'c \<Rightarrow> 's \<Rightarrow> bool"
  assumes shot_iff: "fst (claim k s) \<longleftrightarrow> claimable (slot k) s"
    and shot_spends: "claimable (slot k) s \<Longrightarrow> \<not> claimable (slot k) (snd (claim k s))"
    and shot_grants_nothing: "claimable c (snd (claim k s)) \<Longrightarrow> claimable c s"

sublocale one_shot \<subseteq> spending claim slot claimable "(=)"
  by unfold_locales (auto simp: shot_iff shot_spends dest: shot_grants_nothing)

context one_shot
begin

lemma at_most_once:
  "i < j \<Longrightarrow> j < length ks \<Longrightarrow> slot (ks ! i) = slot (ks ! j) \<Longrightarrow> fst (run claim ks s) ! i \<Longrightarrow>
    \<not> fst (run claim ks s) ! j"
  by (rule covered_refused)

end

locale exclusive_one_shot = one_shot +
  assumes claim_frame: "slot j \<noteq> c \<Longrightarrow> claimable c s \<Longrightarrow> claimable c (snd (claim j s))"
begin

lemma others_keep: "c \<notin> slot ` set ks \<Longrightarrow> claimable c s \<Longrightarrow> claimable c (snd (run claim ks s))"
proof (induction ks arbitrary: s)
  case (Cons k ks)
  then have "claimable c (snd (claim k s))" using claim_frame [of k c s] by auto
  then show ?case
    using Cons.IH [of "snd (claim k s)"] Cons.prems by (simp add: case_prod_unfold Let_def)
qed simp

text \<open>The first request for a claimable credential succeeds, so exactly one does.\<close>

lemma first_wins:
  assumes "claimable (slot (ks ! i)) s" "i < length ks" "slot (ks ! i) \<notin> slot ` set (take i ks)"
  shows "fst (run claim ks s) ! i"
  using others_keep [OF assms(3,1)] assms(2) by (simp add: run_nth shot_iff)

end

section \<open>Other statements in between\<close>

datatype ('k, 'o) shot_step = Claim 'k | Other 'o

definition mixed_step :: "('k \<Rightarrow> 's \<Rightarrow> bool \<times> 's) \<Rightarrow> ('o \<Rightarrow> 's \<Rightarrow> 's) \<Rightarrow> ('k, 'o) shot_step \<Rightarrow>
    's \<Rightarrow> bool \<times> 's" where
  "mixed_step claim other st s = (case st of Claim k \<Rightarrow> claim k s | Other x \<Rightarrow> (False, other x s))"

locale spending_env = spending claim slot claimable covers
  for claim :: "'k \<Rightarrow> 's \<Rightarrow> bool \<times> 's" and slot :: "'k \<Rightarrow> 'c" and claimable covers +
  fixes other :: "'o \<Rightarrow> 's \<Rightarrow> 's"
  assumes other_grants_nothing: "claimable c (other x s) \<Longrightarrow> claimable c s"

sublocale spending_env \<subseteq> mixed: spending "mixed_step claim other"
    "\<lambda>st. case st of Claim k \<Rightarrow> Some (slot k) | Other x \<Rightarrow> None"
    "\<lambda>c s. case c of Some c \<Rightarrow> claimable c s | None \<Rightarrow> False"
    "\<lambda>c d. case (c, d) of (Some c, Some d) \<Rightarrow> covers c d | _ \<Rightarrow> False"
  by unfold_locales
    (auto simp: mixed_step_def claim_iff split: shot_step.splits option.splits
      dest: claim_spends claim_grants_nothing other_grants_nothing)

end
