(* ===== verification/Mfa.thy ===== *)
theory Mfa
  imports Crypto Interfaces
begin

text \<open>
  \<^verbatim>\<open>src/models/mfa.rs\<close> and \<^verbatim>\<open>src/services/mfa.rs\<close>: the second factor.  The table \<open>user_mfa\<close> is a map
  from record key (the user id, which the rows repeat) to row.  \<open>mfa_env\<close> holds the third-party
  parts: the cipher primitives, base32, the TOTP generator and the QR encoder.  Random values and
  the clock are arguments.
\<close>

section \<open>Data\<close>

datatype mfa_status = MfaDisabled | MfaPending | MfaEnabled

datatype mfa_method = Totp | Sms | EmailCode

record user_mfa =
  mfa_user_id :: str
  mfa_status :: mfa_status
  mfa_method :: mfa_method
  totp_secret :: "str option"
  backup_codes :: "str list"
  mfa_created_at :: int
  mfa_updated_at :: int
  last_used_at :: "int option"
  last_totp_step :: "int option"

type_synonym mfa_table = "str \<rightharpoonup> user_mfa"

type_synonym 'a mfa_op = "(mfa_table, 'a) handler"

text \<open>Eight codes of eight capital letters, from the draws of the generator.\<close>

definition generate_backup_codes :: "(nat \<Rightarrow> nat \<Rightarrow> nat) \<Rightarrow> str list" where
  "generate_backup_codes draw = map (\<lambda>i. map (\<lambda>j. 65 + draw i j mod 26) [0..<8]) [0..<8]"

record totp_setup_response =
  setup_secret :: str
  setup_qr_code :: str
  setup_backup_codes :: "str list"

record mfa_verification_response =
  verified :: bool
  verify_message :: "str option"

record mfa_status_response =
  enabled :: bool
  status_method :: "mfa_method option"
  backup_codes_count :: nat
  status_last_used_at :: "int option"

record mfa_env =
  prims :: primitives
  env_cipher :: "secret_cipher option"
  base32_encode :: "bytes \<Rightarrow> str"
  secret_to_bytes :: "str \<Rightarrow> bytes option"
  totp_new :: "bytes \<Rightarrow> str \<Rightarrow> bool"
  totp_generate :: "bytes \<Rightarrow> nat \<Rightarrow> str"
  totp_url :: "bytes \<Rightarrow> str \<Rightarrow> str"
  qr_svg :: "str \<Rightarrow> str option"

section \<open>Matching a code\<close>

definition totp_step_secs :: int where
  "totp_step_secs = 30"

definition match_totp_step :: "(nat \<Rightarrow> str) \<Rightarrow> str \<Rightarrow> int \<Rightarrow> int option" where
  "match_totp_step generate code now =
    (let current_step = now div totp_step_secs in
     find (\<lambda>step. 0 \<le> step \<and>
         constant_time_eq (as_bytes (generate (nat (step * totp_step_secs)))) (as_bytes code))
       (map (\<lambda>offset. current_step + offset) [-1, 0, 1]))"

definition cipher :: "mfa_env \<Rightarrow> auth_error + secret_cipher" where
  "cipher E = ok_or (env_cipher E) (ServiceUnavailable (lit
    ''MFA is not configured on this instance: MFA_SECRET_ENCRYPTION_KEY is not set. Generate one with `openssl rand -base64 32` and restart.''))"

definition decrypted_secret :: "mfa_env \<Rightarrow> user_mfa \<Rightarrow> auth_error + str" where
  "decrypted_secret E cfg =
    (case totp_secret cfg of
       None \<Rightarrow> Inl (ServerError (lit ''TOTP secret not found''))
     | Some stored \<Rightarrow> (case cipher E of Inl e \<Rightarrow> Inl e | Inr key \<Rightarrow> decrypt (prims E) key stored))"

definition verify_totp_code :: "mfa_env \<Rightarrow> int \<Rightarrow> str \<Rightarrow> str \<Rightarrow> auth_error + int option" where
  "verify_totp_code E now secret code =
    (case secret_to_bytes E secret of
       None \<Rightarrow> Inl (ServerError (lit ''Invalid secret''))
     | Some bs \<Rightarrow>
         if \<not> totp_new E bs [] then Inl (ServerError (lit ''TOTP creation failed''))
         else Inr (match_totp_step (totp_generate E bs) code now))"

section \<open>Statements on the table\<close>

definition get_user_mfa :: "faults \<Rightarrow> str \<Rightarrow> user_mfa mfa_op" where
  "get_user_mfa F user = bind (db_read F ''mfa_get_user_config'' (\<lambda>t. t user)) (\<lambda>r. the_or r UserNotFound)"

definition with_encrypted_secret :: "mfa_env \<Rightarrow> bytes \<Rightarrow> user_mfa \<Rightarrow> auth_error + user_mfa" where
  "with_encrypted_secret E nonce cfg =
    (case totp_secret cfg of
       None \<Rightarrow> Inr cfg
     | Some secret \<Rightarrow>
         if is_encrypted secret then Inr cfg
         else (case cipher E of
             Inl e \<Rightarrow> Inl e
           | Inr key \<Rightarrow> (case encrypt (prims E) key nonce secret of
               Inl e \<Rightarrow> Inl e
             | Inr c \<Rightarrow> Inr (cfg\<lparr>totp_secret := Some c\<rparr>))))"

definition save_user_mfa :: "faults \<Rightarrow> mfa_env \<Rightarrow> bytes \<Rightarrow> user_mfa \<Rightarrow> unit mfa_op" where
  "save_user_mfa F E nonce cfg =
    bind (lift_result (with_encrypted_secret E nonce cfg)) (\<lambda>cfg.
      db_write F ''mfa_save_user_config'' (\<lambda>t. t(mfa_user_id cfg \<mapsto> cfg)))"

definition delete_user_mfa :: "faults \<Rightarrow> str \<Rightarrow> unit mfa_op" where
  "delete_user_mfa F user = db_write F ''mfa_delete_user_config'' (\<lambda>t. t(user := None))"

text \<open>
  The conditional statement of \<open>accept_totp_code\<close>: it takes effect, and answers the row, only when the
  step is above the water mark.  \<open>enable\<close> is the extra assignment \<^verbatim>\<open>status = 'Enabled'\<close>.
\<close>

record totp_claim =
  claim_user :: str
  claim_step :: int
  claim_secret :: "str option"
  claim_enable :: bool
  claim_now :: int

definition consume_totp_step :: "totp_claim \<Rightarrow> mfa_table \<Rightarrow> bool \<times> mfa_table" where
  "consume_totp_step c t =
    (case t (claim_user c) of
       None \<Rightarrow> (False, t)
     | Some r \<Rightarrow>
         if (case last_totp_step r of None \<Rightarrow> True | Some l \<Rightarrow> l < claim_step c)
         then (True, t(claim_user c \<mapsto> r\<lparr>last_totp_step := Some (claim_step c),
             last_used_at := Some (claim_now c), mfa_updated_at := claim_now c,
             totp_secret := claim_secret c,
             mfa_status := (if claim_enable c then MfaEnabled else mfa_status r)\<rparr>))
         else (False, t))"

definition accept_totp_code :: "faults \<Rightarrow> mfa_env \<Rightarrow> bytes \<Rightarrow> int \<Rightarrow> user_mfa \<Rightarrow> str \<Rightarrow> bool \<Rightarrow>
    bool mfa_op" where
  "accept_totp_code F E nonce now cfg code enable =
    bind (lift_result (decrypted_secret E cfg)) (\<lambda>secret.
    bind (lift_result (verify_totp_code E now secret code)) (\<lambda>m.
      case m of
        None \<Rightarrow> ret False
      | Some step \<Rightarrow>
          bind (if is_encrypted secret then ret (totp_secret cfg)
                else bind (lift_result (cipher E)) (\<lambda>key.
                  bind (lift_result (encrypt (prims E) key nonce secret)) (\<lambda>c. ret (Some c))))
            (\<lambda>encrypted.
              db_exec F ''mfa_consume_totp_step''
                (consume_totp_step \<lparr>claim_user = mfa_user_id cfg, claim_step = step,
                   claim_secret = encrypted, claim_enable = enable, claim_now = now\<rparr>))))"

record backup_claim =
  backup_user :: str
  backup_used :: str
  backup_now :: int

definition consume_backup_code :: "backup_claim \<Rightarrow> mfa_table \<Rightarrow> bool \<times> mfa_table" where
  "consume_backup_code c t =
    (case t (backup_user c) of
       None \<Rightarrow> (False, t)
     | Some r \<Rightarrow>
         if backup_used c \<in> set (backup_codes r)
         then (True, t(backup_user c \<mapsto> r\<lparr>backup_codes := filter (\<lambda>h. h \<noteq> backup_used c) (backup_codes r),
             last_used_at := Some (backup_now c), mfa_updated_at := backup_now c\<rparr>))
         else (False, t))"

section \<open>The service\<close>

record setup_rand =
  rand_secret :: bytes
  rand_codes :: "nat \<Rightarrow> nat \<Rightarrow> nat"
  rand_salt :: "nat \<Rightarrow> bytes"
  rand_nonce :: bytes

text \<open>
  \<^verbatim>\<open>if let Ok(existing) = ..\<close> ignores every error of the look-up, a database failure included: the
  guard is \<open>catch\<close> with a handler that goes on.
\<close>

definition setup_totp :: "faults \<Rightarrow> mfa_env \<Rightarrow> setup_rand \<Rightarrow> int \<Rightarrow> str \<Rightarrow> totp_setup_response mfa_op" where
  "setup_totp F E R now user =
    seq (catch (get_user_mfa F user)
        (\<lambda>_. ret ())
        (\<lambda>existing. require (mfa_status existing \<noteq> MfaEnabled) (ServerError (lit ''MFA already enabled''))))
    (let secret_str = base32_encode E (rand_secret R) in
     bind (the_or (secret_to_bytes E secret_str) (ServerError (lit ''panic''))) (\<lambda>bs.
     seq (require (totp_new E bs user) (ServerError (lit ''TOTP URL error'')))
     (bind (the_or (qr_svg E (totp_url E bs user)) (ServerError (lit ''Failed to generate QR code''))) (\<lambda>svg.
      let qr = lit ''data:image/svg+xml;base64,'' @ b64_encode (prims E) (as_bytes svg);
          codes = generate_backup_codes (rand_codes R)
      in bind (lift_result (collect_results
            (map (\<lambda>i. hash_backup_code (prims E) (rand_salt R i) (codes ! i)) [0..<length codes]))) (\<lambda>hashed.
         bind (lift_result (cipher E)) (\<lambda>key.
         bind (lift_result (encrypt (prims E) key (rand_nonce R) secret_str)) (\<lambda>stored.
         seq (save_user_mfa F E (rand_nonce R)
               \<lparr>mfa_user_id = user, mfa_status = MfaPending, mfa_method = Totp,
                totp_secret = Some stored, backup_codes = hashed, mfa_created_at = now,
                mfa_updated_at = now, last_used_at = None, last_totp_step = None\<rparr>)
         (ret \<lparr>setup_secret = secret_str, setup_qr_code = qr, setup_backup_codes = codes\<rparr>))))))))"

definition enable_totp :: "faults \<Rightarrow> mfa_env \<Rightarrow> bytes \<Rightarrow> int \<Rightarrow> str \<Rightarrow> str \<Rightarrow> bool mfa_op" where
  "enable_totp F E nonce now user code =
    bind (get_user_mfa F user) (\<lambda>cfg.
    seq (require (mfa_status cfg = MfaPending) (ServerError (lit ''TOTP not in pending state'')))
    (accept_totp_code F E nonce now cfg code True))"

definition mfa_refused :: "string \<Rightarrow> mfa_verification_response" where
  "mfa_refused m = \<lparr>verified = False, verify_message = Some (lit m)\<rparr>"

definition mfa_accepted :: mfa_verification_response where
  "mfa_accepted = \<lparr>verified = True, verify_message = None\<rparr>"

definition verify_totp :: "faults \<Rightarrow> mfa_env \<Rightarrow> bytes \<Rightarrow> int \<Rightarrow> str \<Rightarrow> str \<Rightarrow> mfa_verification_response mfa_op" where
  "verify_totp F E nonce now user code =
    bind (get_user_mfa F user) (\<lambda>cfg.
      if mfa_status cfg \<noteq> MfaEnabled then ret (mfa_refused ''MFA not enabled'')
      else bind (accept_totp_code F E nonce now cfg code False) (\<lambda>ok.
        ret (if ok then mfa_accepted else mfa_refused ''Invalid TOTP code'')))"

definition use_backup_code :: "faults \<Rightarrow> mfa_env \<Rightarrow> int \<Rightarrow> str \<Rightarrow> str \<Rightarrow> mfa_verification_response mfa_op" where
  "use_backup_code F E now user code =
    bind (get_user_mfa F user) (\<lambda>cfg.
      if mfa_status cfg \<noteq> MfaEnabled then ret (mfa_refused ''MFA not enabled'')
      else case find (\<lambda>stored. verify_backup_code (prims E) stored code) (backup_codes cfg) of
          None \<Rightarrow> ret (mfa_refused ''Invalid backup code'')
        | Some used \<Rightarrow>
            bind (db_exec F ''mfa_consume_backup_code''
                (consume_backup_code \<lparr>backup_user = mfa_user_id cfg, backup_used = used, backup_now = now\<rparr>))
              (\<lambda>ok. ret (if ok then mfa_accepted else mfa_refused ''Invalid backup code'')))"

definition disable_mfa :: "faults \<Rightarrow> str \<Rightarrow> bool mfa_op" where
  "disable_mfa F user =
    bind (get_user_mfa F user) (\<lambda>cfg.
      if mfa_status cfg = MfaDisabled then ret True
      else seq (delete_user_mfa F user) (ret True))"

definition get_mfa_status :: "faults \<Rightarrow> str \<Rightarrow> mfa_status_response mfa_op" where
  "get_mfa_status F user =
    catch (get_user_mfa F user)
      (\<lambda>e. if e = UserNotFound
           then ret \<lparr>enabled = False, status_method = None, backup_codes_count = 0, status_last_used_at = None\<rparr>
           else throw e)
      (\<lambda>cfg. ret \<lparr>enabled = (mfa_status cfg = MfaEnabled), status_method = Some (mfa_method cfg),
           backup_codes_count = length (backup_codes cfg), status_last_used_at = last_used_at cfg\<rparr>)"

definition enabled_method :: "faults \<Rightarrow> str \<Rightarrow> mfa_method option mfa_op" where
  "enabled_method F user =
    catch (get_user_mfa F user)
      (\<lambda>e. if e = UserNotFound then ret None else throw e)
      (\<lambda>cfg. ret (if mfa_status cfg = MfaEnabled then Some (mfa_method cfg) else None))"

section \<open>One-time credentials\<close>

definition totp_claimable :: "str \<times> int \<Rightarrow> mfa_table \<Rightarrow> bool" where
  "totp_claimable c t =
    (case t (fst c) of
       None \<Rightarrow> False
     | Some r \<Rightarrow> (case last_totp_step r of None \<Rightarrow> True | Some l \<Rightarrow> l < snd c))"

definition totp_covers :: "str \<times> int \<Rightarrow> str \<times> int \<Rightarrow> bool" where
  "totp_covers c d \<longleftrightarrow> fst c = fst d \<and> snd d \<le> snd c"

definition backup_claimable :: "str \<times> str \<Rightarrow> mfa_table \<Rightarrow> bool" where
  "backup_claimable c t = (case t (fst c) of None \<Rightarrow> False | Some r \<Rightarrow> snd c \<in> set (backup_codes r))"

text \<open>The statements other than a new set-up that may run between two verifications.\<close>

datatype mfa_other = UseCode backup_claim | Remove str

primrec mfa_other_step :: "mfa_other \<Rightarrow> mfa_table \<Rightarrow> mfa_table" where
  "mfa_other_step (UseCode c) t = snd (consume_backup_code c t)"
| "mfa_other_step (Remove u) t = t(u := None)"

interpretation totp: spending_env consume_totp_step "\<lambda>c :: totp_claim. (claim_user c, claim_step c)"
  totp_claimable totp_covers mfa_other_step
proof unfold_locales
  fix k :: totp_claim and t
  show "fst (consume_totp_step k t) = totp_claimable (claim_user k, claim_step k) t"
    by (auto simp: consume_totp_step_def totp_claimable_def split: option.split)
next
  fix k :: totp_claim and t d
  assume "totp_claimable (claim_user k, claim_step k) t" "totp_covers (claim_user k, claim_step k) d"
  then show "\<not> totp_claimable d (snd (consume_totp_step k t))"
    by (auto simp: consume_totp_step_def totp_claimable_def totp_covers_def split: option.splits)
next
  fix c t and k :: totp_claim
  assume "totp_claimable c (snd (consume_totp_step k t))"
  then show "totp_claimable c t"
    by (auto simp: consume_totp_step_def totp_claimable_def split: option.splits if_splits)
next
  fix c x t
  assume "totp_claimable c (mfa_other_step x t)"
  then show "totp_claimable c t"
    by (cases x) (auto simp: consume_backup_code_def totp_claimable_def split: option.splits if_splits)
qed

interpretation recovery: exclusive_one_shot consume_backup_code
  "\<lambda>c :: backup_claim. (backup_user c, backup_used c)" backup_claimable
proof unfold_locales
  fix k :: backup_claim and t
  show "fst (consume_backup_code k t) = backup_claimable (backup_user k, backup_used k) t"
    by (auto simp: consume_backup_code_def backup_claimable_def split: option.split)
next
  fix k :: backup_claim and t
  assume "backup_claimable (backup_user k, backup_used k) t"
  then show "\<not> backup_claimable (backup_user k, backup_used k) (snd (consume_backup_code k t))"
    by (auto simp: consume_backup_code_def backup_claimable_def split: option.splits)
next
  fix c t and k :: backup_claim
  assume "backup_claimable c (snd (consume_backup_code k t))"
  then show "backup_claimable c t"
    by (auto simp: consume_backup_code_def backup_claimable_def split: option.splits if_splits)
next
  fix j :: backup_claim and c t
  assume "(backup_user j, backup_used j) \<noteq> c" "backup_claimable c t"
  then show "backup_claimable c (snd (consume_backup_code j t))"
    by (cases c) (auto simp: consume_backup_code_def backup_claimable_def split: option.splits if_splits)
qed

section \<open>Facts of single operations\<close>

definition mfa_inv :: "mfa_table \<Rightarrow> bool" where
  "mfa_inv t \<longleftrightarrow> (\<forall>u r. t u = Some r \<longrightarrow> mfa_user_id r = u)"

lemma get_user_mfa_success [op_success]:
  "get_user_mfa F user t = (Inr r, t') \<longleftrightarrow>
    F (lit ''mfa_get_user_config'') 0 = None \<and> t user = Some r \<and> t' = t"
  by (auto simp: get_user_mfa_def op_success)

lemma get_user_mfa_failure [op_failure]:
  "get_user_mfa F user t = (Inl e, t') \<longleftrightarrow> t' = t \<and>
    (case F (lit ''mfa_get_user_config'') 0 of Some f \<Rightarrow> e = f
     | None \<Rightarrow> t user = None \<and> e = UserNotFound)"
  by (auto simp: get_user_mfa_def op_failure op_success split: option.split)

lemma preserves_get_user_mfa [preserve]: "preserves I (get_user_mfa F user)"
  unfolding get_user_mfa_def by (intro preserve)

lemma preserves_accept: "(\<And>c t. I t \<Longrightarrow> I (snd (consume_totp_step c t))) \<Longrightarrow>
    preserves I (accept_totp_code F E nonce now cfg code enable)"
  unfolding accept_totp_code_def by (intro preserve preserves_db_exec)

lemma consume_totp_inv: "mfa_inv t \<Longrightarrow> mfa_inv (snd (consume_totp_step c t))"
  by (auto simp: consume_totp_step_def mfa_inv_def split: option.splits)

lemma consume_backup_inv: "mfa_inv t \<Longrightarrow> mfa_inv (snd (consume_backup_code c t))"
  by (auto simp: consume_backup_code_def mfa_inv_def split: option.splits)

lemma match_totp_step_Some:
  assumes "match_totp_step gen code now = Some step"
  shows "0 \<le> step \<and> \<bar>step - now div 30\<bar> \<le> 1 \<and> as_bytes (gen (nat (step * 30))) = as_bytes code"
proof -
  have "step \<in> {now div 30 - 1, now div 30, now div 30 + 1}"
    using find_Some_in [OF assms [unfolded match_totp_step_def Let_def]]
    by (auto simp: totp_step_secs_def)
  then show ?thesis
    using find_Some_in [OF assms [unfolded match_totp_step_def Let_def]]
    by (auto simp: totp_step_secs_def constant_time_eq_iff)
qed

lemma match_totp_step_None:
  "match_totp_step gen code now = None \<longleftrightarrow>
    (\<forall>step. 0 \<le> step \<longrightarrow> \<bar>step - now div 30\<bar> \<le> 1 \<longrightarrow> as_bytes (gen (nat (step * 30))) \<noteq> as_bytes code)"
proof -
  have "step \<in> set (map (\<lambda>offset. now div 30 + offset) [-1, 0, 1]) \<longleftrightarrow> \<bar>step - now div 30\<bar> \<le> 1" for step
    by auto
  then show ?thesis
    unfolding match_totp_step_def Let_def find_None_all totp_step_secs_def constant_time_eq_iff
    by blast
qed

lemma accept_totp_success:
  assumes "accept_totp_code F E nonce now cfg code enable t = (Inr True, t')"
  obtains secret bs step sec where
    "decrypted_secret E cfg = Inr secret" "secret_to_bytes E secret = Some bs"
    "match_totp_step (totp_generate E bs) code now = Some step"
    "consume_totp_step \<lparr>claim_user = mfa_user_id cfg, claim_step = step, claim_secret = sec,
        claim_enable = enable, claim_now = now\<rparr> t = (True, t')"
proof -
  obtain secret m where s: "decrypted_secret E cfg = Inr secret"
    and m: "verify_totp_code E now secret code = Inr m"
    using assms by (auto simp: accept_totp_code_def op_success)
  obtain bs where bs: "secret_to_bytes E secret = Some bs"
    "m = match_totp_step (totp_generate E bs) code now"
    using m by (auto simp: verify_totp_code_def split: option.splits if_splits)
  show thesis
  proof (cases m)
    case None
    then show thesis using assms s m by (simp add: accept_totp_code_def op_defs)
  next
    case (Some step)
    then show thesis
      using assms s m bs that [OF s bs(1)]
      by (auto simp: accept_totp_code_def op_success split: if_splits)
  qed
qed

section \<open>The life of a configuration\<close>

text \<open>What the operations of the service may do to the status of one user.\<close>

inductive mfa_transition :: "mfa_status option \<Rightarrow> mfa_status option \<Rightarrow> bool" where
  stay: "mfa_transition s s"
| set_up: "s \<noteq> Some MfaEnabled \<Longrightarrow> mfa_transition s (Some MfaPending)"
| enables: "mfa_transition (Some MfaPending) (Some MfaEnabled)"
| disables: "mfa_transition s None"

inductive_simps from_enabled: "mfa_transition (Some MfaEnabled) s"
inductive_simps into_enabled: "mfa_transition s (Some MfaEnabled)"

datatype mfa_event =
    SetupTotp setup_rand int str
  | EnableTotp bytes int str str
  | VerifyTotp bytes int str str
  | UseBackupCode int str str
  | DisableMfa str

primrec exec_mfa :: "faults \<Rightarrow> mfa_env \<Rightarrow> mfa_event \<Rightarrow> mfa_table \<Rightarrow> mfa_table" where
  "exec_mfa F E (SetupTotp R now user) = after (setup_totp F E R now user)"
| "exec_mfa F E (EnableTotp nonce now user code) = after (enable_totp F E nonce now user code)"
| "exec_mfa F E (VerifyTotp nonce now user code) = after (verify_totp F E nonce now user code)"
| "exec_mfa F E (UseBackupCode now user code) = after (use_backup_code F E now user code)"
| "exec_mfa F E (DisableMfa user) = after (disable_mfa F user)"

definition status_of :: "mfa_table \<Rightarrow> str \<Rightarrow> mfa_status option" where
  "status_of t u = map_option mfa_status (t u)"

lemma accept_state:
  assumes "accept_totp_code F E nonce now cfg code enable t = (r, t')" "r \<noteq> Inr True"
  shows "t' = t"
  using assms
  by (cases r) (auto simp: accept_totp_code_def op_success op_failure consume_totp_step_def
    split: option.splits if_splits)

lemma accept_effect:
  obtains (none) "after (accept_totp_code F E nonce now cfg code enable) t = t"
  | (claim) c where "claim_user c = mfa_user_id cfg" "claim_enable c = enable"
      "consume_totp_step c t = (True, after (accept_totp_code F E nonce now cfg code enable) t)"
      "accept_totp_code F E nonce now cfg code enable t =
        (Inr True, after (accept_totp_code F E nonce now cfg code enable) t)"
proof (cases "accept_totp_code F E nonce now cfg code enable t")
  case (Pair r t')
  show thesis
  proof (cases "r = Inr True")
    case True
    then obtain c where "claim_user c = mfa_user_id cfg" "claim_enable c = enable"
        "consume_totp_step c t = (True, t')"
      using Pair by (auto elim!: accept_totp_success intro: that [of "\<lparr>claim_user = _, claim_step = _,
        claim_secret = _, claim_enable = _, claim_now = _\<rparr>", simplified])
    then show thesis using claim Pair True by (simp add: after_def)
  next
    case False
    then show thesis using none accept_state [OF Pair False] Pair by (simp add: after_def)
  qed
qed

lemma consume_totp_status:
  "consume_totp_step c t = (True, t') \<Longrightarrow>
    status_of t' u = (if u = claim_user c \<and> claim_enable c then Some MfaEnabled else status_of t u) \<and>
    (\<exists>r. t (claim_user c) = Some r)"
  by (auto simp: consume_totp_step_def status_of_def split: option.splits if_splits)

lemma save_state:
  "save_user_mfa F E nonce cfg t = (r, t') \<Longrightarrow> t' = t \<or>
    (\<exists>cfg'. mfa_user_id cfg' = mfa_user_id cfg \<and> mfa_status cfg' = mfa_status cfg \<and>
      last_totp_step cfg' = last_totp_step cfg \<and> t' = t(mfa_user_id cfg \<mapsto> cfg'))"
proof -
  have enc: "mfa_user_id cfg' = mfa_user_id cfg \<and> mfa_status cfg' = mfa_status cfg \<and>
      last_totp_step cfg' = last_totp_step cfg" if "with_encrypted_secret E nonce cfg = Inr cfg'" for cfg'
    using that by (auto simp: with_encrypted_secret_def split: option.splits if_splits sum.splits)
  assume "save_user_mfa F E nonce cfg t = (r, t')"
  then show ?thesis
    using enc by (cases r) (auto simp: save_user_mfa_def op_success op_failure dest!: enc)
qed

definition pending_row :: "str \<Rightarrow> user_mfa \<Rightarrow> bool" where
  "pending_row user cfg \<longleftrightarrow>
    mfa_user_id cfg = user \<and> mfa_status cfg = MfaPending \<and> last_totp_step cfg = None"

lemma save_pending_state:
  "save_user_mfa F E nonce cfg t = (r, t') \<Longrightarrow> pending_row user cfg \<Longrightarrow>
    t' = t \<or> (\<exists>cfg'. pending_row user cfg' \<and> t' = t(user \<mapsto> cfg'))"
  using save_state [of F E nonce cfg t r t'] by (auto simp: pending_row_def)

lemma setup_state:
  "setup_totp F E R now user t = (r, t') \<Longrightarrow>
    t' = t \<or> (\<exists>cfg. pending_row user cfg \<and> t' = t(user \<mapsto> cfg))"
proof -
  have rec: "pending_row user \<lparr>mfa_user_id = user, mfa_status = MfaPending, mfa_method = Totp,
      totp_secret = a, backup_codes = b, mfa_created_at = now, mfa_updated_at = now,
      last_used_at = None, last_totp_step = None\<rparr>" for a b
    by (simp add: pending_row_def)
  assume "setup_totp F E R now user t = (r, t')"
  then show ?thesis
    unfolding setup_totp_def Let_def
    by (cases r) (auto simp: op_success op_failure dest!: save_pending_state [OF _ rec])
qed

lemma setup_effect:
  "after (setup_totp F E R now user) t = t \<or>
    (\<exists>cfg. pending_row user cfg \<and> after (setup_totp F E R now user) t = t(user \<mapsto> cfg))"
  using setup_state [of F E R now user t] by (cases "setup_totp F E R now user t") (simp add: after_def)

lemma setup_guard:
  assumes "F (lit ''mfa_get_user_config'') 0 = None" "status_of t user = Some MfaEnabled"
  shows "setup_totp F E R now user t = (Inl (ServerError (lit ''MFA already enabled'')), t)"
  using assms by (auto simp: setup_totp_def status_of_def seq_def bind_def catch_def require_def
    get_user_mfa_def db_defs op_defs)

lemma enable_effect:
  assumes "mfa_inv t"
  obtains (none) "after (enable_totp F E nonce now user code) t = t"
  | (claim) cfg c where "t user = Some cfg" "mfa_status cfg = MfaPending" "claim_user c = user"
      "claim_enable c" "consume_totp_step c t = (True, after (enable_totp F E nonce now user code) t)"
      "accept_totp_code F E nonce now cfg code True t =
        (Inr True, after (enable_totp F E nonce now user code) t)"
proof (cases "F (lit ''mfa_get_user_config'') 0 = None \<and> status_of t user = Some MfaPending")
  case True
  then obtain cfg where cfg: "t user = Some cfg" "mfa_status cfg = MfaPending"
    by (auto simp: status_of_def)
  have uid: "mfa_user_id cfg = user" using assms cfg(1) by (simp add: mfa_inv_def)
  have eq: "enable_totp F E nonce now user code t = accept_totp_code F E nonce now cfg code True t"
    using True cfg by (simp add: enable_totp_def bind_def seq_def require_def get_user_mfa_def
      db_defs op_defs)
  have eq': "after (enable_totp F E nonce now user code) t =
      after (accept_totp_code F E nonce now cfg code True) t" by (simp only: after_def eq)
  note skip = none and used = claim
  show thesis
  proof (cases rule: accept_effect [of F E nonce now cfg code True t])
    case none
    then show thesis using skip eq' by simp
  next
    case (claim c)
    then show thesis using used [OF cfg, of c] eq' uid by simp
  qed
next
  case False
  have "after (enable_totp F E nonce now user code) t = t"
    using False by (auto simp: after_def enable_totp_def bind_def seq_def require_def
      get_user_mfa_def db_defs op_defs status_of_def split: option.split)
  then show thesis by (rule none)
qed

lemma verify_totp_effect:
  assumes "mfa_inv t"
  obtains (none) "after (verify_totp F E nonce now user code) t = t"
  | (claim) cfg c where "t user = Some cfg" "mfa_status cfg = MfaEnabled" "claim_user c = user"
      "\<not> claim_enable c" "consume_totp_step c t = (True, after (verify_totp F E nonce now user code) t)"
      "accept_totp_code F E nonce now cfg code False t =
        (Inr True, after (verify_totp F E nonce now user code) t)"
proof (cases "F (lit ''mfa_get_user_config'') 0 = None \<and> status_of t user = Some MfaEnabled")
  case True
  then obtain cfg where cfg: "t user = Some cfg" "mfa_status cfg = MfaEnabled"
    by (auto simp: status_of_def)
  have uid: "mfa_user_id cfg = user" using assms cfg(1) by (simp add: mfa_inv_def)
  have eq: "after (verify_totp F E nonce now user code) t =
      after (accept_totp_code F E nonce now cfg code False) t"
    using True cfg by (simp add: after_def verify_totp_def bind_def get_user_mfa_def db_defs op_defs
      split: prod.split sum.split)
  note skip = none and used = claim
  show thesis
  proof (cases rule: accept_effect [of F E nonce now cfg code False t])
    case none
    then show thesis using skip eq by simp
  next
    case (claim c)
    then show thesis using used [OF cfg, of c] eq uid by simp
  qed
next
  case False
  have "after (verify_totp F E nonce now user code) t = t"
    using False by (auto simp: after_def verify_totp_def bind_def get_user_mfa_def db_defs op_defs
      status_of_def split: option.split)
  then show thesis by (rule none)
qed

lemma use_backup_state:
  "use_backup_code F E now user code t = (r, t') \<Longrightarrow> t' = t \<or> (\<exists>c. t' = snd (consume_backup_code c t))"
  by (cases r) (auto simp: use_backup_code_def op_success op_failure split: option.splits if_splits,
    (metis snd_conv)+)

lemma use_backup_effect:
  "after (use_backup_code F E now user code) t = t \<or>
    (\<exists>c. after (use_backup_code F E now user code) t = snd (consume_backup_code c t))"
  using use_backup_state [of F E now user code t]
  by (cases "use_backup_code F E now user code t") (simp add: after_def)

lemma consume_backup_status: "status_of (snd (consume_backup_code c t)) u = status_of t u"
  by (auto simp: consume_backup_code_def status_of_def split: option.splits)

lemma disable_state:
  "disable_mfa F user t = (r, t') \<Longrightarrow> t' = t \<or> t' = t(user := None)"
  by (cases r) (auto simp: disable_mfa_def delete_user_mfa_def op_success op_failure split: if_splits)

lemma disable_effect:
  "after (disable_mfa F user) t = t \<or> after (disable_mfa F user) t = t(user := None)"
  using disable_state [of F user t] by (cases "disable_mfa F user t") (simp add: after_def)

lemma exec_inv: "mfa_inv t \<Longrightarrow> mfa_inv (exec_mfa F E ev t)"
proof (cases ev)
  case (SetupTotp R now user)
  assume "mfa_inv t"
  then show ?thesis using setup_effect [of F E R now user t] SetupTotp
    by (auto simp: mfa_inv_def pending_row_def split: if_splits)
next
  case (EnableTotp nonce now user code)
  assume i: "mfa_inv t"
  show ?thesis
    by (rule enable_effect [OF i, of F E nonce now user code])
      (use i consume_totp_inv [OF i] EnableTotp in \<open>auto, metis snd_conv\<close>)
next
  case (VerifyTotp nonce now user code)
  assume i: "mfa_inv t"
  show ?thesis
    by (rule verify_totp_effect [OF i, of F E nonce now user code])
      (use i consume_totp_inv [OF i] VerifyTotp in \<open>auto, metis snd_conv\<close>)
next
  case (UseBackupCode now user code)
  assume "mfa_inv t"
  then show ?thesis using use_backup_effect [of F E now user code t] consume_backup_inv UseBackupCode
    by auto
next
  case (DisableMfa user)
  assume "mfa_inv t"
  then show ?thesis using disable_effect [of F user t] DisableMfa
    by (auto simp: mfa_inv_def split: if_splits)
qed

lemma exec_transition:
  assumes i: "mfa_inv t" and up: "F (lit ''mfa_get_user_config'') 0 = None"
  shows "mfa_transition (status_of t u) (status_of (exec_mfa F E ev t) u)"
proof (cases ev)
  case (SetupTotp R now user)
  show ?thesis
  proof (cases "status_of t user = Some MfaEnabled")
    case True
    then show ?thesis using setup_guard [where F = F, OF up] SetupTotp by (simp add: after_def stay)
  next
    case False
    have "status_of (exec_mfa F E ev t) u = status_of t u \<or>
        u = user \<and> status_of (exec_mfa F E ev t) u = Some MfaPending"
      using setup_effect [of F E R now user t] SetupTotp
      by (auto simp: pending_row_def status_of_def split: if_splits)
    then show ?thesis using False stay [of "status_of t u"] set_up [of "status_of t u"] by auto
  qed
next
  case (EnableTotp nonce now user code)
  show ?thesis
    by (rule enable_effect [OF i, of F E nonce now user code])
      (use EnableTotp in \<open>auto simp: stay dest!: consume_totp_status [where u = u]\<close>,
        auto simp: status_of_def intro: enables stay)
next
  case (VerifyTotp nonce now user code)
  show ?thesis
    by (rule verify_totp_effect [OF i, of F E nonce now user code])
      (use VerifyTotp in \<open>auto simp: stay dest!: consume_totp_status [where u = u]\<close>)
next
  case (UseBackupCode now user code)
  then show ?thesis
    using use_backup_effect [of F E now user code t] by (auto simp: consume_backup_status stay)
next
  case (DisableMfa user)
  then show ?thesis
    using disable_effect [of F user t] by (auto simp: status_of_def intro: stay disables)
qed

section \<open>Properties\<close>

text \<open>
  C1: A time-based code is accepted once, and older ones never again.  Let the verifications of all
  requests, the uses of recovery codes and removals reach the database as atomic statements in any
  order (no new set-up in between).  If the \<open>i\<close>-th statement accepts step \<open>n\<close> of a user, no later one
  accepts a step \<open>m \<le> n\<close> of that user, whatever stale configuration the requests had read.
\<close>

theorem totp_never_replayed:
  assumes "i < j" "j < length sts" "sts ! i = Claim c" "sts ! j = Claim d"
    and "claim_user c = claim_user d" "claim_step d \<le> claim_step c"
    and "fst (run (mixed_step consume_totp_step mfa_other_step) sts t) ! i"
  shows "\<not> fst (run (mixed_step consume_totp_step mfa_other_step) sts t) ! j"
  by (rule totp.mixed.covered_refused [OF assms(1,2) _ assms(7)])
    (simp add: assms(3-6) totp_covers_def)

definition demo_claim :: "int \<Rightarrow> totp_claim" where
  "demo_claim n = \<lparr>claim_user = lit ''u'', claim_step = n, claim_secret = None, claim_enable = False,
    claim_now = 0\<rparr>"

definition demo_row :: user_mfa where
  "demo_row = \<lparr>mfa_user_id = lit ''u'', mfa_status = MfaEnabled, mfa_method = Totp,
    totp_secret = Some (lit ''S''), backup_codes = [lit ''ABCDEFGH''], mfa_created_at = 0,
    mfa_updated_at = 0, last_used_at = None, last_totp_step = None\<rparr>"

theorem totp_never_replayed_witness:
  "\<not> fst (run (mixed_step consume_totp_step mfa_other_step)
      [Claim (demo_claim 7), Claim (demo_claim 7)] [lit ''u'' \<mapsto> demo_row]) ! 1"
  by (rule totp_never_replayed [of 0 1 _ "demo_claim 7" "demo_claim 7"])
    (simp_all add: mixed_step_def consume_totp_step_def demo_claim_def demo_row_def)

text \<open>
  A recovery code works exactly once.  Among any number of concurrent requests that matched the
  same stored code, the first to reach the database succeeds when the code is still stored, and no
  other request for it does.
\<close>

theorem backup_code_exactly_once:
  assumes "backup_claimable (u, h) t"
    and "i < length cs" "(backup_user (cs ! i), backup_used (cs ! i)) = (u, h)"
    and "\<forall>c\<in>set (take i cs). (backup_user c, backup_used c) \<noteq> (u, h)"
    and "j < length cs" "(backup_user (cs ! j), backup_used (cs ! j)) = (u, h)"
  shows "fst (run consume_backup_code cs t) ! j \<longleftrightarrow> j = i"
proof -
  have first: "fst (run consume_backup_code cs t) ! i"
    by (rule recovery.first_wins) (use assms in auto)
  have "i \<le> j" using assms(4-6) by (metis in_set_conv_nth length_take linorder_not_le min_less_iff_conj
    nth_take)
  then show ?thesis
    using first recovery.at_most_once [of i j cs t] assms(3,5,6) by (cases "i = j") auto
qed

theorem backup_code_exactly_once_witness:
  "fst (run consume_backup_code
      [\<lparr>backup_user = lit ''u'', backup_used = lit ''ABCDEFGH'', backup_now = 1\<rparr>,
       \<lparr>backup_user = lit ''u'', backup_used = lit ''ABCDEFGH'', backup_now = 2\<rparr>]
      [lit ''u'' \<mapsto> demo_row]) ! 1 \<longleftrightarrow> (1 :: nat) = 0"
  by (rule backup_code_exactly_once [of "lit ''u''" "lit ''ABCDEFGH''"])
    (simp_all add: backup_claimable_def demo_row_def)

text \<open>
  What a successful verification proves.  \<open>verify_totp\<close> answers \<open>verified\<close> only for an enabled
  configuration, for a code equal to the generator's output at a step at most one away from the
  current one and above the water mark; and it leaves the water mark at that step.
\<close>

theorem verify_totp_sound:
  assumes "mfa_inv t" "verify_totp F E nonce now user code t = (Inr resp, t')" "verified resp"
  shows "\<exists>cfg secret bs step cfg'. t user = Some cfg \<and> mfa_status cfg = MfaEnabled \<and>
    decrypted_secret E cfg = Inr secret \<and> secret_to_bytes E secret = Some bs \<and>
    0 \<le> step \<and> \<bar>step - now div 30\<bar> \<le> 1 \<and>
    as_bytes (totp_generate E bs (nat (step * 30))) = as_bytes code \<and>
    (\<forall>l. last_totp_step cfg = Some l \<longrightarrow> l < step) \<and>
    t' user = Some cfg' \<and> last_totp_step cfg' = Some step \<and> mfa_status cfg' = MfaEnabled"
proof -
  obtain cfg where cfg: "t user = Some cfg" "mfa_status cfg = MfaEnabled"
    and acc: "accept_totp_code F E nonce now cfg code False t = (Inr True, t')"
    using assms(2,3)
    by (auto simp: verify_totp_def op_success mfa_refused_def mfa_accepted_def split: if_splits)
  have "mfa_user_id cfg = user" using assms(1) cfg(1) by (simp add: mfa_inv_def)
  then show ?thesis
    using acc cfg
    by (elim accept_totp_success)
      (auto simp: consume_totp_step_def dest!: match_totp_step_Some split: option.splits if_splits)
qed

definition demo_env :: mfa_env where
  "demo_env = \<lparr>prims = toy_primitives, env_cipher = Some [], base32_encode = map unat,
    secret_to_bytes = (\<lambda>s. Some (map of_nat s)), totp_new = (\<lambda>_ _. True),
    totp_generate = (\<lambda>_ n. dec n), totp_url = (\<lambda>_ u. u), qr_svg = (\<lambda>u. Some u)\<rparr>"

theorem verify_totp_sound_witness:
  "\<exists>resp t'. verify_totp no_faults demo_env [] 95 (lit ''u'') (lit ''90'') [lit ''u'' \<mapsto> demo_row] = (Inr resp, t')
    \<and> verified resp \<and> (\<exists>cfg' step. t' (lit ''u'') = Some cfg' \<and> last_totp_step cfg' = Some step)"
proof -
  let ?t = "[lit ''u'' \<mapsto> demo_row]" and ?v = "verify_totp no_faults demo_env [] 95 (lit ''u'') (lit ''90'')"
  have d: "dec 60 = lit ''60''" "dec 90 = lit ''90''" "dec 120 = lit ''120''" by code_simp+
  have "fst (?v ?t) = Inr mfa_accepted"
    by (simp add: verify_totp_def accept_totp_code_def get_user_mfa_def op_defs demo_row_def
      decrypted_secret_def cipher_def decrypt_def demo_env_def verify_totp_code_def match_totp_step_def
      totp_step_secs_def d constant_time_eq_iff encrypt_def toy_primitives_def consume_totp_step_def
      is_encrypted_def ciphertext_prefix_def as_bytes_def lit_def utf8_def utf8_char_def)
  then obtain t' where v: "?v ?t = (Inr mfa_accepted, t')" by (metis prod.collapse)
  have "mfa_inv ?t" by (simp add: mfa_inv_def demo_row_def)
  from verify_totp_sound [OF this v] v show ?thesis by (auto simp: mfa_accepted_def)
qed

text \<open>
  C29: The state machine of the second factor.  When the configuration can be read, every operation
  moves every user along \<open>mfa_transition\<close>: a set-up never replaces an enabled configuration, only a
  pending one becomes enabled, and the rows stay keyed by their user.
\<close>

theorem mfa_state_machine:
  assumes "mfa_inv t" "F (lit ''mfa_get_user_config'') 0 = None"
  shows "mfa_transition (status_of t u) (status_of (exec_mfa F E ev t) u) \<and> mfa_inv (exec_mfa F E ev t) \<and>
    (status_of t u = Some MfaEnabled \<longrightarrow> status_of (exec_mfa F E ev t) u \<in> {Some MfaEnabled, None})"
  using exec_transition [where F = F, OF assms, of u E ev] exec_inv [OF assms(1), of F E ev]
  by (auto simp: from_enabled)

theorem mfa_state_machine_witness:
  "mfa_transition (status_of [lit ''u'' \<mapsto> demo_row] (lit ''u''))
    (status_of (exec_mfa no_faults demo_env (DisableMfa (lit ''u'')) [lit ''u'' \<mapsto> demo_row]) (lit ''u''))"
proof -
  have "mfa_inv [lit ''u'' \<mapsto> demo_row]" by (simp add: mfa_inv_def demo_row_def)
  from mfa_state_machine [where F = no_faults, OF this] show ?thesis
    by (metis no_faults_simps(1))
qed

text \<open>
  The login's question whether a second factor is needed fails closed: \<open>enabled_method\<close> answers
  \<open>None\<close> only when the configuration was read and is absent or not enabled; a database error is
  returned as an error.
\<close>

theorem enabled_method_fails_closed:
  "enabled_method F user t =
    (case F (lit ''mfa_get_user_config'') 0 of
       Some e \<Rightarrow> (if e = UserNotFound then Inr None else Inl e, t)
     | None \<Rightarrow> (Inr (case t user of
           Some r \<Rightarrow> if mfa_status r = MfaEnabled then Some (mfa_method r) else None
         | None \<Rightarrow> None), t))"
  by (simp add: enabled_method_def get_user_mfa_def db_defs op_defs split: option.split)

text \<open>
  C32: The guard of the set-up fails open.  When the database refuses the read of the configuration but
  not its write, a set-up for a user whose second factor is enabled that gets an answer has replaced it
  by a pending one, and from then on the login sees no second factor.
\<close>

theorem setup_overwrites_enabled_on_read_error:
  assumes "t user = Some r" "mfa_status r = MfaEnabled"
    and "F (lit ''mfa_get_user_config'') 0 = Some err" "F (lit ''mfa_save_user_config'') 0 = None"
    and "setup_totp F E R now user t = (Inr resp, t')"
  shows "status_of t' user = Some MfaPending \<and> enabled_method no_faults user t' = (Inr None, t')"
proof -
  let ?cfg = "\<lambda>hashed sec. \<lparr>mfa_user_id = user, mfa_status = MfaPending, mfa_method = Totp,
    totp_secret = Some sec, backup_codes = hashed, mfa_created_at = now, mfa_updated_at = now,
    last_used_at = None, last_totp_step = None\<rparr>"
  obtain key hashed sec
    where k: "encrypt (prims E) key (rand_nonce R) (base32_encode E (rand_secret R)) = Inr sec"
      and save: "save_user_mfa F E (rand_nonce R) (?cfg hashed sec) t = (Inr (), t')"
    using assms(3,5) by (auto simp: setup_totp_def Let_def op_success op_failure)
  have "is_encrypted sec" using encrypt_is_encrypted [OF k] .
  then have "t' = t(user \<mapsto> ?cfg hashed sec)"
    using save by (auto simp: save_user_mfa_def with_encrypted_secret_def op_success)
  then show ?thesis by (simp add: status_of_def enabled_method_def get_user_mfa_def op_defs)
qed

theorem setup_overwrites_enabled_on_read_error_witness:
  "\<exists>resp t'. setup_totp (\<lambda>l _. if l = lit ''mfa_get_user_config'' then Some (DatabaseError []) else None)
      demo_env \<lparr>rand_secret = [], rand_codes = (\<lambda>_ _. 0), rand_salt = (\<lambda>_. []), rand_nonce = []\<rparr> 5
      (lit ''u'') [lit ''u'' \<mapsto> demo_row] = (Inr resp, t') \<and> status_of t' (lit ''u'') = Some MfaPending"
proof -
  let ?F = "\<lambda>l (_ :: nat). if l = lit ''mfa_get_user_config'' then Some (DatabaseError []) else None"
  let ?R = "\<lparr>rand_secret = [], rand_codes = (\<lambda>_ _. 0), rand_salt = (\<lambda>_. []), rand_nonce = []\<rparr>"
  let ?t = "[lit ''u'' \<mapsto> demo_row]"
  have "\<exists>resp. fst (setup_totp ?F demo_env ?R 5 (lit ''u'') ?t) = Inr resp"
    by (simp add: setup_totp_def Let_def seq_def bind_def catch_def get_user_mfa_def db_defs op_defs
      demo_env_def toy_primitives_def hash_backup_code_def cipher_def encrypt_def save_user_mfa_def
      with_encrypted_secret_def is_encrypted_def generate_backup_codes_def upt_rec)
  then obtain resp t' where s: "setup_totp ?F demo_env ?R 5 (lit ''u'') ?t = (Inr resp, t')"
    by (metis prod.collapse)
  have "status_of t' (lit ''u'') = Some MfaPending"
    using setup_overwrites_enabled_on_read_error [OF _ _ _ _ s, of demo_row "DatabaseError []"]
    by (simp add: demo_row_def)
  then show ?thesis using s by blast
qed

end
