(* ===== verification/Store.thy ===== *)
theory Store
  imports Validation Interfaces
begin

text \<open>
  The rows of the identity tables (\<^verbatim>\<open>src/models/{actor_identity, human_account, credential,
  identity_binding, user, session, password_reset}.rs\<close>), the store that holds them, and the
  statements of \<^verbatim>\<open>src/services/database.rs\<close> on it.  A record id is its key; the table is known from
  the field it stands in.  Rows that have been read back carry their id, so the \<^verbatim>\<open>Option\<close> of the
  \<^verbatim>\<open>id\<close> field, which is \<^verbatim>\<open>None\<close> only before the insertion, is dropped.  Status columns are strings, as
  in the schema, and are parsed by the code's fail-closed parsers.
\<close>

section \<open>Rows\<close>

datatype actor_kind = Human | AiActor

definition kind_str :: "actor_kind \<Rightarrow> str" where
  "kind_str k = (case k of Human \<Rightarrow> lit ''human'' | AiActor \<Rightarrow> lit ''ai_actor'')"

definition parse_kind :: "str \<Rightarrow> actor_kind option" where
  "parse_kind raw =
    (if raw = lit ''human'' then Some Human
     else if raw = lit ''ai_actor'' then Some AiActor
     else None)"

datatype identity_source = LocalSource | SoulseedSource | ExternalSource

definition source_str :: "identity_source \<Rightarrow> str" where
  "source_str s = (case s of LocalSource \<Rightarrow> lit ''local'' | SoulseedSource \<Rightarrow> lit ''soulseed''
    | ExternalSource \<Rightarrow> lit ''external'')"

datatype actor_status = ActorActive | ActorSuspended | ActorRetired

definition actor_status_str :: "actor_status \<Rightarrow> str" where
  "actor_status_str s = (case s of ActorActive \<Rightarrow> lit ''active'' | ActorSuspended \<Rightarrow> lit ''suspended''
    | ActorRetired \<Rightarrow> lit ''retired'')"

definition parse_actor_status :: "str \<Rightarrow> actor_status" where
  "parse_actor_status raw =
    (if raw = lit ''active'' then ActorActive
     else if raw = lit ''retired'' then ActorRetired
     else ActorSuspended)"

record actor_identity =
  actor_key :: str
  subject_key :: str
  actor_kind :: str
  identity_source :: str
  canonical_actor_ref :: "str option"
  actor_status :: str
  actor_created_at :: int
  actor_updated_at :: int

definition new_local :: "str \<Rightarrow> str \<Rightarrow> actor_kind \<Rightarrow> int \<Rightarrow> actor_identity" where
  "new_local key subject kind now =
    \<lparr>actor_key = key, subject_key = subject, actor_kind = kind_str kind,
     identity_source = source_str LocalSource, canonical_actor_ref = None,
     actor_status = actor_status_str ActorActive, actor_created_at = now, actor_updated_at = now\<rparr>"

definition actor_can_authenticate :: "actor_identity \<Rightarrow> bool" where
  "actor_can_authenticate a \<longleftrightarrow> parse_actor_status (actor_status a) = ActorActive"

record human_account =
  account_key :: str
  account_actor :: str
  account_email :: str
  account_username :: str
  account_username_normalized :: str
  account_email_verified :: bool
  account_created_at :: int
  account_updated_at :: int

datatype credential_status = CredentialActive | CredentialRevoked

definition credential_status_str :: "credential_status \<Rightarrow> str" where
  "credential_status_str s =
    (case s of CredentialActive \<Rightarrow> lit ''active'' | CredentialRevoked \<Rightarrow> lit ''revoked'')"

definition parse_credential_status :: "str \<Rightarrow> credential_status" where
  "parse_credential_status raw = (if raw = lit ''active'' then CredentialActive else CredentialRevoked)"

definition password_kind :: str where
  "password_kind = lit ''password''"

record credential =
  credential_key :: str
  credential_actor :: str
  credential_kind :: str
  secret_hash :: "str option"
  credential_status :: str
  credential_created_at :: int
  rotated_at :: "int option"
  credential_revoked_at :: "int option"

definition new_password :: "str \<Rightarrow> str \<Rightarrow> str \<Rightarrow> int \<Rightarrow> credential" where
  "new_password key actor hash now =
    \<lparr>credential_key = key, credential_actor = actor, credential_kind = password_kind,
     secret_hash = Some hash, credential_status = credential_status_str CredentialActive,
     credential_created_at = now, rotated_at = None, credential_revoked_at = None\<rparr>"

definition is_usable :: "credential \<Rightarrow> bool" where
  "is_usable c \<longleftrightarrow> parse_credential_status (credential_status c) = CredentialActive \<and>
    secret_hash c \<noteq> None"

datatype verification_state = BindingVerified | BindingPending | BindingRevoked

definition verification_state_str :: "verification_state \<Rightarrow> str" where
  "verification_state_str v = (case v of BindingVerified \<Rightarrow> lit ''verified''
    | BindingPending \<Rightarrow> lit ''pending'' | BindingRevoked \<Rightarrow> lit ''revoked'')"

definition parse_verification_state :: "str \<Rightarrow> verification_state" where
  "parse_verification_state raw =
    (if raw = lit ''verified'' then BindingVerified
     else if raw = lit ''revoked'' then BindingRevoked
     else BindingPending)"

datatype binding_type = Federated | Canonical

definition binding_type_str :: "binding_type \<Rightarrow> str" where
  "binding_type_str b = (case b of Federated \<Rightarrow> lit ''federated'' | Canonical \<Rightarrow> lit ''canonical'')"

record identity_binding =
  binding_key :: str
  binding_actor :: str
  provider :: str
  provider_subject :: str
  binding_kind :: str
  binding_state :: str
  bound_at :: int
  binding_revoked_at :: "int option"

definition new_federated :: "str \<Rightarrow> str \<Rightarrow> str \<Rightarrow> str \<Rightarrow> int \<Rightarrow> identity_binding" where
  "new_federated key actor p subject now =
    \<lparr>binding_key = key, binding_actor = actor, provider = p, provider_subject = subject,
     binding_kind = binding_type_str Federated, binding_state = verification_state_str BindingVerified,
     bound_at = now, binding_revoked_at = None\<rparr>"

definition binding_is_active :: "identity_binding \<Rightarrow> bool" where
  "binding_is_active b \<longleftrightarrow> binding_revoked_at b = None \<and>
    parse_verification_state (binding_state b) = BindingVerified"

datatype account_status = AccActive | AccInactive | AccSuspended | AccDeleted

definition parse_account_status :: "str \<Rightarrow> account_status" where
  "parse_account_status raw =
    (if raw = lit ''Active'' then AccActive
     else if raw = lit ''Inactive'' then AccInactive
     else if raw = lit ''Suspended'' then AccSuspended
     else if raw = lit ''Deleted'' then AccDeleted
     else AccInactive)"

definition account_status_str :: "account_status \<Rightarrow> str" where
  "account_status_str s = (case s of AccActive \<Rightarrow> lit ''Active'' | AccInactive \<Rightarrow> lit ''Inactive''
    | AccSuspended \<Rightarrow> lit ''Suspended'' | AccDeleted \<Rightarrow> lit ''Deleted'')"

record user =
  user_key :: str
  subject_id :: "str option"
  email :: str
  username :: str
  username_normalized :: str
  user_created_at :: int
  user_updated_at :: int
  is_email_verified :: bool
  verification_token_hash :: "str option"
  verification_token_expires_at :: "int option"
  user_status :: str
  membership_level :: str
  membership_expiry :: "int option"
  last_login_at :: "int option"
  last_login_ip :: "str option"

definition ensure_usable :: "user \<Rightarrow> auth_error + unit" where
  "ensure_usable u =
    (case parse_account_status (user_status u) of
       AccActive \<Rightarrow> Inr ()
     | AccSuspended \<Rightarrow> Inl AccountSuspended
     | AccInactive \<Rightarrow> Inl AccountInactive
     | AccDeleted \<Rightarrow> Inl AccountDeleted)"

record user_response =
  response_id :: str
  response_email :: str
  response_username :: str
  response_is_admin :: bool
  response_verified :: bool
  response_membership_level :: str
  response_membership_expiry :: "int option"
  response_created_at :: int
  response_has_password :: bool
  response_status :: account_status
  response_last_login_at :: "int option"

definition user_response_of :: "user \<Rightarrow> bool \<Rightarrow> user_response" where
  "user_response_of u has_password =
    \<lparr>response_id = user_key u, response_email = email u, response_username = username u,
     response_is_admin = False, response_verified = is_email_verified u,
     response_membership_level = membership_level u,
     response_membership_expiry = membership_expiry u, response_created_at = user_created_at u,
     response_has_password = has_password,
     response_status = parse_account_status (user_status u),
     response_last_login_at = last_login_at u\<rparr>"

record session =
  session_key :: str
  session_actor :: str
  session_token_hash :: str
  session_expires_at :: int
  session_created_at :: int
  session_user_agent :: str
  session_ip :: str
  session_credential_kind :: "str option"
  session_credential_ref :: "str option"
  session_credential_label :: "str option"
  session_authenticated_at :: "int option"
  session_methods :: "str list option"
  session_credential_refs :: "str list option"

definition session_method_names :: "session \<Rightarrow> str list" where
  "session_method_names s =
    (case session_methods s of
       Some (m # ms) \<Rightarrow> m # ms
     | _ \<Rightarrow> (case session_credential_kind s of None \<Rightarrow> [] | Some k \<Rightarrow> [k]))"

definition credential_ref_list :: "session \<Rightarrow> str list" where
  "credential_ref_list s =
    (case session_credential_refs s of
       Some r \<Rightarrow> r
     | None \<Rightarrow> (case session_credential_ref s of None \<Rightarrow> [] | Some k \<Rightarrow> [k]))"

record session_info =
  info_id :: str
  info_created_at :: int
  info_user_agent :: str
  info_ip :: str
  is_current :: bool

record password_reset_token =
  reset_key :: str
  reset_email :: str
  reset_token_hash :: str
  reset_expires_at :: int
  reset_used :: bool
  reset_created_at :: int

datatype auth_method = MPassword | MTotp | MBackupCode | MExternalIdentity | MEmailLink | MEd25519Key

definition method_str :: "auth_method \<Rightarrow> str" where
  "method_str m = (case m of MPassword \<Rightarrow> lit ''password'' | MTotp \<Rightarrow> lit ''totp''
    | MBackupCode \<Rightarrow> lit ''backup_code'' | MExternalIdentity \<Rightarrow> lit ''external_identity''
    | MEmailLink \<Rightarrow> lit ''email_link'' | MEd25519Key \<Rightarrow> lit ''ed25519_key'')"

record authentication_fact =
  fact_actor :: str
  fact_kind :: actor_kind
  fact_methods :: "auth_method list"
  fact_at :: int
  fact_credential_refs :: "str list"

definition fact_human :: "str \<Rightarrow> auth_method list \<Rightarrow> str list \<Rightarrow> int \<Rightarrow> authentication_fact" where
  "fact_human actor ms refs at =
    \<lparr>fact_actor = actor, fact_kind = Human, fact_methods = ms, fact_at = at,
     fact_credential_refs = refs\<rparr>"

definition fact_ai_actor :: "str \<Rightarrow> str \<Rightarrow> int \<Rightarrow> authentication_fact" where
  "fact_ai_actor actor credential at =
    \<lparr>fact_actor = actor, fact_kind = AiActor, fact_methods = [MEd25519Key], fact_at = at,
     fact_credential_refs = [credential]\<rparr>"

section \<open>The store\<close>

record store =
  actors :: "actor_identity list"
  accounts :: "human_account list"
  users :: "user list"
  credentials :: "credential list"
  bindings :: "identity_binding list"
  sessions :: "session list"
  reset_tokens :: "password_reset_token list"

definition empty_store :: store where
  "empty_store = \<lparr>actors = [], accounts = [], users = [], credentials = [], bindings = [],
     sessions = [], reset_tokens = []\<rparr>"

text \<open>
  The unique indexes of \<^verbatim>\<open>schema.sql\<close>: a name and the columns.  The record id of a row is unique too;
  it stands first.  (\<^verbatim>\<open>actor_canonical_ref_idx\<close> is over a column that no operation sets.)
\<close>

type_synonym 'r index = "string \<times> ('r \<Rightarrow> str list)"

definition actor_indexes :: "actor_identity index list" where
  "actor_indexes = [(''id'', \<lambda>r. [actor_key r]), (''actor_subject_idx'', \<lambda>r. [subject_key r])]"

definition account_indexes :: "human_account index list" where
  "account_indexes = [(''id'', \<lambda>r. [account_key r]),
    (''human_account_email_idx'', \<lambda>r. [account_email r]),
    (''human_account_username_idx'', \<lambda>r. [account_username_normalized r]),
    (''human_account_actor_idx'', \<lambda>r. [account_actor r])]"

definition user_indexes :: "user index list" where
  "user_indexes = [(''id'', \<lambda>r. [user_key r]), (''email_idx'', \<lambda>r. [email r]),
    (''username_idx'', \<lambda>r. [username_normalized r])]"

definition credential_indexes :: "credential index list" where
  "credential_indexes = [(''id'', \<lambda>r. [credential_key r]),
    (''credential_actor_kind_idx'', \<lambda>r. [credential_actor r, credential_kind r])]"

definition binding_indexes :: "identity_binding index list" where
  "binding_indexes = [(''id'', \<lambda>r. [binding_key r]),
    (''identity_binding_provider_idx'', \<lambda>r. [provider r, provider_subject r])]"

definition session_indexes :: "session index list" where
  "session_indexes = [(''id'', \<lambda>r. [session_key r]), (''session_token_hash_idx'', \<lambda>r. [session_token_hash r])]"

definition reset_indexes :: "password_reset_token index list" where
  "reset_indexes = [(''id'', \<lambda>r. [reset_key r]), (''reset_token_idx'', \<lambda>r. [reset_token_hash r])]"

definition unique_ok :: "'r index list \<Rightarrow> 'r list \<Rightarrow> bool" where
  "unique_ok ixs rows \<longleftrightarrow> (\<forall>ix\<in>set ixs. distinct (map (snd ix) rows))"

definition index_conflict :: "'r index list \<Rightarrow> 'r \<Rightarrow> 'r list \<Rightarrow> string option" where
  "index_conflict ixs r rows = map_option fst (find (\<lambda>ix. snd ix r \<in> snd ix ` set rows) ixs)"

text \<open>
  \<open>insert_row\<close> is \<^verbatim>\<open>CREATE\<close>, \<open>replace_row\<close> the \<^verbatim>\<open>UPDATE .. CONTENT\<close> of \<^verbatim>\<open>update_record\<close>; both are refused
  by a unique index.  \<open>V name\<close> is the error with which the driver reports a conflict on that index.
  \<open>transaction\<close> runs statements between \<^verbatim>\<open>BEGIN\<close> and \<^verbatim>\<open>COMMIT\<close>: an error cancels all of them.
\<close>

type_synonym conflict_report = "string \<Rightarrow> auth_error"

definition insert_row :: "conflict_report \<Rightarrow> 'r index list \<Rightarrow> ('s \<Rightarrow> 'r list) \<Rightarrow>
    (('r list \<Rightarrow> 'r list) \<Rightarrow> 's \<Rightarrow> 's) \<Rightarrow> 'r \<Rightarrow> ('s, unit) handler" where
  "insert_row V ixs get upd r s =
    (case index_conflict ixs r (get s) of
       Some n \<Rightarrow> (Inl (V n), s)
     | None \<Rightarrow> (Inr (), upd (\<lambda>rows. rows @ [r]) s))"

definition replace_row :: "conflict_report \<Rightarrow> 'r index list \<Rightarrow> ('r \<Rightarrow> str) \<Rightarrow> ('s \<Rightarrow> 'r list) \<Rightarrow>
    (('r list \<Rightarrow> 'r list) \<Rightarrow> 's \<Rightarrow> 's) \<Rightarrow> 'r \<Rightarrow> ('s, unit) handler" where
  "replace_row V ixs key get upd r s =
    (if key r \<notin> key ` set (get s) then (Inl (DatabaseError (lit ''Record not found'')), s)
     else case index_conflict ixs r (filter (\<lambda>q. key q \<noteq> key r) (get s)) of
       Some n \<Rightarrow> (Inl (V n), s)
     | None \<Rightarrow> (Inr (), upd (update_where (\<lambda>q. key q = key r) (\<lambda>_. r)) s))"

definition transaction :: "('s, 'a) handler \<Rightarrow> ('s, 'a) handler" where
  "transaction m s = (case m s of (Inl e, _) \<Rightarrow> (Inl e, s) | (Inr a, t) \<Rightarrow> (Inr a, t))"

definition store_ok :: "'x store_scheme \<Rightarrow> bool" where
  "store_ok s \<longleftrightarrow> unique_ok actor_indexes (actors s) \<and> unique_ok account_indexes (accounts s) \<and>
    unique_ok user_indexes (users s) \<and> unique_ok credential_indexes (credentials s) \<and>
    unique_ok binding_indexes (bindings s) \<and> unique_ok session_indexes (sessions s) \<and>
    unique_ok reset_indexes (reset_tokens s)"

section \<open>Statements of the database service\<close>

text \<open>
  \<^verbatim>\<open>find_record_by_field(.., "id", value)\<close> accepts \<^verbatim>\<open>table:key\<close>, with the key in angle brackets or not,
  and a bare key; an address of another table matches nothing.
\<close>

definition record_address_key :: "string \<Rightarrow> str \<Rightarrow> str option" where
  "record_address_key table v =
    (case split_once 58 v of
       Some (tb, raw) \<Rightarrow> if tb = lit table then Some (trim_char 10217 (trim_char 10216 (trim raw))) else None
     | None \<Rightarrow> Some v)"

definition user_by_id :: "str \<Rightarrow> 'x store_scheme \<Rightarrow> user option" where
  "user_by_id v s = find (\<lambda>u. Some (user_key u) = record_address_key ''user'' v) (users s)"

definition user_by_email :: "str \<Rightarrow> 'x store_scheme \<Rightarrow> user option" where
  "user_by_email e s = find (\<lambda>u. email u = e) (users s)"

definition user_by_name :: "str \<Rightarrow> 'x store_scheme \<Rightarrow> user option" where
  "user_by_name n s = find (\<lambda>u. username_normalized u = n) (users s)"

definition actor_by_id :: "str \<Rightarrow> 'x store_scheme \<Rightarrow> actor_identity option" where
  "actor_by_id v s = find (\<lambda>a. Some (actor_key a) = record_address_key ''actor_identity'' v) (actors s)"

definition update_user :: "faults \<Rightarrow> conflict_report \<Rightarrow> string \<Rightarrow> user \<Rightarrow> ('x store_scheme, unit) handler" where
  "update_user F V label u =
    seq (database_up F label) (replace_row V user_indexes user_key users users_update u)"

definition actor_of_user_row :: "str \<Rightarrow> 'x store_scheme \<Rightarrow> str option" where
  "actor_of_user_row uid s =
    (case find (\<lambda>u. user_key u = normalize_user_id uid) (users s) of
       None \<Rightarrow> None
     | Some u \<Rightarrow> subject_id u)"

text \<open>
  A missing row leaves no value; a row whose subject is \<^verbatim>\<open>NONE\<close> leaves one the driver cannot read
  as a record id, and its own message, which follows the prefix, is not modelled.  The service's text for
  the missing row is written in its code points.
\<close>

definition actor_ref_error :: "str \<Rightarrow> 'x store_scheme \<Rightarrow> auth_error" where
  "actor_ref_error uid s =
    (case find (\<lambda>u. user_key u = normalize_user_id uid) (users s) of
       None \<Rightarrow> DatabaseError (lit ''user '' @ uid @ [32, 27809, 26377, 20851, 32852, 30340, 32] @ lit ''actor_identity'')
     | Some _ \<Rightarrow> DatabaseError (lit ''Failed to parse query result: ''))"

definition actor_ref_of_user :: "faults \<Rightarrow> str \<Rightarrow> ('x store_scheme, str) handler" where
  "actor_ref_of_user F uid =
    bind (db_read F ''actor_ref_of_user'' (actor_of_user_row uid)) (\<lambda>r.
      bind (reads (actor_ref_error uid)) (the_or r))"

definition wrap_error :: "string \<Rightarrow> auth_error \<Rightarrow> auth_error" where
  "wrap_error prefix e = DatabaseError (lit prefix @ display e)"

definition delete_session_by_token :: "faults \<Rightarrow> str \<Rightarrow> ('x store_scheme, unit) handler" where
  "delete_session_by_token F hash =
    map_error (wrap_error ''Failed to delete session: '')
      (db_write F ''delete_session_by_token''
        (sessions_update (delete_where (\<lambda>r. session_token_hash r = hash))))"

text \<open>\<^verbatim>\<open>(SELECT VALUE subject_id ..)[0]\<close> is \<^verbatim>\<open>NONE\<close> when the row is missing, and matches no session.\<close>

definition delete_sessions_by_user_id :: "faults \<Rightarrow> str \<Rightarrow> ('x store_scheme, unit) handler" where
  "delete_sessions_by_user_id F uid =
    map_error (wrap_error ''Failed to delete sessions: '')
      (db_write F ''delete_sessions_by_user_id''
        (\<lambda>s. sessions_update (delete_where (\<lambda>r. Some (session_actor r) = actor_of_user_row uid s)) s))"

definition get_sessions_by_user_id :: "faults \<Rightarrow> int \<Rightarrow> str \<Rightarrow> ('x store_scheme, session list) handler" where
  "get_sessions_by_user_id F now uid =
    map_error (wrap_error ''Failed to query sessions: '')
      (db_read F ''get_sessions_by_user_id'' (\<lambda>s. take 200 (rev (sort_key session_created_at
        (filter (\<lambda>r. Some (session_actor r) = actor_of_user_row uid s \<and> now < session_expires_at r)
          (sessions s))))))"

definition cleanup_expired_auth_artifacts :: "faults \<Rightarrow> int \<Rightarrow> ('x store_scheme, unit) handler" where
  "cleanup_expired_auth_artifacts F now =
    seq (db_write F ''cleanup_expired_sessions''
          (sessions_update (delete_where (\<lambda>r. session_expires_at r < now))))
        (db_write F ''cleanup_spent_password_reset_tokens''
          (reset_tokens_update (delete_where (\<lambda>r. reset_used r \<or> reset_expires_at r < now))))"

section \<open>Facts about the tables\<close>

lemma index_conflict_None:
  "index_conflict ixs r rows = None \<longleftrightarrow> (\<forall>ix\<in>set ixs. snd ix r \<notin> snd ix ` set rows)"
  by (auto simp: index_conflict_def find_None_all)

lemma index_conflict_Some:
  "index_conflict ixs r rows = Some n \<Longrightarrow> \<exists>k. (n, k) \<in> set ixs \<and> k r \<in> k ` set rows"
  by (auto simp: index_conflict_def dest!: find_Some_in)

lemma unique_ok_append:
  "unique_ok ixs rows \<Longrightarrow> index_conflict ixs r rows = None \<Longrightarrow> unique_ok ixs (rows @ [r])"
  by (auto simp: unique_ok_def index_conflict_None)

lemma unique_ok_delete: "unique_ok ixs rows \<Longrightarrow> unique_ok ixs (delete_where P rows)"
  by (simp add: unique_ok_def distinct_map_delete_where)

lemma unique_ok_update:
  "(\<And>ix r. ix \<in> set ixs \<Longrightarrow> snd ix (f r) = snd ix r) \<Longrightarrow> unique_ok ixs rows \<Longrightarrow>
    unique_ok ixs (update_where P f rows)"
  by (simp add: unique_ok_def)

lemma distinct_map_replace:
  assumes "distinct (map k rows)" "distinct (map key rows)"
    and "\<And>q. q \<in> set rows \<Longrightarrow> key q \<noteq> key r \<Longrightarrow> k q \<noteq> k r"
  shows "distinct (map k (update_where (\<lambda>q. key q = key r) (\<lambda>_. r) rows))"
  using assms
proof (induction rows)
  case (Cons a rows)
  have "k r \<notin> k ` set (update_where (\<lambda>q. key q = key r) (\<lambda>_. r) rows)" if "key a = key r"
  proof -
    have away: "\<forall>q\<in>set rows. key q \<noteq> key r" using that Cons.prems(2) by (auto simp: image_iff)
    then have "\<forall>q\<in>set rows. k q \<noteq> k r" using Cons.prems(3) by auto
    then show ?thesis using update_where_none [OF away] by (auto simp: image_iff)
  qed
  moreover have "k a \<notin> k ` set (update_where (\<lambda>q. key q = key r) (\<lambda>_. r) rows)" if "key a \<noteq> key r"
    using that Cons.prems(1) Cons.prems(3) [of a] by (fastforce simp: set_update_where)
  ultimately show ?case using Cons by auto
qed simp

lemma unique_ok_replace:
  assumes "unique_ok ixs rows" "(''id'', \<lambda>r. [key r]) \<in> set ixs"
    and "index_conflict ixs r (filter (\<lambda>q. key q \<noteq> key r) rows) = None"
  shows "unique_ok ixs (update_where (\<lambda>q. key q = key r) (\<lambda>_. r) rows)"
  unfolding unique_ok_def
proof
  fix ix assume ix: "ix \<in> set ixs"
  have "distinct (map key rows)"
    using assms(1,2) by (auto simp: unique_ok_def distinct_map inj_on_def dest!: bspec)
  then show "distinct (map (snd ix) (update_where (\<lambda>q. key q = key r) (\<lambda>_. r) rows))"
    using assms(1,3) ix
    by (intro distinct_map_replace) (auto simp: unique_ok_def index_conflict_None image_iff, metis)
qed

lemma insert_row_success [op_success]:
  "insert_row V ixs get upd r s = (Inr u, t) \<longleftrightarrow>
    index_conflict ixs r (get s) = None \<and> t = upd (\<lambda>rows. rows @ [r]) s"
  by (auto simp: insert_row_def split: option.splits)

lemma insert_row_failure [op_failure]:
  "insert_row V ixs get upd r s = (Inl e, t) \<longleftrightarrow>
    (\<exists>n. index_conflict ixs r (get s) = Some n \<and> e = V n) \<and> t = s"
  by (auto simp: insert_row_def split: option.splits)

lemma replace_row_success [op_success]:
  "replace_row V ixs key get upd r s = (Inr u, t) \<longleftrightarrow>
    key r \<in> key ` set (get s) \<and> index_conflict ixs r (filter (\<lambda>q. key q \<noteq> key r) (get s)) = None \<and>
    t = upd (update_where (\<lambda>q. key q = key r) (\<lambda>_. r)) s"
  by (auto simp: replace_row_def split: option.splits)

lemma replace_row_failure [op_failure]:
  "replace_row V ixs key get upd r s = (Inl e, t) \<longleftrightarrow> t = s \<and>
    (key r \<notin> key ` set (get s) \<and> e = DatabaseError (lit ''Record not found'') \<or>
     key r \<in> key ` set (get s) \<and>
       (\<exists>n. index_conflict ixs r (filter (\<lambda>q. key q \<noteq> key r) (get s)) = Some n \<and> e = V n))"
  by (auto simp: replace_row_def split: option.splits)

lemma transaction_success [op_success]: "transaction m s = (Inr a, t) \<longleftrightarrow> m s = (Inr a, t)"
  by (auto simp: transaction_def split: prod.splits sum.splits)

lemma transaction_failure [op_failure]:
  "transaction m s = (Inl e, t) \<longleftrightarrow> t = s \<and> (\<exists>u. m s = (Inl e, u))"
  by (auto simp: transaction_def split: prod.splits sum.splits)

lemma preserves_transaction [preserve]: "preserves I m \<Longrightarrow> preserves I (transaction m)"
  by (auto simp: preserves_def transaction_def split: prod.splits sum.splits)

text \<open>The \<open>Find\<close>s of the queries, when the table has the unique index they go through.\<close>

lemma find_by_key:
  assumes "distinct (map k rows)" "r \<in> set rows" "P = (\<lambda>q. k q = k r)"
  shows "find P rows = Some r"
  using assms(1,2) unfolding assms(3) by (induction rows) (auto intro: rev_image_eqI)

lemma find_snoc: "find P (rows @ [r]) =
    (case find P rows of None \<Rightarrow> if P r then Some r else None | Some q \<Rightarrow> Some q)"
  by (induction rows) auto

lemma find_appended: "\<forall>q\<in>set rows. \<not> P q \<Longrightarrow> P r \<Longrightarrow> find P (rows @ [r]) = Some r"
  by (induction rows) auto

lemma find_update_where_same:
  "(\<And>r. P (f r) = P r) \<Longrightarrow>
    find P (update_where Q f rs) = map_option (\<lambda>r. if Q r then f r else r) (find P rs)"
  by (induction rs) auto

lemmas index_defs = actor_indexes_def account_indexes_def user_indexes_def credential_indexes_def
  binding_indexes_def session_indexes_def reset_indexes_def

lemma preserves_insert_row [preserve]:
  "preserves store_ok (insert_row V actor_indexes actors actors_update a)"
  "preserves store_ok (insert_row V account_indexes accounts accounts_update b)"
  "preserves store_ok (insert_row V user_indexes users users_update c)"
  "preserves store_ok (insert_row V credential_indexes credentials credentials_update d)"
  "preserves store_ok (insert_row V binding_indexes bindings bindings_update f)"
  "preserves store_ok (insert_row V session_indexes sessions sessions_update g)"
  "preserves store_ok (insert_row V reset_indexes reset_tokens reset_tokens_update h)"
  by (auto intro!: preservesI unique_ok_append simp: insert_row_def store_ok_def split: option.split)

lemma preserves_update_user [preserve]: "preserves store_ok (update_user F V label u)"
proof -
  have ix: "(''id'', \<lambda>r. [user_key r]) \<in> set user_indexes" by (simp add: user_indexes_def)
  have "preserves store_ok (replace_row V user_indexes user_key users users_update u)"
    by (rule preservesI) (auto simp: replace_row_def store_ok_def unique_ok_replace [OF _ ix]
        split: option.split)
  then show ?thesis unfolding update_user_def by (intro preserves_seq preserves_database_up)
qed

lemma preserves_database_ops [preserve]:
  "preserves I (actor_ref_of_user F uid)"
  "preserves store_ok (delete_session_by_token F hash)"
  "preserves store_ok (delete_sessions_by_user_id F uid)"
  "preserves I (get_sessions_by_user_id F now uid)"
  "preserves store_ok (cleanup_expired_auth_artifacts F now)"
  unfolding actor_ref_of_user_def delete_session_by_token_def delete_sessions_by_user_id_def
    get_sessions_by_user_id_def cleanup_expired_auth_artifacts_def
  by (intro preserve preserves_db_write; simp add: store_ok_def unique_ok_delete)+

lemma record_address_key_bare: "58 \<notin> set v \<Longrightarrow> record_address_key tb v = Some v"
  using split_once_None [of 58 v] by (simp add: record_address_key_def split: option.splits)

end
