(* ===== verification/Identity.thy ===== *)
theory Identity
  imports Store
begin

text \<open>
  \<^verbatim>\<open>src/services/identity.rs\<close> and \<^verbatim>\<open>src/services/credential.rs\<close>: creation and resolution of actors, the
  authentication gate, and password credentials.  Random keys and the clock are arguments.
\<close>

section \<open>Creation\<close>

record aggregate_keys =
  new_actor :: str
  new_account :: str
  new_user :: str
  new_credential :: str
  new_binding :: str
  new_subject :: str

record human_form =
  form_email :: str
  form_username :: str
  form_normalized :: str
  form_verified :: bool
  form_token_hash :: "str option"
  form_token_expires :: "int option"
  form_password :: "str option"
  form_binding :: "(str \<times> str) option"

definition aggregate_actor :: "int \<Rightarrow> aggregate_keys \<Rightarrow> actor_identity" where
  "aggregate_actor now k = new_local (new_actor k) (new_subject k) Human now"

definition aggregate_account :: "int \<Rightarrow> aggregate_keys \<Rightarrow> human_form \<Rightarrow> human_account" where
  "aggregate_account now k f =
    \<lparr>account_key = new_account k, account_actor = new_actor k, account_email = form_email f,
     account_username = form_username f, account_username_normalized = form_normalized f,
     account_email_verified = form_verified f, account_created_at = now, account_updated_at = now\<rparr>"

definition aggregate_user :: "int \<Rightarrow> aggregate_keys \<Rightarrow> human_form \<Rightarrow> user" where
  "aggregate_user now k f =
    \<lparr>user_key = new_user k, subject_id = Some (new_actor k), email = form_email f,
     username = form_username f, username_normalized = form_normalized f, user_created_at = now,
     user_updated_at = now, is_email_verified = form_verified f,
     verification_token_hash = form_token_hash f,
     verification_token_expires_at = form_token_expires f,
     user_status = account_status_str AccActive, membership_level = lit ''FREE'',
     membership_expiry = None, last_login_at = None, last_login_ip = None\<rparr>"

definition create_human_aggregate :: "faults \<Rightarrow> conflict_report \<Rightarrow> int \<Rightarrow> aggregate_keys \<Rightarrow> human_form \<Rightarrow>
    ('x store_scheme, str \<times> str) handler" where
  "create_human_aggregate F V now k f =
    seq (database_up F ''identity_create_human_aggregate'') (transaction (
    seq (insert_row V actor_indexes actors actors_update (aggregate_actor now k))
    (seq (insert_row V account_indexes accounts accounts_update (aggregate_account now k f))
    (seq (insert_row V user_indexes users users_update (aggregate_user now k f))
    (seq (case form_password f of
            None \<Rightarrow> ret ()
          | Some h \<Rightarrow> insert_row V credential_indexes credentials credentials_update
              (new_password (new_credential k) (new_actor k) h now))
    (seq (case form_binding f of
            None \<Rightarrow> ret ()
          | Some (p, sub) \<Rightarrow> insert_row V binding_indexes bindings bindings_update
              (new_federated (new_binding k) (new_actor k) p sub now))
    (ret (new_actor k, new_user k))))))))"

definition bind_external :: "faults \<Rightarrow> conflict_report \<Rightarrow> int \<Rightarrow> str \<Rightarrow> actor_identity \<Rightarrow> str \<Rightarrow> str \<Rightarrow>
    ('x store_scheme, identity_binding) handler" where
  "bind_external F V now key a p sub =
    (let b = new_federated key (actor_key a) p sub now in
     seq (database_up F ''create_identity_binding'')
       (seq (insert_row V binding_indexes bindings bindings_update b) (ret b)))"

definition create_ai_actor :: "faults \<Rightarrow> conflict_report \<Rightarrow> int \<Rightarrow> str \<Rightarrow> str \<Rightarrow>
    ('x store_scheme, actor_identity) handler" where
  "create_ai_actor F V now key subject =
    (let a = new_local key subject AiActor now in
     seq (database_up F ''create_actor_identity'')
       (seq (insert_row V actor_indexes actors actors_update a) (ret a)))"

section \<open>Resolution and the gate\<close>

definition find_actor_by_id :: "faults \<Rightarrow> str \<Rightarrow> ('x store_scheme, actor_identity option) handler" where
  "find_actor_by_id F key = db_read F ''find_actor_by_id'' (actor_by_id (lit ''actor_identity:'' @ key))"

definition resolve_binding :: "faults \<Rightarrow> str \<Rightarrow> str \<Rightarrow> ('x store_scheme, actor_identity option) handler" where
  "resolve_binding F p sub =
    bind (db_read F ''identity_resolve_binding''
        (\<lambda>s. find (\<lambda>b. provider b = p \<and> provider_subject b = sub) (bindings s))) (\<lambda>found.
      case found of
        None \<Rightarrow> ret None
      | Some b \<Rightarrow>
          if \<not> binding_is_active b then ret None
          else find_actor_by_id F (binding_actor b))"

definition list_ai_actors :: "faults \<Rightarrow> ('x store_scheme, actor_identity list) handler" where
  "list_ai_actors F = db_read F ''identity_list_ai_actors'' (\<lambda>s.
    rev (sort_key actor_created_at (filter (\<lambda>a. actor_kind a = kind_str AiActor) (actors s))))"

record authenticable =
  gate_actor :: actor_identity
  gate_account :: "human_account option"

definition authenticable_subject :: "authenticable \<Rightarrow> str" where
  "authenticable_subject g = subject_key (gate_actor g)"

definition authenticable_actor :: "faults \<Rightarrow> str \<Rightarrow> actor_kind \<Rightarrow> ('x store_scheme, authenticable) handler" where
  "authenticable_actor F key expect =
    bind (find_actor_by_id F (normalize_actor_id key)) (\<lambda>found.
    bind (the_or found (Unauthorized (lit ''Identity root is missing or unresolvable''))) (\<lambda>a.
    seq (require (parse_kind (actor_kind a) = Some expect)
          (Forbidden (lit ''This credential path is only for '' @ kind_str expect @ lit '' subjects'')))
    (seq (case parse_actor_status (actor_status a) of
            ActorActive \<Rightarrow> ret ()
          | ActorSuspended \<Rightarrow> throw AccountSuspended
          | ActorRetired \<Rightarrow> throw AccountDeleted)
    (bind (if expect = Human
           then bind (db_read F ''identity_account_of_actor''
               (\<lambda>s. find (\<lambda>r. account_actor r = actor_key a) (accounts s))) (\<lambda>acc.
             seq (require (acc \<noteq> None)
                   (Unauthorized (lit ''Identity is incomplete and cannot authenticate'')))
               (ret acc))
           else ret None) (\<lambda>acc.
    ret \<lparr>gate_actor = a, gate_account = acc\<rparr>)))))"

definition authenticable_actor_of_user :: "faults \<Rightarrow> str \<Rightarrow> ('x store_scheme, authenticable) handler" where
  "authenticable_actor_of_user F uid =
    bind (actor_ref_of_user F uid) (\<lambda>key. authenticable_actor F key Human)"

definition set_status :: "faults \<Rightarrow> int \<Rightarrow> str \<Rightarrow> actor_status \<Rightarrow> ('x store_scheme, unit) handler" where
  "set_status F now key st =
    db_write F ''identity_set_status'' (actors_update (update_where (\<lambda>a. actor_key a = key)
      (\<lambda>a. a\<lparr>actor_status := actor_status_str st, actor_updated_at := now\<rparr>)))"

section \<open>Password credentials\<close>

definition password_of :: "str \<Rightarrow> credential \<Rightarrow> bool" where
  "password_of actor c \<longleftrightarrow> credential_actor c = actor \<and> credential_kind c = password_kind"

definition find_password :: "faults \<Rightarrow> str \<Rightarrow> ('x store_scheme, credential option) handler" where
  "find_password F actor =
    db_read F ''credential_find_password'' (\<lambda>s. find (password_of actor) (credentials s))"

definition active_password :: "faults \<Rightarrow> str \<Rightarrow> ('x store_scheme, credential option) handler" where
  "active_password F actor = bind (find_password F actor) (\<lambda>c.
    ret (case c of None \<Rightarrow> None | Some c \<Rightarrow> if is_usable c then Some c else None))"

definition active_password_hash :: "faults \<Rightarrow> str \<Rightarrow> ('x store_scheme, str option) handler" where
  "active_password_hash F actor = bind (active_password F actor) (\<lambda>c. ret (Option.bind c secret_hash))"

definition has_password :: "faults \<Rightarrow> str \<Rightarrow> ('x store_scheme, bool) handler" where
  "has_password F actor = bind (active_password_hash F actor) (\<lambda>h. ret (h \<noteq> None))"

definition rotate_password :: "faults \<Rightarrow> string \<Rightarrow> str \<Rightarrow> str \<Rightarrow> int \<Rightarrow> ('x store_scheme, bool) handler" where
  "rotate_password F label actor hash now =
    db_exec F label (\<lambda>s.
      (list_ex (password_of actor) (credentials s),
       credentials_update (update_where (password_of actor)
         (\<lambda>c. c\<lparr>secret_hash := Some hash, credential_status := credential_status_str CredentialActive,
                rotated_at := Some now, credential_revoked_at := None\<rparr>)) s))"

text \<open>
  Setting a password is three statements, and another request may run between them: \<^verbatim>\<open>e1\<close> is what the
  others do between the rotation that found no row and the insertion, \<^verbatim>\<open>e2\<close> what they do between the
  refused insertion and the second rotation, which has a label of its own.  Run alone, nothing happens
  in between.
\<close>

definition set_password_racing :: "faults \<Rightarrow> conflict_report \<Rightarrow> int \<Rightarrow> str \<Rightarrow> str \<Rightarrow> str \<Rightarrow>
    ('x store_scheme \<Rightarrow> 'x store_scheme) \<Rightarrow> ('x store_scheme \<Rightarrow> 'x store_scheme) \<Rightarrow>
    ('x store_scheme, unit) handler" where
  "set_password_racing F V now key actor hash e1 e2 =
    bind (rotate_password F ''credential_rotate_password'' actor hash now) (\<lambda>rotated.
      if rotated then ret ()
      else seq (writes e1) (catch
        (seq (database_up F ''create_credential'')
          (insert_row V credential_indexes credentials credentials_update (new_password key actor hash now)))
        (\<lambda>e. seq (writes e2)
          (bind (rotate_password F ''credential_rotate_password_again'' actor hash now) (\<lambda>rotated.
            if rotated then ret () else throw e)))
        ret))"

definition set_password :: "faults \<Rightarrow> conflict_report \<Rightarrow> int \<Rightarrow> str \<Rightarrow> str \<Rightarrow> str \<Rightarrow>
    ('x store_scheme, unit) handler" where
  "set_password F V now key actor hash = set_password_racing F V now key actor hash id id"

lemma seq_writes_id: "seq (writes id) h = h"
  by (rule ext) (simp add: op_eval)

lemma set_password_alone:
  "set_password F V now key actor hash =
    bind (rotate_password F ''credential_rotate_password'' actor hash now) (\<lambda>rotated.
      if rotated then ret ()
      else catch
        (seq (database_up F ''create_credential'')
          (insert_row V credential_indexes credentials credentials_update (new_password key actor hash now)))
        (\<lambda>e. bind (rotate_password F ''credential_rotate_password_again'' actor hash now) (\<lambda>rotated.
          if rotated then ret () else throw e))
        ret)"
  unfolding set_password_def set_password_racing_def seq_writes_id ..

definition revoke_password :: "faults \<Rightarrow> int \<Rightarrow> str \<Rightarrow> ('x store_scheme, unit) handler" where
  "revoke_password F now actor =
    db_write F ''credential_revoke_password'' (credentials_update (update_where (password_of actor)
      (\<lambda>c. c\<lparr>credential_status := credential_status_str CredentialRevoked,
             credential_revoked_at := Some now\<rparr>)))"

definition identities_with_password :: "faults \<Rightarrow> str list \<Rightarrow> ('x store_scheme, str list) handler" where
  "identities_with_password F keys =
    (if keys = [] then ret []
     else map_error (\<lambda>e. DatabaseError (display e))
       (db_read F ''credential_identities_with_password'' (\<lambda>s.
         map (\<lambda>c. lit ''actor_identity:'' @ credential_actor c)
           (filter (\<lambda>c. credential_kind c = password_kind \<and>
               credential_status c = credential_status_str CredentialActive \<and> secret_hash c \<noteq> None \<and>
               lit ''actor_identity:'' @ credential_actor c \<in>
                 set (map (\<lambda>k. lit ''actor_identity:'' @ k) keys))
             (credentials s)))))"

section \<open>The gate\<close>

lemma actor_address: "clean_ends delim k \<Longrightarrow>
    record_address_key ''actor_identity'' (lit ''actor_identity:'' @ k) = Some k"
proof -
  assume "clean_ends delim k"
  then have "trim k = k" "trim_char 10216 k = k" "trim_char 10217 k = k"
    unfolding trim_char_def trim_by_fixed_iff
    by (auto simp: clean_ends_def delim_def delimiters_def)
  then have "trim_char 10217 (trim_char 10216 (trim k)) = k" by simp
  moreover have "split_once 58 (lit ''actor_identity:'' @ k) = Some (lit ''actor_identity'', k)"
    by (simp add: lit_def)
  ultimately show ?thesis by (simp add: record_address_key_def)
qed

definition actor_row :: "str \<Rightarrow> 'x store_scheme \<Rightarrow> actor_identity option" where
  "actor_row key s = find (\<lambda>a. actor_key a = normalize_actor_id key) (actors s)"

definition account_row :: "actor_identity \<Rightarrow> 'x store_scheme \<Rightarrow> human_account option" where
  "account_row a s = find (\<lambda>r. account_actor r = actor_key a) (accounts s)"

lemma actor_by_id_row: "actor_by_id (lit ''actor_identity:'' @ normalize_actor_id key) s = actor_row key s"
  using normalize_actor_id_bare [of key]
  by (simp add: actor_by_id_def actor_row_def actor_address bare_key_def)

text \<open>The gate as a decision on the two rows.\<close>

definition gate_decision :: "actor_kind \<Rightarrow> actor_identity option \<Rightarrow> human_account option \<Rightarrow>
    auth_error + authenticable" where
  "gate_decision expect found acc =
    (case found of
       None \<Rightarrow> Inl (Unauthorized (lit ''Identity root is missing or unresolvable''))
     | Some a \<Rightarrow>
         if parse_kind (actor_kind a) \<noteq> Some expect
         then Inl (Forbidden (lit ''This credential path is only for '' @ kind_str expect @ lit '' subjects''))
         else case parse_actor_status (actor_status a) of
           ActorSuspended \<Rightarrow> Inl AccountSuspended
         | ActorRetired \<Rightarrow> Inl AccountDeleted
         | ActorActive \<Rightarrow>
             if expect = Human \<and> acc = None
             then Inl (Unauthorized (lit ''Identity is incomplete and cannot authenticate''))
             else Inr \<lparr>gate_actor = a, gate_account = (if expect = Human then acc else None)\<rparr>)"

lemma gate_eq: "authenticable_actor no_faults key expect s =
  (gate_decision expect (actor_row key s)
     (case actor_row key s of None \<Rightarrow> None | Some a \<Rightarrow> account_row a s), s)"
  by (auto simp: authenticable_actor_def gate_decision_def find_actor_by_id_def actor_by_id_row
      account_row_def op_eval Let_def split: option.split actor_status.split)

lemma gate_success: "authenticable_actor F key expect s = (Inr g, t) \<Longrightarrow>
  t = s \<and> actor_row key s = Some (gate_actor g) \<and>
  parse_kind (actor_kind (gate_actor g)) = Some expect \<and>
  actor_status (gate_actor g) = lit ''active'' \<and>
  gate_account g = (if expect = Human then account_row (gate_actor g) s else None) \<and>
  (expect = Human \<longrightarrow> gate_account g \<noteq> None)"
  by (auto simp: authenticable_actor_def find_actor_by_id_def actor_by_id_row account_row_def
      op_success parse_actor_status_def split: actor_status.splits if_splits)

lemma gate_of_user_success: "authenticable_actor_of_user F uid s = (Inr g, t) \<Longrightarrow>
  t = s \<and> (\<exists>key. actor_of_user_row uid s = Some key \<and> actor_row key s = Some (gate_actor g)) \<and>
  parse_kind (actor_kind (gate_actor g)) = Some Human \<and> actor_status (gate_actor g) = lit ''active'' \<and>
  gate_account g = account_row (gate_actor g) s \<and> gate_account g \<noteq> None"
  by (auto simp: authenticable_actor_of_user_def actor_ref_of_user_def op_success dest!: gate_success)

lemma preserves_gate [preserve]:
  "preserves I (authenticable_actor F key expect)"
  "preserves I (authenticable_actor_of_user F uid)"
  unfolding authenticable_actor_of_user_def authenticable_actor_def find_actor_by_id_def
  by (intro preserve; auto intro!: preserve split: actor_status.split)+

section \<open>Creation is all or nothing\<close>

lemma create_human_aggregate_state: "create_human_aggregate F V now k f s = (r, t) \<Longrightarrow>
  case r of
    Inl e \<Rightarrow> t = s
  | Inr ids \<Rightarrow>
      ids = (new_actor k, new_user k) \<and>
      index_conflict actor_indexes (aggregate_actor now k) (actors s) = None \<and>
      index_conflict account_indexes (aggregate_account now k f) (accounts s) = None \<and>
      index_conflict user_indexes (aggregate_user now k f) (users s) = None \<and>
      (\<forall>h. form_password f = Some h \<longrightarrow> index_conflict credential_indexes
        (new_password (new_credential k) (new_actor k) h now) (credentials s) = None) \<and>
      (\<forall>p sub. form_binding f = Some (p, sub) \<longrightarrow> index_conflict binding_indexes
        (new_federated (new_binding k) (new_actor k) p sub now) (bindings s) = None) \<and>
      t = s\<lparr>actors := actors s @ [aggregate_actor now k],
            accounts := accounts s @ [aggregate_account now k f],
            users := users s @ [aggregate_user now k f],
            credentials := credentials s @ (case form_password f of None \<Rightarrow> []
              | Some h \<Rightarrow> [new_password (new_credential k) (new_actor k) h now]),
            bindings := bindings s @ (case form_binding f of None \<Rightarrow> []
              | Some (p, sub) \<Rightarrow> [new_federated (new_binding k) (new_actor k) p sub now])\<rparr>"
  by (cases r; cases "form_password f"; cases "form_binding f")
    (auto simp: create_human_aggregate_def op_success op_failure)

lemma preserves_create_human_aggregate [preserve]:
  "preserves store_ok (create_human_aggregate F V now k f)"
  unfolding create_human_aggregate_def
  by (intro preserve; auto intro!: preserve split: option.split)

lemma preserves_identity_ops [preserve]:
  "preserves store_ok (bind_external F V now key a p sub)"
  "preserves store_ok (create_ai_actor F V now key subject)"
  "preserves I (find_actor_by_id F key)"
  "preserves I (resolve_binding F p sub)"
  "preserves I (list_ai_actors F)"
  "preserves store_ok (set_status F now key st)"
  unfolding bind_external_def create_ai_actor_def find_actor_by_id_def resolve_binding_def
    list_ai_actors_def set_status_def Let_def
  by (intro preserve preserves_db_write;
      auto simp: preserve store_ok_def actor_indexes_def intro!: unique_ok_update)+

section \<open>Passwords as a map\<close>

text \<open>What the credential table promises: for each actor, the hash it can authenticate with, if any.\<close>

definition password_map :: "'x store_scheme \<Rightarrow> str \<Rightarrow> str option" where
  "password_map s actor =
    (case find (password_of actor) (credentials s) of
       None \<Rightarrow> None
     | Some c \<Rightarrow> if is_usable c then secret_hash c else None)"

lemma active_password_hash_success: "active_password_hash F actor s = (Inr h, t) \<Longrightarrow>
  t = s \<and> h = password_map s actor"
  by (auto simp: active_password_hash_def active_password_def find_password_def password_map_def
      op_success split: option.splits)

lemma active_password_success:
  assumes "active_password F actor s = (Inr c, t)"
  shows "t = s" "Option.bind c secret_hash = password_map s actor"
    "c = Some d \<Longrightarrow> d \<in> set (credentials s) \<and> is_usable d \<and> credential_actor d = actor"
proof -
  have c: "t = s" "c = (case find (password_of actor) (credentials s) of None \<Rightarrow> None
      | Some c \<Rightarrow> if is_usable c then Some c else None)"
    using assms by (auto simp: active_password_def find_password_def op_success)
  show "t = s" by (rule c)
  show "Option.bind c secret_hash = password_map s actor"
    by (simp add: c(2) password_map_def split: option.split)
  show "c = Some d \<Longrightarrow> d \<in> set (credentials s) \<and> is_usable d \<and> credential_actor d = actor"
    using find_Some_in [of "password_of actor" "credentials s"]
    by (auto simp: c(2) password_of_def split: option.splits if_splits)
qed

lemma is_usable_fresh [simp]: "is_usable (new_password key actor h now)"
  by (simp add: is_usable_def new_password_def parse_credential_status_def credential_status_str_def)

lemma password_map_rotate:
  "list_ex (password_of actor) (credentials s) \<Longrightarrow>
   password_map (credentials_update (update_where (password_of actor)
     (\<lambda>c. c\<lparr>secret_hash := Some hash, credential_status := credential_status_str CredentialActive,
            rotated_at := Some now, credential_revoked_at := None\<rparr>)) s) =
   (password_map s)(actor \<mapsto> hash)"
proof
  fix a
  assume ex: "list_ex (password_of actor) (credentials s)"
  then have "find (password_of actor) (credentials s) \<noteq> None"
    by (auto simp: find_None_all list_ex_iff)
  moreover have "password_of a c \<Longrightarrow> password_of actor c \<Longrightarrow> a = actor" for c
    by (simp add: password_of_def)
  ultimately show "password_map (credentials_update (update_where (password_of actor)
     (\<lambda>c. c\<lparr>secret_hash := Some hash, credential_status := credential_status_str CredentialActive,
            rotated_at := Some now, credential_revoked_at := None\<rparr>)) s) a =
   ((password_map s)(actor \<mapsto> hash)) a"
    by (auto simp: password_map_def find_update_where_same password_of_def is_usable_def
        parse_credential_status_def credential_status_str_def split: option.split
        dest: find_Some_in)
qed

lemma password_map_revoke:
  "password_map (credentials_update (update_where (password_of actor)
     (\<lambda>c. c\<lparr>credential_status := credential_status_str CredentialRevoked,
            credential_revoked_at := Some now\<rparr>)) s) =
   (password_map s)(actor := None)"
proof
  fix a
  show "password_map (credentials_update (update_where (password_of actor)
     (\<lambda>c. c\<lparr>credential_status := credential_status_str CredentialRevoked,
            credential_revoked_at := Some now\<rparr>)) s) a = ((password_map s)(actor := None)) a"
    by (auto simp: password_map_def find_update_where_same password_of_def is_usable_def
        parse_credential_status_def credential_status_str_def split: option.split
        dest: find_Some_in)
qed

lemma password_map_insert:
  assumes "index_conflict credential_indexes (new_password key actor hash now) (credentials s) = None"
  shows "password_map (credentials_update (\<lambda>cs. cs @ [new_password key actor hash now]) s) =
    (password_map s)(actor \<mapsto> hash)"
proof
  fix a
  let ?c = "new_password key actor hash now"
  have none: "\<forall>q\<in>set (credentials s). \<not> password_of actor q"
    using assms by (auto simp: index_conflict_None credential_indexes_def password_of_def
        new_password_def password_kind_def)
  have pw: "password_of b ?c \<longleftrightarrow> b = actor" for b by (auto simp: password_of_def new_password_def)
  have "find (password_of actor) (credentials s) = None" using none by (simp add: find_None_all)
  then have "find (password_of a) (credentials s @ [?c]) =
      (if a = actor then Some ?c else find (password_of a) (credentials s))"
    by (simp add: find_snoc pw split: option.split)
  then show "password_map (credentials_update (\<lambda>cs. cs @ [?c]) s) a = ((password_map s)(actor \<mapsto> hash)) a"
    using none by (auto simp: password_map_def new_password_def [of key] is_usable_def
      parse_credential_status_def credential_status_str_def)
qed

lemma credentials_untouched: "\<not> list_ex P (credentials s) \<Longrightarrow> credentials_update (update_where P f) s = s"
  by (cases s) (simp add: update_where_none list_ex_iff)

lemma set_password_refines: "set_password F V now key actor hash s = (r, t) \<Longrightarrow>
  case r of Inl e \<Rightarrow> t = s | Inr _ \<Rightarrow> password_map t = (password_map s)(actor \<mapsto> hash)"
  by (auto simp: set_password_alone rotate_password_def op_success op_failure password_map_rotate
      password_map_insert credentials_untouched split: sum.split if_splits)

lemma revoke_password_refines: "revoke_password F now actor s = (r, t) \<Longrightarrow>
  case r of Inl e \<Rightarrow> t = s | Inr _ \<Rightarrow> password_map t = (password_map s)(actor := None)"
  by (auto simp: revoke_password_def op_success op_failure password_map_revoke split: sum.split)

lemma preserves_rotate [preserve]: "preserves store_ok (rotate_password F label actor hash now)"
  unfolding rotate_password_def
  by (rule preserves_db_exec) (auto simp: store_ok_def credential_indexes_def intro!: unique_ok_update)

lemma preserves_credential_ops [preserve]:
  "preserves I (find_password F actor)"
  "preserves I (active_password F actor)"
  "preserves I (active_password_hash F actor)"
  "preserves I (has_password F actor)"
  "preserves store_ok (set_password F V now key actor hash)"
  "preserves store_ok (revoke_password F now actor)"
  unfolding has_password_def active_password_hash_def active_password_def find_password_def
    set_password_alone revoke_password_def
  by (intro preserve preserves_db_write;
      auto simp: preserve store_ok_def credential_indexes_def intro!: unique_ok_update)+

section \<open>The identity service\<close>

text \<open>
  The gate admits an actor exactly when its root exists under the normalised key, is of the
  expected kind and has the status \<^verbatim>\<open>active\<close>, and, for a human, has an account extension; it answers
  the root and that extension, and changes nothing.
\<close>

theorem identity_gate_exact:
  "authenticable_actor no_faults key expect s = (Inr g, t) \<longleftrightarrow>
    t = s \<and> actor_row key s = Some (gate_actor g) \<and>
    parse_kind (actor_kind (gate_actor g)) = Some expect \<and>
    parse_actor_status (actor_status (gate_actor g)) = ActorActive \<and>
    (case expect of
       AiActor \<Rightarrow> gate_account g = None
     | Human \<Rightarrow> gate_account g = account_row (gate_actor g) s \<and> gate_account g \<noteq> None)"
proof
  assume "authenticable_actor no_faults key expect s = (Inr g, t)"
  then show "t = s \<and> actor_row key s = Some (gate_actor g) \<and>
    parse_kind (actor_kind (gate_actor g)) = Some expect \<and>
    parse_actor_status (actor_status (gate_actor g)) = ActorActive \<and>
    (case expect of
       AiActor \<Rightarrow> gate_account g = None
     | Human \<Rightarrow> gate_account g = account_row (gate_actor g) s \<and> gate_account g \<noteq> None)"
    using gate_success [of no_faults key expect s g t]
    by (auto simp: parse_actor_status_def eq_commute [of "Some _" "account_row _ _"] split: actor_kind.split)
next
  assume "t = s \<and> actor_row key s = Some (gate_actor g) \<and>
    parse_kind (actor_kind (gate_actor g)) = Some expect \<and>
    parse_actor_status (actor_status (gate_actor g)) = ActorActive \<and>
    (case expect of
       AiActor \<Rightarrow> gate_account g = None
     | Human \<Rightarrow> gate_account g = account_row (gate_actor g) s \<and> gate_account g \<noteq> None)"
  then show "authenticable_actor no_faults key expect s = (Inr g, t)"
    by (cases g; cases expect) (auto simp: gate_eq gate_decision_def)
qed

text \<open>
  Creating a human is all or nothing: on an error the store is unchanged, and on success the new
  user resolves through the gate to the new root and its account, the password (when given) is the
  active one, and the external binding (when given) resolves to the new root.
\<close>

theorem human_created_whole:
  assumes create: "create_human_aggregate F V now k f s = (r, t)"
    and keys: "bare_key (lit ''user:'') (new_user k)" "bare_key (lit ''actor_identity:'') (new_actor k)"
  shows "case r of
      Inl e \<Rightarrow> t = s
    | Inr (a, u) \<Rightarrow>
        authenticable_actor_of_user no_faults u t =
          (Inr \<lparr>gate_actor = aggregate_actor now k, gate_account = Some (aggregate_account now k f)\<rparr>, t) \<and>
        (\<forall>h. form_password f = Some h \<longrightarrow> password_map t a = Some h) \<and>
        (\<forall>p sub. form_binding f = Some (p, sub) \<longrightarrow>
          resolve_binding no_faults p sub t = (Inr (Some (aggregate_actor now k)), t))"
proof (cases r)
  case (Inl e)
  then show ?thesis using create_human_aggregate_state [OF create] by simp
next
  case (Inr ids)
  let ?a = "aggregate_actor now k" and ?acc = "aggregate_account now k f"
  note st = create_human_aggregate_state [OF create, unfolded Inr, simplified]
  have ids: "ids = (new_actor k, new_user k)" using st by blast
  have "find (\<lambda>q. actor_key q = new_actor k) (actors t) = Some ?a"
    using st by (auto simp: aggregate_actor_def new_local_def index_conflict_None actor_indexes_def
        image_iff intro!: find_appended)
  then have actor: "actor_row (new_actor k) t = Some ?a"
    using keys(2) by (simp add: actor_row_def normalize_actor_id_fixed)
  have account: "account_row ?a t = Some ?acc"
    using st by (auto simp: account_row_def aggregate_actor_def new_local_def aggregate_account_def
        index_conflict_None account_indexes_def image_iff intro!: find_appended)
  have "find (\<lambda>q. user_key q = new_user k) (users t) = Some (aggregate_user now k f)"
    using st by (auto simp: aggregate_user_def index_conflict_None user_indexes_def
        image_iff intro!: find_appended)
  then have ref: "actor_of_user_row (new_user k) t = Some (new_actor k)"
    using keys(1) by (simp add: actor_of_user_row_def normalize_user_id_fixed aggregate_user_def)
  have gate: "authenticable_actor_of_user no_faults (new_user k) t =
      (Inr \<lparr>gate_actor = ?a, gate_account = Some ?acc\<rparr>, t)"
    using ref actor account
    by (simp add: authenticable_actor_of_user_def actor_ref_of_user_def op_eval gate_eq gate_decision_def
        aggregate_actor_def new_local_def parse_kind_def kind_str_def actor_status_str_def
        parse_actor_status_def)
  have password: "password_map t (new_actor k) = Some h" if "form_password f = Some h" for h
  proof -
    have "find (password_of (new_actor k)) (credentials t) =
        Some (new_password (new_credential k) (new_actor k) h now)"
      using st that by (auto simp: password_of_def new_password_def index_conflict_None
          credential_indexes_def image_iff intro!: find_appended)
    then show ?thesis by (simp add: password_map_def new_password_def [symmetric])
      (simp add: new_password_def)
  qed
  have binding: "resolve_binding no_faults p sub t = (Inr (Some ?a), t)"
    if "form_binding f = Some (p, sub)" for p sub
  proof -
    let ?b = "new_federated (new_binding k) (new_actor k) p sub now"
    have "find (\<lambda>b. provider b = p \<and> provider_subject b = sub) (bindings t) = Some ?b"
      using st that by (auto simp: new_federated_def index_conflict_None binding_indexes_def
          image_iff intro!: find_appended)
    moreover have "binding_is_active ?b" "binding_actor ?b = new_actor k"
      by (simp_all add: binding_is_active_def new_federated_def parse_verification_state_def
          verification_state_str_def)
    moreover have "actor_by_id (lit ''actor_identity:'' @ new_actor k) t = Some ?a"
      using actor actor_by_id_row [of "new_actor k" t] keys(2) by (simp add: normalize_actor_id_fixed)
    ultimately show ?thesis by (simp add: resolve_binding_def find_actor_by_id_def op_eval)
  qed
  show ?thesis using gate password binding by (simp add: Inr ids)
qed

lemma bare_key_eval:
  "bare_key p k \<longleftrightarrow> (k = [] \<or> \<not> delim (hd k) \<and> \<not> delim (last k)) \<and> strip_prefix p k = None"
  by (simp add: bare_key_def clean_ends_def)

theorem human_created_whole_witness:
  "\<exists>t. create_human_aggregate no_faults (\<lambda>n. DatabaseError (lit n)) 100
      \<lparr>new_actor = lit ''a1'', new_account = lit ''h1'', new_user = lit ''u1'', new_credential = lit ''c1'',
       new_binding = lit ''b1'', new_subject = lit ''s1''\<rparr>
      \<lparr>form_email = lit ''a@b.c'', form_username = lit ''Ann'', form_normalized = lit ''ann'',
       form_verified = True, form_token_hash = None, form_token_expires = None,
       form_password = Some (lit ''hash''), form_binding = None\<rparr> empty_store
      = (Inr (lit ''a1'', lit ''u1''), t) \<and>
    password_map t (lit ''a1'') = Some (lit ''hash'') \<and>
    succeeds (authenticable_actor_of_user no_faults (lit ''u1'')) t"
proof -
  let ?k = "\<lparr>new_actor = lit ''a1'', new_account = lit ''h1'', new_user = lit ''u1'', new_credential = lit ''c1'',
       new_binding = lit ''b1'', new_subject = lit ''s1''\<rparr>"
  let ?f = "\<lparr>form_email = lit ''a@b.c'', form_username = lit ''Ann'', form_normalized = lit ''ann'',
       form_verified = True, form_token_hash = None, form_token_expires = None,
       form_password = Some (lit ''hash''), form_binding = None\<rparr>"
  let ?V = "\<lambda>n. DatabaseError (lit n)"
  obtain t where t: "create_human_aggregate no_faults ?V 100 ?k ?f empty_store = (Inr (lit ''a1'', lit ''u1''), t)"
    by (simp add: create_human_aggregate_def transaction_def insert_row_def index_conflict_def
        seq_def bind_def index_defs empty_store_def)
  have "bare_key (lit ''user:'') (new_user ?k)" "bare_key (lit ''actor_identity:'') (new_actor ?k)"
    by (simp_all add: bare_key_eval lit_def delim_def delimiters_def is_whitespace_def)
  from human_created_whole [OF t this] have
    "authenticable_actor_of_user no_faults (lit ''u1'') t = (Inr \<lparr>gate_actor = aggregate_actor 100 ?k,
       gate_account = Some (aggregate_account 100 ?k ?f)\<rparr>, t)"
    "password_map t (lit ''a1'') = Some (lit ''hash'')" by simp_all
  then show ?thesis using t by (auto simp: succeeds_iff)
qed

section \<open>The password store under concurrency\<close>

abbreviation login_hash :: "'x store_scheme \<Rightarrow> str \<Rightarrow> auth_error + str option" where
  "login_hash s actor \<equiv> outcome (active_password_hash no_faults actor) s"

lemma login_hash_map: "login_hash s actor = Inr (password_map s actor)"
  by (auto simp: outcome_def active_password_hash_def active_password_def find_password_def
      password_map_def op_eval split: option.split)

lemma rotate_password_cases:
  "rotate_password F label actor hash now s = (r, t) \<Longrightarrow>
   (case r of
      Inl e \<Rightarrow> F \<noteq> no_faults \<and> t = s
    | Inr False \<Rightarrow> t = s \<and> \<not> list_ex (password_of actor) (credentials s)
    | Inr True \<Rightarrow> password_map t = (password_map s)(actor \<mapsto> hash) \<and> t = s\<lparr>credentials := credentials t\<rparr>)"
  by (auto simp: rotate_password_def op_success op_failure password_map_rotate credentials_untouched
      split: sum.split bool.split)

lemma insert_password_cases:
  "insert_row V credential_indexes credentials credentials_update (new_password key actor hash now) s = (r, t) \<Longrightarrow>
   (case r of
      Inl e \<Rightarrow> t = s
    | Inr _ \<Rightarrow> password_map t = (password_map s)(actor \<mapsto> hash) \<and> t = s\<lparr>credentials := credentials t\<rparr>)"
  by (auto simp: insert_row_def password_map_insert split: sum.split option.splits)

lemma set_password_racing_cases:
  assumes "set_password_racing F V now key actor hash e1 e2 s = (r, t)"
  shows "case r of
      Inl e \<Rightarrow> t \<in> {s, e1 s, e2 (e1 s)} \<and>
        (F = no_faults \<longrightarrow> \<not> list_ex (password_of actor) (credentials (e2 (e1 s))))
    | Inr _ \<Rightarrow> \<exists>pre\<in>{s, e1 s, e2 (e1 s)}.
        password_map t = (password_map pre)(actor \<mapsto> hash) \<and> t = pre\<lparr>credentials := credentials t\<rparr>"
proof -
  obtain first s1 where first: "rotate_password F ''credential_rotate_password'' actor hash now s = (first, s1)"
    by fastforce
  obtain new s2 where new: "seq (database_up F ''create_credential'')
      (insert_row V credential_indexes credentials credentials_update (new_password key actor hash now)) (e1 s) = (new, s2)"
    by fastforce
  obtain again s3 where again:
    "rotate_password F ''credential_rotate_password_again'' actor hash now (e2 (e1 s)) = (again, s3)" by fastforce
  have ins: "case new of Inl e \<Rightarrow> s2 = e1 s
      | Inr _ \<Rightarrow> password_map s2 = (password_map (e1 s))(actor \<mapsto> hash) \<and> s2 = (e1 s)\<lparr>credentials := credentials s2\<rparr>"
    using new by (auto simp: op_success op_failure password_map_insert split: sum.split)
  note rot = rotate_password_cases [OF first] rotate_password_cases [OF again]
  show ?thesis
  proof (cases first)
    case (Inl e)
    then show ?thesis using assms first rot by (auto simp: set_password_racing_def op_eval)
  next
    case (Inr hit)
    show ?thesis
    proof (cases hit)
      case True
      then show ?thesis using assms first rot Inr by (auto simp: set_password_racing_def op_eval)
    next
      case False
      then have s1: "s1 = s" using rot Inr by simp
      show ?thesis
      proof (cases new)
        case created: (Inr u)
        then have "(r, t) = (Inr (), s2)"
          using assms first new Inr False s1 by (simp add: set_password_racing_def op_eval catch_def)
        then show ?thesis using ins created by auto
      next
        case refused: (Inl e)
        then have "s2 = e1 s" using ins by simp
        then have "(r, t) = (case again of Inl x \<Rightarrow> (Inl x, s3) | Inr True \<Rightarrow> (Inr (), s3) | Inr False \<Rightarrow> (Inl e, s3))"
          using assms first new Inr False s1 refused again
          by (auto simp: set_password_racing_def op_eval catch_def split: sum.split bool.split)
        then show ?thesis using rot by (auto split: sum.splits bool.splits)
      qed
    qed
  qed
qed

text \<open>
  C33: The password store keeps its promise under concurrency: whatever other requests write between
  the rotation, the insertion and the second rotation, a set password that succeeds leaves every login
  of the actor comparing with exactly the new hash and every other actor's login as it was in one of
  the states the requests left, with nothing but credentials changed; one that fails changes nothing itself;
  and without faults it cannot fail when another request has created the actor's password, so a lost
  race is recovered by rotating that row.  Revoking closes the actor's password login and no other.
\<close>

theorem password_store_refines:
  "(case set_password_racing F V now key actor hash e1 e2 s of
      (Inl e, t) \<Rightarrow> t \<in> {s, e1 s, e2 (e1 s)}
    | (Inr _, t) \<Rightarrow> \<exists>pre\<in>{s, e1 s, e2 (e1 s)}. t = pre\<lparr>credentials := credentials t\<rparr> \<and>
        (\<forall>a. login_hash t a = (if a = actor then Inr (Some hash) else login_hash pre a))) \<and>
   (list_ex (password_of actor) (credentials (e2 (e1 s))) \<longrightarrow>
      succeeds (set_password_racing no_faults V now key actor hash e1 e2) s) \<and>
   (case revoke_password F now actor s of
      (Inl e, t) \<Rightarrow> t = s
    | (Inr _, t) \<Rightarrow> \<forall>a. login_hash t a = (if a = actor then Inr None else login_hash s a))"
proof (intro conjI impI)
  obtain r t where "set_password_racing F V now key actor hash e1 e2 s = (r, t)" by fastforce
  with set_password_racing_cases [OF this]
  show "case set_password_racing F V now key actor hash e1 e2 s of
      (Inl e, t) \<Rightarrow> t \<in> {s, e1 s, e2 (e1 s)}
    | (Inr _, t) \<Rightarrow> \<exists>pre\<in>{s, e1 s, e2 (e1 s)}. t = pre\<lparr>credentials := credentials t\<rparr> \<and>
        (\<forall>a. login_hash t a = (if a = actor then Inr (Some hash) else login_hash pre a))"
    by (cases r) (auto simp: login_hash_map)
next
  assume row: "list_ex (password_of actor) (credentials (e2 (e1 s)))"
  obtain r t where "set_password_racing no_faults V now key actor hash e1 e2 s = (r, t)" by fastforce
  with set_password_racing_cases [OF this] row
  show "succeeds (set_password_racing no_faults V now key actor hash e1 e2) s"
    by (cases r) (auto simp: succeeds_iff)
next
  obtain r t where "revoke_password F now actor s = (r, t)" by fastforce
  with revoke_password_refines [OF this]
  show "case revoke_password F now actor s of
      (Inl e, t) \<Rightarrow> t = s
    | (Inr _, t) \<Rightarrow> \<forall>a. login_hash t a = (if a = actor then Inr None else login_hash s a)"
    by (cases r) (auto simp: login_hash_map)
qed

text \<open>A lost race: another request inserts the actor's first password just before this one does.\<close>

theorem password_store_refines_witness:
  "\<exists>e1. succeeds (set_password_racing no_faults (\<lambda>n. DatabaseError (lit n)) 9 (lit ''c2'') (lit ''a1'') (lit ''mine'') e1 id)
      empty_store \<and>
    credentials (e1 empty_store) = [new_password (lit ''c1'') (lit ''a1'') (lit ''other'') 9]"
proof -
  define e1 :: "store \<Rightarrow> store" where "e1 = credentials_update (\<lambda>cs. cs @ [new_password (lit ''c1'') (lit ''a1'') (lit ''other'') 9])"
  have "list_ex (password_of (lit ''a1'')) (credentials (id (e1 empty_store)))"
    by (simp add: e1_def empty_store_def password_of_def new_password_def)
  with password_store_refines [where F = no_faults and V = "\<lambda>n. DatabaseError (lit n)" and now = 9
      and key = "lit ''c2''" and hash = "lit ''mine''" and ?e1.0 = e1 and ?e2.0 = id]
  have "succeeds (set_password_racing no_faults (\<lambda>n. DatabaseError (lit n)) 9 (lit ''c2'') (lit ''a1'') (lit ''mine'') e1 id)
      empty_store" by blast
  then show ?thesis by (auto simp: e1_def empty_store_def)
qed

end
