(* ===== verification/Auth_Cache.thy ===== *)
theory Auth_Cache
  imports Store Crypto "HOL-Library.Mapping"
begin

text \<open>
  \<^verbatim>\<open>src/services/auth_cache.rs\<close>: the per-instance cache from token digests to user rows.  The
  \<^verbatim>\<open>HashMap\<close> is a \<^typ>\<open>('a, 'b) mapping\<close>; the monotonic clock is an argument.  The contract
  that the extractors rely on, a cache whose hits are recent and not evicted, is the locale
  \<open>ttl_cache\<close>.
\<close>

section \<open>A cache with a time to live\<close>

datatype ('k, 'v) cache_event = Put int 'k 'v | Evict "'k \<Rightarrow> 'v \<Rightarrow> bool" | Sweep int

locale ttl_cache =
  fixes lookup :: "int \<Rightarrow> 'k \<Rightarrow> 's \<Rightarrow> 'v option" and put :: "int \<Rightarrow> 'k \<Rightarrow> 'v \<Rightarrow> 's \<Rightarrow> 's"
    and evict :: "('k \<Rightarrow> 'v \<Rightarrow> bool) \<Rightarrow> 's \<Rightarrow> 's" and sweep :: "int \<Rightarrow> 's \<Rightarrow> 's"
    and init :: 's and ttl :: int
  assumes lookup_init: "lookup now k init = None"
    and lookup_put: "lookup now k (put t j v s) = Some w \<Longrightarrow>
      (if k = j then w = v \<and> now < t + ttl else lookup now k s = Some w)"
    and lookup_evict: "lookup now k (evict P s) = Some w \<Longrightarrow> lookup now k s = Some w \<and> \<not> P k w"
    and lookup_sweep: "lookup now k (sweep t s) = Some w \<Longrightarrow> lookup now k s = Some w"
begin

fun happen :: "('k, 'v) cache_event \<Rightarrow> 's \<Rightarrow> 's" where
  "happen (Put t k v) s = put t k v s"
| "happen (Evict P) s = evict P s"
| "happen (Sweep t) s = sweep t s"

text \<open>A hit was put less than \<open>ttl\<close> ago, and has been neither replaced nor evicted since.\<close>

lemma hit_origin:
  "lookup now k (fold happen evs init) = Some v \<Longrightarrow>
    \<exists>pre t post. evs = pre @ Put t k v # post \<and> now < t + ttl \<and>
      (\<forall>ev\<in>set post. (\<forall>P. ev = Evict P \<longrightarrow> \<not> P k v) \<and> (\<forall>u w. ev \<noteq> Put u k w))"
proof (induction evs rule: rev_induct)
  case Nil
  then show ?case by (simp add: lookup_init)
next
  case (snoc ev evs)
  let ?s = "fold happen evs init"
  have extend: ?case if hit: "lookup now k ?s = Some v"
    and kept: "\<forall>P. ev = Evict P \<longrightarrow> \<not> P k v" "\<forall>u w. ev \<noteq> Put u k w"
  proof -
    obtain pre t post where "evs = pre @ Put t k v # post" "now < t + ttl"
      "\<forall>ev\<in>set post. (\<forall>P. ev = Evict P \<longrightarrow> \<not> P k v) \<and> (\<forall>u w. ev \<noteq> Put u k w)"
      using snoc.IH [OF hit] by blast
    then have "evs @ [ev] = pre @ Put t k v # (post @ [ev])" "now < t + ttl"
      "\<forall>ev\<in>set (post @ [ev]). (\<forall>P. ev = Evict P \<longrightarrow> \<not> P k v) \<and> (\<forall>u w. ev \<noteq> Put u k w)"
      using kept by auto
    then show ?thesis by blast
  qed
  show ?case
  proof (cases ev)
    case (Put t j w)
    show ?thesis
    proof (cases "j = k")
      case True
      then have "w = v" "now < t + ttl" using snoc.prems Put lookup_put [of now k t j w ?s v] by auto
      then show ?thesis using Put True by (intro exI [of _ evs] exI [of _ t] exI [of _ "[]"]) simp
    next
      case False
      then show ?thesis using snoc.prems Put lookup_put [of now k t j w ?s v] by (intro extend) auto
    qed
  next
    case (Evict P)
    then show ?thesis using snoc.prems lookup_evict [of now k P ?s v] by (intro extend) auto
  next
    case (Sweep t)
    then show ?thesis using snoc.prems lookup_sweep [of now k t ?s v] by (intro extend) auto
  qed
qed

end

section \<open>The cache of the program\<close>

record cache_entry =
  entry_user :: user
  entry_user_id :: str
  entry_expires_at :: int

type_synonym auth_cache = "(bytes, cache_entry) mapping"

definition max_entries :: nat where
  "max_entries = 10000"

definition cache_new :: "nat \<Rightarrow> int option \<times> auth_cache" where
  "cache_new ttl_seconds = (if 0 < ttl_seconds then Some (int ttl_seconds) else None, Mapping.empty)"

definition cache_enabled :: "int option \<Rightarrow> bool" where
  "cache_enabled ttl \<longleftrightarrow> ttl \<noteq> None"

definition cache_key :: "hashing \<Rightarrow> str \<Rightarrow> bytes" where
  "cache_key H token = sha256 H (as_bytes token)"

definition cache_get :: "hashing \<Rightarrow> int option \<Rightarrow> int \<Rightarrow> str \<Rightarrow> auth_cache \<Rightarrow> user option" where
  "cache_get H ttl now token c =
    (case ttl of
       None \<Rightarrow> None
     | Some _ \<Rightarrow>
         (case Mapping.lookup c (cache_key H token) of
            None \<Rightarrow> None
          | Some e \<Rightarrow> if entry_expires_at e \<le> now then None else Some (entry_user e)))"

definition live_entries :: "int \<Rightarrow> auth_cache \<Rightarrow> auth_cache" where
  "live_entries now c = Mapping.filter (\<lambda>_ e. now < entry_expires_at e) c"

definition make_room :: "int \<Rightarrow> auth_cache \<Rightarrow> auth_cache" where
  "make_room now c =
    (if max_entries \<le> Mapping.size c
     then let c = live_entries now c in if max_entries \<le> Mapping.size c then Mapping.empty else c
     else c)"

definition cache_insert :: "hashing \<Rightarrow> int option \<Rightarrow> int \<Rightarrow> str \<Rightarrow> str \<Rightarrow> user \<Rightarrow> auth_cache \<Rightarrow> auth_cache" where
  "cache_insert H ttl now token uid u c =
    (case ttl of
       None \<Rightarrow> c
     | Some d \<Rightarrow> Mapping.update (cache_key H token)
         \<lparr>entry_user = u, entry_user_id = uid, entry_expires_at = now + d\<rparr> (make_room now c))"

definition invalidate_token :: "hashing \<Rightarrow> int option \<Rightarrow> str \<Rightarrow> auth_cache \<Rightarrow> auth_cache" where
  "invalidate_token H ttl token c =
    (if ttl = None then c else Mapping.delete (cache_key H token) c)"

definition invalidate_user :: "int option \<Rightarrow> str \<Rightarrow> auth_cache \<Rightarrow> auth_cache" where
  "invalidate_user ttl uid c =
    (if ttl = None then c else Mapping.filter (\<lambda>_ e. entry_user_id e \<noteq> uid) c)"

definition purge_expired :: "int option \<Rightarrow> int \<Rightarrow> auth_cache \<Rightarrow> auth_cache" where
  "purge_expired ttl now c = (if ttl = None then c else live_entries now c)"

section \<open>The cache honours its contract\<close>

definition entry_lookup :: "int \<Rightarrow> bytes \<Rightarrow> auth_cache \<Rightarrow> (str \<times> user) option" where
  "entry_lookup now k c =
    (case Mapping.lookup c k of
       None \<Rightarrow> None
     | Some e \<Rightarrow> if entry_expires_at e \<le> now then None else Some (entry_user_id e, entry_user e))"

definition entry_put :: "int \<Rightarrow> int \<Rightarrow> bytes \<Rightarrow> str \<times> user \<Rightarrow> auth_cache \<Rightarrow> auth_cache" where
  "entry_put d now k v c = Mapping.update k
     \<lparr>entry_user = snd v, entry_user_id = fst v, entry_expires_at = now + d\<rparr> (make_room now c)"

definition entry_evict :: "(bytes \<Rightarrow> str \<times> user \<Rightarrow> bool) \<Rightarrow> auth_cache \<Rightarrow> auth_cache" where
  "entry_evict P c = Mapping.filter (\<lambda>k e. \<not> P k (entry_user_id e, entry_user e)) c"

lemma lookup_live_entries:
  "Mapping.lookup (live_entries now c) k = Some e \<Longrightarrow> Mapping.lookup c k = Some e"
  by (auto simp: live_entries_def Mapping.lookup_filter split: option.splits if_splits)

lemma lookup_make_room: "Mapping.lookup (make_room now c) k = Some e \<Longrightarrow> Mapping.lookup c k = Some e"
  by (auto simp: make_room_def Let_def Mapping.lookup_empty dest: lookup_live_entries split: if_splits)

interpretation bearer_cache: ttl_cache entry_lookup "entry_put d" entry_evict live_entries
    Mapping.empty d for d :: int
proof
  fix now t k j v w c
  show "entry_lookup now k Mapping.empty = None" by (simp add: entry_lookup_def Mapping.lookup_empty)
  show "entry_lookup now k (entry_put d t j v c) = Some w \<Longrightarrow>
      (if k = j then w = v \<and> now < t + d else entry_lookup now k c = Some w)"
    by (cases "k = j")
      (auto simp: entry_lookup_def entry_put_def Mapping.lookup_update Mapping.lookup_update_neq
        split: option.splits if_splits dest: lookup_make_room)
  show "entry_lookup now k (live_entries t c) = Some w \<Longrightarrow> entry_lookup now k c = Some w"
    by (auto simp: entry_lookup_def split: option.splits if_splits dest: lookup_live_entries)
  fix P
  show "entry_lookup now k (entry_evict P c) = Some w \<Longrightarrow> entry_lookup now k c = Some w \<and> \<not> P k w"
    by (auto simp: entry_lookup_def entry_evict_def Mapping.lookup_filter split: option.splits if_splits)
qed

text \<open>The operations of the service are the operations of the contract.\<close>

lemma cache_get_entry:
  "cache_get H (Some d) now token c = map_option snd (entry_lookup now (cache_key H token) c)"
  by (simp add: cache_get_def entry_lookup_def split: option.split)

lemma cache_ops_entry:
  "cache_insert H (Some d) now token uid u c = entry_put d now (cache_key H token) (uid, u) c"
  "invalidate_token H (Some d) token c = entry_evict (\<lambda>k _. k = cache_key H token) c"
  "invalidate_user (Some d) uid c = entry_evict (\<lambda>_ v. fst v = uid) c"
  "purge_expired (Some d) now c = live_entries now c"
  by (simp_all add: cache_insert_def entry_put_def invalidate_token_def invalidate_user_def
      entry_evict_def purge_expired_def)
    (rule mapping_eqI, rename_tac x, case_tac "x = cache_key H token",
      auto simp: Mapping.lookup_filter Mapping.lookup_delete Mapping.lookup_delete_neq split: option.split)

section \<open>Staleness and size\<close>

datatype cache_op = Insert int str str user | InvalidateToken str | InvalidateUser str | Purge int

definition cache_step :: "hashing \<Rightarrow> int \<Rightarrow> cache_op \<Rightarrow> auth_cache \<Rightarrow> auth_cache" where
  "cache_step H d x c = (case x of
      Insert now token uid u \<Rightarrow> cache_insert H (Some d) now token uid u c
    | InvalidateToken token \<Rightarrow> invalidate_token H (Some d) token c
    | InvalidateUser uid \<Rightarrow> invalidate_user (Some d) uid c
    | Purge now \<Rightarrow> purge_expired (Some d) now c)"

definition as_event :: "hashing \<Rightarrow> cache_op \<Rightarrow> (bytes, str \<times> user) cache_event" where
  "as_event H x = (case x of
      Insert now token uid u \<Rightarrow> Put now (cache_key H token) (uid, u)
    | InvalidateToken token \<Rightarrow> Evict (\<lambda>k _. k = cache_key H token)
    | InvalidateUser uid \<Rightarrow> Evict (\<lambda>_ v. fst v = uid)
    | Purge now \<Rightarrow> Sweep now)"

lemma cache_step_event: "cache_step H d x = bearer_cache.happen d (as_event H x)"
  by (rule ext) (simp add: cache_step_def as_event_def cache_ops_entry split: cache_op.split)

lemma fold_cache_events:
  "fold (cache_step H d) xs c = fold (bearer_cache.happen d) (map (as_event H) xs) c"
  by (induction xs arbitrary: c) (simp_all add: cache_step_event)

text \<open>
  A cache hit is recent and not revoked: whatever operations ran, the row that is answered was
  inserted under the digest of the presented token less than one TTL ago, and since then neither this
  token nor its user has been invalidated.
\<close>

theorem cache_hit_recent:
  assumes "cache_get H (Some d) now token (fold (cache_step H d) xs Mapping.empty) = Some u"
  shows "\<exists>pre t token' uid post. xs = pre @ Insert t token' uid u # post \<and>
    cache_key H token' = cache_key H token \<and> now < t + d \<and> InvalidateUser uid \<notin> set post \<and>
    (\<forall>other. InvalidateToken other \<in> set post \<longrightarrow> cache_key H other \<noteq> cache_key H token)"
proof -
  obtain uid where "entry_lookup now (cache_key H token)
      (fold (bearer_cache.happen d) (map (as_event H) xs) Mapping.empty) = Some (uid, u)"
    using assms by (auto simp: cache_get_entry fold_cache_events)
  from bearer_cache.hit_origin [OF this] obtain pre t post where
    evs: "map (as_event H) xs = pre @ Put t (cache_key H token) (uid, u) # post" and "now < t + d" and
    kept: "\<And>ev P. ev \<in> set post \<Longrightarrow> ev = Evict P \<Longrightarrow> \<not> P (cache_key H token) (uid, u)"
    by blast
  from evs obtain xs1 x xs2 where xs: "xs = xs1 @ x # xs2" "as_event H x = Put t (cache_key H token) (uid, u)"
    "map (as_event H) xs2 = post"
    by (auto simp: map_eq_append_conv map_eq_Cons_conv)
  obtain token' where x: "x = Insert t token' uid u" "cache_key H token' = cache_key H token"
    using xs(2) by (cases x) (auto simp: as_event_def)
  have "InvalidateUser uid \<notin> set xs2"
  proof
    assume "InvalidateUser uid \<in> set xs2"
    then have "Evict (\<lambda>_ v. fst v = uid) \<in> set post"
      unfolding xs(3) [symmetric] by (force simp: as_event_def intro: rev_image_eqI)
    from kept [OF this refl] show False by simp
  qed
  moreover have "cache_key H other \<noteq> cache_key H token" if "InvalidateToken other \<in> set xs2" for other
  proof -
    have "Evict (\<lambda>k _. k = cache_key H other) \<in> set post"
      using that unfolding xs(3) [symmetric] by (force simp: as_event_def intro: rev_image_eqI)
    from kept [OF this refl] show ?thesis by simp
  qed
  ultimately show ?thesis using xs(1) x \<open>now < t + d\<close> by blast
qed

definition sample_user :: user where
  "sample_user = \<lparr>user_key = lit ''u1'', subject_id = Some (lit ''a1''), email = lit ''a@b.c'',
     username = lit ''Ann'', username_normalized = lit ''ann'', user_created_at = 0,
     user_updated_at = 0, is_email_verified = True, verification_token_hash = None,
     verification_token_expires_at = None, user_status = lit ''Active'', membership_level = lit ''FREE'',
     membership_expiry = None, last_login_at = None, last_login_ip = None\<rparr>"

definition plain_hashing :: hashing where
  "plain_hashing = \<lparr>sha256 = (\<lambda>b. b), b64url = (\<lambda>b. map unat b)\<rparr>"

theorem cache_hit_recent_witness:
  "\<exists>t uid post token' pre. [InvalidateUser (lit ''u1''), Insert 10 (lit ''tok'') (lit ''u1'') sample_user]
     = pre @ Insert t token' uid sample_user # post \<and> (15 :: int) < t + 30"
proof -
  have "cache_get plain_hashing (Some 30) 15 (lit ''tok'') (fold (cache_step plain_hashing 30)
      [InvalidateUser (lit ''u1''), Insert 10 (lit ''tok'') (lit ''u1'') sample_user] Mapping.empty)
      = Some sample_user"
    by (simp add: cache_step_def cache_insert_def cache_get_def Mapping.lookup_update)
  from cache_hit_recent [OF this] show ?thesis by blast
qed

lemma finite_keys_ops:
  "finite (Mapping.keys c) \<Longrightarrow> finite (Mapping.keys (Mapping.filter P c))"
  "finite (Mapping.keys c) \<Longrightarrow> finite (Mapping.keys (make_room now c))"
  by (auto simp: make_room_def live_entries_def Let_def intro: finite_subset [OF keys_filter])

lemma make_room_size: "Mapping.size (make_room now c) < max_entries"
  by (auto simp: make_room_def Let_def max_entries_def)

lemma cache_step_size:
  "finite (Mapping.keys c) \<and> Mapping.size c \<le> max_entries \<Longrightarrow>
    finite (Mapping.keys (cache_step H d x c)) \<and> Mapping.size (cache_step H d x c) \<le> max_entries"
  using make_room_size [of _ c] size_filter [of c]
  by (auto simp: cache_step_def cache_insert_def invalidate_token_def invalidate_user_def
      purge_expired_def live_entries_def finite_keys_ops size_update size_delete Suc_le_eq
      split: cache_op.split intro: le_trans less_imp_le)

text \<open>
  The cache never grows past its limit: every operation keeps the number of entries at most
  \<open>max_entries\<close>, starting from the empty cache.
\<close>

theorem cache_bounded: "Mapping.size (fold (cache_step H d) xs Mapping.empty) \<le> max_entries"
proof -
  have "finite (Mapping.keys (fold (cache_step H d) xs Mapping.empty)) \<and>
      Mapping.size (fold (cache_step H d) xs Mapping.empty) \<le> max_entries"
    by (induction xs rule: rev_induct) (simp, simp add: cache_step_size)
  then show ?thesis by blast
qed

end
