(* ===== verification/Jwt.thy ===== *)
theory Jwt
  imports Identity Auth_Cache Mfa
begin

text \<open>
  \<^verbatim>\<open>src/utils/jwt.rs\<close>: tokens, the check that the session behind a token still exists, and the three
  extractors that turn a request into an authenticated subject.  The JWT library is a parameter
  (\<open>jwt_lib\<close>): it signs a payload and reads back the payload of a token that verifies and has not
  expired.  Decoding into another claim type is serde's: an MFA challenge has every mandatory field of
  \<^verbatim>\<open>Claims\<close>, a session token lacks the \<^verbatim>\<open>email\<close> of a challenge.

  \<open>auth_world\<close> extends the identity store by the state the authentication service works on.
\<close>

section \<open>The world\<close>

datatype mail = VerificationMail str str | ResetMail str str

record auth_world = store +
  cache :: auth_cache
  mfa_rows :: mfa_table
  outbox :: "mail list"

type_synonym 'a auth_op = "(auth_world, 'a) handler"

section \<open>Tokens\<close>

datatype subject_type = HumanSubject | AgentSubject

record claims =
  claims_sub :: str
  claims_exp :: int
  claims_iat :: int
  claims_session :: "str option"
  claims_subject :: "subject_type option"

record mfa_challenge_claims =
  challenge_sub :: str
  challenge_email :: str
  challenge_exp :: int
  challenge_iat :: int
  challenge_purpose :: str

datatype token_payload = SessionToken claims | ChallengeToken mfa_challenge_claims

record mfa_challenge =
  challenged_user :: str
  challenged_email :: str

record jwt_lib =
  jwt_encode :: "str \<Rightarrow> token_payload \<Rightarrow> str + str"
  jwt_decode :: "str \<Rightarrow> int \<Rightarrow> str \<Rightarrow> token_payload option"

definition mfa_challenge_purpose :: str where
  "mfa_challenge_purpose = lit ''mfa_challenge''"

definition mfa_challenge_ttl_seconds :: int where
  "mfa_challenge_ttl_seconds = 300"

fun as_claims :: "token_payload \<Rightarrow> claims option" where
  "as_claims (SessionToken c) = Some c"
| "as_claims (ChallengeToken m) = Some
    \<lparr>claims_sub = challenge_sub m, claims_exp = challenge_exp m, claims_iat = challenge_iat m,
     claims_session = None, claims_subject = None\<rparr>"

fun as_challenge :: "token_payload \<Rightarrow> mfa_challenge_claims option" where
  "as_challenge (SessionToken c) = None"
| "as_challenge (ChallengeToken m) = Some m"

record jwt_env =
  jwt :: jwt_lib
  jwt_secret :: "str option"
  hashing :: hashing
  typed_bearer :: "str \<Rightarrow> str option"
  cache_ttl :: "int option option"

definition decode_token_claims :: "jwt_env \<Rightarrow> int \<Rightarrow> str \<Rightarrow> auth_error + claims" where
  "decode_token_claims E now token =
    (case jwt_secret E of
       None \<Rightarrow> Inl InvalidToken
     | Some secret \<Rightarrow>
         (case jwt_decode (jwt E) secret now token of
            None \<Rightarrow> Inl InvalidToken
          | Some p \<Rightarrow> ok_or (as_claims p) InvalidToken))"

definition session_active :: "str \<Rightarrow> int \<Rightarrow> 'x store_scheme \<Rightarrow> bool" where
  "session_active hash now s \<longleftrightarrow>
    0 < count_where (\<lambda>r. session_token_hash r = hash \<and> now < session_expires_at r) (sessions s)"

definition verify_session_active :: "faults \<Rightarrow> jwt_env \<Rightarrow> int \<Rightarrow> str \<Rightarrow> ('x store_scheme, unit) handler" where
  "verify_session_active F E now token =
    bind (db_read F ''verify_session_active'' (session_active (hash_bearer (hashing E) token) now)) (\<lambda>active.
      require active InvalidToken)"

definition decode_and_verify_token :: "faults \<Rightarrow> jwt_env \<Rightarrow> int \<Rightarrow> str \<Rightarrow> ('x store_scheme, claims) handler" where
  "decode_and_verify_token F E now token =
    bind (lift_result (decode_token_claims E now token)) (\<lambda>c.
      seq (verify_session_active F E now token) (ret c))"

definition create_mfa_challenge_token :: "jwt_lib \<Rightarrow> int \<Rightarrow> str \<Rightarrow> str \<Rightarrow> str \<Rightarrow> auth_error + str" where
  "create_mfa_challenge_token J now uid mail secret =
    (case jwt_encode J secret (ChallengeToken
        \<lparr>challenge_sub = uid, challenge_email = mail, challenge_exp = now + mfa_challenge_ttl_seconds,
         challenge_iat = now, challenge_purpose = mfa_challenge_purpose\<rparr>) of
       Inl e \<Rightarrow> Inl (TokenError e)
     | Inr t \<Rightarrow> Inr t)"

definition decode_mfa_challenge_token :: "jwt_lib \<Rightarrow> int \<Rightarrow> str \<Rightarrow> str \<Rightarrow> auth_error + mfa_challenge" where
  "decode_mfa_challenge_token J now token secret =
    (case Option.bind (jwt_decode J secret now token) as_challenge of
       None \<Rightarrow> Inl InvalidToken
     | Some m \<Rightarrow>
         if challenge_purpose m \<noteq> mfa_challenge_purpose then Inl InvalidToken
         else Inr \<lparr>challenged_user = challenge_sub m, challenged_email = challenge_email m\<rparr>)"

section \<open>Extractors\<close>

definition strip_bearer_scheme :: "str \<Rightarrow> str option" where
  "strip_bearer_scheme value =
    (case split_once 32 value of
       None \<Rightarrow> None
     | Some (scheme, token) \<Rightarrow>
         if to_ascii_lowercase scheme = lit ''bearer'' then Some token else None)"

definition bearer_token :: "str option \<Rightarrow> str option" where
  "bearer_token header = map_option trim (Option.bind header strip_bearer_scheme)"

text \<open>The \<^verbatim>\<open>Claims\<close> extractor.\<close>

definition claims_of_request :: "faults \<Rightarrow> jwt_env \<Rightarrow> int \<Rightarrow> str option \<Rightarrow> ('x store_scheme, claims) handler" where
  "claims_of_request F E now header =
    bind (the_or (Option.bind header (typed_bearer E)) InvalidToken) (decode_and_verify_token F E now)"

definition load_user_from_actor :: "faults \<Rightarrow> str \<Rightarrow> ('x store_scheme, user) handler" where
  "load_user_from_actor F actor =
    bind (db_read F ''load_user_by_actor'' (\<lambda>s. find (\<lambda>u. subject_id u = Some actor) (users s))) (\<lambda>u.
      the_or u UserNotFound)"

definition cache_hit :: "jwt_env \<Rightarrow> int \<Rightarrow> str \<Rightarrow> auth_world \<Rightarrow> user option" where
  "cache_hit E inst token w =
    (case cache_ttl E of None \<Rightarrow> None | Some ttl \<Rightarrow> cache_get (hashing E) ttl inst token (cache w))"

definition remember :: "jwt_env \<Rightarrow> int \<Rightarrow> str \<Rightarrow> user \<Rightarrow> auth_world \<Rightarrow> auth_world" where
  "remember E inst token u =
    cache_update (\<lambda>c. case cache_ttl E of
        None \<Rightarrow> c
      | Some ttl \<Rightarrow> cache_insert (hashing E) ttl inst token (user_key u) u c)"

definition authed_user :: "faults \<Rightarrow> jwt_env \<Rightarrow> int \<Rightarrow> int \<Rightarrow> str option \<Rightarrow> user auth_op" where
  "authed_user F E now inst header =
    bind (the_or (bearer_token header) InvalidToken) (\<lambda>token.
    bind (reads (cache_hit E inst token)) (\<lambda>hit.
    case hit of
      Some u \<Rightarrow>
        bind (authenticable_actor_of_user F (user_key u)) (\<lambda>_.
        seq (lift_result (ensure_usable u)) (ret u))
    | None \<Rightarrow>
        bind (claims_of_request F E now header) (\<lambda>c.
        seq (require (claims_subject c \<noteq> Some AgentSubject)
          (Forbidden (lit ''This endpoint is for human accounts; AI actor sessions cannot access it'')))
        (bind (authenticable_actor F (claims_sub c) Human) (\<lambda>g.
        bind (load_user_from_actor F (actor_key (gate_actor g))) (\<lambda>u.
        seq (lift_result (ensure_usable u))
        (seq (writes (remember E inst token u)) (ret u))))))))"

definition authed_actor :: "faults \<Rightarrow> jwt_env \<Rightarrow> int \<Rightarrow> str option \<Rightarrow> ('x store_scheme, actor_identity) handler" where
  "authed_actor F E now header =
    bind (claims_of_request F E now header) (\<lambda>c.
    seq (require (claims_subject c = Some AgentSubject)
      (Forbidden (lit ''This endpoint is for AI actor sessions'')))
    (bind (db_read F ''find_actor_by_id'' (actor_by_id (lit ''actor_identity:'' @ claims_sub c))) (\<lambda>found.
    bind (the_or found InvalidToken) (\<lambda>a.
    seq (require (actor_can_authenticate a) AccountSuspended) (ret a)))))"

definition authed_session :: "faults \<Rightarrow> jwt_env \<Rightarrow> int \<Rightarrow> str option \<Rightarrow>
    ('x store_scheme, actor_identity \<times> session) handler" where
  "authed_session F E now header =
    bind (the_or (bearer_token header) InvalidToken) (\<lambda>token.
    bind (claims_of_request F E now header) (\<lambda>c.
    let kind = (if claims_subject c = Some AgentSubject then AiActor else Human) in
    bind (authenticable_actor F (claims_sub c) kind) (\<lambda>g.
    seq (if kind = Human
         then bind (load_user_from_actor F (actor_key (gate_actor g))) (\<lambda>u. lift_result (ensure_usable u))
         else ret ())
    (bind (db_read F ''session_of_bearer''
        (\<lambda>s. find (\<lambda>r. session_token_hash r = hash_bearer (hashing E) token) (sessions s))) (\<lambda>found.
    bind (the_or found InvalidToken) (\<lambda>r.
    ret (gate_actor g, r)))))))"

section \<open>What an authenticated request has shown\<close>

lemma ensure_usable_active [simp]: "ensure_usable u = Inr () \<longleftrightarrow> user_status u = lit ''Active''"
  by (simp add: ensure_usable_def parse_account_status_def)

lemma session_active_iff: "session_active hash now s \<longleftrightarrow>
  (\<exists>r\<in>set (sessions s). session_token_hash r = hash \<and> now < session_expires_at r)"
  by (auto simp: session_active_def count_where_def filter_empty_conv)

lemma claims_of_request_success: "claims_of_request F E now header s = (Inr c, t) \<Longrightarrow>
  t = s \<and> (\<exists>token. Option.bind header (typed_bearer E) = Some token \<and>
    decode_token_claims E now token = Inr c \<and> session_active (hash_bearer (hashing E) token) now s)"
  by (auto simp: claims_of_request_def decode_and_verify_token_def verify_session_active_def op_success)

lemma load_user_success: "load_user_from_actor F actor s = (Inr u, t) \<Longrightarrow>
  t = s \<and> u \<in> set (users s) \<and> subject_id u = Some actor"
  by (auto simp: load_user_from_actor_def op_success eq_commute [of "Some _" "find _ _"]
      dest!: find_Some_in)

text \<open>
  The actor behind a request is active at this moment, whether the user came from the cache or not.
\<close>

definition admitted :: "actor_identity \<Rightarrow> 'x store_scheme \<Rightarrow> bool" where
  "admitted a s \<longleftrightarrow> actor_status a = lit ''active'' \<and> parse_kind (actor_kind a) = Some Human \<and>
    account_row a s \<noteq> None"

lemma gate_human_admits:
  "authenticable_actor F key Human s = (Inr g, t) \<Longrightarrow>
    t = s \<and> actor_row key s = Some (gate_actor g) \<and> admitted (gate_actor g) s \<and>
    gate_account g = account_row (gate_actor g) s"
  using gate_success [of F key Human s g t]
  by (auto simp: admitted_def eq_commute [of "Some _" "account_row _ _"])

lemma gate_of_user_admits:
  "authenticable_actor_of_user F uid s = (Inr g, t) \<Longrightarrow>
    t = s \<and> admitted (gate_actor g) s \<and> gate_account g = account_row (gate_actor g) s \<and>
    (\<exists>key. actor_of_user_row uid s = Some key \<and> actor_row key s = Some (gate_actor g))"
  using gate_of_user_success [of F uid s g t]
  by (auto simp: admitted_def eq_commute [of "Some _" "account_row _ _"])

lemma authed_user_success:
  assumes "authed_user F E now inst header w = (Inr u, w')"
  shows "user_status u = lit ''Active'' \<and>
    (\<exists>token a key. bearer_token header = Some token \<and> admitted a w \<and> actor_row key w = Some a \<and>
      (case cache_hit E inst token w of
         Some v \<Rightarrow> v = u \<and> w' = w \<and> actor_of_user_row (user_key u) w = Some key
       | None \<Rightarrow> w' = remember E inst token u w \<and> u \<in> set (users w) \<and>
           subject_id u = Some (actor_key a) \<and>
           (\<exists>sent c. Option.bind header (typed_bearer E) = Some sent \<and>
             decode_token_claims E now sent = Inr c \<and> claims_subject c \<noteq> Some AgentSubject \<and>
             claims_sub c = key \<and> session_active (hash_bearer (hashing E) sent) now w)))"
proof -
  obtain token where token: "bearer_token header = Some token"
    using assms by (auto simp: authed_user_def op_success)
  show ?thesis
  proof (cases "cache_hit E inst token w")
    case (Some v)
    then obtain g where "authenticable_actor_of_user F (user_key v) w = (Inr g, w')" "v = u" "w' = w"
      "user_status u = lit ''Active''"
      using assms token by (auto simp: authed_user_def op_success dest: gate_of_user_admits)
    then show ?thesis using token Some gate_of_user_admits by fastforce
  next
    case None
    then obtain c g w1 w2 w3 where c: "claims_of_request F E now header w = (Inr c, w1)"
      "claims_subject c \<noteq> Some AgentSubject"
      and g: "authenticable_actor F (claims_sub c) Human w1 = (Inr g, w2)"
      and u: "load_user_from_actor F (actor_key (gate_actor g)) w2 = (Inr u, w3)"
      "user_status u = lit ''Active''" "w' = remember E inst token u w3"
      using assms token by (auto simp: authed_user_def op_success)
    have [simp]: "w1 = w" "w2 = w" "w3 = w"
      using claims_of_request_success [OF c(1)] gate_human_admits [OF g] load_user_success [OF u(1)] by auto
    show ?thesis
      using token None claims_of_request_success [OF c(1)] gate_human_admits [OF g]
        load_user_success [OF u(1)] u(2,3) c(2)
      by (intro conjI) (simp, rule exI [of _ token], rule exI [of _ "gate_actor g"],
        rule exI [of _ "claims_sub c"], auto)
  qed
qed

end
