(* ===== verification/Auth_Service.thy ===== *)
theory Auth_Service
  imports Jwt
begin

text \<open>
  \<^verbatim>\<open>src/services/auth.rs\<close>: registration, login, the second step, sessions, e-mail verification,
  password set-up and reset.  Argon2, the JWT library and the digest are parameters; random values
  and the clock are arguments.  Sending a mail is recorded in the outbox: its failure is only logged.
  What a blocking task that panics would answer is not modelled.
\<close>

section \<open>Environment\<close>

record auth_env = jwt_env +
  password_min_length :: nat
  email_verification_enabled :: bool
  jwt_expiration :: int
  config_jwt_secret :: str
  argon2_hash :: "bytes \<Rightarrow> str \<Rightarrow> str + str"
  argon2_check :: "str \<Rightarrow> str \<Rightarrow> str + bool"
  chars :: unicode

record request_context =
  ctx_ip :: str
  ctx_agent :: str

record create_user_request =
  req_email :: str
  req_password :: str
  req_username :: "str option"

record issued_session =
  issued_token :: str
  issued_user :: user_response
  issued_key :: str
  issued_fact :: authentication_fact

datatype login_outcome = Authenticated issued_session | MfaRequired str mfa_method

definition verification_ttl_hours :: int where
  "verification_ttl_hours = 24"

definition default_session_ttl_seconds :: int where
  "default_session_ttl_seconds = 86400"

section \<open>Helpers\<close>

definition translate_unique_violation :: "auth_error \<Rightarrow> auth_error" where
  "translate_unique_violation e =
    (case e of
       DatabaseError m \<Rightarrow>
         if \<not> contains (lit ''already contains'') m then e
         else if contains (lit ''email_idx'') m then EmailExists
         else if contains (lit ''username_idx'') m then UsernameExists
         else e
     | _ \<Rightarrow> e)"

definition normalize_username :: "str \<Rightarrow> str" where
  "normalize_username u = to_ascii_lowercase (trim u)"

definition find_user_by_name :: "faults \<Rightarrow> str \<Rightarrow> ('x store_scheme, user option) handler" where
  "find_user_by_name F n = db_read F ''user.username_normalized'' (user_by_name n)"

definition find_user_by_email :: "faults \<Rightarrow> str \<Rightarrow> ('x store_scheme, user option) handler" where
  "find_user_by_email F e = db_read F ''user.email'' (user_by_email e)"

definition find_user_by_id :: "faults \<Rightarrow> str \<Rightarrow> ('x store_scheme, user option) handler" where
  "find_user_by_id F v = db_read F ''user.id'' (user_by_id v)"

definition ensure_username_available :: "faults \<Rightarrow> str \<Rightarrow> ('x store_scheme, str) handler" where
  "ensure_username_available F u =
    (let n = normalize_username u in
     seq (require (n \<noteq> []) (ValidationError (lit ''Username is required'')))
     (bind (find_user_by_name F n) (\<lambda>found.
     seq (require (found = None) UsernameExists) (ret n))))"

function pad_seed :: "str \<Rightarrow> str" where
  "pad_seed seed = (if byte_len seed < 3 then pad_seed (seed @ [48]) else seed)"
  by pat_completeness auto
termination
  by (relation "measure (\<lambda>s. 3 - byte_len s)") (auto simp: byte_len_def utf8_def utf8_char_def)

declare pad_seed.simps [simp del]

definition username_seed :: "str \<Rightarrow> str" where
  "username_seed base =
    (let seed = trim base;
         seed = (if seed = [] then lit ''user'' else seed);
         seed = filter username_char seed
     in pad_seed (if seed = [] then lit ''user'' else seed))"

definition username_candidate :: "str \<Rightarrow> nat \<Rightarrow> str" where
  "username_candidate seed attempt = (if attempt = 0 then seed else seed @ dec attempt)"

fun first_free_username :: "faults \<Rightarrow> str \<Rightarrow> nat list \<Rightarrow> ('x store_scheme, str \<times> str) handler" where
  "first_free_username F seed [] = throw (ServerError (lit ''Failed to generate a unique username''))"
| "first_free_username F seed (attempt # rest) =
    (let candidate = username_candidate seed attempt; normalized = normalize_username candidate in
     bind (find_user_by_name F normalized) (\<lambda>found.
       if found = None then ret (candidate, normalized) else first_free_username F seed rest))"

definition generate_unique_username :: "faults \<Rightarrow> str \<Rightarrow> ('x store_scheme, str \<times> str) handler" where
  "generate_unique_username F base = first_free_username F (username_seed base) [0..<1000]"

definition hash_password :: "auth_env \<Rightarrow> bytes \<Rightarrow> str \<Rightarrow> auth_error + str" where
  "hash_password E salt pw = (case argon2_hash E salt pw of Inl e \<Rightarrow> Inl (ServerError e) | Inr h \<Rightarrow> Inr h)"

definition verify_password :: "auth_env \<Rightarrow> str \<Rightarrow> str \<Rightarrow> auth_error + unit" where
  "verify_password E stored pw =
    (case argon2_check E stored pw of
       Inl e \<Rightarrow> Inl (ServerError e)
     | Inr ok \<Rightarrow> if ok then Inr () else Inl InvalidCredentials)"

definition password_ref_of :: "faults \<Rightarrow> user \<Rightarrow> ('x store_scheme, str option) handler" where
  "password_ref_of F u =
    (case subject_id u of
       None \<Rightarrow> ret None
     | Some actor \<Rightarrow> bind (active_password F actor) (\<lambda>c.
         ret (map_option (\<lambda>c. lit ''credential:'' @ credential_key c) c)))"

definition touch_last_login :: "faults \<Rightarrow> conflict_report \<Rightarrow> int \<Rightarrow> request_context \<Rightarrow> user \<Rightarrow>
    ('x store_scheme, user) handler" where
  "touch_last_login F V now ctx u =
    (let u = u\<lparr>last_login_at := Some now, last_login_ip := Some (ctx_ip ctx), user_updated_at := now\<rparr> in
     seq (update_user F V ''touch_last_login'' u) (ret u))"

definition session_ttl_seconds :: "auth_env \<Rightarrow> int" where
  "session_ttl_seconds E = (if 0 < jwt_expiration E then jwt_expiration E else default_session_ttl_seconds)"

definition session_claims :: "auth_env \<Rightarrow> int \<Rightarrow> str \<Rightarrow> str \<Rightarrow> claims" where
  "session_claims E now key actor =
    \<lparr>claims_sub = actor, claims_exp = now + session_ttl_seconds E, claims_iat = now,
     claims_session = Some key, claims_subject = Some HumanSubject\<rparr>"

definition session_row :: "auth_env \<Rightarrow> int \<Rightarrow> str \<Rightarrow> str \<Rightarrow> str \<Rightarrow> request_context \<Rightarrow> auth_method list \<Rightarrow>
    str list \<Rightarrow> session" where
  "session_row E now key actor token ctx methods refs =
    \<lparr>session_key = key, session_actor = actor, session_token_hash = hash_bearer (hashing E) token,
     session_expires_at = now + session_ttl_seconds E, session_created_at = now,
     session_user_agent = ctx_agent ctx, session_ip = ctx_ip ctx,
     session_credential_kind = map_option method_str (List.find (\<lambda>_. True) methods),
     session_credential_ref = List.find (\<lambda>_. True) refs, session_credential_label = None,
     session_authenticated_at = Some now, session_methods = Some (map method_str methods),
     session_credential_refs = Some refs\<rparr>"

definition create_session :: "faults \<Rightarrow> conflict_report \<Rightarrow> auth_env \<Rightarrow> int \<Rightarrow> str \<Rightarrow> request_context \<Rightarrow> user \<Rightarrow>
    auth_method list \<Rightarrow> str list \<Rightarrow> ('x store_scheme, issued_session) handler" where
  "create_session F V E now key ctx u methods refs =
    bind (the_or (subject_id u)
        (DatabaseError (lit ''user '' @ email u @ lit '' has no actor_identity''))) (\<lambda>actor.
    bind (lift_result (case jwt_encode (jwt E) (config_jwt_secret E)
          (SessionToken (session_claims E now key actor)) of
        Inl e \<Rightarrow> Inl (TokenError e) | Inr t \<Rightarrow> Inr t)) (\<lambda>token.
    seq (database_up F ''create_session'')
    (seq (insert_row V session_indexes sessions sessions_update
        (session_row E now key actor token ctx methods refs))
    (bind (has_password F actor) (\<lambda>has.
    ret \<lparr>issued_token = token, issued_user = user_response_of u has, issued_key = key,
         issued_fact = fact_human (lit ''actor_identity:'' @ actor) methods refs now\<rparr>)))))"

definition send_mail :: "mail \<Rightarrow> auth_world \<Rightarrow> auth_world" where
  "send_mail m = outbox_update (\<lambda>ms. ms @ [m])"

section \<open>External logins\<close>

record oauth_user_info =
  oauth_provider :: str
  oauth_subject :: str
  oauth_email :: str
  oauth_name :: "str option"
  oauth_picture :: "str option"

definition find_or_create_oauth_user :: "faults \<Rightarrow> conflict_report \<Rightarrow> int \<Rightarrow> aggregate_keys \<Rightarrow>
    oauth_user_info \<Rightarrow> ('x store_scheme, user) handler" where
  "find_or_create_oauth_user F V now keys info =
    bind (resolve_binding F (oauth_provider info) (oauth_subject info)) (\<lambda>bound.
    case bound of
      Some a \<Rightarrow>
        bind (db_read F ''find_user_by_actor_ref''
            (\<lambda>s. find (\<lambda>u. subject_id u = Some (actor_key a)) (users s))) (\<lambda>found.
          the_or found (Unauthorized (lit ''Identity is incomplete and cannot authenticate'')))
    | None \<Rightarrow>
        bind (lift_result (validate_email (oauth_email info))) (\<lambda>mail.
        bind (find_user_by_email F mail) (\<lambda>found.
        seq (require (found = None) (Forbidden (lit
          ''An account with this email already exists. Sign in with it first and then link this provider -- a matching email address does not by itself prove the two identities are the same subject.'')))
        (bind (generate_unique_username F (hd (split_on (\<lambda>c. c = 64) mail))) (\<lambda>(name, normalized).
        bind (map_error translate_unique_violation (create_human_aggregate F V now keys
          \<lparr>form_email = mail, form_username = name, form_normalized = normalized, form_verified = True,
           form_token_hash = None, form_token_expires = None, form_password = None,
           form_binding = Some (oauth_provider info, oauth_subject info)\<rparr>)) (\<lambda>(_, uid).
        bind (find_user_by_id F (lit ''user:'' @ uid)) (\<lambda>created.
        the_or created (DatabaseError (lit ''the new user row cannot be read back'')))))))))"

text \<open>Both callbacks, from the answer of the OAuth client of their provider.\<close>

definition handle_oauth_callback :: "faults \<Rightarrow> conflict_report \<Rightarrow> auth_env \<Rightarrow> int \<Rightarrow> aggregate_keys \<Rightarrow> str \<Rightarrow>
    request_context \<Rightarrow> auth_error + oauth_user_info \<Rightarrow> ('x store_scheme, issued_session) handler" where
  "handle_oauth_callback F V E now keys key ctx answer =
    bind (lift_result answer) (\<lambda>info.
    bind (find_or_create_oauth_user F V now keys info) (\<lambda>u.
    bind (authenticable_actor_of_user F (user_key u)) (\<lambda>_.
    bind (touch_last_login F V now ctx u) (\<lambda>u.
    create_session F V E now key ctx u [MExternalIdentity] []))))"

section \<open>Registration and login\<close>

definition nonempty :: "str option \<Rightarrow> str option" where
  "nonempty x = (case x of None \<Rightarrow> None | Some v \<Rightarrow> if v = [] then None else Some v)"

record register_draws =
  draw_keys :: aggregate_keys
  draw_salt :: bytes
  draw_token :: str
  draw_session :: str

definition register :: "faults \<Rightarrow> conflict_report \<Rightarrow> auth_env \<Rightarrow> int \<Rightarrow> register_draws \<Rightarrow> request_context \<Rightarrow>
    create_user_request \<Rightarrow> ((str \<times> user_response) \<times> str option) auth_op" where
  "register F V E now d ctx req =
    bind (lift_result (validate_email (req_email req))) (\<lambda>mail.
    seq (lift_result (validate_password (chars E) (req_password req) (password_min_length E)))
    (bind (the_or (nonempty (map_option trim (req_username req))) (ValidationError (lit ''Username is required''))) (\<lambda>name.
    bind (lift_result (validate_username name)) (\<lambda>name.
    bind (find_user_by_email F mail) (\<lambda>found.
    seq (require (found = None) EmailExists)
    (bind (ensure_username_available F name) (\<lambda>normalized.
    bind (lift_result (hash_password E (draw_salt d) (req_password req))) (\<lambda>hash.
    let token = (if email_verification_enabled E then Some (draw_token d) else None) in
    bind (map_error translate_unique_violation (create_human_aggregate F V now (draw_keys d)
      \<lparr>form_email = mail, form_username = name, form_normalized = normalized,
       form_verified = (\<not> email_verification_enabled E),
       form_token_hash = map_option (hash_bearer (hashing E)) token,
       form_token_expires = map_option (\<lambda>_. now + verification_ttl_hours * 3600) token,
       form_password = Some hash, form_binding = None\<rparr>)) (\<lambda>(_, uid).
    bind (find_user_by_id F (lit ''user:'' @ uid)) (\<lambda>created.
    bind (the_or created (DatabaseError (lit ''the new user row cannot be read back''))) (\<lambda>u.
    case token of
      Some t \<Rightarrow>
        seq (writes (send_mail (VerificationMail mail t)))
        (ret (([], user_response_of u True), None))
    | None \<Rightarrow>
        bind (touch_last_login F V now ctx u) (\<lambda>u.
        bind (password_ref_of F u) (\<lambda>pref.
        bind (create_session F V E now (draw_session d) ctx u [MPassword]
            (case pref of None \<Rightarrow> [] | Some p \<Rightarrow> [p])) (\<lambda>i.
        ret ((issued_token i, issued_user i), Some (issued_key i))))))))))))))))"

text \<open>
  The login in three parts: the end (challenge or session), the checks on the account once the password
  matched, and the look-up.  \<open>probe\<close> is the random actor whose credential is looked up when the address
  is unknown.
\<close>

definition issue_login :: "faults \<Rightarrow> conflict_report \<Rightarrow> auth_env \<Rightarrow> int \<Rightarrow> str \<Rightarrow> request_context \<Rightarrow>
    user \<Rightarrow> credential \<Rightarrow> mfa_method option \<Rightarrow> login_outcome auth_op" where
  "issue_login F V E now key ctx u c meth =
    (case meth of
       Some m \<Rightarrow>
         bind (lift_result (create_mfa_challenge_token (jwt E) now (user_key u) (email u)
             (config_jwt_secret E))) (\<lambda>t.
         ret (MfaRequired t m))
     | None \<Rightarrow>
         bind (touch_last_login F V now ctx u) (\<lambda>u.
         bind (create_session F V E now key ctx u [MPassword]
             [lit ''credential:'' @ credential_key c]) (\<lambda>i.
         ret (Authenticated i))))"

definition admit_login :: "faults \<Rightarrow> conflict_report \<Rightarrow> auth_env \<Rightarrow> int \<Rightarrow> str \<Rightarrow> request_context \<Rightarrow>
    user \<Rightarrow> credential \<Rightarrow> login_outcome auth_op" where
  "admit_login F V E now key ctx u c =
    seq (require (\<not> (email_verification_enabled E \<and> \<not> is_email_verified u)) EmailNotVerified)
    (bind (authenticable_actor_of_user F (user_key u)) (\<lambda>g.
    seq (lift_result (ensure_usable u))
    (seq (case gate_account g of
          None \<Rightarrow> ret ()
        | Some acc \<Rightarrow> require (\<not> (email_verification_enabled E \<and> \<not> account_email_verified acc))
            EmailNotVerified)
    (bind (zoom mfa_rows (\<lambda>t. mfa_rows_update (\<lambda>_. t)) (enabled_method F (user_key u))) (\<lambda>meth.
    issue_login F V E now key ctx u c meth)))))"

definition login :: "faults \<Rightarrow> conflict_report \<Rightarrow> auth_env \<Rightarrow> int \<Rightarrow> str \<Rightarrow> str \<Rightarrow> request_context \<Rightarrow>
    str \<Rightarrow> str \<Rightarrow> login_outcome auth_op" where
  "login F V E now probe key ctx mail pw =
    bind (map_error (\<lambda>_. InvalidCredentials) (lift_result (validate_email mail))) (\<lambda>mail.
    bind (find_user_by_email F mail) (\<lambda>found.
    bind (active_password F (case Option.bind found subject_id of None \<Rightarrow> probe | Some a \<Rightarrow> a)) (\<lambda>stored.
    case (found, stored) of
      (Some u, Some c) \<Rightarrow>
        bind (the_or (secret_hash c) InvalidCredentials) (\<lambda>hash.
        seq (lift_result (verify_password E hash pw))
        (admit_login F V E now key ctx u c))
    | _ \<Rightarrow> throw InvalidCredentials)))"

definition complete_mfa_login :: "faults \<Rightarrow> conflict_report \<Rightarrow> auth_env \<Rightarrow> int \<Rightarrow> str \<Rightarrow> request_context \<Rightarrow>
    str \<Rightarrow> auth_method \<Rightarrow> ('x store_scheme, issued_session) handler" where
  "complete_mfa_login F V E now key ctx uid second =
    bind (find_user_by_id F uid) (\<lambda>found.
    bind (the_or found UserNotFound) (\<lambda>u.
    bind (authenticable_actor_of_user F uid) (\<lambda>_.
    seq (lift_result (ensure_usable u))
    (bind (touch_last_login F V now ctx u) (\<lambda>u.
    bind (password_ref_of F u) (\<lambda>pref.
    create_session F V E now key ctx u [MPassword, second] (case pref of None \<Rightarrow> [] | Some p \<Rightarrow> [p])))))))"

section \<open>E-mail verification\<close>

definition verification_claimable :: "str \<Rightarrow> int \<Rightarrow> user \<Rightarrow> bool" where
  "verification_claimable hash now u \<longleftrightarrow> verification_token_hash u = Some hash \<and> \<not> is_email_verified u \<and>
    (case verification_token_expires_at u of None \<Rightarrow> False | Some e \<Rightarrow> now < e)"

definition claim_verification_token :: "str \<Rightarrow> int \<Rightarrow> 'x store_scheme \<Rightarrow> str list \<times> 'x store_scheme" where
  "claim_verification_token hash now s =
    (map user_key (filter (verification_claimable hash now) (users s)),
     users_update (update_where (verification_claimable hash now)
       (\<lambda>u. u\<lparr>is_email_verified := True, verification_token_hash := None,
              verification_token_expires_at := None, user_updated_at := now\<rparr>)) s)"

definition verify_email :: "faults \<Rightarrow> conflict_report \<Rightarrow> auth_env \<Rightarrow> int \<Rightarrow> str \<Rightarrow> request_context \<Rightarrow> str \<Rightarrow>
    ('x store_scheme, issued_session) handler" where
  "verify_email F V E now key ctx token =
    bind (db_exec F ''claim_verification_token''
        (claim_verification_token (hash_bearer (hashing E) token) now)) (\<lambda>claimed.
    seq (require (length claimed = 1) InvalidToken)
    (bind (find_user_by_id F (lit ''user:'' @ hd claimed)) (\<lambda>found.
    bind (the_or found UserNotFound) (\<lambda>u.
    bind (touch_last_login F V now ctx u) (\<lambda>u.
    create_session F V E now key ctx u [MEmailLink] [])))))"

definition resend_verification_email :: "faults \<Rightarrow> conflict_report \<Rightarrow> auth_env \<Rightarrow> int \<Rightarrow> str \<Rightarrow> str \<Rightarrow>
    unit auth_op" where
  "resend_verification_email F V E now token mail =
    (if \<not> email_verification_enabled E then ret ()
     else case validate_email mail of
       Inl _ \<Rightarrow> ret ()
     | Inr mail \<Rightarrow>
         bind (find_user_by_email F mail) (\<lambda>found.
         case found of
           None \<Rightarrow> ret ()
         | Some u \<Rightarrow>
             if is_email_verified u \<or> ensure_usable u \<noteq> Inr () then ret ()
             else seq (update_user F V ''resend_verification''
                 (u\<lparr>verification_token_hash := Some (hash_bearer (hashing E) token),
                    verification_token_expires_at := Some (now + verification_ttl_hours * 3600),
                    user_updated_at := now\<rparr>))
               (writes (send_mail (VerificationMail mail token)))))"

section \<open>Passwords\<close>

definition initialize_password :: "faults \<Rightarrow> conflict_report \<Rightarrow> auth_env \<Rightarrow> int \<Rightarrow> bytes \<Rightarrow> str \<Rightarrow> str \<Rightarrow> str \<Rightarrow>
    ('x store_scheme, user) handler" where
  "initialize_password F V E now salt key uid pw =
    seq (lift_result (validate_password (chars E) pw (password_min_length E)))
    (bind (find_user_by_id F uid) (\<lambda>found.
    bind (the_or found UserNotFound) (\<lambda>u.
    bind (the_or (subject_id u) (DatabaseError (lit ''user row has no actor''))) (\<lambda>actor.
    bind (active_password_hash F actor) (\<lambda>h.
    seq (require (h = None) PasswordAlreadySet)
    (bind (lift_result (hash_password E salt pw)) (\<lambda>hash.
    seq (set_password F V now key actor hash)
    (let u = u\<lparr>user_updated_at := now\<rparr> in
     seq (update_user F V ''initialize_password'' u) (ret u)))))))))"

definition invalidate_password_reset_tokens :: "faults \<Rightarrow> str \<Rightarrow> ('x store_scheme, unit) handler" where
  "invalidate_password_reset_tokens F mail =
    db_write F ''invalidate_password_reset_tokens''
      (reset_tokens_update (update_where (\<lambda>r. reset_email r = mail \<and> \<not> reset_used r)
        (\<lambda>r. r\<lparr>reset_used := True\<rparr>)))"

definition request_password_reset :: "faults \<Rightarrow> conflict_report \<Rightarrow> auth_env \<Rightarrow> int \<Rightarrow> str \<Rightarrow> str \<Rightarrow> str \<Rightarrow>
    unit auth_op" where
  "request_password_reset F V E now key token mail =
    (case validate_email mail of
       Inl _ \<Rightarrow> ret ()
     | Inr mail \<Rightarrow>
         bind (find_user_by_email F mail) (\<lambda>found.
         case found of
           None \<Rightarrow> ret ()
         | Some u \<Rightarrow>
             if ensure_usable u \<noteq> Inr () then ret ()
             else
               seq (invalidate_password_reset_tokens F mail)
               (seq (database_up F ''create_password_reset_token'')
               (seq (insert_row V reset_indexes reset_tokens reset_tokens_update
                 \<lparr>reset_key = key, reset_email = mail, reset_token_hash = hash_bearer (hashing E) token,
                  reset_expires_at = now + 3600, reset_used = False, reset_created_at = now\<rparr>)
               (writes (send_mail (ResetMail mail token)))))))"

definition reset_claimable :: "str \<Rightarrow> int \<Rightarrow> password_reset_token \<Rightarrow> bool" where
  "reset_claimable hash now r \<longleftrightarrow> reset_token_hash r = hash \<and> \<not> reset_used r \<and> now < reset_expires_at r"

definition claim_reset_token :: "str \<Rightarrow> int \<Rightarrow> 'x store_scheme \<Rightarrow> nat \<times> 'x store_scheme" where
  "claim_reset_token hash now s =
    (count_where (reset_claimable hash now) (reset_tokens s),
     reset_tokens_update (update_where (reset_claimable hash now) (\<lambda>r. r\<lparr>reset_used := True\<rparr>)) s)"

definition forget_user :: "jwt_env \<Rightarrow> str \<Rightarrow> auth_world \<Rightarrow> auth_world" where
  "forget_user E uid = cache_update (\<lambda>c. case cache_ttl E of None \<Rightarrow> c | Some ttl \<Rightarrow> invalidate_user ttl uid c)"

text \<open>The reset after its token has been claimed, and the whole of it.\<close>

definition finish_reset :: "faults \<Rightarrow> conflict_report \<Rightarrow> auth_env \<Rightarrow> int \<Rightarrow> bytes \<Rightarrow> str \<Rightarrow> str \<Rightarrow> str \<Rightarrow>
    str auth_op" where
  "finish_reset F V E now salt key hash pw =
     bind (db_read F ''password_reset_token.token_hash''
         (\<lambda>s. find (\<lambda>r. reset_token_hash r = hash) (reset_tokens s))) (\<lambda>row.
     bind (the_or row InvalidToken) (\<lambda>row.
     bind (find_user_by_email F (reset_email row)) (\<lambda>found.
     bind (the_or found UserNotFound) (\<lambda>u.
     seq (lift_result (ensure_usable u))
     (bind (the_or (subject_id u) (DatabaseError (lit ''user row has no actor''))) (\<lambda>actor.
     bind (lift_result (hash_password E salt pw)) (\<lambda>pwhash.
     seq (set_password F V now key actor pwhash)
     (seq (update_user F V ''reset_password'' (u\<lparr>user_updated_at := now\<rparr>))
     (seq (invalidate_password_reset_tokens F (reset_email row))
     (seq (delete_sessions_by_user_id F (user_key u))
     (seq (writes (forget_user (jwt_env.truncate E) (user_key u)))
     (ret (user_key u)))))))))))))"

definition reset_password :: "faults \<Rightarrow> conflict_report \<Rightarrow> auth_env \<Rightarrow> int \<Rightarrow> bytes \<Rightarrow> str \<Rightarrow> str \<Rightarrow> str \<Rightarrow>
    str auth_op" where
  "reset_password F V E now salt key token pw =
    (let hash = hash_bearer (hashing E) token in
     seq (lift_result (validate_password (chars E) pw (password_min_length E)))
     (bind (db_exec F ''claim_password_reset_token'' (claim_reset_token hash now)) (\<lambda>claimed.
     seq (require (claimed = 1) InvalidToken)
     (finish_reset F V E now salt key hash pw))))"

section \<open>Sessions\<close>

definition logout :: "faults \<Rightarrow> jwt_env \<Rightarrow> str \<Rightarrow> unit auth_op" where
  "logout F E token =
    seq (delete_session_by_token F (hash_bearer (hashing E) token))
      (writes (cache_update (\<lambda>c. case cache_ttl E of
          None \<Rightarrow> c
        | Some ttl \<Rightarrow> invalidate_token (hashing E) ttl token c)))"

definition logout_all_sessions :: "faults \<Rightarrow> jwt_env \<Rightarrow> str \<Rightarrow> unit auth_op" where
  "logout_all_sessions F E uid =
    seq (delete_sessions_by_user_id F uid) (writes (forget_user E uid))"

definition get_user_sessions :: "faults \<Rightarrow> jwt_env \<Rightarrow> int \<Rightarrow> str \<Rightarrow> str \<Rightarrow>
    ('x store_scheme, session_info list) handler" where
  "get_user_sessions F E now uid token =
    bind (get_sessions_by_user_id F now uid) (\<lambda>rows.
      ret (map (\<lambda>r. \<lparr>info_id = session_key r, info_created_at = session_created_at r,
          info_user_agent = session_user_agent r, info_ip = session_ip r,
          is_current = (session_token_hash r = hash_bearer (hashing E) token)\<rparr>) rows))"

end
