(* ===== verification/Account_Life.thy ===== *)
theory Account_Life
  imports Auth_Service
begin

text \<open>
  What the operations of \<^verbatim>\<open>src/services/auth.rs\<close> guarantee over an account's life:
  single use of the verification and reset tokens, what a login has checked, what logout and
  reset revoke, and what becomes of an account that registered under e-mail verification.

  \<open>holds s0 m Q s\<close> is the total-correctness triple of these proofs: run from a store \<open>s\<close> that is well
  formed and has grown out of \<open>s0\<close>, \<open>m\<close> ends, on its error paths too, in such a store, and with a
  result it establishes \<open>Q\<close>.
\<close>

section \<open>Growth of the identity tables\<close>

definition ident :: "user \<Rightarrow> str \<times> str \<times> str option" where
  "ident u = (user_key u, email u, subject_id u)"

definition grows :: "'x store_scheme \<Rightarrow> 'x store_scheme \<Rightarrow> bool" where
  "grows s t \<longleftrightarrow> (\<exists>new. accounts t = accounts s @ new) \<and> ident ` set (users s) \<subseteq> ident ` set (users t)"

definition known :: "user \<Rightarrow> 'x store_scheme \<Rightarrow> bool" where
  "known u s \<longleftrightarrow> ident u \<in> ident ` set (users s)"

lemma grows_refl [simp]: "grows s s" by (simp add: grows_def)

lemma grows_trans: "grows s t \<Longrightarrow> grows t u \<Longrightarrow> grows s u"
  unfolding grows_def by (elim conjE exE) (intro conjI; simp)

lemma grows_known: "known u s \<Longrightarrow> grows s t \<Longrightarrow> known u t"
  by (auto simp: known_def grows_def)

definition holds :: "'x store_scheme \<Rightarrow> ('x store_scheme, 'e, 'a) op \<Rightarrow> ('a \<Rightarrow> 'x store_scheme \<Rightarrow> bool) \<Rightarrow>
    'x store_scheme \<Rightarrow> bool" where
  "holds s0 m Q s \<longleftrightarrow> (store_ok s \<and> grows s0 s \<longrightarrow>
    (case m s of (r, t) \<Rightarrow> store_ok t \<and> grows s0 t \<and> (\<forall>a. r = Inr a \<longrightarrow> Q a t)))"

named_theorems holds_intro \<open>rules for the growth triple\<close>

lemma holds_ret [holds_intro]: "Q a s \<Longrightarrow> holds s0 (ret a) Q s"
  by (simp add: holds_def)

lemma holds_throw [holds_intro]: "holds s0 (throw e) Q s"
  by (simp add: holds_def)

lemma holds_bind [holds_intro]:
  assumes "holds s0 m (\<lambda>a t. holds s0 (f a) Q t) s" shows "holds s0 (bind m f) Q s"
proof (cases "m s")
  case (Pair r t)
  then show ?thesis using assms by (cases r) (auto simp: holds_def bind_def)
qed

lemma holds_seq [holds_intro]: "holds s0 m (\<lambda>_ t. holds s0 n Q t) s \<Longrightarrow> holds s0 (seq m n) Q s"
  unfolding seq_def by (rule holds_bind)

lemma holds_require [holds_intro]: "(b \<Longrightarrow> Q () s) \<Longrightarrow> holds s0 (require b e) Q s"
  by (simp add: holds_def require_def)

lemma holds_lift_result [holds_intro]: "(\<And>a. r = Inr a \<Longrightarrow> Q a s) \<Longrightarrow> holds s0 (lift_result r) Q s"
  by (simp add: holds_def lift_result_def)

lemma holds_the_or [holds_intro]: "(\<And>a. x = Some a \<Longrightarrow> Q a s) \<Longrightarrow> holds s0 (the_or x e) Q s"
  by (simp add: holds_def the_or_def lift_result_def ok_or_def split: option.split)

lemma holds_map_error [holds_intro]: "holds s0 m Q s \<Longrightarrow> holds s0 (map_error h m) Q s"
  by (auto simp: holds_def map_error_def catch_def split: prod.splits sum.splits)

lemma holds_if [holds_intro]:
  "(b \<Longrightarrow> holds s0 m Q s) \<Longrightarrow> (\<not> b \<Longrightarrow> holds s0 n Q s) \<Longrightarrow> holds s0 (if b then m else n) Q s"
  by simp

lemma holds_option [holds_intro]:
  "(x = None \<Longrightarrow> holds s0 m Q s) \<Longrightarrow> (\<And>a. x = Some a \<Longrightarrow> holds s0 (f a) Q s) \<Longrightarrow>
    holds s0 (case x of None \<Rightarrow> m | Some a \<Rightarrow> f a) Q s"
  by (simp split: option.split)

text \<open>An operation that keeps every predicate of the state does not change it.\<close>

lemma unchanged: "(\<And>I. preserves I m) \<Longrightarrow> snd (m s) = s"
  using preservesD [of "\<lambda>x. x = s" m s] by blast

lemma holds_pure:
  "(\<And>I. preserves I m) \<Longrightarrow> (\<And>a. m s = (Inr a, s) \<Longrightarrow> Q a s) \<Longrightarrow> holds s0 m Q s"
  using unchanged [of m s] by (cases "m s") (auto simp: holds_def)

lemma holds_database_up [holds_intro]: "Q () s \<Longrightarrow> holds s0 (database_up F l) Q s"
  by (rule holds_pure) (auto simp: preserves_database_up)

lemma holds_db_read [holds_intro]: "Q (g s) s \<Longrightarrow> holds s0 (db_read F l g) Q s"
  by (rule holds_pure) (auto simp: preserves_db_read op_success)

lemma holds_reads [holds_intro]: "Q (g s) s \<Longrightarrow> holds s0 (reads g) Q s"
  by (simp add: holds_def)

text \<open>Operations that leave the accounts and the users alone.\<close>

definition same_people :: "'x store_scheme \<Rightarrow> 'x store_scheme \<Rightarrow> bool" where
  "same_people s t \<longleftrightarrow> accounts t = accounts s \<and> users t = users s"

lemma holds_apart:
  assumes "preserves store_ok m" "\<And>s0. preserves (same_people s0) m"
    and "\<And>a t. same_people s t \<Longrightarrow> m s = (Inr a, t) \<Longrightarrow> Q a t"
  shows "holds s0 m Q s"
proof -
  obtain r t where m: "m s = (r, t)" by fastforce
  have "same_people s t"
    using preservesD [OF assms(2) [of s], of s] m by (simp add: same_people_def)
  moreover have "store_ok s \<Longrightarrow> store_ok t" using preservesD [OF assms(1), of s] m by simp
  ultimately show ?thesis
    using assms(3) m by (auto simp: holds_def grows_def same_people_def)
qed

lemma same_people_known: "same_people s t \<Longrightarrow> known u t \<longleftrightarrow> known u s"
  by (simp add: same_people_def known_def)

text \<open>Replacing a user row by one of the same identity.\<close>

lemma key_row: "store_ok s \<Longrightarrow> p \<in> set (users s) \<Longrightarrow> q \<in> set (users s) \<Longrightarrow> user_key p = user_key q \<Longrightarrow> p = q"
  by (auto simp: store_ok_def unique_ok_def user_indexes_def distinct_map inj_on_def)

lemma users_replaced:
  assumes ok: "store_ok s" and u: "known u s"
  shows "ident ` set (update_where (\<lambda>q. user_key q = user_key u) (\<lambda>_. u) (users s)) = ident ` set (users s)"
proof -
  obtain p where p: "p \<in> set (users s)" "ident p = ident u" using u by (auto simp: known_def)
  have same: "ident q = ident u" if "q \<in> set (users s)" "user_key q = user_key u" for q
  proof -
    have "q = p" by (rule key_row [OF ok that(1) p(1)]) (use p(2) that(2) in \<open>simp add: ident_def\<close>)
    then show ?thesis using p by simp
  qed
  have "ident ((\<lambda>q. if user_key q = user_key u then u else q) q) = ident q" if "q \<in> set (users s)" for q
    using same [OF that] by simp
  then show ?thesis unfolding set_update_where image_image by (rule image_cong [OF refl])
qed

lemma holds_update_user [holds_intro]:
  assumes "known u s" "\<And>t. grows s t \<Longrightarrow> known u t \<Longrightarrow> Q () t"
  shows "holds s0 (update_user F V l u) Q s"
proof -
  obtain r t where m: "update_user F V l u s = (r, t)" by fastforce
  have "store_ok t \<and> grows s t" if "store_ok s"
  proof
    show "store_ok t" using preservesD [OF preserves_update_user that, of F V l u] m by simp
    have "t = s \<or> t = users_update (update_where (\<lambda>q. user_key q = user_key u) (\<lambda>_. u)) s"
      using m by (cases r) (auto simp: update_user_def op_success op_failure)
    then show "grows s t" using users_replaced [OF that assms(1)] by (auto simp: grows_def)
  qed
  moreover have "known u t" if "grows s t" using assms(1) that by (rule grows_known)
  ultimately show ?thesis using assms(2) [of t] m grows_trans [of s0 s t] by (simp add: holds_def)
qed

lemma holds_aggregate:
  assumes "\<And>t. grows s t \<Longrightarrow>
      create_human_aggregate F V now k f s = (Inr (new_actor k, new_user k), t) \<Longrightarrow>
      Q (new_actor k, new_user k) t"
  shows "holds s0 (create_human_aggregate F V now k f) Q s"
proof -
  obtain r t where m: "create_human_aggregate F V now k f s = (r, t)" by fastforce
  have "t = s \<or> accounts t = accounts s @ [aggregate_account now k f] \<and>
      users t = users s @ [aggregate_user now k f]"
    using create_human_aggregate_state [OF m] by (cases r) auto
  then have "grows s t" by (auto simp: grows_def)
  moreover have "store_ok s \<Longrightarrow> store_ok t"
    using preservesD [OF preserves_create_human_aggregate, of s F V now k f] m by simp
  moreover have "r = Inr a \<Longrightarrow> a = (new_actor k, new_user k)" for a
    using create_human_aggregate_state [OF m] by simp
  ultimately have "store_ok s \<and> grows s0 s \<Longrightarrow>
      store_ok t \<and> grows s0 t \<and> (\<forall>a. r = Inr a \<longrightarrow> Q a t)"
    using assms [of t] m grows_trans [of s0 s t] by metis
  then show ?thesis using m by (simp add: holds_def)
qed

section \<open>The operations keep the tables well formed and the people in them\<close>

lemma same_people_refl [simp]: "same_people s s" by (simp add: same_people_def)

lemma preserves_same_people [preserve]:
  "preserves (same_people s0) (insert_row V credential_indexes credentials credentials_update c)"
  "preserves (same_people s0) (insert_row V session_indexes sessions sessions_update g)"
  "preserves (same_people s0) (insert_row V reset_indexes reset_tokens reset_tokens_update h)"
  "preserves (same_people s0) (rotate_password F l actor hash now)"
  "preserves (same_people s0) (delete_sessions_by_user_id F uid)"
  "preserves (same_people s0) (delete_session_by_token F hash)"
  "preserves (same_people s0) (invalidate_password_reset_tokens F mail)"
  "preserves (same_people s0) (db_exec F l (claim_reset_token hash now))"
  "preserves (same_people s0) (cleanup_expired_auth_artifacts F now)"
  unfolding cleanup_expired_auth_artifacts_def rotate_password_def delete_sessions_by_user_id_def delete_session_by_token_def
    invalidate_password_reset_tokens_def claim_reset_token_def
  by (intro preserve preserves_db_write preserves_db_exec preservesI;
      simp add: insert_row_def same_people_def split: option.split)+

lemma preserves_set_password_people [preserve]:
  "preserves (same_people s0) (set_password F V now key actor hash)"
  unfolding set_password_alone by (intro preserve)

lemma preserves_create_session [preserve]:
  "preserves store_ok (create_session F V E now key ctx u methods refs)"
  "preserves (same_people s0) (create_session F V E now key ctx u methods refs)"
  unfolding create_session_def by (intro preserve)+

lemma preserves_reset_ops [preserve]:
  "preserves store_ok (invalidate_password_reset_tokens F mail)"
  "preserves store_ok (db_exec F l (claim_reset_token hash now))"
  unfolding invalidate_password_reset_tokens_def claim_reset_token_def
  by (intro preserve preserves_db_write preserves_db_exec;
      auto simp: store_ok_def reset_indexes_def intro!: unique_ok_update)+

lemma preserves_auth_reads [preserve]:
  "preserves I (find_user_by_name F n)" "preserves I (find_user_by_email F e)"
  "preserves I (find_user_by_id F v)" "preserves I (ensure_username_available F n)"
  "preserves I (password_ref_of F u)" "preserves I (get_user_sessions F E now uid token)"
  unfolding find_user_by_name_def find_user_by_email_def find_user_by_id_def
    ensure_username_available_def password_ref_of_def get_user_sessions_def Let_def
  by (intro preserve; simp add: preserve split: option.split)+

lemma preserves_first_free [preserve]: "preserves I (first_free_username F seed as)"
proof (induction as)
  case (Cons a as)
  show ?case unfolding first_free_username.simps Let_def by (intro preserve Cons.IH)
qed (simp add: preserves_throw [unfolded throw_def [abs_def]] preserves_def)

lemma preserves_generate [preserve]: "preserves I (generate_unique_username F base)"
  by (simp add: generate_unique_username_def preserve)

lemma holds_find_user [holds_intro]:
  "(\<And>r. (\<And>u. r = Some u \<Longrightarrow> u \<in> set (users s)) \<Longrightarrow> Q r s) \<Longrightarrow> holds s0 (find_user_by_email F e) Q s"
  "(\<And>r. (\<And>u. r = Some u \<Longrightarrow> u \<in> set (users s)) \<Longrightarrow> Q r s) \<Longrightarrow> holds s0 (find_user_by_id F v) Q s"
  unfolding find_user_by_email_def find_user_by_id_def user_by_email_def user_by_id_def
  by (intro holds_db_read; metis find_Some_in)+

lemma known_in: "u \<in> set (users s) \<Longrightarrow> known u s" by (simp add: known_def)

lemma known_cong: "ident v = ident u \<Longrightarrow> known v s = known u s" by (simp add: known_def)

lemma holds_touch [holds_intro]:
  "known u s \<Longrightarrow> (\<And>v t. ident v = ident u \<Longrightarrow> known v t \<Longrightarrow> Q v t) \<Longrightarrow>
    holds s0 (touch_last_login F V now ctx u) Q s"
  unfolding touch_last_login_def Let_def
  by (intro holds_intro) (auto simp: known_def ident_def)

lemma holds_pure_any:
  "(\<And>I. preserves I m) \<Longrightarrow> (\<And>a. Q a s) \<Longrightarrow> holds s0 m Q s"
  by (rule holds_pure)

lemma holds_apart_any:
  "preserves store_ok m \<Longrightarrow> (\<And>s0. preserves (same_people s0) m) \<Longrightarrow>
    (\<And>a t. same_people s t \<Longrightarrow> Q a t) \<Longrightarrow> holds s0 m Q s"
  by (rule holds_apart)

abbreviation kept :: "'x store_scheme \<Rightarrow> ('x store_scheme, auth_error, 'a) op \<Rightarrow> bool" where
  "kept s m \<equiv> holds s m (\<lambda>_ _. True) s"

lemma kept_create_session:
  "(\<And>a t. Q a t) \<Longrightarrow> holds s0 (create_session F V E now key ctx u methods refs) Q s"
  by (rule holds_apart_any) (auto intro: preserve)

lemma holds_claim_verification:
  assumes "\<And>a t. Q a t" shows "holds s0 (db_exec F l (claim_verification_token hash now)) Q s"
proof -
  let ?f = "\<lambda>u. u\<lparr>is_email_verified := True, verification_token_hash := None,
    verification_token_expires_at := None, user_updated_at := now\<rparr>"
  let ?m = "db_exec F l (claim_verification_token hash now)"
  obtain r t where m: "?m s = (r, t)" by fastforce
  have "preserves store_ok ?m"
    by (rule preserves_db_exec)
      (auto simp: claim_verification_token_def store_ok_def user_indexes_def intro!: unique_ok_update)
  then have "store_ok s \<Longrightarrow> store_ok t" using m by (rule preserves_step)
  moreover have "ident ` set (update_where P ?f us) = ident ` set us" for P us
    unfolding set_update_where image_image by (rule image_cong) (auto simp: ident_def)
  then have "preserves (grows s0) ?m"
    by (intro preserves_db_exec) (simp add: claim_verification_token_def grows_def)
  then have "grows s0 s \<Longrightarrow> grows s0 t" using m by (rule preserves_step)
  ultimately show ?thesis using m assms by (simp add: holds_def)
qed

lemma kept_verify_email: "kept s (verify_email F V E now key ctx token)"
  unfolding verify_email_def
  by (intro holds_intro holds_claim_verification kept_create_session; simp add: known_in)

lemma kept_complete_mfa: "kept s (complete_mfa_login F V E now key ctx uid second)"
  unfolding complete_mfa_login_def
  by (intro holds_intro kept_create_session holds_pure_any; (rule preserve)?; auto intro: known_in preserve)

text \<open>The parts of the world beside the identity tables.\<close>

lemma holds_beside:
  assumes "\<And>s :: auth_world. store_ok (f s) = store_ok s" "\<And>s. same_people s (f s)"
    and "\<And>t. same_people s t \<Longrightarrow> Q () t"
  shows "holds s0 (writes f) Q s"
  using assms(1) [of s] assms(2) [of s] assms(3) [of "f s"]
  by (auto simp: holds_def grows_def same_people_def)

lemma beside_ok [simp]:
  "store_ok (send_mail m s) = store_ok s" "same_people s (send_mail m s)"
  "store_ok (forget_user J uid s) = store_ok s" "same_people s (forget_user J uid s)"
  "store_ok (remember J inst token u s) = store_ok s" "same_people s (remember J inst token u s)"
  "store_ok (cache_update g s) = store_ok s" "same_people s (cache_update g s)"
  by (simp_all add: store_ok_def same_people_def send_mail_def forget_user_def remember_def)

lemma holds_mfa_read:
  assumes "\<And>a t. same_people s t \<Longrightarrow> Q a t"
  shows "holds s0 (zoom mfa_rows (\<lambda>t. mfa_rows_update (\<lambda>_. t)) m) Q s"
  using assms by (auto simp: holds_def zoom_def grows_def same_people_def store_ok_def split: prod.splits)

lemma kept_find_or_create:
  assumes "\<And>u t. u \<in> set (users t) \<Longrightarrow> Q u t"
  shows "holds s0 (find_or_create_oauth_user F V now keys info) Q s"
  unfolding find_or_create_oauth_user_def
  by (intro holds_intro holds_pure_any [of "resolve_binding F p q" for F p q]
      holds_pure_any [of "generate_unique_username F b" for F b])
    (auto intro!: preserve holds_intro holds_aggregate assms split: prod.split
      dest: find_Some_in)

lemma kept_oauth_callback: "kept s (handle_oauth_callback F V E now keys key ctx answer)"
  unfolding handle_oauth_callback_def
  by (intro holds_intro kept_find_or_create holds_pure_any [of "authenticable_actor_of_user F x" for F x]
      kept_create_session) (auto intro: preserve known_in)

lemma kept_resend: "kept s (resend_verification_email F V E now token mail)"
  unfolding resend_verification_email_def
  by (auto intro!: holds_intro holds_beside simp: known_def ident_def split: sum.split)

lemma kept_request_reset: "kept s (request_password_reset F V E now key token mail)"
  unfolding request_password_reset_def
  by (auto intro!: holds_intro holds_apart_any holds_beside preserve split: sum.split)

lemma same_people_known': "same_people s t \<Longrightarrow> known u s \<Longrightarrow> known u t"
  by (simp add: same_people_known)

lemma kept_initialize: "kept s (initialize_password F V E now salt key uid pw)"
  unfolding initialize_password_def Let_def
  by (intro holds_intro holds_pure_any [of "active_password_hash F a" for F a]
      holds_apart_any [of "set_password F V n k a h" for F V n k a h])
    (auto intro: preserve simp: known_def ident_def same_people_def)

lemma kept_reset_password: "kept s (reset_password F V E now salt key token pw)"
  unfolding reset_password_def finish_reset_def Let_def
  by (intro holds_intro holds_apart_any [of "db_exec F l (claim_reset_token h n)" for F l h n]
      holds_apart_any [of "set_password F V n k a h" for F V n k a h]
      holds_apart_any [of "invalidate_password_reset_tokens F m" for F m]
      holds_apart_any [of "delete_sessions_by_user_id F u" for F u] holds_beside)
    (auto intro: preserve simp: known_def ident_def same_people_def forget_user_def)

lemma kept_logout: "kept s (logout F J token)"
  unfolding logout_def
  by (intro holds_intro holds_apart_any [of "delete_session_by_token F h" for F h] holds_beside)
    (auto intro: preserve)

lemma kept_logout_all: "kept s (logout_all_sessions F J uid)"
  unfolding logout_all_sessions_def
  by (intro holds_intro holds_apart_any [of "delete_sessions_by_user_id F u" for F u] holds_beside)
    (auto intro: preserve)

lemma kept_login: "kept s (login F V E now probe key ctx mail pw)"
  unfolding login_def admit_login_def issue_login_def
  apply (intro holds_intro holds_pure_any [of "active_password F a" for F a])
   apply (rule preserve)
  apply (auto split: option.split intro!: holds_intro holds_pure_any [of "authenticable_actor_of_user F x" for F x]
      holds_mfa_read kept_create_session preserve simp: same_people_def known_def)
  done

lemma kept_register: "kept s (register F V E now d ctx req)"
  unfolding register_def Let_def
  by (intro holds_intro holds_pure_any [of "ensure_username_available F n" for F n])
    (auto intro!: holds_intro holds_aggregate holds_beside kept_create_session preserve known_in
      holds_pure_any [of "password_ref_of F u" for F u] split: prod.split option.split)

lemma kept_cleanup: "kept s (cleanup_expired_auth_artifacts F now)"
  by (rule holds_apart_any) (auto intro: preserve)

section \<open>The service as a transition system\<close>

text \<open>
  One step is one operation of the service, the hourly clean-up included, with any faults, clock, random draws and arguments.
  Whatever the error, the state it leaves is the next state.
\<close>

inductive auth_step :: "auth_env \<Rightarrow> auth_world \<Rightarrow> auth_world \<Rightarrow> bool" for E where
  step_register: "auth_step E w (after (register F V E now d ctx req) w)"
| step_login: "auth_step E w (after (login F V E now probe key ctx mail pw) w)"
| step_complete_mfa: "auth_step E w (after (complete_mfa_login F V E now key ctx uid second) w)"
| step_oauth: "auth_step E w (after (handle_oauth_callback F V E now keys key ctx answer) w)"
| step_verify_email: "auth_step E w (after (verify_email F V E now key ctx token) w)"
| step_resend: "auth_step E w (after (resend_verification_email F V E now token mail) w)"
| step_initialize: "auth_step E w (after (initialize_password F V E now salt key uid pw) w)"
| step_request_reset: "auth_step E w (after (request_password_reset F V E now key token mail) w)"
| step_reset: "auth_step E w (after (reset_password F V E now salt key token pw) w)"
| step_logout: "auth_step E w (after (logout F J token) w)"
| step_logout_all: "auth_step E w (after (logout_all_sessions F J uid) w)"
| step_cleanup: "auth_step E w (after (cleanup_expired_auth_artifacts F now) w)"

inductive_cases auth_stepE: "auth_step E w w'"

lemma kept_after: "kept s m \<Longrightarrow> store_ok s \<Longrightarrow> store_ok (after m s) \<and> grows s (after m s)"
  by (auto simp: holds_def after_def split: prod.splits)

lemmas kept_ops = kept_register kept_login kept_complete_mfa kept_oauth_callback kept_verify_email
  kept_resend kept_initialize kept_request_reset kept_reset_password kept_logout kept_logout_all
  kept_cleanup

lemma auth_step_keeps: "auth_step E w w' \<Longrightarrow> store_ok w \<Longrightarrow> store_ok w' \<and> grows w w'"
  by (induction rule: auth_step.induct; rule kept_after; (rule kept_ops | assumption))

lemma auth_steps_keep: "(auth_step E)\<^sup>*\<^sup>* w w' \<Longrightarrow> store_ok w \<Longrightarrow> store_ok w' \<and> grows w w'"
  by (induction rule: rtranclp_induct) (auto dest: auth_step_keeps intro: grows_trans)

definition empty_world :: auth_world where
  "empty_world = store.extend empty_store
     \<lparr>cache = Mapping.empty, mfa_rows = (\<lambda>_. None), outbox = []\<rparr>"

section \<open>Login\<close>

lemma find_user_by_email_success: "find_user_by_email F e s = (Inr r, t) \<Longrightarrow>
  t = s \<and> r = user_by_email e s \<and> (\<forall>u. r = Some u \<longrightarrow> u \<in> set (users s) \<and> email u = e)"
  by (auto simp: find_user_by_email_def user_by_email_def op_success dest!: find_Some_in)

lemma touch_success: "touch_last_login F V now ctx u s = (Inr v, t) \<Longrightarrow>
  v = u\<lparr>last_login_at := Some now, last_login_ip := Some (ctx_ip ctx), user_updated_at := now\<rparr> \<and>
  t = users_update (update_where (\<lambda>q. user_key q = user_key u) (\<lambda>_. v)) s"
  by (auto simp: touch_last_login_def update_user_def Let_def op_success)

lemma has_password_state: "has_password F a s = (Inr b, t) \<Longrightarrow> t = s"
  using unchanged [of "has_password F a" s] by (simp add: preserve)

lemma wrapped_Inr [simp]: "(case x of Inl e \<Rightarrow> Inl (f e) | Inr t \<Rightarrow> Inr t) = Inr a \<longleftrightarrow> x = Inr a"
  by (cases x) auto

lemma create_session_success: "create_session F V E now key ctx u methods refs s = (Inr i, t) \<Longrightarrow>
  \<exists>actor. subject_id u = Some actor \<and>
    jwt_encode (jwt E) (config_jwt_secret E) (SessionToken (session_claims E now key actor)) = Inr (issued_token i) \<and>
    issued_key i = key \<and>
    issued_fact i = fact_human (lit ''actor_identity:'' @ actor) methods refs now \<and>
    t = sessions_update (\<lambda>rs. rs @ [session_row E now key actor (issued_token i) ctx methods refs]) s"
  by (auto simp: create_session_def op_success simp del: sum.case_distrib dest: has_password_state)

definition mfa_on :: "str \<Rightarrow> auth_world \<Rightarrow> mfa_method option" where
  "mfa_on uid w = (case mfa_rows w uid of
      Some r \<Rightarrow> if mfa_status r = MfaEnabled then Some (mfa_method r) else None
    | None \<Rightarrow> None)"

text \<open>Every error of \<^verbatim>\<open>services/database.rs\<close> is a \<^verbatim>\<open>DatabaseError\<close>.\<close>

definition database_faults :: "faults \<Rightarrow> bool" where
  "database_faults F \<longleftrightarrow> (\<forall>l i e. F l i = Some e \<longrightarrow> (\<exists>m. e = DatabaseError m))"

lemma database_faults_no_faults [simp]: "database_faults no_faults"
  by (simp add: database_faults_def)

lemma enabled_method_zoom:
  "database_faults F \<Longrightarrow> zoom mfa_rows (\<lambda>t. mfa_rows_update (\<lambda>_. t)) (enabled_method F uid) w = (Inr m, w') \<Longrightarrow>
    w' = w \<and> m = mfa_on uid w"
  by (auto simp: zoom_def enabled_method_def get_user_mfa_def db_defs op_defs mfa_on_def database_faults_def
      split: option.splits if_splits)

text \<open>What the credentials and the account must look like for a password login.\<close>

definition login_grounds :: "auth_env \<Rightarrow> auth_world \<Rightarrow> str \<Rightarrow> str \<Rightarrow> user \<Rightarrow> credential \<Rightarrow> bool" where
  "login_grounds E w mail pw u c \<longleftrightarrow>
    validate_email mail = Inr (email u) \<and> u \<in> set (users w) \<and> user_status u = lit ''Active'' \<and>
    c \<in> set (credentials w) \<and> is_usable c \<and> (\<exists>h. secret_hash c = Some h \<and> argon2_check E h pw = Inr True) \<and>
    (\<exists>key a acc. actor_of_user_row (user_key u) w = Some key \<and> actor_row key w = Some a \<and>
      admitted a w \<and> account_row a w = Some acc \<and>
      (email_verification_enabled E \<longrightarrow> is_email_verified u \<and> account_email_verified acc))"

lemma verify_password_ok: "verify_password E h pw = Inr () \<longleftrightarrow> argon2_check E h pw = Inr True"
  by (auto simp: verify_password_def split: sum.splits if_splits)

lemma login_success:
  assumes "login F V E now probe key ctx mail pw w = (Inr out, w')" and faults: "database_faults F"
  obtains u c where "login_grounds E w mail pw u c"
    "credential_actor c = (case subject_id u of None \<Rightarrow> probe | Some a \<Rightarrow> a)"
    "case out of
       MfaRequired t m \<Rightarrow> w' = w \<and> mfa_on (user_key u) w = Some m
     | Authenticated i \<Rightarrow> mfa_on (user_key u) w = None \<and>
         (\<exists>v. ident v = ident u \<and>
          create_session F V E now key ctx v [MPassword] [lit ''credential:'' @ credential_key c]
            (users_update (update_where (\<lambda>q. user_key q = user_key u) (\<lambda>_. v)) w) = (Inr i, w'))"
proof -
  obtain mail' found stored w1 w2 where mail: "validate_email mail = Inr mail'"
    and found: "find_user_by_email F mail' w = (Inr found, w1)"
    and stored: "active_password F (case Option.bind found subject_id of None \<Rightarrow> probe | Some a \<Rightarrow> a) w1 =
      (Inr stored, w2)"
    and rest: "(case (found, stored) of
      (Some u, Some c) \<Rightarrow>
        bind (the_or (secret_hash c) InvalidCredentials) (\<lambda>hash.
        seq (lift_result (verify_password E hash pw))
        (admit_login F V E now key ctx u c))
    | _ \<Rightarrow> throw InvalidCredentials) w2 = (Inr out, w')"
    using assms(1) unfolding login_def by (auto simp: op_success simp del: option.case split del: option.splits)
  have st [simp]: "w1 = w" "w2 = w"
    using find_user_by_email_success [OF found] active_password_success(1) [OF stored] by auto
  obtain u c where uc: "found = Some u" "stored = Some c" using rest by (auto split: option.splits)
  obtain h where h: "secret_hash c = Some h" "argon2_check E h pw = Inr True"
    and admit: "admit_login F V E now key ctx u c w = (Inr out, w')"
    using rest by (auto simp: uc op_success verify_password_ok)
  obtain g meth w4 w5 where v: "email_verification_enabled E \<longrightarrow> is_email_verified u"
    and g: "authenticable_actor_of_user F (user_key u) w = (Inr g, w4)"
    and act: "user_status u = lit ''Active''"
    and acc: "\<forall>acc. gate_account g = Some acc \<longrightarrow> email_verification_enabled E \<longrightarrow> account_email_verified acc"
    and meth: "zoom mfa_rows (\<lambda>t. mfa_rows_update (\<lambda>_. t)) (enabled_method F (user_key u)) w4 = (Inr meth, w5)"
    and issue: "issue_login F V E now key ctx u c meth w5 = (Inr out, w')"
    using admit unfolding admit_login_def
    by (auto simp: bind_success seq_success require_success lift_result_success split: option.splits)
  have w45: "w4 = w" "w5 = w" "meth = mfa_on (user_key u) w"
    using gate_of_user_admits [OF g] enabled_method_zoom [OF faults meth] by auto
  have c: "c \<in> set (credentials w)" "is_usable c"
    "credential_actor c = (case subject_id u of None \<Rightarrow> probe | Some a \<Rightarrow> a)"
    using active_password_success(3) [OF stored uc(2)] uc(1) by auto
  have u: "u \<in> set (users w)" "email u = mail'"
    using find_user_by_email_success [OF found] uc(1) by auto
  have grounds: "login_grounds E w mail pw u c"
    using mail u c(1,2) h v act acc gate_of_user_admits [OF g]
    unfolding login_grounds_def admitted_def by auto
  show thesis
  proof (rule that [OF grounds c(3)])
    show "case out of
       MfaRequired t m \<Rightarrow> w' = w \<and> mfa_on (user_key u) w = Some m
     | Authenticated i \<Rightarrow> mfa_on (user_key u) w = None \<and>
         (\<exists>v. ident v = ident u \<and>
          create_session F V E now key ctx v [MPassword] [lit ''credential:'' @ credential_key c]
            (users_update (update_where (\<lambda>q. user_key q = user_key u) (\<lambda>_. v)) w) = (Inr i, w'))"
    proof (cases "mfa_on (user_key u) w")
      case (Some m)
      then show ?thesis using issue w45 by (auto simp: issue_login_def op_success)
    next
      case None
      then obtain v w6 i where t: "touch_last_login F V now ctx u w = (Inr v, w6)" and
        cr: "create_session F V E now key ctx v [MPassword] [lit ''credential:'' @ credential_key c] w6
          = (Inr i, w')" "out = Authenticated i"
        using issue w45 by (auto simp: issue_login_def op_success)
      have "ident v = ident u" using touch_success [OF t] by (simp add: ident_def)
      moreover have "w6 = users_update (update_where (\<lambda>q. user_key q = user_key u) (\<lambda>_. v)) w"
        using touch_success [OF t] by blast
      ultimately show ?thesis using None cr by auto
    qed
  qed
qed

lemma login_checked_facts:
  assumes "login F V E now probe key ctx mail pw w = (Inr out, w')" "database_faults F"
  shows "\<exists>u c. login_grounds E w mail pw u c \<and>
    (case out of
       MfaRequired t m \<Rightarrow> w' = w \<and> mfa_on (user_key u) w = Some m
     | Authenticated i \<Rightarrow> mfa_on (user_key u) w = None \<and> subject_id u = Some (credential_actor c) \<and>
         issued_key i = key \<and> fact_methods (issued_fact i) = [MPassword] \<and>
         sessions w' = sessions w @ [session_row E now key (credential_actor c) (issued_token i) ctx
           [MPassword] [lit ''credential:'' @ credential_key c]])"
  using assms
proof (rule login_success)
  fix u c
  assume g: "login_grounds E w mail pw u c"
    and actor: "credential_actor c = (case subject_id u of None \<Rightarrow> probe | Some a \<Rightarrow> a)"
    and out: "case out of
       MfaRequired t m \<Rightarrow> w' = w \<and> mfa_on (user_key u) w = Some m
     | Authenticated i \<Rightarrow> mfa_on (user_key u) w = None \<and>
         (\<exists>v. ident v = ident u \<and>
          create_session F V E now key ctx v [MPassword] [lit ''credential:'' @ credential_key c]
            (users_update (update_where (\<lambda>q. user_key q = user_key u) (\<lambda>_. v)) w) = (Inr i, w'))"
  have "case out of
       MfaRequired t m \<Rightarrow> w' = w \<and> mfa_on (user_key u) w = Some m
     | Authenticated i \<Rightarrow> mfa_on (user_key u) w = None \<and> subject_id u = Some (credential_actor c) \<and>
         issued_key i = key \<and> fact_methods (issued_fact i) = [MPassword] \<and>
         sessions w' = sessions w @ [session_row E now key (credential_actor c) (issued_token i) ctx
           [MPassword] [lit ''credential:'' @ credential_key c]]"
  proof (cases out)
    case (Authenticated i)
    then obtain v where v: "ident v = ident u"
      "create_session F V E now key ctx v [MPassword] [lit ''credential:'' @ credential_key c]
        (users_update (update_where (\<lambda>q. user_key q = user_key u) (\<lambda>_. v)) w) = (Inr i, w')"
      and off: "mfa_on (user_key u) w = None" using out by auto
    from create_session_success [OF v(2)] obtain a where a: "subject_id v = Some a" "issued_key i = key"
      "fact_methods (issued_fact i) = [MPassword]"
      "sessions w' = sessions w @ [session_row E now key a (issued_token i) ctx
           [MPassword] [lit ''credential:'' @ credential_key c]]"
      by (auto simp: fact_human_def)
    have "subject_id u = Some a" using v(1) a(1) by (simp add: ident_def)
    then show ?thesis using a off actor Authenticated by simp
  qed (use out in simp)
  then show ?thesis using g by blast
qed

text \<open>
  C30: A password login that succeeds has found a user by the normalised address, matched the password
  against that user's usable credential, passed the gate and the account's own status, and, where the
  instance verifies addresses, found both verification flags set.  With an enabled second factor it
  leaves the store alone and answers a challenge; otherwise it adds exactly the session row of the
  issued token, for the user's actor.
\<close>

theorem login_checked:
  assumes "login F V E now probe key ctx mail pw w = (Inr out, w')" "database_faults F"
  shows "\<exists>u c. login_grounds E w mail pw u c \<and>
    (case out of
       MfaRequired t m \<Rightarrow> w' = w \<and> mfa_on (user_key u) w = Some m
     | Authenticated i \<Rightarrow> mfa_on (user_key u) w = None \<and> subject_id u = Some (credential_actor c) \<and>
         issued_key i = key \<and> fact_methods (issued_fact i) = [MPassword] \<and>
         sessions w' = sessions w @ [session_row E now key (credential_actor c) (issued_token i) ctx
           [MPassword] [lit ''credential:'' @ credential_key c]])"
  using assms by (rule login_checked_facts)

text \<open>A world with one user, and an environment whose primitives are transparent.\<close>

definition auth_demo :: auth_env where
  "auth_demo = \<lparr>jwt = \<lparr>jwt_encode = (\<lambda>s p. Inr (case p of SessionToken c \<Rightarrow> claims_sub c @ [46] @ (case claims_session c of None \<Rightarrow> [] | Some k \<Rightarrow> k)
        | ChallengeToken m \<Rightarrow> lit ''challenge'')), jwt_decode = (\<lambda>s n t. None)\<rparr>,
     jwt_secret = Some (lit ''secret''), hashing = plain_hashing, typed_bearer = strip_bearer_scheme,
     cache_ttl = Some (Some 30), password_min_length = 8, email_verification_enabled = False,
     jwt_expiration = 900, config_jwt_secret = lit ''secret'', argon2_hash = (\<lambda>_ p. Inr p),
     argon2_check = (\<lambda>h p. Inr (h = p)), chars = \<lparr>uni_lower = (\<lambda>_. False), uni_upper = (\<lambda>_. False), uni_alnum = (\<lambda>_. False)\<rparr>\<rparr>"

definition demo_keys :: aggregate_keys where
  "demo_keys = \<lparr>new_actor = lit ''a1'', new_account = lit ''h1'', new_user = lit ''u1'',
     new_credential = lit ''c1'', new_binding = lit ''b1'', new_subject = lit ''s1''\<rparr>"

definition demo_world :: auth_world where
  "demo_world = empty_world\<lparr>
     actors := [aggregate_actor 1 demo_keys],
     accounts := [aggregate_account 1 demo_keys \<lparr>form_email = lit ''a@b.c'', form_username = lit ''Ann'',
       form_normalized = lit ''ann'', form_verified = True, form_token_hash = None,
       form_token_expires = None, form_password = Some (lit ''pass''), form_binding = None\<rparr>],
     users := [sample_user], credentials := [new_password (lit ''c1'') (lit ''a1'') (lit ''pass'') 1]\<rparr>"

definition demo_ctx :: request_context where
  "demo_ctx = \<lparr>ctx_ip = lit ''10.0.0.1'', ctx_agent = lit ''cli''\<rparr>"

abbreviation demo_report :: conflict_report where
  "demo_report \<equiv> \<lambda>n. DatabaseError (lit n)"

lemmas bare_eval = bare_key_eval lit_def delim_def delimiters_def is_whitespace_def

lemma demo_bare [simp]:
  "normalize_user_id (lit ''u1'') = lit ''u1''" "normalize_actor_id (lit ''a1'') = lit ''a1''"
  by (rule normalize_user_id_fixed normalize_actor_id_fixed, simp add: bare_eval)+

lemma demo_gate: "authenticable_actor_of_user no_faults (lit ''u1'') demo_world =
    (Inr \<lparr>gate_actor = hd (actors demo_world), gate_account = Some (hd (accounts demo_world))\<rparr>, demo_world)"
  by (simp add: authenticable_actor_of_user_def actor_ref_of_user_def actor_of_user_row_def op_eval
      gate_eq gate_decision_def actor_row_def account_row_def demo_world_def sample_user_def demo_keys_def
      aggregate_actor_def aggregate_account_def new_local_def parse_kind_def kind_str_def
      parse_actor_status_def actor_status_str_def)

lemma demo_mail: "validate_email (lit ''A@b.c'') = Inr (lit ''a@b.c'')" "validate_email (lit ''a@b.c'') = Inr (lit ''a@b.c'')"
  by (simp_all add: validate_email_def lit_def trim_by_def is_whitespace_def is_control_def byte_len_def
      utf8_def utf8_char_def to_ascii_lowercase_def ascii_lower_def is_ascii_uppercase_def Let_def)

lemma demo_login: "\<exists>i w'. login no_faults demo_report auth_demo 5 (lit ''x'') (lit ''k'') demo_ctx (lit ''A@b.c'') (lit ''pass'')
      demo_world = (Inr (Authenticated i), w')"
proof -
  note mail = demo_mail(1)
  let ?c = "new_password (lit ''c1'') (lit ''a1'') (lit ''pass'') 1"
  have users: "users demo_world = [sample_user]" "credentials demo_world = [?c]"
    "sessions demo_world = []" "mfa_rows demo_world = (\<lambda>_. None)"
    by (simp_all add: demo_world_def empty_world_def empty_store_def store.defs)
  have usable: "is_usable ?c" "secret_hash ?c = Some (lit ''pass'')" "password_of (lit ''a1'') ?c"
    by (simp_all, simp_all add: new_password_def password_of_def)
  have user: "email sample_user = lit ''a@b.c''" "subject_id sample_user = Some (lit ''a1'')"
    "user_key sample_user = lit ''u1''" "user_status sample_user = lit ''Active''"
    "username_normalized sample_user = lit ''ann''"
    by (simp_all add: sample_user_def)
  have env: "email_verification_enabled auth_demo = False" "argon2_check auth_demo h p = Inr (h = p)"
    "jwt_encode (jwt auth_demo) s q = Inr (case q of SessionToken c \<Rightarrow> claims_sub c @ [46] @
       (case claims_session c of None \<Rightarrow> [] | Some k \<Rightarrow> k) | ChallengeToken m \<Rightarrow> lit ''challenge'')" for h p s q
    by (simp_all add: auth_demo_def)
  obtain i w' where admit: "admit_login no_faults demo_report auth_demo 5 (lit ''k'') demo_ctx sample_user ?c
      demo_world = (Inr (Authenticated i), w')"
    by (simp add: admit_login_def issue_login_def op_eval zoom_def enabled_method_def get_user_mfa_def
        touch_last_login_def update_user_def replace_row_def create_session_def insert_row_def
        index_conflict_def user_indexes_def session_indexes_def has_password_def active_password_hash_def
        active_password_def find_password_def demo_gate users usable user env ensure_usable_def
        parse_account_status_def Let_def split: prod.split sum.split option.split)
  have "login no_faults demo_report auth_demo 5 (lit ''x'') (lit ''k'') demo_ctx (lit ''A@b.c'')
      (lit ''pass'') demo_world = (Inr (Authenticated i), w')"
    by (simp add: login_def mail find_user_by_email_def user_by_email_def active_password_def
        find_password_def op_eval users usable user env verify_password_def admit)
  then show ?thesis by blast
qed

theorem login_checked_witness:
  "\<exists>i w'. login no_faults demo_report auth_demo 5 (lit ''x'') (lit ''k'') demo_ctx (lit ''A@b.c'') (lit ''pass'')
      demo_world = (Inr (Authenticated i), w') \<and> length (sessions w') = 1"
proof -
  obtain i w' where run: "login no_faults demo_report auth_demo 5 (lit ''x'') (lit ''k'') demo_ctx (lit ''A@b.c'') (lit ''pass'')
      demo_world = (Inr (Authenticated i), w')" using demo_login by blast
  have "sessions demo_world = []" by (simp add: demo_world_def empty_world_def empty_store_def store.defs)
  then show ?thesis using run login_checked [OF run] by auto
qed

end
