(* ===== verification/Account_Safety.thy ===== *)
theory Account_Safety
  imports Account_Life
begin

text \<open>
  Consequences over the service's transition system: what an unverified account can never do, the
  single use of reset tokens across all later steps, what logout and reset revoke, and a session that
  the e-mail link issues without the gate.
\<close>

section \<open>An account registered under e-mail verification\<close>

lemma find_account:
  assumes "store_ok s" "acc \<in> set (accounts s)" "account_actor acc = actor_key a"
  shows "account_row a s = Some acc"
  unfolding account_row_def
  by (rule find_by_key [where k = account_actor])
    (use assms in \<open>auto simp: store_ok_def unique_ok_def account_indexes_def distinct_map inj_on_def\<close>)

lemma find_user_row:
  assumes "store_ok s" "u \<in> set (users s)" "bare_key (lit ''user:'') (user_key u)"
  shows "actor_of_user_row (user_key u) s = subject_id u"
proof -
  have "find (\<lambda>q. user_key q = user_key u) (users s) = Some u"
    by (rule find_by_key [where k = user_key])
      (use assms in \<open>auto simp: store_ok_def unique_ok_def user_indexes_def distinct_map inj_on_def\<close>)
  then show ?thesis using assms(3) by (simp add: actor_of_user_row_def normalize_user_id_fixed)
qed

lemma same_email: "store_ok s \<Longrightarrow> u \<in> set (users s) \<Longrightarrow> v \<in> set (users s) \<Longrightarrow> email u = email v \<Longrightarrow> u = v"
  by (auto simp: store_ok_def unique_ok_def user_indexes_def distinct_map inj_on_def)

text \<open>\<open>stuck\<close>: a user whose account extension is not marked verified.\<close>

definition stuck :: "str \<Rightarrow> str \<Rightarrow> str \<Rightarrow> human_account \<Rightarrow> 'x store_scheme \<Rightarrow> bool" where
  "stuck uid mail actor acc s \<longleftrightarrow> acc \<in> set (accounts s) \<and> account_actor acc = actor \<and>
    \<not> account_email_verified acc \<and> (uid, mail, Some actor) \<in> ident ` set (users s)"

lemma stuck_grows: "stuck uid mail actor acc s \<Longrightarrow> grows s t \<Longrightarrow> stuck uid mail actor acc t"
  by (auto simp: stuck_def grows_def)

lemma stuck_no_login:
  assumes stuck: "stuck uid mail actor acc w" and ok: "store_ok w" and "email_verification_enabled E"
    and bare: "bare_key (lit ''user:'') uid" "bare_key (lit ''actor_identity:'') actor"
    and "validate_email input = Inr mail" "database_faults F"
  shows "\<not> succeeds (login F V E now probe key ctx input pw) w"
proof
  assume "succeeds (login F V E now probe key ctx input pw) w"
  then obtain out w' where run: "login F V E now probe key ctx input pw w = (Inr out, w')"
    by (auto simp: succeeds_iff)
  from login_checked_facts [OF run assms(7)] obtain u c where "login_grounds E w input pw u c" by blast
  then obtain k a acc' where u: "u \<in> set (users w)" "email u = mail" and
    a: "actor_of_user_row (user_key u) w = Some k" "actor_row k w = Some a"
    "account_row a w = Some acc'" "account_email_verified acc'"
    using assms(3,6) by (auto simp: login_grounds_def)
  obtain v where "v \<in> set (users w)" "ident v = (uid, mail, Some actor)"
    using stuck by (auto simp: stuck_def)
  then have "user_key u = uid" "subject_id u = Some actor"
    using same_email [OF ok u(1)] u(2) by (auto simp: ident_def)
  then have "k = actor" using find_user_row [OF ok u(1)] bare(1) a(1) by simp
  then have "actor_key a = actor"
    using a(2) bare(2) by (auto simp: actor_row_def normalize_actor_id_fixed dest!: find_Some_in)
  then have "acc' = acc" using find_account [OF ok, of acc a] stuck a(3) by (simp add: stuck_def)
  then show False using a(4) stuck by (simp add: stuck_def)
qed

lemma register_unverified:
  assumes "register F V E now d ctx req w = (Inr r, w')" "email_verification_enabled E"
    "validate_email (req_email req) = Inr mail"
  shows "\<exists>acc. stuck (new_user (draw_keys d)) mail (new_actor (draw_keys d)) acc w'"
proof -
  obtain f ids w1 w2 u where
    f: "form_email f = mail" "form_verified f = (\<not> email_verification_enabled E)"
    and agg: "create_human_aggregate F V now (draw_keys d) f w1 = (Inr ids, w2)"
    and rest: "w' = send_mail u w2"
  proof -
    assume that: "\<And>f w1 ids w2 u. form_email f = mail \<Longrightarrow>
        form_verified f = (\<not> email_verification_enabled E) \<Longrightarrow>
        create_human_aggregate F V now (draw_keys d) f w1 = (Inr ids, w2) \<Longrightarrow> w' = send_mail u w2 \<Longrightarrow> thesis"
    show thesis
      using assms unfolding register_def Let_def
      by (auto simp: bind_success seq_success map_error_success lift_result_success the_or_success
          require_success find_user_by_id_def db_read_success intro!: that split: prod.splits)
  qed
  from create_human_aggregate_state [OF agg] have
    "accounts w2 = accounts w1 @ [aggregate_account now (draw_keys d) f]"
    "users w2 = users w1 @ [aggregate_user now (draw_keys d) f]" by auto
  then show ?thesis using f rest assms(2)
    by (intro exI [of _ "aggregate_account now (draw_keys d) f"])
      (simp add: stuck_def send_mail_def aggregate_account_def aggregate_user_def ident_def)
qed

text \<open>
  On an instance that verifies addresses, whoever registers can never log in with the password:
  registration marks the account extension unverified, no operation of the service ever marks it
  verified (the e-mail link sets the flag of the user row only), and login asks for both flags.
\<close>

theorem registered_never_logs_in:
  assumes reg: "register F V E now d ctx req w = (Inr r, w1)" and ok: "store_ok w"
    and "email_verification_enabled E"
    and keys: "bare_key (lit ''user:'') (new_user (draw_keys d))"
      "bare_key (lit ''actor_identity:'') (new_actor (draw_keys d))"
    and later: "(auth_step E)\<^sup>*\<^sup>* w1 w2"
    and same: "validate_email input = validate_email (req_email req)" and "database_faults F'"
  shows "\<not> succeeds (login F' V' E now' probe key ctx' input pw) w2"
proof -
  obtain mail where mail: "validate_email (req_email req) = Inr mail"
    using reg by (auto simp: register_def op_success)
  from register_unverified [OF reg assms(3) mail] obtain acc where
    acc: "stuck (new_user (draw_keys d)) mail (new_actor (draw_keys d)) acc w1" by blast
  have "auth_step E w w1" using step_register [of E w F V now d ctx req] reg by (simp add: after_def)
  then have "store_ok w1" using auth_step_keeps ok by blast
  then have "store_ok w2" "grows w1 w2" using auth_steps_keep [OF later] by blast+
  then show ?thesis
    using stuck_no_login [OF stuck_grows [OF acc] _ assms(3) keys _ assms(8)] same mail by simp
qed

definition verifying_demo :: auth_env where
  "verifying_demo = auth_demo\<lparr>email_verification_enabled := True\<rparr>"

definition demo_draws :: register_draws where
  "demo_draws = \<lparr>draw_keys = demo_keys, draw_salt = [], draw_token = lit ''t1'', draw_session = lit ''k1''\<rparr>"

definition demo_request :: create_user_request where
  "demo_request = \<lparr>req_email = lit ''a@b.c'', req_password = lit ''Passw0rd'', req_username = Some (lit ''Ann'')\<rparr>"

lemma demo_form_valid:
  "validate_email (lit ''a@b.c'') = Inr (lit ''a@b.c'')" "validate_username (lit ''Ann'') = Inr (lit ''Ann'')"
  "normalize_username (lit ''Ann'') = lit ''ann''" "validate_password (chars auth_demo) (lit ''Passw0rd'') 8 = Inr ()"
  "record_address_key ''user'' (lit ''user:'' @ lit ''u1'') = Some (lit ''u1'')" "lit ''ann'' \<noteq> []"
  "req_email demo_request = lit ''a@b.c''" "req_password demo_request = lit ''Passw0rd''"
  "nonempty (map_option trim (req_username demo_request)) = Some (lit ''Ann'')"
proof -
  show "validate_email (lit ''a@b.c'') = Inr (lit ''a@b.c'')"
    by (simp add: validate_email_def lit_def trim_by_def is_whitespace_def is_control_def byte_len_def
        utf8_def utf8_char_def to_ascii_lowercase_def ascii_lower_def is_ascii_uppercase_def Let_def)
  have "trim (lit ''Ann'') = lit ''Ann''" "lit ''Ann'' \<noteq> []" by (simp_all add: lit_def trim_by_def is_whitespace_def)
  then show "nonempty (map_option trim (req_username demo_request)) = Some (lit ''Ann'')"
    by (simp add: demo_request_def nonempty_def)
  show "validate_username (lit ''Ann'') = Inr (lit ''Ann'')" "normalize_username (lit ''Ann'') = lit ''ann''"
    by (simp_all add: validate_username_def normalize_username_def lit_def trim_by_def is_whitespace_def
        byte_len_def utf8_def utf8_char_def username_char_def char_classes to_ascii_lowercase_def
        ascii_lower_def Let_def)
  show "validate_password (chars auth_demo) (lit ''Passw0rd'') 8 = Inr ()"
    by (simp add: validate_password_def lit_def byte_len_def utf8_def utf8_char_def is_lowercase_def
        is_uppercase_def is_alphanumeric_def char_classes auth_demo_def Let_def)
  show "record_address_key ''user'' (lit ''user:'' @ lit ''u1'') = Some (lit ''u1'')"
    by (simp add: record_address_key_def lit_def trim_char_def trim_by_def is_whitespace_def)
qed (simp_all add: demo_request_def lit_def)

lemma demo_register:
  "\<exists>w1. register no_faults demo_report verifying_demo 5 demo_draws demo_ctx demo_request empty_world =
    (Inr (([], user_response_of (aggregate_user 5 demo_keys
      \<lparr>form_email = lit ''a@b.c'', form_username = lit ''Ann'', form_normalized = lit ''ann'',
       form_verified = False, form_token_hash = Some (hash_bearer plain_hashing (lit ''t1'')),
       form_token_expires = Some 86405, form_password = Some (lit ''Passw0rd''), form_binding = None\<rparr>) True), None), w1)"
proof -
  let ?f = "\<lparr>form_email = lit ''a@b.c'', form_username = lit ''Ann'', form_normalized = lit ''ann'',
       form_verified = False, form_token_hash = Some (hash_bearer plain_hashing (lit ''t1'')),
       form_token_expires = Some 86405, form_password = Some (lit ''Passw0rd''), form_binding = None\<rparr>"
  have start: "users empty_world = []" by (simp add: empty_world_def empty_store_def store.defs)
  obtain w1 where agg: "create_human_aggregate no_faults demo_report 5 demo_keys ?f empty_world =
      (Inr (lit ''a1'', lit ''u1''), w1)"
    by (simp add: create_human_aggregate_def transaction_def insert_row_def index_conflict_def index_defs
        empty_world_def empty_store_def store.defs demo_keys_def seq_def bind_def)
  have row: "users w1 = [aggregate_user 5 demo_keys ?f]"
    using create_human_aggregate_state [OF agg] start by simp
  have uk: "user_key (aggregate_user 5 demo_keys ?f) = lit ''u1''"
    by (simp add: aggregate_user_def demo_keys_def)
  have env: "email_verification_enabled verifying_demo" "password_min_length verifying_demo = 8"
    "hashing verifying_demo = plain_hashing" "argon2_hash verifying_demo salt p = Inr p"
    "chars verifying_demo = chars auth_demo" for salt p
    by (simp_all add: verifying_demo_def auth_demo_def)
  have draws: "draw_keys demo_draws = demo_keys" "draw_token demo_draws = lit ''t1''"
    by (simp_all add: demo_draws_def)
  show ?thesis
    by (simp add: register_def demo_form_valid draws env start find_user_by_email_def
        user_by_email_def ensure_username_available_def find_user_by_name_def user_by_name_def
        find_user_by_id_def user_by_id_def op_eval hash_password_def agg row uk
        translate_unique_violation_def verification_ttl_hours_def Let_def)
qed

theorem registered_never_logs_in_witness:
  "\<exists>r w1. register no_faults demo_report verifying_demo 5 demo_draws demo_ctx demo_request empty_world = (Inr r, w1) \<and>
    \<not> succeeds (login no_faults demo_report verifying_demo 9 (lit ''x'') (lit ''k'') demo_ctx (lit ''a@b.c'')
      (lit ''Passw0rd'')) w1"
proof -
  from demo_register obtain r w1 where reg:
    "register no_faults demo_report verifying_demo 5 demo_draws demo_ctx demo_request empty_world = (Inr r, w1)"
    by blast
  have ok: "store_ok empty_world"
    by (simp add: empty_world_def empty_store_def store.defs store_ok_def unique_ok_def)
  have keys: "bare_key (lit ''user:'') (new_user (draw_keys demo_draws))"
    "bare_key (lit ''actor_identity:'') (new_actor (draw_keys demo_draws))"
    by (simp_all add: demo_draws_def demo_keys_def bare_eval)
  have "\<not> succeeds (login no_faults demo_report verifying_demo 9 (lit ''x'') (lit ''k'') demo_ctx (lit ''a@b.c'')
      (lit ''Passw0rd'')) w1"
    by (rule registered_never_logs_in [OF reg ok _ keys rtranclp.rtrancl_refl])
      (simp_all add: verifying_demo_def demo_request_def)
  then show ?thesis using reg by blast
qed

section \<open>Reset tokens are used once\<close>

definition spent :: "str \<Rightarrow> 'x store_scheme \<Rightarrow> bool" where
  "spent hash s \<longleftrightarrow> (\<exists>r\<in>set (reset_tokens s). reset_token_hash r = hash \<and> reset_used r)"

lemma preserves_spent [preserve]:
  "preserves (spent h) (insert_row V actor_indexes actors actors_update a)"
  "preserves (spent h) (insert_row V account_indexes accounts accounts_update b)"
  "preserves (spent h) (insert_row V user_indexes users users_update c)"
  "preserves (spent h) (insert_row V credential_indexes credentials credentials_update d)"
  "preserves (spent h) (insert_row V binding_indexes bindings bindings_update f)"
  "preserves (spent h) (insert_row V session_indexes sessions sessions_update g)"
  "preserves (spent h) (insert_row V reset_indexes reset_tokens reset_tokens_update t)"
  "preserves (spent h) (update_user F V l u)"
  unfolding update_user_def
  by (intro preserve preservesI; auto simp: insert_row_def replace_row_def spent_def split: option.split)+

lemma preserves_spent_statements [preserve]:
  "preserves (spent h) (rotate_password F l actor hash now)"
  "preserves (spent h) (delete_sessions_by_user_id F uid)"
  "preserves (spent h) (delete_session_by_token F hash)"
  "preserves (spent h) (invalidate_password_reset_tokens F mail)"
  "preserves (spent h) (db_exec F l (claim_reset_token hash now))"
  "preserves (spent h) (db_exec F l (claim_verification_token hash now))"
  unfolding rotate_password_def delete_sessions_by_user_id_def delete_session_by_token_def
    invalidate_password_reset_tokens_def claim_reset_token_def claim_verification_token_def
  by (intro preserve preserves_db_write preserves_db_exec;
      force simp: spent_def set_update_where)+

lemma preserves_spent_world [preserve]:
  "preserves (spent h) (writes (send_mail m))"
  "preserves (spent h) (writes (forget_user J uid))"
  "preserves (spent h) (writes (cache_update c))"
  "preserves (spent h) (zoom mfa_rows (\<lambda>t. mfa_rows_update (\<lambda>_. t)) x)"
  by (auto simp: preserves_def spent_def send_mail_def forget_user_def zoom_def split: prod.split)

lemma preserves_spent_parts [preserve]:
  "preserves (spent h) (set_password F V now key actor hash)"
  "preserves (spent h) (create_session F V E now key ctx u methods refs)"
  "preserves (spent h) (touch_last_login F V now ctx u)"
  "preserves (spent h) (create_human_aggregate F V now k f)"
  unfolding set_password_alone create_session_def touch_last_login_def create_human_aggregate_def Let_def
  by (intro preserve; auto intro!: preserve split: option.split prod.split)+

lemma preserves_spent_oauth [preserve]: "preserves (spent h) (find_or_create_oauth_user F V now keys info)"
  unfolding find_or_create_oauth_user_def
  by (intro preserve) (auto intro!: preserve split: prod.split)

lemma preserves_spent_login [preserve]:
  "preserves (spent h) (issue_login F V E now key ctx u c meth)"
  "preserves (spent h) (admit_login F V E now key ctx u c)"
  "preserves (spent h) (login F V E now probe key ctx mail pw)"
  unfolding login_def admit_login_def issue_login_def
  by (intro preserve; auto intro!: preserve split: option.split)+

lemma preserves_case_sum [preserve]:
  "(\<And>e. preserves I (f e)) \<Longrightarrow> (\<And>a. preserves I (g a)) \<Longrightarrow>
    preserves I (case x of Inl e \<Rightarrow> f e | Inr a \<Rightarrow> g a)"
  by (simp split: sum.split)

lemma preserves_spent_register [preserve]: "preserves (spent h) (register F V E now d ctx req)"
  unfolding register_def Let_def by (intro preserve; auto intro!: preserve split: prod.split option.split sum.split)

lemma preserves_spent_complete_mfa_login [preserve]: "preserves (spent h) (complete_mfa_login F V E now key ctx uid second)"
  unfolding complete_mfa_login_def Let_def by (intro preserve; auto intro!: preserve split: prod.split option.split sum.split)

lemma preserves_spent_handle_oauth_callback [preserve]: "preserves (spent h) (handle_oauth_callback F V E now keys key ctx answer)"
  unfolding handle_oauth_callback_def Let_def by (intro preserve; auto intro!: preserve split: prod.split option.split sum.split)

lemma preserves_spent_verify_email [preserve]: "preserves (spent h) (verify_email F V E now key ctx token)"
  unfolding verify_email_def Let_def by (intro preserve; auto intro!: preserve split: prod.split option.split sum.split)

lemma preserves_spent_resend_verification_email [preserve]: "preserves (spent h) (resend_verification_email F V E now token mail)"
  unfolding resend_verification_email_def Let_def by (intro preserve; auto intro!: preserve split: prod.split option.split sum.split)

lemma preserves_spent_initialize_password [preserve]: "preserves (spent h) (initialize_password F V E now salt key uid pw)"
  unfolding initialize_password_def Let_def by (intro preserve; auto intro!: preserve split: prod.split option.split sum.split)

lemma preserves_spent_request_password_reset [preserve]: "preserves (spent h) (request_password_reset F V E now key token mail)"
  unfolding request_password_reset_def Let_def by (intro preserve; auto intro!: preserve split: prod.split option.split sum.split)

lemma preserves_spent_finish_reset [preserve]: "preserves (spent h) (finish_reset F V E now salt key hash pw)"
  unfolding finish_reset_def Let_def by (intro preserve; auto intro!: preserve split: prod.split option.split sum.split)

lemma preserves_spent_reset_password [preserve]: "preserves (spent h) (reset_password F V E now salt key token pw)"
  unfolding reset_password_def Let_def by (intro preserve; auto intro!: preserve split: prod.split option.split sum.split)

lemma preserves_spent_logout [preserve]: "preserves (spent h) (logout F J token)"
  unfolding logout_def Let_def by (intro preserve; auto intro!: preserve split: prod.split option.split sum.split)

lemma preserves_spent_logout_all_sessions [preserve]: "preserves (spent h) (logout_all_sessions F J uid)"
  unfolding logout_all_sessions_def Let_def by (intro preserve; auto intro!: preserve split: prod.split option.split sum.split)

text \<open>
  Every operation keeps a used row, but for the clean-up, which deletes used and expired rows: what holds
  across it is that no row of the digest is unused.
\<close>

definition no_unused :: "str \<Rightarrow> 'x store_scheme \<Rightarrow> bool" where
  "no_unused h s \<longleftrightarrow> (\<forall>r\<in>set (reset_tokens s). reset_token_hash r = h \<longrightarrow> reset_used r)"

definition stored_digest :: "str \<Rightarrow> 'x store_scheme \<Rightarrow> bool" where
  "stored_digest h s \<longleftrightarrow> h \<in> reset_token_hash ` set (reset_tokens s)"

lemma cleanup_no_unused: "no_unused h w \<Longrightarrow> no_unused h (after (cleanup_expired_auth_artifacts F now) w)"
  unfolding after_def
  by (rule preservesD, unfold cleanup_expired_auth_artifacts_def)
    (intro preserve preserves_db_write; auto simp: no_unused_def delete_where_def)+

lemma auth_step_spent: "auth_step E w w' \<Longrightarrow> spent h w \<Longrightarrow>
    spent h w' \<or> (\<exists>F now. w' = after (cleanup_expired_auth_artifacts F now) w)"
  by (induction rule: auth_step.induct;
    (rule disjI1, unfold after_def, rule preservesD, rule preserve, assumption)?; blast?)

lemma spent_no_unused: "spent h w \<Longrightarrow> store_ok w \<Longrightarrow> no_unused h w"
proof -
  assume "spent h w" "store_ok w"
  then obtain r where r: "r \<in> set (reset_tokens w)" "reset_token_hash r = h" "reset_used r"
    by (auto simp: spent_def)
  have "q = r" if "q \<in> set (reset_tokens w)" "reset_token_hash q = h" for q
    using that r(1,2) \<open>store_ok w\<close>
    by (auto simp: store_ok_def unique_ok_def reset_indexes_def distinct_map inj_on_def)
  then show ?thesis using r(3) by (auto simp: no_unused_def)
qed

text \<open>
  A step that draws no token of the digest \<^verbatim>\<open>h\<close>: when the table holds none, the step stores none.
\<close>

definition step_fresh :: "auth_env \<Rightarrow> str \<Rightarrow> auth_world \<Rightarrow> auth_world \<Rightarrow> bool" where
  "step_fresh E h w w' \<longleftrightarrow> auth_step E w w' \<and> (stored_digest h w' \<longrightarrow> stored_digest h w)"

lemma fresh_run: "(step_fresh E h)\<^sup>*\<^sup>* w w' \<Longrightarrow> (auth_step E)\<^sup>*\<^sup>* w w'"
  by (rule rtranclp_mono [THEN predicate2D]) (auto simp: step_fresh_def)

lemma step_fresh_no_unused: "step_fresh E h w w' \<Longrightarrow> store_ok w \<Longrightarrow> no_unused h w \<Longrightarrow> no_unused h w'"
proof -
  assume step: "step_fresh E h w w'" and ok: "store_ok w" and old: "no_unused h w"
  show ?thesis
  proof (cases "stored_digest h w")
    case True
    then have "spent h w" using old by (auto simp: stored_digest_def no_unused_def spent_def)
    with auth_step_spent [of E w w' h] step show ?thesis
      using auth_step_keeps [of E w w'] ok old
      by (auto simp: step_fresh_def intro: spent_no_unused cleanup_no_unused)
  next
    case False
    then have "\<not> stored_digest h w'" using step by (simp add: step_fresh_def)
    then show ?thesis by (auto simp: stored_digest_def no_unused_def)
  qed
qed

lemma fresh_run_no_unused:
  "(step_fresh E h)\<^sup>*\<^sup>* w w' \<Longrightarrow> store_ok w \<Longrightarrow> no_unused h w \<Longrightarrow> no_unused h w'"
  by (induction rule: rtranclp_induct) (auto intro: step_fresh_no_unused dest!: fresh_run dest: auth_steps_keep)

lemma reset_password_success:
  assumes "reset_password F V E now salt key token pw w = (Inr u, w')"
  obtains w1 where "claim_reset_token (hash_bearer (hashing E) token) now w = (1, w1)"
    "finish_reset F V E now salt key (hash_bearer (hashing E) token) pw w1 = (Inr u, w')"
proof (rule that)
  let ?h = "hash_bearer (hashing E) token"
  have c: "fst (claim_reset_token ?h now w) = 1" and
    f: "finish_reset F V E now salt key ?h pw (snd (claim_reset_token ?h now w)) = (Inr u, w')"
    using assms by (auto simp: reset_password_def op_success Let_def eq_commute [of "(_, _)" "claim_reset_token _ _ _"])
  show "claim_reset_token ?h now w = (1, snd (claim_reset_token ?h now w))"
    using c by (simp add: prod_eq_iff)
  show "finish_reset F V E now salt key ?h pw (snd (claim_reset_token ?h now w)) = (Inr u, w')" by (rule f)
qed

lemma claim_spends: "claim_reset_token h now w = (1, w1) \<Longrightarrow> spent h w1"
proof -
  assume c: "claim_reset_token h now w = (1, w1)"
  then have "0 < length (filter (reset_claimable h now) (reset_tokens w))"
    by (simp add: claim_reset_token_def count_where_def)
  then obtain r where r: "r \<in> set (reset_tokens w)" "reset_claimable h now r"
    unfolding length_greater_0_conv filter_empty_conv by blast
  then have "r\<lparr>reset_used := True\<rparr> \<in> set (reset_tokens w1)"
    using c by (force simp: claim_reset_token_def set_update_where)
  then show ?thesis using r(2) unfolding spent_def reset_claimable_def by (intro bexI) auto
qed

lemma no_unused_unclaimable: "no_unused h w \<Longrightarrow> fst (claim_reset_token h now w) = 0"
  by (auto simp: no_unused_def claim_reset_token_def count_where_def filter_empty_conv reset_claimable_def)

text \<open>
  C31: A reset token is good for one reset: once a reset with it has succeeded, no reset with it
  succeeds in any later state, whatever operations ran in between - other resets and requests and the
  hourly clean-up, which deletes the used row, among them - with whatever faults and clock, as long as
  none of them draws a token of the same digest again.
\<close>

theorem reset_token_single_use:
  assumes "store_ok w" and run: "reset_password F V E now salt key token pw w = (Inr u, w1)"
    and later: "(step_fresh E (hash_bearer (hashing E) token))\<^sup>*\<^sup>* w1 w2"
  shows "\<not> succeeds (reset_password F' V' E now' salt' key' token pw') w2"
proof
  let ?h = "hash_bearer (hashing E) token"
  from run obtain w0 where c: "claim_reset_token ?h now w = (1, w0)"
    and fin: "finish_reset F V E now salt key ?h pw w0 = (Inr u, w1)" by (rule reset_password_success)
  have "spent ?h w1" by (rule preserves_step [where I = "spent ?h", OF preserves_spent_finish_reset fin claim_spends [OF c]])
  moreover have "auth_step E w w1" using step_reset [of E w F V now salt key token pw] run by (simp add: after_def)
  then have ok: "store_ok w1" using auth_step_keeps assms(1) by blast
  ultimately have "no_unused ?h w2" using fresh_run_no_unused [OF later ok] spent_no_unused by blast
  then have "fst (claim_reset_token ?h now' w2) = 0" by (rule no_unused_unclaimable)
  moreover assume "succeeds (reset_password F' V' E now' salt' key' token pw') w2"
  then obtain v w3 where "reset_password F' V' E now' salt' key' token pw' w2 = (Inr v, w3)"
    by (auto simp: succeeds_iff)
  then obtain w4 where "claim_reset_token ?h now' w2 = (1, w4)" by (rule reset_password_success)
  ultimately show False by simp
qed

definition reset_world :: auth_world where
  "reset_world = demo_world\<lparr>reset_tokens := [\<lparr>reset_key = lit ''r1'', reset_email = lit ''a@b.c'',
     reset_token_hash = hash_bearer plain_hashing (lit ''t1''), reset_expires_at = 3600, reset_used = False,
     reset_created_at = 0\<rparr>]\<rparr>"

lemma reset_world_ok: "store_ok reset_world"
  by (simp add: reset_world_def demo_world_def empty_world_def empty_store_def store.defs store_ok_def
      unique_ok_def index_defs)

lemma reset_demo: "\<exists>w1. reset_password no_faults demo_report auth_demo 5 [] (lit ''c2'') (lit ''t1'') (lit ''Passw0rd'')
    reset_world = (Inr (lit ''u1''), w1)"
proof -
  let ?c = "new_password (lit ''c1'') (lit ''a1'') (lit ''pass'') 1"
  have tables: "users reset_world = [sample_user]" "credentials reset_world = [?c]"
    "sessions reset_world = []"
    "reset_tokens reset_world = [\<lparr>reset_key = lit ''r1'', reset_email = lit ''a@b.c'',
     reset_token_hash = hash_bearer plain_hashing (lit ''t1''), reset_expires_at = 3600, reset_used = False,
     reset_created_at = 0\<rparr>]"
    by (simp_all add: reset_world_def demo_world_def empty_world_def empty_store_def store.defs)
  have pw: "password_of (lit ''a1'') ?c" by (simp add: new_password_def password_of_def)
  have user: "email sample_user = lit ''a@b.c''" "subject_id sample_user = Some (lit ''a1'')"
    "user_key sample_user = lit ''u1''" "user_status sample_user = lit ''Active''"
    "username_normalized sample_user = lit ''ann''"
    by (simp_all add: sample_user_def)
  have valid: "validate_password (chars auth_demo) (lit ''Passw0rd'') (password_min_length auth_demo) = Inr ()"
    by (simp add: validate_password_def lit_def byte_len_def utf8_def utf8_char_def is_lowercase_def
        is_uppercase_def is_alphanumeric_def char_classes auth_demo_def Let_def)
  have env: "hashing auth_demo = plain_hashing" "argon2_hash auth_demo s p = Inr p" for s p
    by (simp_all add: auth_demo_def)
  show ?thesis
    by (simp add: reset_password_def finish_reset_def valid env claim_reset_token_def count_where_def
        reset_claimable_def op_eval tables pw find_user_by_email_def user_by_email_def user ensure_usable_def
        parse_account_status_def hash_password_def set_password_alone rotate_password_def update_user_def
        replace_row_def index_conflict_def user_indexes_def invalidate_password_reset_tokens_def
        delete_sessions_by_user_id_def Let_def)
qed

lemma cleanup_stores_none: "stored_digest h (after (cleanup_expired_auth_artifacts F now) w) \<Longrightarrow> stored_digest h w"
  by (auto simp: stored_digest_def after_def cleanup_expired_auth_artifacts_def db_defs op_defs delete_where_def
      split: option.splits)

theorem reset_token_single_use_witness:
  "\<exists>w1. succeeds (reset_password no_faults demo_report auth_demo 5 [] (lit ''c2'') (lit ''t1'') (lit ''Passw0rd''))
      reset_world \<and>
    \<not> succeeds (reset_password no_faults demo_report auth_demo 6 [] (lit ''c3'') (lit ''t1'') (lit ''Passw0rd''))
      (after (cleanup_expired_auth_artifacts no_faults 6) w1)"
proof -
  obtain w1 where w1: "reset_password no_faults demo_report auth_demo 5 [] (lit ''c2'') (lit ''t1'') (lit ''Passw0rd'')
    reset_world = (Inr (lit ''u1''), w1)" using reset_demo by blast
  have "(step_fresh auth_demo (hash_bearer (hashing auth_demo) (lit ''t1'')))\<^sup>*\<^sup>* w1
      (after (cleanup_expired_auth_artifacts no_faults 6) w1)"
    by (intro r_into_rtranclp) (auto simp: step_fresh_def intro: step_cleanup dest: cleanup_stores_none)
  from reset_token_single_use [OF reset_world_ok w1 this]
  have "\<not> succeeds (reset_password no_faults demo_report auth_demo 6 [] (lit ''c3'') (lit ''t1'') (lit ''Passw0rd''))
      (after (cleanup_expired_auth_artifacts no_faults 6) w1)" .
  moreover have "succeeds (reset_password no_faults demo_report auth_demo 5 [] (lit ''c2'') (lit ''t1'') (lit ''Passw0rd''))
      reset_world" using w1 unfolding succeeds_iff by blast
  ultimately show ?thesis by blast
qed

section \<open>Revocation\<close>

lemma finish_reset_success:
  assumes "finish_reset F V E now salt key h pw w = (Inr uid, w')"
  shows "\<exists>(row :: password_reset_token) u actor hash w2 w3 w4 w5 wx.
    find_user_by_email F (reset_email row) w = (Inr (Some u), wx) \<and>
    subject_id u = Some actor \<and> hash_password E salt pw = Inr hash \<and>
    set_password F V now key actor hash wx = (Inr (), w2) \<and>
    update_user F V ''reset_password'' (u\<lparr>user_updated_at := now\<rparr>) w2 = (Inr (), w3) \<and>
    invalidate_password_reset_tokens F (reset_email row) w3 = (Inr (), w4) \<and>
    delete_sessions_by_user_id F (user_key u) w4 = (Inr (), w5) \<and>
    w' = forget_user (jwt_env.truncate E) (user_key u) w5 \<and> user_key u = uid"
  using assms unfolding finish_reset_def
  by (clarsimp simp: bind_success seq_success the_or_success lift_result_success db_read_success) blast

text \<open>
  C34: A reset revokes what the old password gave: when it succeeds, the new hash is the user's
  password, no session of the user's actor is left, no unused reset token for the address is left, and
  the cache holds no entry of the user.
\<close>

theorem reset_revokes:
  assumes run: "reset_password F V E now salt key token pw w = (Inr uid, w')" and ok: "store_ok w"
    and bare: "bare_key (lit ''user:'') uid"
  shows "\<exists>u actor hash. u \<in> set (users w) \<and> user_key u = uid \<and> subject_id u = Some actor \<and>
    hash_password E salt pw = Inr hash \<and> password_map w' actor = Some hash \<and>
    (\<forall>r\<in>set (sessions w'). session_actor r \<noteq> actor) \<and>
    (\<forall>r\<in>set (reset_tokens w'). reset_email r = email u \<longrightarrow> reset_used r) \<and>
    (\<forall>ttl k e. cache_ttl E = Some (Some ttl) \<longrightarrow> Mapping.lookup (cache w') k = Some e \<longrightarrow> entry_user_id e \<noteq> uid)"
proof -
  let ?h = "hash_bearer (hashing E) token"
  from run obtain w1 where c: "claim_reset_token ?h now w = (1, w1)"
    and fin: "finish_reset F V E now salt key ?h pw w1 = (Inr uid, w')" by (rule reset_password_success)
  have w1: "users w1 = users w" "accounts w1 = accounts w" using c by (auto simp: claim_reset_token_def)
  have ok1: "store_ok w1" using preserves_step [OF preserves_reset_ops(2), of no_faults "[]" ?h now w _ w1] c ok
    by simp
  obtain row :: password_reset_token and u actor hash w2 w3 w4 w5 wx where
    found: "find_user_by_email F (reset_email row) w1 = (Inr (Some u), wx)" and
    actor: "subject_id u = Some actor" and hash: "hash_password E salt pw = Inr hash" and
    set: "set_password F V now key actor hash wx = (Inr (), w2)" and
    upd: "update_user F V ''reset_password'' (u\<lparr>user_updated_at := now\<rparr>) w2 = (Inr (), w3)" and
    inv: "invalidate_password_reset_tokens F (reset_email row) w3 = (Inr (), w4)" and
    del: "delete_sessions_by_user_id F (user_key u) w4 = (Inr (), w5)" and
    w': "w' = forget_user (jwt_env.truncate E) (user_key u) w5" and uid: "user_key u = uid"
    using finish_reset_success [OF fin] by (elim exE conjE) (rule that)
  have u: "wx = w1" "u \<in> set (users w)" "email u = reset_email row"
    using find_user_by_email_success [OF found] w1 by auto
  let ?v = "u\<lparr>user_updated_at := now\<rparr>"
  have w2: "users w2 = users w"
    using preserves_step [OF preserves_set_password_people set, of w1] u(1) w1 by (simp add: same_people_def)
  have w3: "w3 = users_update (update_where (\<lambda>q. user_key q = user_key u) (\<lambda>_. ?v)) w2"
    using upd by (auto simp: update_user_def op_success)
  have w4: "w4 = reset_tokens_update (update_where (\<lambda>r. reset_email r = reset_email row \<and> \<not> reset_used r)
      (\<lambda>r. r\<lparr>reset_used := True\<rparr>)) w3"
    using inv by (auto simp: invalidate_password_reset_tokens_def op_success)
  have w5: "w5 = sessions_update (delete_where (\<lambda>r. Some (session_actor r) = actor_of_user_row uid w4)) w4"
    using del uid by (auto simp: delete_sessions_by_user_id_def op_success)
  have ok4: "store_ok w4"
    using preserves_step [OF preserves_credential_ops(5) set] preserves_step [OF preserves_update_user upd]
      preserves_step [OF preserves_reset_ops(1) inv] ok1 u(1) by blast
  have "?v \<in> set (users w4)" using u(2) by (force simp: w4 w3 w2 set_update_where)
  from find_user_row [OF ok4 this] have row: "actor_of_user_row uid w4 = Some actor"
    using bare actor uid by simp
  have "password_map w2 actor = Some hash" using set_password_refines [OF set] by simp
  then have "password_map w' actor = Some hash"
    by (simp add: password_map_def w' w5 w4 w3 forget_user_def)
  moreover have "\<forall>r\<in>set (sessions w'). session_actor r \<noteq> actor"
    by (simp add: w' w5 row forget_user_def)
  moreover have "\<forall>r\<in>set (reset_tokens w'). reset_email r = email u \<longrightarrow> reset_used r"
    by (auto simp: w' w5 w4 u(3) set_update_where forget_user_def)
  moreover have "\<forall>ttl k e. cache_ttl E = Some (Some ttl) \<longrightarrow> Mapping.lookup (cache w') k = Some e \<longrightarrow>
      entry_user_id e \<noteq> uid"
    by (auto simp: w' uid forget_user_def invalidate_user_def jwt_env.defs Mapping.lookup_filter
        split: option.splits if_splits)
  ultimately show ?thesis using u(2) uid actor hash by blast
qed

theorem reset_revokes_witness:
  "\<exists>w1. reset_password no_faults demo_report auth_demo 5 [] (lit ''c2'') (lit ''t1'') (lit ''Passw0rd'')
      reset_world = (Inr (lit ''u1''), w1) \<and> (\<exists>actor. password_map w1 actor = Some (lit ''Passw0rd''))"
proof -
  obtain w1 where w1: "reset_password no_faults demo_report auth_demo 5 [] (lit ''c2'') (lit ''t1'') (lit ''Passw0rd'')
    reset_world = (Inr (lit ''u1''), w1)" using reset_demo by blast
  have "bare_key (lit ''user:'') (lit ''u1'')" by (simp add: bare_eval)
  from reset_revokes [OF w1 reset_world_ok this] show ?thesis
    using w1 by (auto simp: hash_password_def auth_demo_def)
qed

text \<open>
  Logout takes effect at once on this instance: after it, no request that presents the token is
  authenticated, from the cache or from the session table, at any later time, as long as no session
  row with the token's digest is created.
\<close>

theorem logout_revokes:
  assumes "logout F J token w = (Inr (), w')"
    and "bearer_token header = Some token" "Option.bind header (typed_bearer J) = Some token"
  shows "\<not> succeeds (authed_user F' J now inst header) w'"
proof
  assume "succeeds (authed_user F' J now inst header) w'"
  then obtain u w2 where run: "authed_user F' J now inst header w' = (Inr u, w2)" by (auto simp: succeeds_iff)
  let ?h = "hash_bearer (hashing J) token"
  from assms(1) obtain w1 where w1: "delete_session_by_token F ?h w = (Inr (), w1)" and
    w': "w' = cache_update (\<lambda>c. case cache_ttl J of None \<Rightarrow> c | Some ttl \<Rightarrow> invalidate_token (hashing J) ttl token c) w1"
    by (auto simp: logout_def seq_success)
  have "\<not> session_active ?h now w'"
    using w1 by (auto simp: w' session_active_iff delete_session_by_token_def op_success)
  moreover have "cache_hit J inst token w' = None"
    by (auto simp: cache_hit_def cache_get_def w' invalidate_token_def split: option.splits)
  ultimately show False using authed_user_success [OF run] assms(2,3) by auto
qed

theorem logout_revokes_witness:
  "\<not> succeeds (authed_user no_faults (jwt_env.truncate auth_demo) 6 6 (Some (lit ''Bearer tok'')))
    (after (logout no_faults (jwt_env.truncate auth_demo) (lit ''tok'')) demo_world)"
proof -
  have b: "bearer_token (Some (lit ''Bearer tok'')) = Some (lit ''tok'')"
    "Option.bind (Some (lit ''Bearer tok'')) (typed_bearer (jwt_env.truncate auth_demo)) = Some (lit ''tok'')"
    by (simp_all add: bearer_token_def strip_bearer_scheme_def jwt_env.defs auth_demo_def lit_def trim_by_def
        is_whitespace_def to_ascii_lowercase_def ascii_lower_def is_ascii_uppercase_def)
  have "logout no_faults (jwt_env.truncate auth_demo) (lit ''tok'') demo_world =
      (Inr (), after (logout no_faults (jwt_env.truncate auth_demo) (lit ''tok'')) demo_world)"
    by (simp add: logout_def delete_session_by_token_def op_eval after_def)
  from logout_revokes [OF this b] show ?thesis .
qed

end
