(* ===== verification/Audit_Chain.thy ===== *)
theory Audit_Chain
  imports Store Crypto "HOL-Library.List_Lexorder"
begin

text \<open>
  \<^verbatim>\<open>src/services/audit_integrity.rs\<close>: the canonical text of an event's details, the digest that
  chains the audit rows, and the signed checkpoints.  SHA-256, Ed25519 and base64 are third-party
  crates: fields of \<open>audit_lib\<close>, with what the code relies on as named hypotheses.  \<open>canonical_json\<close>
  and the framing of the digest are proved injective, so an equal digest is an equal row or a
  collision of the hash function.
\<close>

section \<open>The canonical text of a JSON value\<close>

text \<open>\<^verbatim>\<open>Value::String(s).to_string()\<close>: the escapes of \<^verbatim>\<open>serde_json\<close>.\<close>

definition json_escape :: "nat \<Rightarrow> str" where
  "json_escape c =
    (if c = 34 then [92, 34]
     else if c = 92 then [92, 92]
     else if c = 8 then [92, 98]
     else if c = 9 then [92, 116]
     else if c = 10 then [92, 110]
     else if c = 12 then [92, 102]
     else if c = 13 then [92, 114]
     else if c < 32 then [92, 117, 48, 48, hex_digit (c div 16), hex_digit (c mod 16)]
     else [c])"

definition json_string :: "str \<Rightarrow> str" where
  "json_string s = 34 # concat (map json_escape s) @ [34]"

lemma size_member: "(k, v) \<in> set m \<Longrightarrow> size v \<le> size_list (size_prod (\<lambda>_. 0) size) m"
  by (induction m) auto

lemma size_element: "v \<in> set vs \<Longrightarrow> size v \<le> size_list size vs"
  by (induction vs) auto

text \<open>The recursive writer: null members are dropped, keys are sorted, arrays keep their order.\<close>

function canonical_json :: "json \<Rightarrow> str" where
  "canonical_json (JObj m) =
    123 # join [44] (map (\<lambda>(k, v). json_string k @ 58 # canonical_json v)
      (sort_key fst (filter (\<lambda>(k, v). \<not> is_null v) m))) @ [125]"
| "canonical_json (JArr vs) = 91 # join [44] (map canonical_json vs) @ [93]"
| "canonical_json JNull = lit ''null''"
| "canonical_json (JBool b) = (if b then lit ''true'' else lit ''false'')"
| "canonical_json (JNum n) = dec_int n"
| "canonical_json (JStr s) = json_string s"
  by pat_completeness auto
termination
  by (relation "measure size") (auto simp: less_Suc_eq_le dest: size_member size_element)

text \<open>What the text stands for: the value without null members, with its members in key order.\<close>

fun normal_json :: "json \<Rightarrow> json" where
  "normal_json (JObj m) =
    JObj (sort_key fst (map (\<lambda>(k, v). (k, normal_json v)) (filter (\<lambda>(k, v). \<not> is_null v) m)))"
| "normal_json (JArr vs) = JArr (map normal_json vs)"
| "normal_json v = v"

fun render :: "json \<Rightarrow> str" where
  "render (JObj m) = 123 # join [44] (map (\<lambda>(k, v). json_string k @ 58 # render v) m) @ [125]"
| "render (JArr vs) = 91 # join [44] (map render vs) @ [93]"
| "render JNull = lit ''null''"
| "render (JBool b) = (if b then lit ''true'' else lit ''false'')"
| "render (JNum n) = dec_int n"
| "render (JStr s) = json_string s"

lemma insort_key_map: "insort_key fst (g p) (map g ps) = map g (insort_key fst p ps)"
  if "\<And>p. fst (g p) = fst p" for p :: "'k :: linorder \<times> 'a" and g :: "'k \<times> 'a \<Rightarrow> 'k \<times> 'b"
  by (induction ps) (simp_all add: that)

lemma sort_key_map: "sort_key fst (map g ps) = map g (sort_key fst ps)"
  if "\<And>p. fst (g p) = fst p" for ps :: "('k :: linorder \<times> 'a) list" and g :: "'k \<times> 'a \<Rightarrow> 'k \<times> 'b"
  by (induction ps) (simp_all add: insort_key_map that)

lemma canonical_json_render: "canonical_json v = render (normal_json v)"
proof (induction v rule: canonical_json.induct)
  case (1 m)
  let ?g = "\<lambda>(k, v). (k, normal_json v)"
  have s: "sort_key fst (map ?g ps) = map ?g (sort_key fst ps)" for ps :: "(str \<times> json) list"
    by (rule sort_key_map) auto
  show ?case using 1 by (auto simp: s intro!: arg_cong [where f = "join _"])
qed (simp_all add: comp_def cong: map_cong)

section \<open>The text determines the value\<close>

text \<open>The inverse of the escapes, on the first character of a text.\<close>

definition hex_value :: "nat \<Rightarrow> nat" where
  "hex_value c = (if c < 87 then c - 48 else c - 87)"

lemma hex_value_digit: "n < 16 \<Longrightarrow> hex_value (hex_digit n) = n"
  by (simp add: hex_value_def hex_digit_def)

definition json_unescape :: "str \<Rightarrow> nat \<times> str" where
  "json_unescape s =
    (if hd s \<noteq> 92 then (hd s, tl s)
     else if s ! 1 = 98 then (8, drop 2 s)
     else if s ! 1 = 116 then (9, drop 2 s)
     else if s ! 1 = 110 then (10, drop 2 s)
     else if s ! 1 = 102 then (12, drop 2 s)
     else if s ! 1 = 114 then (13, drop 2 s)
     else if s ! 1 = 117 then (hex_value (s ! 4) * 16 + hex_value (s ! 5), drop 6 s)
     else (s ! 1, drop 2 s))"

lemma json_unescape_escape: "json_unescape (json_escape c @ r) = (c, r)"
proof (cases "c < 32")
  case True
  then have "c div 16 < 16" by (simp add: div_less_iff_less_mult)
  then have h: "hex_value (hex_digit (c div 16)) * 16 + hex_value (hex_digit (c mod 16)) = c"
    by (simp add: hex_value_digit)
  show ?thesis
    unfolding json_escape_def if_distrib [where f = "\<lambda>x. json_unescape (x @ r)"]
    by (simp add: json_unescape_def h)
qed (simp add: json_unescape_def json_escape_def)

lemma json_escape_prefix: "json_escape c @ r = json_escape d @ s \<Longrightarrow> c = d \<and> r = s"
  by (metis Pair_inject json_unescape_escape)

lemma json_escape_no_quote: "json_escape c @ r \<noteq> 34 # s"
  by (simp add: json_escape_def)

lemma escapes_prefix:
  "concat (map json_escape s) @ 34 # r = concat (map json_escape t) @ 34 # q \<Longrightarrow> s = t \<and> r = q"
proof (induction s arbitrary: t)
  case Nil
  then show ?case by (cases t) (auto dest: sym simp: json_escape_no_quote)
next
  case (Cons c s)
  show ?case
  proof (cases t)
    case Nil
    then show ?thesis using Cons.prems by (simp add: json_escape_no_quote)
  next
    case (Cons d t')
    then show ?thesis using Cons.prems Cons.IH [of t'] by (auto dest!: json_escape_prefix)
  qed
qed

lemma json_string_prefix: "json_string s @ r = json_string t @ q \<Longrightarrow> s = t \<and> r = q"
  by (auto simp: json_string_def dest!: escapes_prefix)

text \<open>A text is followed by nothing, a comma or a closing bracket.\<close>

definition closed_by :: "str \<Rightarrow> bool" where
  "closed_by r \<longleftrightarrow> r = [] \<or> hd r \<in> {44, 93, 125}"

lemma closed_by_Cons [simp]: "closed_by (c # r) \<longleftrightarrow> c = 44 \<or> c = 93 \<or> c = 125"
  by (auto simp: closed_by_def)

lemma digits_prefix:
  assumes "\<forall>c\<in>set a. p c" "\<forall>c\<in>set b. p c" "r = [] \<or> \<not> p (hd r)" "s = [] \<or> \<not> p (hd s)" "a @ r = b @ s"
  shows "a = b \<and> r = s"
proof -
  have "takeWhile p (a @ r) = a" "takeWhile p (b @ s) = b"
    using assms(1-4) by (cases r; cases s; simp)+
  then show ?thesis using assms(5) by simp
qed

lemma dec_int_digits: "c \<in> set (dec_int i) \<Longrightarrow> is_ascii_digit c \<or> c = 45"
  by (auto simp: dec_int_def dest: dec_digits split: if_splits)

lemma dec_int_prefix:
  assumes "dec_int i @ r = dec_int j @ s" "closed_by r" "closed_by s"
  shows "i = j \<and> r = s"
proof -
  have "t = [] \<or> \<not> (is_ascii_digit (hd t) \<or> hd t = 45)" if "closed_by t" for t
    using that by (auto simp: closed_by_def is_ascii_digit_def)
  then have "dec_int i = dec_int j \<and> r = s"
    using dec_int_digits assms by (intro digits_prefix [where p = "\<lambda>c. is_ascii_digit c \<or> c = 45"]) blast+
  then show ?thesis by simp
qed

lemma join_prefix:
  assumes "\<And>x y r s. x \<in> set xs \<Longrightarrow> closed_by r \<Longrightarrow> closed_by s \<Longrightarrow> f x @ r = f y @ s \<Longrightarrow> x = y \<and> r = s"
    and "\<And>x r s. f x @ r \<noteq> c # s" "c \<in> {93, 125}"
    and "join [44] (map f xs) @ c # r = join [44] (map f ys) @ c # s"
  shows "xs = ys \<and> r = s"
  using assms(1,4)
proof (induction xs arbitrary: ys)
  case Nil
  then show ?case by (cases ys rule: remdups_adj.cases) (auto dest: sym simp: assms(2))
next
  case (Cons x xs)
  have tail: "join [44] (map f (z # zs)) @ c # r = f z @ (if zs = [] then c # r else 44 # join [44] (map f zs) @ c # r)"
    for z zs r by (cases zs) simp_all
  show ?case
  proof (cases ys)
    case Nil
    then have "f x @ (if xs = [] then c # r else 44 # join [44] (map f xs) @ c # r) = c # s"
      using Cons.prems(2) by (simp only: tail) simp
    then show ?thesis using assms(2) by blast
  next
    case ys: (Cons y ys')
    let ?t = "\<lambda>zs r. if zs = [] then c # r else 44 # join [44] (map f zs) @ c # r"
    have "closed_by (?t xs r)" "closed_by (?t ys' s)" using assms(3) by auto
    moreover have "f x @ ?t xs r = f y @ ?t ys' s"
      using Cons.prems(2) unfolding ys by (simp only: tail)
    ultimately have "x = y" "?t xs r = ?t ys' s" using Cons.prems(1) [of x] by auto
    moreover from this(2) have "xs = ys' \<and> r = s"
    proof (cases "xs = [] \<or> ys' = []")
      case True
      then show ?thesis using \<open>?t xs r = ?t ys' s\<close> assms(3) by (auto split: if_splits)
    next
      case False
      then have "join [44] (map f xs) @ c # r = join [44] (map f ys') @ c # s"
        using \<open>?t xs r = ?t ys' s\<close> by simp
      then show ?thesis by (rule Cons.IH [rotated]) (rule Cons.prems(1), simp_all)
    qed
    ultimately show ?thesis using ys by simp
  qed
qed

lemma member_prefix:
  assumes "\<And>w r s. closed_by r \<Longrightarrow> closed_by s \<Longrightarrow> render v @ r = render w @ s \<Longrightarrow> v = w \<and> r = s"
    and "closed_by r" "closed_by s"
    and "(case (k, v) of (k, v) \<Rightarrow> json_string k @ 58 # render v) @ r =
      (case q of (k, v) \<Rightarrow> json_string k @ 58 # render v) @ s"
  shows "(k, v) = q \<and> r = s"
proof -
  obtain k' w where q: "q = (k', w)" by fastforce
  have "json_string k @ 58 # render v @ r = json_string k' @ 58 # render w @ s"
    using assms(4) by (simp add: q)
  from json_string_prefix [OF this] have "k = k'" "render v @ r = render w @ s" by auto
  then show ?thesis using assms(1) [OF assms(2,3)] q by auto
qed

text \<open>The first character tells which constructor was written.\<close>

fun lead_ok :: "json \<Rightarrow> nat \<Rightarrow> bool" where
  "lead_ok (JObj m) c \<longleftrightarrow> c = 123"
| "lead_ok (JArr vs) c \<longleftrightarrow> c = 91"
| "lead_ok JNull c \<longleftrightarrow> c = 110"
| "lead_ok (JBool b) c \<longleftrightarrow> c = (if b then 116 else 102)"
| "lead_ok (JNum n) c \<longleftrightarrow> is_ascii_digit c \<or> c = 45"
| "lead_ok (JStr s) c \<longleftrightarrow> c = 34"

lemma dec_int_not_Nil [simp]: "dec_int i \<noteq> []"
  by (simp add: dec_int_def)

lemma render_lead: "\<exists>c t. render v = c # t \<and> lead_ok v c"
proof (cases v)
  case (JNum n)
  obtain c t where "dec_int n = c # t" by (cases "dec_int n") auto
  then show ?thesis using dec_int_digits [of c n] JNum by auto
qed (auto simp: lit_def json_string_def)

lemma render_lead_append: "render v @ r = render w @ s \<Longrightarrow> \<exists>c. lead_ok v c \<and> lead_ok w c"
  using render_lead [of v] render_lead [of w] by auto

lemma render_not_closing: "render v @ r \<noteq> c # s" if "c \<in> {93, 125}"
proof -
  obtain d t where "render v = d # t" "lead_ok v d" using render_lead by blast
  moreover have "d \<noteq> c" using \<open>lead_ok v d\<close> that by (cases v) (auto simp: is_ascii_digit_def)
  ultimately show ?thesis by simp
qed

lemma render_prefix:
  "closed_by r \<Longrightarrow> closed_by s \<Longrightarrow> render v @ r = render w @ s \<Longrightarrow> v = w \<and> r = s"
proof (induction v arbitrary: w r s)
  case JNull
  from render_lead_append [OF JNull.prems(3)] have "w = JNull"
    by (cases w) (auto simp: is_ascii_digit_def split: if_splits)
  then show ?case using JNull by simp
next
  case (JBool b)
  from render_lead_append [OF JBool.prems(3)] have "w = JBool b"
    by (cases w) (auto simp: is_ascii_digit_def split: if_splits)
  then show ?case using JBool by simp
next
  case (JNum n)
  from render_lead_append [OF JNum.prems(3)] obtain m where "w = JNum m"
    by (cases w) (auto simp: is_ascii_digit_def split: if_splits)
  then show ?case using JNum dec_int_prefix [of n r m s] by simp
next
  case (JStr t)
  from render_lead_append [OF JStr.prems(3)] obtain u where "w = JStr u"
    by (cases w) (auto simp: is_ascii_digit_def split: if_splits)
  then show ?case using JStr json_string_prefix [of t r u s] by simp
next
  case (JArr vs)
  from render_lead_append [OF JArr.prems(3)] obtain ws where w: "w = JArr ws"
    by (cases w) (auto simp: is_ascii_digit_def split: if_splits)
  have "vs = ws \<and> r = s"
  proof (rule join_prefix [where c = 93])
    show "x = y \<and> r = s" if "x \<in> set vs" "closed_by r" "closed_by s" "render x @ r = render y @ s"
      for x y r s using JArr.IH that by blast
    show "join [44] (map render vs) @ 93 # r = join [44] (map render ws) @ 93 # s"
      using JArr.prems(3) w by simp
  qed (simp_all add: render_not_closing)
  then show ?case using w by simp
next
  case (JObj m)
  from render_lead_append [OF JObj.prems(3)] obtain n where w: "w = JObj n"
    by (cases w) (auto simp: is_ascii_digit_def split: if_splits)
  let ?f = "\<lambda>(k, v). json_string k @ 58 # render v"
  have "m = n \<and> r = s"
  proof (rule join_prefix [where c = 125 and f = ?f])
    show "x = y \<and> r = s" if "x \<in> set m" "closed_by r" "closed_by s" "?f x @ r = ?f y @ s"
      for x y r s
    proof -
      obtain k v where x: "x = (k, v)" by fastforce
      have "v = w \<and> r = s" if "closed_by r" "closed_by s" "render v @ r = render w @ s" for w r s
        by (rule JObj.IH [OF \<open>x \<in> set m\<close> _ that]) (simp add: x)
      from member_prefix [OF this \<open>closed_by r\<close> \<open>closed_by s\<close>] show ?thesis
        using that(4) x by blast
    qed
    show "join [44] (map ?f m) @ 125 # r = join [44] (map ?f n) @ 125 # s"
      using JObj.prems(3) w by simp
  qed (auto simp: json_string_def)
  then show ?case using w by simp
qed

lemma canonical_json_eq_iff: "canonical_json v = canonical_json w \<longleftrightarrow> normal_json v = normal_json w"
  using render_prefix [of "[]" "[]" "normal_json v" "normal_json w"]
  by (auto simp: canonical_json_render closed_by_def)

section \<open>The digest of an event\<close>

record audit_lib = primitives +
  event_sha :: "bytes \<Rightarrow> bytes"
  ed_public :: "bytes \<Rightarrow> bytes"
  ed_valid_key :: "bytes \<Rightarrow> bool"
  ed_sign :: "bytes \<Rightarrow> bytes \<Rightarrow> bytes"
  ed_verify :: "bytes \<Rightarrow> bytes \<Rightarrow> bytes \<Rightarrow> bool"

definition genesis_hash :: str where
  "genesis_hash = replicate 64 48"

record digest_input =
  in_chain_id :: str
  in_seq :: int
  in_previous_hash :: str
  in_action :: str
  in_category :: str
  in_status :: str
  in_actor :: str
  in_ip_address :: str
  in_user_agent :: str
  in_details_json :: str
  in_timestamp :: int

definition digest_fields :: "digest_input \<Rightarrow> str list" where
  "digest_fields i =
    [in_chain_id i, dec_int (in_seq i), in_previous_hash i, in_action i, in_category i, in_status i,
     in_actor i, in_ip_address i, in_user_agent i, in_details_json i, dec_int (in_timestamp i)]"

definition hash_field :: "str \<Rightarrow> bytes" where
  "hash_field f = as_bytes (dec (length (as_bytes f))) @ as_bytes [58] @ as_bytes f @ as_bytes [124]"

definition digest_bytes :: "digest_input \<Rightarrow> bytes" where
  "digest_bytes i = concat (map hash_field (digest_fields i))"

definition event_hash :: "'z audit_lib_scheme \<Rightarrow> digest_input \<Rightarrow> str" where
  "event_hash L i = hex (event_sha L (digest_bytes i))"

section \<open>Checkpoints\<close>

datatype seed_error = SeedNotBase64 | SeedNot32Bytes

definition from_seed_b64 :: "'z audit_lib_scheme \<Rightarrow> str \<Rightarrow> seed_error + bytes" where
  "from_seed_b64 L seed =
    (case b64_decode L (trim seed) of
       None \<Rightarrow> Inl SeedNotBase64
     | Some raw \<Rightarrow> if length raw = 32 then Inr raw else Inl SeedNot32Bytes)"

definition public_key_b64 :: "'z audit_lib_scheme \<Rightarrow> bytes \<Rightarrow> str" where
  "public_key_b64 L key = b64_encode L (ed_public L key)"

definition checkpoint_message :: "str \<Rightarrow> int \<Rightarrow> str \<Rightarrow> int \<Rightarrow> bytes" where
  "checkpoint_message chain_id seq_to head_hash created_at =
    as_bytes (lit ''soulauth-audit-checkpoint/v1|'' @ chain_id @ [124] @ dec_int seq_to @ [124] @
      head_hash @ [124] @ dec_int created_at)"

definition sign_checkpoint :: "'z audit_lib_scheme \<Rightarrow> bytes \<Rightarrow> str \<Rightarrow> int \<Rightarrow> str \<Rightarrow> int \<Rightarrow> str" where
  "sign_checkpoint L key chain_id seq_to head_hash created_at =
    b64_encode L (ed_sign L key (checkpoint_message chain_id seq_to head_hash created_at))"

definition verify_checkpoint :: "'z audit_lib_scheme \<Rightarrow> str \<Rightarrow> str \<Rightarrow> str \<Rightarrow> int \<Rightarrow> str \<Rightarrow> int \<Rightarrow> bool" where
  "verify_checkpoint L public_key signature chain_id seq_to head_hash created_at =
    (case b64_decode L (trim public_key) of
       None \<Rightarrow> False
     | Some pk \<Rightarrow>
         if length pk \<noteq> 32 then False
         else if \<not> ed_valid_key L pk then False
         else (case b64_decode L (trim signature) of
                 None \<Rightarrow> False
               | Some sig \<Rightarrow>
                   if length sig \<noteq> 64 then False
                   else ed_verify L pk (checkpoint_message chain_id seq_to head_hash created_at) sig))"

text \<open>
  What the crates document: base64 text has no white space at its ends and decodes to what was
  encoded, and an Ed25519 signature is 64 bytes and verifies under the key's own 32-byte public key.
\<close>

definition base64_text_law :: "'z audit_lib_scheme \<Rightarrow> bool" where
  "base64_text_law L \<longleftrightarrow> (\<forall>bs. trim (b64_encode L bs) = b64_encode L bs \<and>
    b64_decode L (b64_encode L bs) = Some bs)"

definition signature_law :: "'z audit_lib_scheme \<Rightarrow> bool" where
  "signature_law L \<longleftrightarrow> (\<forall>key m. length (ed_public L key) = 32 \<and> ed_valid_key L (ed_public L key) \<and>
    length (ed_sign L key m) = 64 \<and> ed_verify L (ed_public L key) m (ed_sign L key m))"

lemma signed_checkpoint_verifies:
  assumes "base64_text_law L" "signature_law L"
  shows "verify_checkpoint L (public_key_b64 L key) (sign_checkpoint L key c n h t) c n h t"
  using assms by (simp add: verify_checkpoint_def public_key_b64_def sign_checkpoint_def
      base64_text_law_def signature_law_def)

section \<open>The framing is injective\<close>

lemma sep_inject: "x \<notin> set a \<Longrightarrow> x \<notin> set b \<Longrightarrow> a @ x # r = b @ x # s \<longleftrightarrow> a = b \<and> r = s"
proof (induction a arbitrary: b)
  case Nil
  then show ?case by (cases b) auto
next
  case (Cons y a)
  then show ?case by (cases b) auto
qed

lemma hex_Cons: "hex (b # bs) = hex_digit (unat b div 16) # hex_digit (unat b mod 16) # hex bs"
  by (simp add: hex_def)

lemma hex_inject: "hex a = hex b \<longleftrightarrow> a = b"
proof
  show "hex a = hex b \<Longrightarrow> a = b"
  proof (induction a arbitrary: b)
    case Nil
    then show ?case by (cases b) (simp_all add: hex_def)
  next
    case (Cons x a)
    then obtain y b' where b: "b = y # b'" by (cases b) (simp_all add: hex_def)
    have "unat z div 16 < 16" for z :: "8 word"
      using unsigned_less [of z] by (simp add: div_less_iff_less_mult)
    then have "unat x div 16 = unat y div 16" "unat x mod 16 = unat y mod 16" "a = b'"
      using Cons hex_value_digit by (auto simp: b hex_Cons) (metis hex_value_digit mod_less_divisor zero_less_numeral)+
    then show ?case using b by (metis div_mult_mod_eq word_unat_eq_iff)
  qed
qed simp

lemma as_bytes_append [simp]: "as_bytes (s @ t) = as_bytes s @ as_bytes t"
  by (simp add: as_bytes_def)

lemma as_bytes_ascii: "\<forall>c\<in>set s. c < 128 \<Longrightarrow> as_bytes s = map of_nat s"
  by (induction s) (auto simp: as_bytes_def utf8_char_def)

lemma dec_bytes: "as_bytes (dec n) = map of_nat (dec n)"
  by (rule as_bytes_ascii) (auto dest: dec_digits simp: is_ascii_digit_def)

lemma sep_not_in_dec: "(58 :: 8 word) \<notin> set (as_bytes (dec n))"
proof
  assume "58 \<in> set (as_bytes (dec n))"
  then obtain c where c: "c \<in> set (dec n)" "(58 :: 8 word) = of_nat c" unfolding dec_bytes by auto
  then have "48 \<le> c \<and> c \<le> 57" using dec_digits is_ascii_digit_def by blast
  moreover from this have "unat (of_nat c :: 8 word) = c" by (simp add: unat_of_nat take_bit_nat_eq_self)
  moreover have "unat (58 :: 8 word) = 58" by simp
  ultimately show False using c(2) by simp
qed

lemma valid_text_dec [simp]: "valid_text (dec n)"
  by (auto simp: valid_text_def list_all_iff is_scalar_def is_ascii_digit_def dest!: dec_digits)

lemma valid_text_dec_int [simp]: "valid_text (dec_int i)"
  using valid_text_dec by (auto simp: dec_int_def valid_text_def is_scalar_def)

lemma hash_field_prefix:
  assumes "valid_text f" "valid_text g" "hash_field f @ r = hash_field g @ s"
  shows "f = g \<and> r = s"
proof -
  have colon: "as_bytes [58] = [58]" by (simp add: as_bytes_def utf8_char_def)
  have "as_bytes (dec (length (as_bytes f))) @ 58 # as_bytes f @ as_bytes [124] @ r =
      as_bytes (dec (length (as_bytes g))) @ 58 # as_bytes g @ as_bytes [124] @ s"
    using assms(3) by (simp add: hash_field_def colon)
  from this [unfolded sep_inject [OF sep_not_in_dec sep_not_in_dec]]
  have "as_bytes (dec (length (as_bytes f))) = as_bytes (dec (length (as_bytes g)))"
    and rest: "as_bytes f @ as_bytes [124] @ r = as_bytes g @ as_bytes [124] @ s" by auto
  then have "length (as_bytes f) = length (as_bytes g)" by (simp add: as_bytes_inject)
  with rest have "as_bytes f = as_bytes g" "r = s" by auto
  then show ?thesis using assms(1,2) as_bytes_inject by blast
qed

lemma hash_fields_inject:
  "length fs = length gs \<Longrightarrow> \<forall>f\<in>set fs. valid_text f \<Longrightarrow> \<forall>g\<in>set gs. valid_text g \<Longrightarrow>
    concat (map hash_field fs) = concat (map hash_field gs) \<Longrightarrow> fs = gs"
proof (induction fs gs rule: list_induct2)
  case (Cons f fs g gs)
  have "hash_field f @ concat (map hash_field fs) = hash_field g @ concat (map hash_field gs)"
    using Cons.prems(3) by simp
  moreover have "valid_text f" "valid_text g" using Cons.prems(1,2) by simp_all
  ultimately have "f = g \<and> concat (map hash_field fs) = concat (map hash_field gs)"
    by (intro hash_field_prefix)
  then show ?case using Cons.IH Cons.prems(1,2) by simp
qed simp

definition valid_input :: "digest_input \<Rightarrow> bool" where
  "valid_input i \<longleftrightarrow> (\<forall>f\<in>set (digest_fields i). valid_text f)"

lemma digest_bytes_inject:
  assumes "valid_input i" "valid_input j" "digest_bytes i = digest_bytes j"
  shows "i = j"
proof -
  have "digest_fields i = digest_fields j"
    by (rule hash_fields_inject) (use assms in \<open>auto simp: valid_input_def digest_bytes_def digest_fields_def\<close>)
  then show ?thesis by (auto simp: digest_fields_def)
qed

text \<open>No two of the given events collide under the hash function.\<close>

definition collision_free :: "'z audit_lib_scheme \<Rightarrow> digest_input set \<Rightarrow> bool" where
  "collision_free L I \<longleftrightarrow> inj_on (event_sha L) (digest_bytes ` I)"

lemma event_hash_inject:
  assumes "collision_free L I" "i \<in> I" "j \<in> I" "valid_input i" "valid_input j"
    and "event_hash L i = event_hash L j"
  shows "i = j"
proof -
  have "event_sha L (digest_bytes i) = event_sha L (digest_bytes j)"
    using assms(6) unfolding event_hash_def hex_inject .
  then have "digest_bytes i = digest_bytes j"
    by (rule inj_onD [OF assms(1) [unfolded collision_free_def] _ imageI imageI]) (rule assms(2,3))+
  then show ?thesis using digest_bytes_inject assms(4,5) by blast
qed

section \<open>Properties\<close>

text \<open>
  The canonical text of the details identifies them up to exactly what it means to ignore: two
  values have the same text iff they agree after dropping the members that are null and sorting the
  keys, at every depth.  So the order of keys and null members never break a chain, and any other
  change of the details changes the digested text.
\<close>

theorem canonical_json_exact:
  "canonical_json v = canonical_json w \<longleftrightarrow> normal_json v = normal_json w"
  by (rule canonical_json_eq_iff)

text \<open>
  The digest covers every field, with unambiguous boundaries: two events of valid text whose
  digests are equal are the same event, or their two framed byte strings are a collision of SHA-256.
\<close>

theorem event_hash_binds:
  assumes "valid_input i" "valid_input j" "event_hash L i = event_hash L j"
  shows "i = j \<or> digest_bytes i \<noteq> digest_bytes j \<and>
    event_sha L (digest_bytes i) = event_sha L (digest_bytes j)"
  using assms digest_bytes_inject by (auto simp: event_hash_def hex_inject)

text \<open>A toy instance of the crates: the laws hold, and the hash is the identity.\<close>

definition toy_audit_lib :: audit_lib where
  "toy_audit_lib =
    \<lparr>b64_encode = map (\<lambda>b. 0x4E00 + unat b), b64_decode = (\<lambda>s. Some (map (\<lambda>c. of_nat (c - 0x4E00)) s)),
     seal = (\<lambda>_ _ m. Some (7 # m)), unseal = (\<lambda>_ _ c. Some (tl c)),
     argon2_hash = (\<lambda>_ c. Some c), argon2_verify = (\<lambda>h c. Some (h = c)),
     event_sha = id, ed_public = (\<lambda>_. replicate 32 2), ed_valid_key = (\<lambda>_. True),
     ed_sign = (\<lambda>key m. replicate 64 1), ed_verify = (\<lambda>pk m sig. sig = replicate 64 1)\<rparr>"

lemma toy_audit_laws: "base64_text_law toy_audit_lib" "signature_law toy_audit_lib"
proof -
  have ws: "\<not> is_whitespace (0x4E00 + unat (b :: 8 word))" for b by (simp add: is_whitespace_def)
  have "trim (map (\<lambda>b. 0x4E00 + unat b) bs) = map (\<lambda>b. 0x4E00 + unat b) bs" for bs :: bytes
    unfolding trim_by_fixed_iff using ws by (cases bs rule: rev_cases) (auto simp: hd_append hd_map)
  then show "base64_text_law toy_audit_lib" by (simp add: base64_text_law_def toy_audit_lib_def comp_def)
  show "signature_law toy_audit_lib" by (simp add: signature_law_def toy_audit_lib_def)
qed

definition demo_input :: "int \<Rightarrow> digest_input" where
  "demo_input n = \<lparr>in_chain_id = lit ''replica-a'', in_seq = n, in_previous_hash = genesis_hash,
    in_action = lit ''login_success'', in_category = lit ''Authentication'', in_status = lit ''Success'',
    in_actor = [], in_ip_address = lit ''::1'', in_user_agent = lit ''curl'', in_details_json = lit ''{}'',
    in_timestamp = 7\<rparr>"

lemma valid_text_ascii: "\<forall>c\<in>set s. c < 128 \<Longrightarrow> valid_text s"
  by (auto simp: valid_text_def list_all_iff is_scalar_def)

lemma demo_input_valid: "valid_input (demo_input n)"
  by (auto simp: valid_input_def digest_fields_def demo_input_def lit_def genesis_hash_def
      intro!: valid_text_ascii)

theorem event_hash_binds_witness:
  "demo_input 1 = demo_input 2 \<or> digest_bytes (demo_input 1) \<noteq> digest_bytes (demo_input 2) \<and>
    event_sha (toy_audit_lib\<lparr>event_sha := \<lambda>_. []\<rparr>) (digest_bytes (demo_input 1)) =
    event_sha (toy_audit_lib\<lparr>event_sha := \<lambda>_. []\<rparr>) (digest_bytes (demo_input 2))"
  by (rule event_hash_binds [OF demo_input_valid demo_input_valid]) (simp add: event_hash_def)

end
