(* ===== verification/Audit_Log.thy ===== *)
theory Audit_Log
  imports Audit_Chain "HOL-Library.Product_Lexorder" "HOL-Library.Option_ord"
begin

text \<open>
  The audit trail: the queue and the writer of \<^verbatim>\<open>src/services/audit_logger.rs\<close>, the issue of
  checkpoints (\<^verbatim>\<open>issue_checkpoint\<close> of \<^verbatim>\<open>audit_integrity.rs\<close>) and the verifier
  (\<^verbatim>\<open>verify_integrity\<close> of \<^verbatim>\<open>src/routes/audit.rs\<close>).  Every replica writes a chain of its own into the
  common table.  What a database gives back for a stored object and for a record reference is a
  parameter of the model (\<open>db_details\<close>, \<open>type_string\<close>), as is the error of a violated unique index.
\<close>

section \<open>Events and rows\<close>

datatype activity_category = CatAuthentication | CatProfile | CatSecurity | CatPermissions | CatData | CatSystem

definition category_str :: "activity_category \<Rightarrow> str" where
  "category_str c = lit (case c of CatAuthentication \<Rightarrow> ''Authentication'' | CatProfile \<Rightarrow> ''Profile''
    | CatSecurity \<Rightarrow> ''Security'' | CatPermissions \<Rightarrow> ''Permissions'' | CatData \<Rightarrow> ''Data''
    | CatSystem \<Rightarrow> ''System'')"

datatype activity_status = StatusSuccess | StatusFailed | StatusWarning | StatusInfo

definition activity_status_str :: "activity_status \<Rightarrow> str" where
  "activity_status_str s = lit (case s of StatusSuccess \<Rightarrow> ''Success'' | StatusFailed \<Rightarrow> ''Failed''
    | StatusWarning \<Rightarrow> ''Warning'' | StatusInfo \<Rightarrow> ''Info'')"

record audit_event =
  ev_action :: str
  ev_category :: activity_category
  ev_status :: activity_status
  ev_user_id :: "str option"
  ev_actor_identity_id :: "str option"
  ev_ip_address :: str
  ev_user_agent :: str
  ev_details :: json

definition new_event :: "str \<Rightarrow> activity_category \<Rightarrow> activity_status \<Rightarrow> str \<Rightarrow> str \<Rightarrow> audit_event" where
  "new_event action cat st ip agent =
    \<lparr>ev_action = action, ev_category = cat, ev_status = st, ev_user_id = None,
     ev_actor_identity_id = None, ev_ip_address = ip, ev_user_agent = agent, ev_details = JObj []\<rparr>"

definition with_user :: "str \<Rightarrow> audit_event \<Rightarrow> audit_event" where
  "with_user u ev = ev\<lparr>ev_user_id := Some u\<rparr>"

definition with_actor :: "str \<Rightarrow> audit_event \<Rightarrow> audit_event" where
  "with_actor a ev = ev\<lparr>ev_actor_identity_id := Some a\<rparr>"

definition with_details :: "json \<Rightarrow> audit_event \<Rightarrow> audit_event" where
  "with_details d ev = ev\<lparr>ev_details := d\<rparr>"

text \<open>A row of \<^verbatim>\<open>user_activity\<close>; the chain columns are absent on rows older than the chain.\<close>

record activity =
  act_actor :: "str option"
  act_action :: str
  act_category :: str
  act_status :: str
  act_ip_address :: str
  act_user_agent :: str
  act_details :: json
  act_timestamp :: int
  act_chain :: "str option"
  act_seq :: "int option"
  act_previous :: "str option"
  act_hash :: "str option"

record checkpoint =
  cp_chain :: str
  cp_seq_to :: int
  cp_head_hash :: str
  cp_created_at :: int
  cp_public_key :: str
  cp_signature :: str

record audit_store =
  activities :: "activity list"
  checkpoints :: "checkpoint list"

record audit_env =
  audit_crypto :: audit_lib
  db_details :: "json \<Rightarrow> json"
  type_string :: "str option \<Rightarrow> str"
  index_error :: auth_error

text \<open>
  What the code relies on: an object comes back with the same members up to order and null, and the
  text of a record reference normalises to its key.
\<close>

definition details_law :: "audit_env \<Rightarrow> bool" where
  "details_law E \<longleftrightarrow> (\<forall>d. normal_json (db_details E d) = normal_json d)"

definition reference_law :: "audit_env \<Rightarrow> bool" where
  "reference_law E \<longleftrightarrow> (\<forall>k. k \<noteq> [] \<longrightarrow> bare_key (lit ''actor_identity:'') k \<longrightarrow>
    normalize_actor_id (type_string E (Some k)) = k)"

section \<open>The writer\<close>

text \<open>
  What happens to one attempt to insert a row: it is executed, it is refused before it takes effect,
  or it takes effect and its answer is lost on the way.  The rest of \<open>handling\<close> is what the other
  statements of the message see.
\<close>

datatype write_fate = Executed | Refused auth_error | Unacknowledged auth_error

record handling =
  hd_now :: int
  hd_head_fault :: "auth_error option"
  hd_resolve_fault :: "auth_error option"
  hd_users :: "user list"
  hd_fate :: "nat \<Rightarrow> write_fate"

record chain_head =
  head_seq :: int
  head_hash :: str

record audit_writer =
  writer_head :: "chain_head option"
  audit_healthy :: bool
  audit_dropped :: nat

definition fresh_writer :: audit_writer where
  "fresh_writer = \<lparr>writer_head = None, audit_healthy = True, audit_dropped = 0\<rparr>"

definition mark_dropped :: "audit_writer \<Rightarrow> audit_writer" where
  "mark_dropped w = w\<lparr>audit_healthy := False, audit_dropped := audit_dropped w + 1\<rparr>"

definition write_attempts_limit :: nat where
  "write_attempts_limit = 3"

definition chain_last :: "str \<Rightarrow> audit_store \<Rightarrow> activity option" where
  "chain_last c db =
    (case sort_key (\<lambda>r. - the (act_seq r))
        (filter (\<lambda>r. act_chain r = Some c \<and> act_seq r \<noteq> None) (activities db)) of
       [] \<Rightarrow> None | r # _ \<Rightarrow> Some r)"

definition load_chain_head :: "handling \<Rightarrow> str \<Rightarrow> audit_store \<Rightarrow> chain_head option" where
  "load_chain_head h c db =
    (case hd_head_fault h of
       Some e \<Rightarrow> None
     | None \<Rightarrow> Some (case chain_last c db of
           None \<Rightarrow> \<lparr>head_seq = 0, head_hash = genesis_hash\<rparr>
         | Some r \<Rightarrow> \<lparr>head_seq = (case act_seq r of None \<Rightarrow> 0 | Some n \<Rightarrow> n),
                      head_hash = (case act_hash r of None \<Rightarrow> genesis_hash | Some x \<Rightarrow> x)\<rparr>))"

definition resolve_actor_key :: "audit_env \<Rightarrow> handling \<Rightarrow> str option \<Rightarrow> str" where
  "resolve_actor_key E h user_id =
    (case user_id of
       None \<Rightarrow> []
     | Some raw \<Rightarrow>
         let k = normalize_user_id raw in
         if k = [] then []
         else (case hd_resolve_fault h of
             Some e \<Rightarrow> []
           | None \<Rightarrow> (case find (\<lambda>u. user_key u = k) (hd_users h) of
                 None \<Rightarrow> []
               | Some u \<Rightarrow> normalize_actor_id (type_string E (subject_id u)))))"

definition event_actor_key :: "audit_env \<Rightarrow> handling \<Rightarrow> audit_event \<Rightarrow> str" where
  "event_actor_key E h ev =
    (case ev_actor_identity_id ev of
       Some raw \<Rightarrow> normalize_actor_id raw
     | None \<Rightarrow> resolve_actor_key E h (ev_user_id ev))"

definition event_input :: "str \<Rightarrow> int \<Rightarrow> str \<Rightarrow> str \<Rightarrow> int \<Rightarrow> audit_event \<Rightarrow> digest_input" where
  "event_input c n previous actor now ev =
    \<lparr>in_chain_id = c, in_seq = n, in_previous_hash = previous, in_action = ev_action ev,
     in_category = category_str (ev_category ev), in_status = activity_status_str (ev_status ev),
     in_actor = actor, in_ip_address = ev_ip_address ev, in_user_agent = ev_user_agent ev,
     in_details_json = canonical_json (ev_details ev), in_timestamp = now\<rparr>"

definition event_row :: "audit_env \<Rightarrow> str \<Rightarrow> chain_head \<Rightarrow> str \<Rightarrow> int \<Rightarrow> audit_event \<Rightarrow> activity" where
  "event_row E c at actor now ev =
    \<lparr>act_actor = (if actor \<noteq> [] then Some actor else None), act_action = ev_action ev,
     act_category = category_str (ev_category ev), act_status = activity_status_str (ev_status ev),
     act_ip_address = ev_ip_address ev, act_user_agent = ev_user_agent ev,
     act_details = db_details E (ev_details ev), act_timestamp = now, act_chain = Some c,
     act_seq = Some (head_seq at + 1), act_previous = Some (head_hash at),
     act_hash = Some (event_hash (audit_crypto E)
       (event_input c (head_seq at + 1) (head_hash at) actor now ev))\<rparr>"

text \<open>\<^verbatim>\<open>CREATE user_activity\<close> under the unique index on chain and position.\<close>

definition position_taken :: "activity \<Rightarrow> audit_store \<Rightarrow> bool" where
  "position_taken r db \<longleftrightarrow> (\<exists>q\<in>set (activities db). act_chain q = act_chain r \<and> act_seq q = act_seq r)"

definition insert_activity :: "activity \<Rightarrow> audit_store \<Rightarrow> audit_store" where
  "insert_activity r db = (if position_taken r db then db else db\<lparr>activities := activities db @ [r]\<rparr>)"

definition write_event :: "audit_env \<Rightarrow> write_fate \<Rightarrow> activity \<Rightarrow> (audit_store, auth_error, unit) op" where
  "write_event E fate r db =
    (case fate of
       Refused e \<Rightarrow> (Inl e, db)
     | Unacknowledged e \<Rightarrow> (Inl e, insert_activity r db)
     | Executed \<Rightarrow>
         if position_taken r db
         then (Inl (index_error E), db)
         else (Inr (), insert_activity r db))"

fun write_attempts :: "audit_env \<Rightarrow> write_fate list \<Rightarrow> activity \<Rightarrow> (audit_store, auth_error, unit) op" where
  "write_attempts E [] r = throw (index_error E)"
| "write_attempts E [f] r = write_event E f r"
| "write_attempts E (f # g # fs) r =
    catch (write_event E f r) (\<lambda>_. write_attempts E (g # fs) r) ret"

definition write_with_retry :: "audit_env \<Rightarrow> str \<Rightarrow> handling \<Rightarrow> audit_event \<Rightarrow> chain_head \<Rightarrow>
    audit_writer \<times> audit_store \<Rightarrow> audit_writer \<times> audit_store" where
  "write_with_retry E c h ev at s =
    (case s of (w, db) \<Rightarrow>
       let row = event_row E c at (event_actor_key E h ev) (hd_now h) ev in
       (case write_attempts E (map (hd_fate h) [1..<write_attempts_limit + 1]) row db of
          (Inr _, db') \<Rightarrow>
            (w\<lparr>writer_head := Some \<lparr>head_seq = head_seq at + 1,
               head_hash = (case act_hash row of None \<Rightarrow> [] | Some x \<Rightarrow> x)\<rparr>\<rparr>, db')
        | (Inl _, db') \<Rightarrow> (mark_dropped (w\<lparr>writer_head := Some at\<rparr>), db')))"

definition handle_event :: "audit_env \<Rightarrow> str \<Rightarrow> handling \<Rightarrow> audit_event \<Rightarrow>
    audit_writer \<times> audit_store \<Rightarrow> audit_writer \<times> audit_store" where
  "handle_event E c h ev s =
    (case s of (w, db) \<Rightarrow>
       (case (case writer_head w of Some at \<Rightarrow> Some at | None \<Rightarrow> load_chain_head h c db) of
          None \<Rightarrow> (mark_dropped w, db)
        | Some at \<Rightarrow> write_with_retry E c h ev at s))"

section \<open>The queue\<close>

datatype audit_msg = EventMsg audit_event | FlushMsg nat

definition queue_capacity :: nat where
  "queue_capacity = 4096"

text \<open>
  \<open>parked\<close> holds the messages of the tasks that wait for a place in a full queue, \<open>acks\<close> the flushes
  that were answered.
\<close>

record audit_logger =
  log_queue :: "audit_msg list"
  log_parked :: "audit_msg list"
  log_open :: bool
  log_acks :: "nat list"
  log_writer :: audit_writer
  log_db :: audit_store

definition enqueue :: "audit_msg \<Rightarrow> audit_logger \<Rightarrow> audit_logger" where
  "enqueue m s =
    (if length (log_queue s) < queue_capacity then s\<lparr>log_queue := log_queue s @ [m]\<rparr>
     else s\<lparr>log_parked := log_parked s @ [m]\<rparr>)"

definition drop_message :: "audit_logger \<Rightarrow> audit_logger" where
  "drop_message s = s\<lparr>log_writer := mark_dropped (log_writer s)\<rparr>"

definition record_event :: "audit_event \<Rightarrow> audit_logger \<Rightarrow> audit_logger" where
  "record_event ev s = (if log_open s then enqueue (EventMsg ev) s else drop_message s)"

definition send_flush :: "nat \<Rightarrow> audit_logger \<Rightarrow> audit_logger" where
  "send_flush n s = (if log_open s then enqueue (FlushMsg n) s else s)"

definition flush_timed_out :: "audit_logger \<Rightarrow> audit_logger" where
  "flush_timed_out s = drop_message s"

text \<open>A waiting task gets its place, or finds the channel closed.\<close>

definition unpark :: "nat \<Rightarrow> audit_logger \<Rightarrow> audit_logger" where
  "unpark i s =
    (if i < length (log_parked s) \<and> (log_open s \<longrightarrow> length (log_queue s) < queue_capacity)
     then let m = log_parked s ! i;
              t = s\<lparr>log_parked := take i (log_parked s) @ drop (Suc i) (log_parked s)\<rparr>
          in if log_open s then t\<lparr>log_queue := log_queue t @ [m]\<rparr>
             else (case m of EventMsg _ \<Rightarrow> drop_message t | FlushMsg _ \<Rightarrow> t)
     else s)"

definition handle_next :: "audit_env \<Rightarrow> str \<Rightarrow> handling \<Rightarrow> audit_logger \<Rightarrow> audit_logger" where
  "handle_next E c h s =
    (case log_queue s of
       [] \<Rightarrow> s
     | FlushMsg n # ms \<Rightarrow> s\<lparr>log_queue := ms, log_acks := log_acks s @ [n]\<rparr>
     | EventMsg ev # ms \<Rightarrow>
         (case handle_event E c h ev (log_writer s, log_db s) of
            (w, db) \<Rightarrow> s\<lparr>log_queue := ms, log_writer := w, log_db := db\<rparr>))"

section \<open>What the writer leaves behind\<close>

lemma write_event_cases:
  "write_event E f r db = (x, db') \<Longrightarrow> db' = db \<and> x \<noteq> Inr () \<or> db' = insert_activity r db \<and> (x = Inr () \<longrightarrow> \<not> position_taken r db)"
  by (auto simp: write_event_def split: write_fate.splits if_splits)

lemma position_taken_insert: "position_taken r (insert_activity r db)"
  by (auto simp: insert_activity_def position_taken_def)

lemma insert_activity_taken: "position_taken r db \<Longrightarrow> insert_activity r db = db"
  by (simp add: insert_activity_def)

text \<open>However the attempts go, at most the one row is inserted; an answer of success means it was.\<close>

lemma write_attempts_cases:
  assumes "write_attempts E fs r db = (x, db')"
  shows "(db' = db \<or> db' = insert_activity r db) \<and> (x = Inr () \<longrightarrow> r \<in> set (activities db'))"
  using assms
proof (induction E fs r arbitrary: db rule: write_attempts.induct)
  case (2 E f r)
  then show ?case
    by (auto dest!: write_event_cases) (simp add: insert_activity_def)
next
  case (3 E f g fs r)
  obtain y db1 where y: "write_event E f r db = (y, db1)" by fastforce
  show ?case
  proof (cases y)
    case (Inl e)
    then have "write_attempts E (g # fs) r db1 = (x, db')" using 3(2) y by (simp add: catch_def)
    from 3(1) [OF this] show ?thesis
      using write_event_cases [OF y] insert_activity_taken [OF position_taken_insert]
      by fastforce
  next
    case (Inr u)
    then show ?thesis using 3(2) y write_event_cases [OF y]
      by (auto simp: catch_def insert_activity_def)
  qed
qed auto

lemma write_attempts_taken:
  "position_taken r db \<Longrightarrow> \<exists>e. write_attempts E fs r db = (Inl e, db)"
proof (induction E fs r rule: write_attempts.induct)
  case (2 E f r)
  then show ?case by (auto simp: write_event_def insert_activity_taken split: write_fate.split)
next
  case (3 E f g fs r)
  then show ?case by (auto simp: catch_def write_event_def insert_activity_taken split: write_fate.split)
qed simp

end
