(* ===== verification/Audit_Verify.thy ===== *)
theory Audit_Verify
  imports Audit_Log
begin

text \<open>
  The two readers of the audit table: \<^verbatim>\<open>issue_checkpoint\<close> of \<^verbatim>\<open>src/services/audit_integrity.rs\<close> and
  \<^verbatim>\<open>verify_integrity\<close> of \<^verbatim>\<open>src/routes/audit.rs\<close>; what a verified table means, and what the
  verifier cannot see.
\<close>

section \<open>The verifier\<close>

definition text_of :: "str option \<Rightarrow> str" where
  "text_of x = (case x of None \<Rightarrow> [] | Some s \<Rightarrow> s)"

lemma text_of_simps [simp]: "text_of (Some s) = s" "text_of None = []"
  by (simp_all add: text_of_def)

definition seq_of :: "activity \<Rightarrow> int" where
  "seq_of r = (case act_seq r of None \<Rightarrow> 0 | Some n \<Rightarrow> n)"

definition shown_actor :: "audit_env \<Rightarrow> activity \<Rightarrow> str" where
  "shown_actor E r = (case act_actor r of None \<Rightarrow> [] | Some k \<Rightarrow> type_string E (Some k))"

text \<open>The input that the verifier digests for a row, after the given previous hash.\<close>

definition row_input :: "audit_env \<Rightarrow> str \<Rightarrow> activity \<Rightarrow> digest_input" where
  "row_input E previous r =
    \<lparr>in_chain_id = text_of (act_chain r), in_seq = seq_of r, in_previous_hash = previous,
     in_action = act_action r, in_category = act_category r, in_status = act_status r,
     in_actor = normalize_actor_id (shown_actor E r), in_ip_address = act_ip_address r,
     in_user_agent = act_user_agent r, in_details_json = canonical_json (act_details r),
     in_timestamp = act_timestamp r\<rparr>"

text \<open>\<^verbatim>\<open>WHERE seq != NONE ORDER BY chain_id ASC, seq ASC\<close>.\<close>

definition row_key :: "activity \<Rightarrow> str option \<times> int option" where
  "row_key r = (act_chain r, act_seq r)"

definition chained_rows :: "audit_store \<Rightarrow> activity list" where
  "chained_rows db = sort_key row_key (filter (\<lambda>r. act_seq r \<noteq> None) (activities db))"

record integrity_scan =
  sc_previous :: str
  sc_expected :: int
  sc_chain :: str
  sc_chains :: int
  sc_checked :: int
  sc_broken :: "(str \<times> int \<times> str) option"
  sc_anchors :: "(str \<times> int) \<Rightarrow> str option"

definition scan_start :: integrity_scan where
  "scan_start = \<lparr>sc_previous = genesis_hash, sc_expected = 1, sc_chain = [], sc_chains = 0,
    sc_checked = 0, sc_broken = None, sc_anchors = Map.empty\<rparr>"

definition enter_chain :: "str \<Rightarrow> integrity_scan \<Rightarrow> integrity_scan" where
  "enter_chain c st =
    (if c \<noteq> sc_chain st
     then st\<lparr>sc_chain := c, sc_previous := genesis_hash, sc_expected := 1, sc_chains := sc_chains st + 1\<rparr>
     else st)"

definition row_defect :: "audit_env \<Rightarrow> integrity_scan \<Rightarrow> activity \<Rightarrow> str option" where
  "row_defect E st r =
    (if seq_of r \<noteq> sc_expected st then Some (lit ''missing_seq'')
     else if text_of (act_previous r) \<noteq> sc_previous st then Some (lit ''previous_hash'')
     else if event_hash (audit_crypto E) (row_input E (sc_previous st) r) \<noteq> text_of (act_hash r)
       then Some (lit ''event_hash'')
     else None)"

definition accept_row :: "activity \<Rightarrow> integrity_scan \<Rightarrow> integrity_scan" where
  "accept_row r st =
    st\<lparr>sc_anchors := (sc_anchors st)((text_of (act_chain r), seq_of r) \<mapsto> text_of (act_hash r)),
       sc_previous := text_of (act_hash r), sc_expected := seq_of r + 1\<rparr>"

fun scan_rows :: "audit_env \<Rightarrow> activity list \<Rightarrow> integrity_scan \<Rightarrow> integrity_scan" where
  "scan_rows E [] st = st"
| "scan_rows E (r # rs) st =
    (let st1 = enter_chain (text_of (act_chain r)) (st\<lparr>sc_checked := sc_checked st + 1\<rparr>)
     in case row_defect E st1 r of
          Some reason \<Rightarrow> st1\<lparr>sc_broken := Some (text_of (act_chain r), seq_of r, reason)\<rparr>
        | None \<Rightarrow> scan_rows E rs (accept_row r st1))"

definition checkpoint_counts :: "audit_lib \<Rightarrow> str option \<Rightarrow> checkpoint \<Rightarrow> bool" where
  "checkpoint_counts L own cp \<longleftrightarrow> own = Some (cp_public_key cp) \<and>
    verify_checkpoint L (cp_public_key cp) (cp_signature cp) (cp_chain cp) (cp_seq_to cp)
      (cp_head_hash cp) (cp_created_at cp)"

definition check_checkpoint :: "audit_lib \<Rightarrow> str option \<Rightarrow> (str \<times> int \<Rightarrow> str option) \<Rightarrow> checkpoint \<Rightarrow>
    int \<times> (str \<times> int \<times> str) option \<Rightarrow> int \<times> (str \<times> int \<times> str) option" where
  "check_checkpoint L own anchors cp st =
    (case st of (verified, broken) \<Rightarrow>
       if \<not> checkpoint_counts L own cp then st
       else if anchors (cp_chain cp, cp_seq_to cp) = Some (cp_head_hash cp) then (verified + 1, broken)
       else (verified, case broken of
           Some b \<Rightarrow> Some b
         | None \<Rightarrow> Some (cp_chain cp, cp_seq_to cp, lit ''checkpoint_anchor'')))"

record integrity_report =
  rep_intact :: bool
  rep_checked :: int
  rep_unchained :: nat
  rep_chains :: int
  rep_broken :: "(str \<times> int \<times> str) option"
  rep_checkpoints :: nat
  rep_verified :: int

definition own_public_key :: "audit_lib \<Rightarrow> str option \<Rightarrow> str option" where
  "own_public_key L seed =
    (case seed of
       None \<Rightarrow> None
     | Some s \<Rightarrow> (case from_seed_b64 L s of Inl e \<Rightarrow> None | Inr key \<Rightarrow> Some (public_key_b64 L key)))"

definition integrity_report :: "audit_env \<Rightarrow> str option \<Rightarrow> activity list \<Rightarrow> nat \<Rightarrow> checkpoint list \<Rightarrow>
    integrity_report" where
  "integrity_report E own rows unchained cps =
    (let sc = scan_rows E rows scan_start;
         (verified, broken) = fold (check_checkpoint (audit_crypto E) own (sc_anchors sc)) cps (0, sc_broken sc)
     in \<lparr>rep_intact = (broken = None \<and> 0 < sc_checked sc \<and> 0 < verified), rep_checked = sc_checked sc,
         rep_unchained = unchained, rep_chains = sc_chains sc, rep_broken = broken,
         rep_checkpoints = length cps, rep_verified = verified\<rparr>)"

definition as_database_error :: "auth_error \<Rightarrow> auth_error" where
  "as_database_error e = DatabaseError (display e)"

definition verify_integrity :: "faults \<Rightarrow> audit_env \<Rightarrow> str option \<Rightarrow> auth_error + unit \<Rightarrow>
    (audit_store, integrity_report) handler" where
  "verify_integrity F E seed permission =
    seq (lift_result permission)
    (bind (map_error as_database_error (db_read F ''audit_integrity_scan'' chained_rows)) (\<lambda>rows.
     bind (map_error as_database_error (db_read F ''audit_integrity_total''
       (\<lambda>db. count_where (\<lambda>r. act_seq r = None) (activities db)))) (\<lambda>unchained.
     bind (map_error as_database_error (db_read F ''audit_integrity_checkpoints''
       (\<lambda>db. sort_key (\<lambda>cp. (cp_chain cp, cp_seq_to cp)) (checkpoints db)))) (\<lambda>cps.
     ret (integrity_report E (own_public_key (audit_crypto E) seed) rows unchained cps)))))"

section \<open>Issuing checkpoints\<close>

definition last_checkpoint_seq :: "str \<Rightarrow> audit_store \<Rightarrow> int" where
  "last_checkpoint_seq c db =
    (case sort_key (\<lambda>cp. - cp_seq_to cp) (filter (\<lambda>cp. cp_chain cp = c) (checkpoints db)) of
       [] \<Rightarrow> 0 | cp # _ \<Rightarrow> cp_seq_to cp)"

definition checkpoint_of :: "audit_lib \<Rightarrow> bytes \<Rightarrow> str \<Rightarrow> int \<Rightarrow> str \<Rightarrow> int \<Rightarrow> checkpoint" where
  "checkpoint_of L key c n h now =
    \<lparr>cp_chain = c, cp_seq_to = n, cp_head_hash = h, cp_created_at = now,
     cp_public_key = public_key_b64 L key, cp_signature = sign_checkpoint L key c n h now\<rparr>"

text \<open>\<^verbatim>\<open>CREATE audit_checkpoint\<close> under the unique index on chain and position.\<close>

definition insert_checkpoint :: "audit_env \<Rightarrow> checkpoint \<Rightarrow> (audit_store, auth_error, unit) op" where
  "insert_checkpoint E cp db =
    (if \<exists>q\<in>set (checkpoints db). cp_chain q = cp_chain cp \<and> cp_seq_to q = cp_seq_to cp
     then (Inl (index_error E), db)
     else (Inr (), db\<lparr>checkpoints := checkpoints db @ [cp]\<rparr>))"

definition store_checkpoint :: "faults \<Rightarrow> audit_env \<Rightarrow> checkpoint \<Rightarrow> (audit_store, str, unit) op" where
  "store_checkpoint F E cp =
    map_error (\<lambda>e. lit ''failed to write the checkpoint: '' @ display e)
      (seq (database_up F ''audit_checkpoint_create'') (insert_checkpoint E cp))"

definition issue_checkpoint :: "faults \<Rightarrow> audit_env \<Rightarrow> bytes \<Rightarrow> str \<Rightarrow> int \<Rightarrow>
    (audit_store, str, int option) op" where
  "issue_checkpoint F E key c now =
    bind (map_error (\<lambda>e. lit ''failed to read the audit chain head: '' @ display e)
      (db_read F ''audit_checkpoint_head'' (chain_last c))) (\<lambda>head.
    (case head of
       None \<Rightarrow> ret None
     | Some r \<Rightarrow>
         if text_of (act_hash r) = [] then ret None
         else bind (map_error (\<lambda>e. lit ''failed to read the last checkpoint: '' @ display e)
                (db_read F ''audit_checkpoint_last'' (last_checkpoint_seq c))) (\<lambda>last_seq.
              if seq_of r \<le> last_seq then ret None
              else seq (store_checkpoint F E
                     (checkpoint_of (audit_crypto E) key c (seq_of r) (text_of (act_hash r)) now))
                   (ret (Some (seq_of r))))))"

lemma store_checkpoint_cases:
  "store_checkpoint F E cp db = (x, db') \<Longrightarrow> db' = db \<or> db' = db\<lparr>checkpoints := checkpoints db @ [cp]\<rparr>"
  by (cases x) (auto simp: store_checkpoint_def insert_checkpoint_def op_success op_failure split: if_splits)

text \<open>Whatever the answer, the only effect is the checkpoint of the current head.\<close>

lemma issue_checkpoint_cases:
  assumes "issue_checkpoint F E key c now db = (x, db')"
  shows "db' = db \<or> (\<exists>r. chain_last c db = Some r \<and> db' = db\<lparr>checkpoints := checkpoints db @
    [checkpoint_of (audit_crypto E) key c (seq_of r) (text_of (act_hash r)) now]\<rparr>)"
proof (cases x)
  case (Inl e)
  then show ?thesis
    using assms by (auto simp: issue_checkpoint_def op_failure op_success split: option.splits if_splits
        dest: store_checkpoint_cases)
next
  case (Inr y)
  then show ?thesis
    using assms by (auto simp: issue_checkpoint_def op_success split: option.splits if_splits
        dest: store_checkpoint_cases)
qed

section \<open>Linked tables\<close>

text \<open>
  A row is linked into a set of rows when its digest is its own, the first of a chain starts from the
  genesis hash, and every other one continues the row before it.
\<close>

definition row_ok :: "audit_env \<Rightarrow> activity \<Rightarrow> bool" where
  "row_ok E r \<longleftrightarrow> 1 \<le> seq_of r \<and>
    text_of (act_hash r) = event_hash (audit_crypto E) (row_input E (text_of (act_previous r)) r)"

definition follows :: "activity \<Rightarrow> activity \<Rightarrow> bool" where
  "follows q r \<longleftrightarrow> text_of (act_chain q) = text_of (act_chain r) \<and> seq_of q + 1 = seq_of r \<and>
    text_of (act_hash q) = text_of (act_previous r)"

definition row_linked :: "audit_env \<Rightarrow> activity set \<Rightarrow> activity \<Rightarrow> bool" where
  "row_linked E R r \<longleftrightarrow> row_ok E r \<and>
    (seq_of r = 1 \<and> text_of (act_previous r) = genesis_hash \<or> (\<exists>q\<in>R. follows q r))"

lemma row_linked_mono: "row_linked E R r \<Longrightarrow> R \<subseteq> S \<Longrightarrow> row_linked E S r"
  by (auto simp: row_linked_def)

definition linked_rows :: "audit_env \<Rightarrow> activity list \<Rightarrow> bool" where
  "linked_rows E rows \<longleftrightarrow> distinct (map row_key rows) \<and>
    (\<forall>r\<in>set rows. act_chain r \<noteq> None \<and> act_seq r \<noteq> None \<and> act_hash r \<noteq> None \<and> row_linked E (set rows) r)"

text \<open>The state of the scan after the row \<open>l\<close>.\<close>

definition scan_after :: "activity option \<Rightarrow> integrity_scan \<Rightarrow> bool" where
  "scan_after l st \<longleftrightarrow>
    (case l of
       None \<Rightarrow> sc_chain st = [] \<and> sc_previous st = genesis_hash \<and> sc_expected st = 1
     | Some l \<Rightarrow> sc_chain st = text_of (act_chain l) \<and> sc_previous st = text_of (act_hash l) \<and>
         sc_expected st = seq_of l + 1)"

lemma enter_chain_simps [simp]:
  "sc_checked (enter_chain c st) = sc_checked st" "sc_anchors (enter_chain c st) = sc_anchors st"
  "sc_broken (enter_chain c st) = sc_broken st" "sc_chain (enter_chain c st) = c"
  by (simp_all add: enter_chain_def)

lemma accept_row_simps [simp]:
  "sc_checked (accept_row r st) = sc_checked st" "sc_broken (accept_row r st) = sc_broken st"
  "sc_chain (accept_row r st) = sc_chain st"
  "sc_anchors (accept_row r st) = (sc_anchors st)((text_of (act_chain r), seq_of r) \<mapsto> text_of (act_hash r))"
  by (simp_all add: accept_row_def)

lemma scan_after_accept: "scan_after (Some r) (accept_row r (enter_chain (text_of (act_chain r)) st))"
  by (simp add: scan_after_def accept_row_def)

lemma row_ok_no_defect:
  assumes "row_ok E r" "seq_of r = sc_expected st" "text_of (act_previous r) = sc_previous st"
  shows "row_defect E st r = None"
  using assms by (simp add: row_defect_def row_ok_def)

lemma key_of: "act_chain r = Some c \<Longrightarrow> act_seq r \<noteq> None \<Longrightarrow> row_key r = (Some (text_of (act_chain r)), Some (seq_of r))"
  by (auto simp: row_key_def text_of_def seq_of_def)

text \<open>In key order, a linked row comes right after the row it continues.\<close>

lemma linked_next:
  assumes "linked_rows E (xs @ r # ys)" "sorted (map row_key (xs @ r # ys))"
    and "scan_after (if xs = [] then None else Some (last xs)) st"
  shows "row_defect E (enter_chain (text_of (act_chain r)) st) r = None"
proof -
  let ?rows = "xs @ r # ys" and ?c = "text_of (act_chain r)"
  have keys: "row_key q = (Some (text_of (act_chain q)), Some (seq_of q))" if "q \<in> set ?rows" for q
    using assms(1) that key_of [of q] unfolding linked_rows_def by blast
  have before: "row_key q < row_key r" if "q \<in> set xs" for q
  proof -
    have "row_key q \<le> row_key r" using assms(2) that by (auto simp: sorted_append)
    moreover have "row_key q \<noteq> row_key r"
      using assms(1) imageI [OF that, of row_key] by (auto simp: linked_rows_def)
    ultimately show ?thesis by simp
  qed
  have linked: "row_linked E (set ?rows) r" using assms(1) by (simp add: linked_rows_def)
  then have ok: "row_ok E r" by (simp add: row_linked_def)
  from linked consider (first) "seq_of r = 1" "text_of (act_previous r) = genesis_hash"
    | (rest) q where "q \<in> set ?rows" "follows q r" by (auto simp: row_linked_def)
  then show ?thesis
  proof cases
    case first
    have "sc_previous (enter_chain ?c st) = genesis_hash \<and> sc_expected (enter_chain ?c st) = 1"
    proof (cases "xs = []")
      case True
      then show ?thesis using assms(3) by (auto simp: scan_after_def enter_chain_def)
    next
      case False
      then have l: "last xs \<in> set xs" by simp
      then have "row_ok E (last xs)" using assms(1) by (auto simp: linked_rows_def row_linked_def)
      then have "text_of (act_chain (last xs)) \<noteq> ?c"
        using before [OF l] keys [of "last xs"] keys [of r] l first(1) by (auto simp: row_ok_def)
      then show ?thesis using assms(3) False by (auto simp: scan_after_def enter_chain_def)
    qed
    then show ?thesis using first ok by (intro row_ok_no_defect) auto
  next
    case rest
    have kq: "row_key q < row_key r" using keys rest by (auto simp: follows_def)
    have "q \<in> set xs"
    proof (rule ccontr)
      assume "q \<notin> set xs"
      then have "q = r \<or> q \<in> set ys" using rest(1) by auto
      then have "row_key r \<le> row_key q" using assms(2) by (auto simp: sorted_append)
      then show False using kq by simp
    qed
    then have ne: "xs \<noteq> []" "last xs \<in> set xs" by (auto intro: last_in_set)
    have "row_key q \<le> row_key (last xs)"
      using assms(2) \<open>q \<in> set xs\<close> sorted_le_last [of "map row_key xs" "row_key q"] ne
      by (simp add: sorted_append last_map)
    with before [OF ne(2)] have "row_key (last xs) = row_key q"
      using keys [of q] keys [of r] keys [of "last xs"] rest ne(2) by (auto simp: follows_def)
    then have "last xs = q"
      using assms(1) ne(2) \<open>q \<in> set xs\<close> by (auto simp: linked_rows_def dest: inj_onD simp: distinct_map)
    then show ?thesis
      using assms(3) rest(2) ne ok by (intro row_ok_no_defect) (auto simp: scan_after_def follows_def enter_chain_def)
  qed
qed

definition anchor_map :: "activity list \<Rightarrow> str \<times> int \<Rightarrow> str option" where
  "anchor_map rows = map_of (rev (map (\<lambda>r. ((text_of (act_chain r), seq_of r), text_of (act_hash r))) rows))"

lemma scan_linked:
  assumes "linked_rows E (xs @ ys)" "sorted (map row_key (xs @ ys))"
    and "scan_after (if xs = [] then None else Some (last xs)) st" "sc_anchors st = anchor_map xs"
  shows "sc_broken (scan_rows E ys st) = sc_broken st \<and>
    sc_checked (scan_rows E ys st) = sc_checked st + int (length ys) \<and>
    sc_anchors (scan_rows E ys st) = anchor_map (xs @ ys)"
  using assms
proof (induction ys arbitrary: xs st)
  case (Cons r ys)
  let ?st = "enter_chain (text_of (act_chain r)) (st\<lparr>sc_checked := sc_checked st + 1\<rparr>)"
  have "scan_after (if xs = [] then None else Some (last xs)) (st\<lparr>sc_checked := sc_checked st + 1\<rparr>)"
    using Cons.prems(3) by (simp add: scan_after_def split: if_splits)
  from linked_next [OF Cons.prems(1,2) this]
  have "row_defect E ?st r = None" .
  moreover have "sc_anchors (accept_row r ?st) = anchor_map (xs @ [r])"
    using Cons.prems(4) by (simp add: anchor_map_def)
  ultimately show ?case
    using Cons.IH [of "xs @ [r]" "accept_row r ?st"] Cons.prems(1,2) scan_after_accept by simp
qed simp

text \<open>Conversely, a scan that ends without a defect has seen linked rows only.\<close>

lemma scan_sound:
  assumes "sc_broken (scan_rows E ys st) = None" "scan_after l st"
    and "\<forall>l'. l = Some l' \<longrightarrow> 0 \<le> seq_of l'"
  shows "\<forall>r\<in>set ys. row_linked E (set ys \<union> set_option l) r"
  using assms
proof (induction ys arbitrary: l st)
  case (Cons r ys)
  let ?st = "enter_chain (text_of (act_chain r)) (st\<lparr>sc_checked := sc_checked st + 1\<rparr>)"
  have none: "row_defect E ?st r = None"
    using Cons.prems(1) by (auto simp: Let_def split: option.splits)
  then have d: "seq_of r = sc_expected ?st" "text_of (act_previous r) = sc_previous ?st"
      "event_hash (audit_crypto E) (row_input E (sc_previous ?st) r) = text_of (act_hash r)"
    by (auto simp: row_defect_def split: if_splits)
  have "seq_of r = 1 \<and> text_of (act_previous r) = genesis_hash \<or>
      (\<exists>q\<in>set_option l. follows q r \<and> 0 \<le> seq_of q)"
    using d(1,2) Cons.prems(2,3)
    by (auto simp: enter_chain_def scan_after_def follows_def split: if_splits option.splits)
  moreover from this d have "row_ok E r" by (auto simp: row_ok_def follows_def)
  ultimately have r: "row_linked E (set_option l) r" "0 \<le> seq_of r"
    by (auto simp: row_linked_def row_ok_def)
  have "sc_broken (scan_rows E ys (accept_row r ?st)) = None"
    using Cons.prems(1) none by (simp add: Let_def)
  from Cons.IH [OF this scan_after_accept] r(2)
  have "\<forall>q\<in>set ys. row_linked E (set ys \<union> {r}) q" by simp
  then show ?case using r(1) by (auto intro: row_linked_mono)
qed simp

section \<open>The report on a linked table\<close>

text \<open>The table's invariant: its chained rows are linked.\<close>

definition audit_ok :: "audit_env \<Rightarrow> audit_store \<Rightarrow> bool" where
  "audit_ok E db \<longleftrightarrow> linked_rows E (filter (\<lambda>r. act_seq r \<noteq> None) (activities db))"

lemma linked_rows_sorted: "audit_ok E db \<Longrightarrow> linked_rows E (chained_rows db)"
  by (auto simp: audit_ok_def linked_rows_def chained_rows_def distinct_map sorted_wrt_map)

lemma sorted_chained_rows: "sorted (map row_key (chained_rows db))"
  by (simp add: chained_rows_def)

lemma set_chained_rows: "set (chained_rows db) = {r \<in> set (activities db). act_seq r \<noteq> None}"
  by (simp add: chained_rows_def)

definition anchored :: "audit_store \<Rightarrow> checkpoint \<Rightarrow> bool" where
  "anchored db cp \<longleftrightarrow> (\<exists>r\<in>set (activities db). act_chain r = Some (cp_chain cp) \<and>
    act_seq r = Some (cp_seq_to cp) \<and> text_of (act_hash r) = cp_head_hash cp)"

lemma anchor_map_linked:
  assumes "linked_rows E rows"
  shows "anchor_map rows (c, n) = Some h \<longleftrightarrow>
    (\<exists>r\<in>set rows. act_chain r = Some c \<and> act_seq r = Some n \<and> text_of (act_hash r) = h)"
proof -
  let ?key = "\<lambda>r. (text_of (act_chain r), seq_of r)"
  have keys: "row_key r = (Some (text_of (act_chain r)), Some (seq_of r))" if "r \<in> set rows" for r
    using assms that key_of [of r] unfolding linked_rows_def by blast
  have "inj_on ?key (set rows)"
    using assms keys unfolding linked_rows_def distinct_map inj_on_def by auto
  moreover have "distinct rows" using assms by (auto simp: linked_rows_def distinct_map)
  ultimately have "distinct (map ?key rows)" by (simp add: distinct_map)
  then have "anchor_map rows (c, n) = Some h \<longleftrightarrow> ((c, n), h) \<in> set (map (\<lambda>r. (?key r, text_of (act_hash r))) rows)"
    unfolding anchor_map_def by (subst map_of_eq_Some_iff) (simp_all add: comp_def rev_map [symmetric])
  also have "\<dots> \<longleftrightarrow> (\<exists>r\<in>set rows. text_of (act_chain r) = c \<and> seq_of r = n \<and> text_of (act_hash r) = h)"
    by auto
  also have "\<dots> \<longleftrightarrow> (\<exists>r\<in>set rows. act_chain r = Some c \<and> act_seq r = Some n \<and> text_of (act_hash r) = h)"
    using keys by (auto simp: row_key_def intro!: bexI)
  finally show ?thesis .
qed

lemma check_checkpoints:
  "fold (check_checkpoint L own an) cps (v, b) =
    (v + int (length (filter (\<lambda>cp. checkpoint_counts L own cp \<and> an (cp_chain cp, cp_seq_to cp) = Some (cp_head_hash cp)) cps)),
     case b of Some x \<Rightarrow> Some x
     | None \<Rightarrow> map_option (\<lambda>cp. (cp_chain cp, cp_seq_to cp, lit ''checkpoint_anchor''))
         (find (\<lambda>cp. checkpoint_counts L own cp \<and> an (cp_chain cp, cp_seq_to cp) \<noteq> Some (cp_head_hash cp)) cps))"
  by (induction cps arbitrary: v b) (auto simp: check_checkpoint_def split: option.splits)

definition report_of :: "audit_env \<Rightarrow> str option \<Rightarrow> audit_store \<Rightarrow> integrity_report" where
  "report_of E own db = integrity_report E own (chained_rows db)
    (count_where (\<lambda>r. act_seq r = None) (activities db))
    (sort_key (\<lambda>cp. (cp_chain cp, cp_seq_to cp)) (checkpoints db))"

lemma verify_integrity_reports:
  "verify_integrity no_faults E seed (Inr ()) db =
    (Inr (report_of E (own_public_key (audit_crypto E) seed) db), db)"
  by (simp add: verify_integrity_def report_of_def op_defs db_defs no_faults_def)

lemma report_linked:
  assumes "audit_ok E db"
  shows "rep_checked (report_of E own db) = int (length (chained_rows db))"
    and "rep_broken (report_of E own db) = None \<longleftrightarrow>
      (\<forall>cp\<in>set (checkpoints db). checkpoint_counts (audit_crypto E) own cp \<longrightarrow> anchored db cp)"
    and "rep_verified (report_of E own db) =
      int (length (filter (\<lambda>cp. checkpoint_counts (audit_crypto E) own cp \<and> anchored db cp)
        (sort_key (\<lambda>cp. (cp_chain cp, cp_seq_to cp)) (checkpoints db))))"
    and "rep_intact (report_of E own db) \<longleftrightarrow> rep_broken (report_of E own db) = None \<and>
      (\<exists>cp\<in>set (checkpoints db). checkpoint_counts (audit_crypto E) own cp)"
proof -
  note l = linked_rows_sorted [OF assms]
  let ?sc = "scan_rows E (chained_rows db) scan_start"
  have "sc_broken ?sc = sc_broken scan_start \<and>
      sc_checked ?sc = sc_checked scan_start + int (length (chained_rows db)) \<and>
      sc_anchors ?sc = anchor_map ([] @ chained_rows db)"
    by (rule scan_linked)
      (use l sorted_chained_rows in \<open>simp_all add: scan_after_def scan_start_def anchor_map_def\<close>)
  then have sc: "sc_broken ?sc = None" "sc_checked ?sc = int (length (chained_rows db))"
      "sc_anchors ?sc = anchor_map (chained_rows db)"
    by (simp_all add: scan_start_def)
  have an: "anchor_map (chained_rows db) (cp_chain cp, cp_seq_to cp) = Some (cp_head_hash cp) \<longleftrightarrow> anchored db cp" for cp
    unfolding anchor_map_linked [OF l] by (auto simp: set_chained_rows anchored_def)
  have an': "anchored db cp \<Longrightarrow> chained_rows db \<noteq> []" for cp
    using set_chained_rows [of db] by (auto simp: anchored_def)
  note R = report_of_def integrity_report_def Let_def check_checkpoints sc an
  show "rep_checked (report_of E own db) = int (length (chained_rows db))" by (simp add: R)
  show b: "rep_broken (report_of E own db) = None \<longleftrightarrow>
      (\<forall>cp\<in>set (checkpoints db). checkpoint_counts (audit_crypto E) own cp \<longrightarrow> anchored db cp)"
    by (auto simp: R find_None_all)
  show "rep_verified (report_of E own db) =
      int (length (filter (\<lambda>cp. checkpoint_counts (audit_crypto E) own cp \<and> anchored db cp)
        (sort_key (\<lambda>cp. (cp_chain cp, cp_seq_to cp)) (checkpoints db))))"
    by (simp add: R)
  have "rep_intact (report_of E own db) \<longleftrightarrow> rep_broken (report_of E own db) = None \<and>
      chained_rows db \<noteq> [] \<and> (\<exists>cp\<in>set (checkpoints db). checkpoint_counts (audit_crypto E) own cp \<and> anchored db cp)"
    by (simp add: R filter_empty_conv)
  then show "rep_intact (report_of E own db) \<longleftrightarrow> rep_broken (report_of E own db) = None \<and>
      (\<exists>cp\<in>set (checkpoints db). checkpoint_counts (audit_crypto E) own cp)"
    using b an' by blast
qed

section \<open>The writer keeps the table linked\<close>

text \<open>What a writer knows: the position it writes from is the start of its chain or a row of it.\<close>

definition head_ok :: "str \<Rightarrow> audit_store \<Rightarrow> chain_head \<Rightarrow> bool" where
  "head_ok c db at \<longleftrightarrow> head_seq at = 0 \<and> head_hash at = genesis_hash \<or>
    (\<exists>q\<in>set (activities db). act_chain q = Some c \<and> act_seq q = Some (head_seq at) \<and>
      text_of (act_hash q) = head_hash at \<and> 1 \<le> head_seq at)"

definition writer_ok :: "str \<Rightarrow> audit_store \<Rightarrow> audit_writer \<Rightarrow> bool" where
  "writer_ok c db w \<longleftrightarrow> (\<forall>at. writer_head w = Some at \<longrightarrow> head_ok c db at)"

definition rows_grow :: "audit_store \<Rightarrow> audit_store \<Rightarrow> bool" where
  "rows_grow db db' \<longleftrightarrow> set (activities db) \<subseteq> set (activities db')"

lemma writer_ok_mono: "writer_ok c db w \<Longrightarrow> rows_grow db db' \<Longrightarrow> writer_ok c db' w"
  by (auto simp: writer_ok_def head_ok_def rows_grow_def)

lemma event_actor_key_bare: "bare_key (lit ''actor_identity:'') (event_actor_key E h ev)"
proof -
  have "bare_key (lit ''actor_identity:'') []" by (simp add: bare_key_def clean_ends_def lit_def)
  then show ?thesis
    by (simp add: event_actor_key_def resolve_actor_key_def normalize_actor_id_bare Let_def split: option.split)
qed

lemma event_row_digest:
  assumes "details_law E" "reference_law E" "bare_key (lit ''actor_identity:'') k"
  shows "row_input E (head_hash at) (event_row E c at k now ev) =
    event_input c (head_seq at + 1) (head_hash at) k now ev"
proof -
  have "normalize_actor_id [] = []" by (rule normalize_actor_id_fixed) (simp add: bare_key_def clean_ends_def lit_def)
  then have "normalize_actor_id (shown_actor E (event_row E c at k now ev)) = k"
    using assms(2,3) by (simp add: shown_actor_def event_row_def reference_law_def)
  moreover have "canonical_json (db_details E (ev_details ev)) = canonical_json (ev_details ev)"
    using assms(1) by (simp add: canonical_json_eq_iff details_law_def)
  ultimately show ?thesis
    by (simp add: row_input_def event_input_def) (simp add: event_row_def text_of_def seq_of_def)
qed

lemma insert_keeps_ok:
  assumes "audit_ok E db" "details_law E" "reference_law E" "head_ok c db at"
    and "bare_key (lit ''actor_identity:'') k"
  shows "audit_ok E (insert_activity (event_row E c at k now ev) db)"
proof (cases "position_taken (event_row E c at k now ev) db")
  case False
  let ?r = "event_row E c at k now ev" and ?rows = "filter (\<lambda>r. act_seq r \<noteq> None) (activities db)"
  have fields: "act_chain ?r = Some c" "act_seq ?r = Some (head_seq at + 1)" "seq_of ?r = head_seq at + 1"
      "text_of (act_previous ?r) = head_hash at" "act_hash ?r = Some (event_hash (audit_crypto E)
       (event_input c (head_seq at + 1) (head_hash at) k now ev))"
    by (simp_all add: event_row_def text_of_def seq_of_def)
  have head: "0 \<le> head_seq at" using assms(4) by (auto simp: head_ok_def)
  then have "row_ok E ?r"
    using event_row_digest [OF assms(2,3,5)] fields by (simp add: row_ok_def text_of_def)
  moreover have "seq_of ?r = 1 \<and> text_of (act_previous ?r) = genesis_hash \<or> (\<exists>q\<in>set ?rows. follows q ?r)"
    using assms(4) fields by (force simp: head_ok_def follows_def text_of_def seq_of_def)
  ultimately have "row_linked E (insert ?r (set ?rows)) ?r" by (auto simp: row_linked_def)
  moreover have "row_key ?r \<notin> row_key ` set ?rows"
    using False by (auto simp: position_taken_def row_key_def)
  moreover have "\<forall>q\<in>set ?rows. row_linked E (insert ?r (set ?rows)) q"
    using assms(1) row_linked_mono [OF _ subset_insertI] by (auto simp: audit_ok_def linked_rows_def)
  ultimately show ?thesis
    using assms(1) False fields by (auto simp: audit_ok_def linked_rows_def insert_activity_def)
qed (simp add: insert_activity_taken assms(1))

lemma load_chain_head_ok:
  assumes "audit_ok E db" "load_chain_head h c db = Some at"
  shows "head_ok c db at"
proof -
  let ?rows = "sort_key (\<lambda>r. - the (act_seq r))
    (filter (\<lambda>r. act_chain r = Some c \<and> act_seq r \<noteq> None) (activities db))"
  show ?thesis
  proof (cases ?rows)
    case Nil
    then show ?thesis
      using assms(2) by (auto simp: load_chain_head_def chain_last_def head_ok_def split: option.splits)
  next
    case (Cons r rs)
    then have "r \<in> set ?rows" by (metis list.set_intros(1))
    then have r: "r \<in> set (activities db)" "act_chain r = Some c" "act_seq r \<noteq> None" by auto
    then obtain n x where r': "act_seq r = Some n" "act_hash r = Some x" "1 \<le> n"
      using assms(1) by (fastforce simp: audit_ok_def linked_rows_def row_linked_def row_ok_def seq_of_def)
    then have "at = \<lparr>head_seq = n, head_hash = x\<rparr>"
      using assms(2) Cons by (simp add: load_chain_head_def chain_last_def split: option.splits)
    then show ?thesis using r r' by (auto simp: head_ok_def text_of_def)
  qed
qed

end
