(* ===== verification/Audit_History.thy ===== *)
theory Audit_History
  imports Audit_Verify
begin

text \<open>
  The audit trail over time: replicas write, restart and issue checkpoints in any order and under any
  faults, and the verifier is run on what they leave; on what somebody else has made of it; and on a
  table that lost its tail.
\<close>

section \<open>Histories\<close>

definition laws :: "audit_env \<Rightarrow> bool" where
  "laws E \<longleftrightarrow> details_law E \<and> reference_law E \<and> base64_text_law (audit_crypto E) \<and>
    signature_law (audit_crypto E)"

text \<open>One writer per replica, that is per chain; all of them share the table and the signing key.\<close>

inductive audit_run :: "audit_env \<Rightarrow> bytes \<Rightarrow> (str \<Rightarrow> audit_writer) \<Rightarrow> audit_store \<Rightarrow> bool"
  for E key where
  start: "audit_run E key (\<lambda>_. fresh_writer) \<lparr>activities = [], checkpoints = []\<rparr>"
| handle: "audit_run E key ws db \<Longrightarrow> handle_event E c h ev (ws c, db) = (w, db') \<Longrightarrow>
    audit_run E key (ws(c := w)) db'"
| restart: "audit_run E key ws db \<Longrightarrow> audit_run E key (ws(c := fresh_writer)) db"
| issue: "audit_run E key ws db \<Longrightarrow> issue_checkpoint F E key c now db = (x, db') \<Longrightarrow>
    audit_run E key ws db'"

text \<open>Every stored checkpoint was signed with the key, for a row that is there.\<close>

definition checkpoints_ok :: "audit_env \<Rightarrow> bytes \<Rightarrow> audit_store \<Rightarrow> bool" where
  "checkpoints_ok E key db \<longleftrightarrow> (\<forall>cp\<in>set (checkpoints db). anchored db cp \<and>
    cp = checkpoint_of (audit_crypto E) key (cp_chain cp) (cp_seq_to cp) (cp_head_hash cp) (cp_created_at cp))"

lemma anchored_mono: "anchored db cp \<Longrightarrow> rows_grow db db' \<Longrightarrow> anchored db' cp"
  by (auto simp: anchored_def rows_grow_def)

lemma anchored_checkpoints [simp]: "anchored (db\<lparr>checkpoints := cps\<rparr>) cp = anchored db cp"
  by (simp add: anchored_def)

lemma audit_ok_checkpoints [simp]: "audit_ok E (db\<lparr>checkpoints := cps\<rparr>) = audit_ok E db"
  by (simp add: audit_ok_def)

lemma writer_ok_checkpoints [simp]: "writer_ok c (db\<lparr>checkpoints := cps\<rparr>) w = writer_ok c db w"
  by (simp add: writer_ok_def head_ok_def)

lemma checkpoint_of_simps [simp]:
  "cp_chain (checkpoint_of L key c n h t) = c" "cp_seq_to (checkpoint_of L key c n h t) = n"
  "cp_head_hash (checkpoint_of L key c n h t) = h" "cp_created_at (checkpoint_of L key c n h t) = t"
  by (simp_all add: checkpoint_of_def)

lemma rows_grow_refl [simp]: "rows_grow db db" by (simp add: rows_grow_def)

lemma rows_grow_insert: "rows_grow db (insert_activity r db)"
  by (auto simp: rows_grow_def insert_activity_def)

lemma checkpoints_insert_activity [simp]: "checkpoints (insert_activity r db) = checkpoints db"
  by (simp add: insert_activity_def)

lemma handle_event_step:
  assumes "handle_event E c h ev (w, db) = (w', db')" "details_law E" "reference_law E"
    and "audit_ok E db" "writer_ok c db w"
  shows "audit_ok E db' \<and> writer_ok c db' w' \<and> rows_grow db db' \<and> checkpoints db' = checkpoints db"
proof -
  let ?at = "case writer_head w of Some at \<Rightarrow> Some at | None \<Rightarrow> load_chain_head h c db"
  show ?thesis
  proof (cases ?at)
    case None
    then have "w' = mark_dropped w" "db' = db" using assms(1) by (simp_all add: handle_event_def)
    then show ?thesis using assms(4,5) by (simp add: writer_ok_def mark_dropped_def)
  next
    case (Some at)
    have at: "head_ok c db at"
      using Some assms(5) load_chain_head_ok [OF assms(4)]
      by (auto simp: writer_ok_def split: option.splits)
    let ?k = "event_actor_key E h ev"
    let ?row = "event_row E c at ?k (hd_now h) ev"
    obtain x db1 where x: "write_attempts E (map (hd_fate h) [1..<write_attempts_limit + 1]) ?row db = (x, db1)"
      by fastforce
    have db': "db' = db1" and w': "w' = (case x of
        Inr _ \<Rightarrow> w\<lparr>writer_head := Some \<lparr>head_seq = head_seq at + 1,
          head_hash = (case act_hash ?row of None \<Rightarrow> [] | Some x \<Rightarrow> x)\<rparr>\<rparr>
      | Inl _ \<Rightarrow> mark_dropped (w\<lparr>writer_head := Some at\<rparr>))"
      using assms(1) Some x by (auto simp: handle_event_def write_with_retry_def Let_def split: sum.splits)
    from write_attempts_cases [OF x] have db1: "db1 = db \<or> db1 = insert_activity ?row db"
      and row: "x = Inr () \<Longrightarrow> ?row \<in> set (activities db1)" by auto
    have "audit_ok E db1"
      using db1 insert_keeps_ok [OF assms(4,2,3) at event_actor_key_bare] assms(4) by auto
    moreover have grow: "rows_grow db db1" using db1 rows_grow_insert by auto
    moreover have "writer_ok c db1 w'"
    proof (cases x)
      case (Inl e)
      have "head_ok c db1 at" using at grow by (auto simp: head_ok_def rows_grow_def)
      then show ?thesis using Inl w' by (simp add: writer_ok_def mark_dropped_def)
    next
      case (Inr u)
      have "0 \<le> head_seq at" using at by (auto simp: head_ok_def)
      then show ?thesis using Inr w' row by (auto simp: writer_ok_def head_ok_def event_row_def intro!: bexI)
    qed
    ultimately show ?thesis using db' db1 by auto
  qed
qed

lemma chain_last_row:
  assumes "chain_last c db = Some r"
  shows "r \<in> set (activities db) \<and> act_chain r = Some c \<and> act_seq r = Some (seq_of r)"
proof -
  let ?rows = "filter (\<lambda>r. act_chain r = Some c \<and> act_seq r \<noteq> None) (activities db)"
  obtain rs where "sort_key (\<lambda>r. - the (act_seq r)) ?rows = r # rs"
    using assms by (auto simp: chain_last_def split: list.splits)
  then have "r \<in> set (sort_key (\<lambda>r. - the (act_seq r)) ?rows)" by simp
  then show ?thesis by (auto simp: seq_of_def)
qed

lemma issue_checkpoint_step:
  assumes "issue_checkpoint F E key c now db = (x, db')"
  shows "db' = db \<or> (\<exists>n h. db' = db\<lparr>checkpoints := checkpoints db @
      [checkpoint_of (audit_crypto E) key c n h now]\<rparr> \<and>
    anchored db (checkpoint_of (audit_crypto E) key c n h now))"
  using issue_checkpoint_cases [OF assms] chain_last_row
  by (fastforce simp: anchored_def checkpoint_of_def)

lemma audit_run_inv:
  assumes "audit_run E key ws db" "laws E"
  shows "audit_ok E db \<and> (\<forall>c. writer_ok c db (ws c)) \<and> checkpoints_ok E key db"
  using assms
proof (induction rule: audit_run.induct)
  case start
  then show ?case
    by (simp add: audit_ok_def linked_rows_def writer_ok_def fresh_writer_def checkpoints_ok_def)
next
  case (handle ws db c h ev w db')
  then have "audit_ok E db' \<and> writer_ok c db' w \<and> rows_grow db db' \<and> checkpoints db' = checkpoints db"
    by (intro handle_event_step) (auto simp: laws_def)
  then show ?case
    using handle by (auto simp: checkpoints_ok_def intro: writer_ok_mono anchored_mono)
next
  case (restart ws db c)
  then show ?case by (simp add: writer_ok_def fresh_writer_def)
next
  case (issue ws db F c now x db')
  then show ?case
    using issue_checkpoint_step [OF issue(2)]
    by (auto simp: checkpoints_ok_def)
qed

lemma own_checkpoint_counts:
  assumes "laws E" "checkpoints_ok E key db" "cp \<in> set (checkpoints db)"
  shows "checkpoint_counts (audit_crypto E) (Some (public_key_b64 (audit_crypto E) key)) cp"
proof -
  obtain c n h t where "cp = checkpoint_of (audit_crypto E) key c n h t"
    using assms(2,3) by (auto simp: checkpoints_ok_def)
  then show ?thesis
    using assms(1) signed_checkpoint_verifies [of "audit_crypto E"]
    by (simp add: checkpoint_counts_def checkpoint_of_def laws_def)
qed

section \<open>What an honest history looks like to the verifier\<close>

lemma honest_history_verifies_facts:
  assumes "audit_run E key ws db" "laws E"
    and "R = report_of E (Some (public_key_b64 (audit_crypto E) key)) db"
  shows "rep_broken R = None \<and> rep_checked R = int (length (chained_rows db)) \<and>
    rep_verified R = int (length (checkpoints db)) \<and> (rep_intact R \<longleftrightarrow> checkpoints db \<noteq> [])"
proof -
  from audit_run_inv [OF assms(1,2)] have ok: "audit_ok E db" "checkpoints_ok E key db" by auto
  have all: "checkpoint_counts (audit_crypto E) (Some (public_key_b64 (audit_crypto E) key)) cp \<and> anchored db cp"
    if "cp \<in> set (checkpoints db)" for cp
    using own_checkpoint_counts [OF assms(2) ok(2) that] ok(2) that by (auto simp: checkpoints_ok_def)
  note L = report_linked [OF ok(1), of "Some (public_key_b64 (audit_crypto E) key)", folded assms(3)]
  have "rep_broken R = None" unfolding L(2) using all by blast
  moreover have "rep_verified R = int (length (checkpoints db))"
    unfolding L(3) using all by (subst filter_True) simp_all
  moreover have "rep_intact R \<longleftrightarrow> checkpoints db \<noteq> []"
    unfolding L(4) using \<open>rep_broken R = None\<close> all by (cases "checkpoints db") auto
  ultimately show ?thesis using L(1) by blast
qed

text \<open>
  C13: An honest history verifies.  Let any number of replicas handle events, restart and issue
  checkpoints in any order, with reads that fail, statements that are refused and statements whose
  answer is lost.  Then the verifier finds no defect, has checked every row, counts every checkpoint,
  and reports the table intact as soon as there is a checkpoint.
\<close>

theorem honest_history_verifies:
  assumes "audit_run E key ws db" "laws E"
    and "R = report_of E (Some (public_key_b64 (audit_crypto E) key)) db"
  shows "rep_broken R = None \<and> rep_checked R = int (length (chained_rows db)) \<and>
    rep_verified R = int (length (checkpoints db)) \<and> (rep_intact R \<longleftrightarrow> checkpoints db \<noteq> [])"
  using assms by (rule honest_history_verifies_facts)

text \<open>A history of two events on one chain, with a checkpoint after them.\<close>

definition toy_env :: audit_env where
  "toy_env = \<lparr>audit_crypto = toy_audit_lib, db_details = id,
    type_string = (\<lambda>x. case x of None \<Rightarrow> lit ''NONE'' | Some k \<Rightarrow> k), index_error = ServerError []\<rparr>"

lemma toy_laws_hold: "laws toy_env"
  using toy_audit_laws
  by (auto simp: laws_def toy_env_def details_law_def reference_law_def normalize_actor_id_fixed)

definition calm :: "int \<Rightarrow> handling" where
  "calm now = \<lparr>hd_now = now, hd_head_fault = None, hd_resolve_fault = None, hd_users = [],
    hd_fate = (\<lambda>_. Executed)\<rparr>"

definition demo_event :: audit_event where
  "demo_event = new_event (lit ''login_failed'') CatAuthentication StatusFailed (lit ''::1'') (lit ''curl'')"

definition demo_chain :: str where
  "demo_chain = lit ''replica-a''"

definition demo_history :: "nat \<Rightarrow> audit_writer \<times> audit_store" where
  "demo_history n = fold (\<lambda>i. handle_event toy_env demo_chain (calm (int i)) demo_event) [0..<n]
    (fresh_writer, \<lparr>activities = [], checkpoints = []\<rparr>)"

definition demo_store :: audit_store where
  "demo_store = snd (issue_checkpoint no_faults toy_env [] demo_chain 9 (snd (demo_history 2)))"

lemma demo_history_runs: "\<exists>ws. audit_run toy_env [] ws (snd (demo_history n)) \<and> ws demo_chain = fst (demo_history n)"
proof (induction n)
  case 0
  show ?case using audit_run.start [of toy_env "[]"] by (auto simp: demo_history_def)
next
  case (Suc n)
  then obtain ws where ws: "audit_run toy_env [] ws (snd (demo_history n))" "ws demo_chain = fst (demo_history n)"
    by blast
  obtain w db where s: "handle_event toy_env demo_chain (calm (int n)) demo_event
      (ws demo_chain, snd (demo_history n)) = (w, db)" by fastforce
  then have "demo_history (Suc n) = (w, db)" using ws(2) by (simp add: demo_history_def)
  then show ?case using audit_run.handle [OF ws(1) s] by auto
qed

lemma demo_store_runs: "\<exists>ws. audit_run toy_env [] ws demo_store"
  using demo_history_runs [of 2] audit_run.issue
  unfolding demo_store_def by (metis prod.collapse)

lemma event_hash_toy [simp]: "event_hash toy_audit_lib i \<noteq> []"
  by (simp add: event_hash_def toy_audit_lib_def digest_bytes_def digest_fields_def hash_field_def
      hex_def as_bytes_def utf8_char_def)

lemmas calm_eval = handle_event_def write_with_retry_def Let_def load_chain_head_def chain_last_def
  calm_def event_actor_key_def resolve_actor_key_def demo_event_def new_event_def write_attempts_limit_def
  upt_rec write_event_def position_taken_def insert_activity_def catch_def event_row_def event_input_def

lemma demo_store_checkpoints: "checkpoints demo_store \<noteq> []"
  by (simp add: demo_store_def demo_history_def fresh_writer_def calm_eval issue_checkpoint_def
      store_checkpoint_def insert_checkpoint_def last_checkpoint_seq_def seq_of_def toy_env_def op_defs db_defs
      no_faults_def)

theorem honest_history_verifies_witness:
  "rep_intact (report_of toy_env (Some (public_key_b64 (audit_crypto toy_env) [])) demo_store)"
proof -
  obtain ws where "audit_run toy_env [] ws demo_store" using demo_store_runs by blast
  from honest_history_verifies [OF this toy_laws_hold refl] demo_store_checkpoints show ?thesis by blast
qed

section \<open>What a checkpoint pins\<close>

definition own_input :: "audit_env \<Rightarrow> activity \<Rightarrow> digest_input" where
  "own_input E r = row_input E (text_of (act_previous r)) r"

definition row_inputs :: "audit_env \<Rightarrow> audit_store \<Rightarrow> digest_input set" where
  "row_inputs E db = own_input E ` {r \<in> set (activities db). act_seq r \<noteq> None}"

lemma own_input_fields:
  assumes "own_input E a = own_input E b"
  shows "text_of (act_chain a) = text_of (act_chain b)" "seq_of a = seq_of b"
    "text_of (act_previous a) = text_of (act_previous b)"
  using assms by (simp_all add: own_input_def row_input_def)

text \<open>Two linked tables that agree on a row agree on everything before it in its chain.\<close>

lemma linked_history_equal:
  assumes "\<forall>r\<in>R. row_linked E R r" "\<forall>r\<in>S. row_linked E S r"
    and "collision_free (audit_crypto E) (own_input E ` (R \<union> S))" "\<forall>i\<in>own_input E ` (R \<union> S). valid_input i"
    and "a \<in> R" "b \<in> S" "own_input E a = own_input E b" "1 \<le> seq_of a - int d"
  shows "\<exists>a'\<in>R. \<exists>b'\<in>S. own_input E a' = own_input E b' \<and> seq_of a' = seq_of a - int d \<and>
    text_of (act_chain a') = text_of (act_chain a)"
  using assms(8)
proof (induction d)
  case 0
  then show ?case using assms(5-7) by auto
next
  case (Suc d)
  then obtain a' b' where ab: "a' \<in> R" "b' \<in> S" "own_input E a' = own_input E b'"
      "seq_of a' = seq_of a - int d" "text_of (act_chain a') = text_of (act_chain a)" by auto
  note f = own_input_fields [OF ab(3)]
  have big: "seq_of a' \<noteq> 1" "seq_of b' \<noteq> 1" using Suc.prems ab(4) f(2) by auto
  have "row_linked E R a'" "row_linked E S b'" using assms(1,2) ab(1,2) by blast+
  then have "\<exists>p\<in>R. follows p a'" "\<exists>q\<in>S. follows q b'" using big by (simp_all add: row_linked_def)
  then obtain p q where pq: "p \<in> R" "follows p a'" "q \<in> S" "follows q b'" by blast
  have "text_of (act_hash p) = text_of (act_hash q)" using pq f(3) by (simp add: follows_def)
  then have "event_hash (audit_crypto E) (own_input E p) = event_hash (audit_crypto E) (own_input E q)"
    using assms(1,2) pq(1,3) by (auto simp: row_linked_def row_ok_def own_input_def)
  then have "own_input E p = own_input E q"
    by (rule event_hash_inject [OF assms(3), rotated 4]) (use assms(4) pq(1,3) in auto)
  then show ?case using pq ab(4,5) by (intro bexI [of _ p] bexI [of _ q]) (auto simp: follows_def)
qed

lemma scan_anchors:
  "sc_anchors (scan_rows E ys st) k = Some h \<Longrightarrow> sc_anchors st k = Some h \<or>
    (\<exists>r\<in>set ys. (text_of (act_chain r), seq_of r) = k \<and> text_of (act_hash r) = h)"
proof (induction ys arbitrary: st)
  case (Cons r ys)
  let ?st = "enter_chain (text_of (act_chain r)) (st\<lparr>sc_checked := sc_checked st + 1\<rparr>)"
  show ?case
  proof (cases "row_defect E ?st r")
    case None
    then have "sc_anchors (scan_rows E ys (accept_row r ?st)) k = Some h" using Cons.prems by simp
    from Cons.IH [OF this] show ?thesis by (auto split: if_splits)
  next
    case (Some reason)
    then show ?thesis using Cons.prems by simp
  qed
qed simp

lemma accepted_report:
  assumes "rep_broken (report_of E own db) = None"
  shows "\<forall>r\<in>set (chained_rows db). row_linked E (set (chained_rows db)) r"
    and "cp \<in> set (checkpoints db) \<Longrightarrow> checkpoint_counts (audit_crypto E) own cp \<Longrightarrow>
      \<exists>r\<in>set (chained_rows db). text_of (act_chain r) = cp_chain cp \<and> seq_of r = cp_seq_to cp \<and>
        text_of (act_hash r) = cp_head_hash cp"
proof -
  let ?sc = "scan_rows E (chained_rows db) scan_start"
  have b: "sc_broken ?sc = None" and an: "\<forall>cp\<in>set (checkpoints db). checkpoint_counts (audit_crypto E) own cp \<longrightarrow>
      sc_anchors ?sc (cp_chain cp, cp_seq_to cp) = Some (cp_head_hash cp)"
    using assms by (auto simp: report_of_def integrity_report_def Let_def check_checkpoints find_None_all
        split: option.splits)
  show "\<forall>r\<in>set (chained_rows db). row_linked E (set (chained_rows db)) r"
    using scan_sound [OF b, of None] by (simp add: scan_after_def scan_start_def)
  show "\<exists>r\<in>set (chained_rows db). text_of (act_chain r) = cp_chain cp \<and> seq_of r = cp_seq_to cp \<and>
      text_of (act_hash r) = cp_head_hash cp"
    if "cp \<in> set (checkpoints db)" "checkpoint_counts (audit_crypto E) own cp"
    using scan_anchors [of E "chained_rows db" scan_start] an that by (fastforce simp: scan_start_def)
qed

text \<open>
  C12: A signed history cannot be rewritten unnoticed.  Let \<open>db0\<close> be the honest table at the time a
  checkpoint was signed for one of its rows, and \<open>db\<close> any table at all - rewritten rows, recomputed
  hashes, other checkpoints.  If the verifier finds no defect in \<open>db\<close> and counts that checkpoint among
  its own, then every row of the chain up to the checkpoint's position is still there with every
  digested field as it was, unless two of the rows involved collide under the hash function.
\<close>

theorem checkpoint_pins_history:
  assumes "audit_run E key ws db0" "laws E" "anchored db0 cp"
    and "rep_broken (report_of E own db) = None" "cp \<in> set (checkpoints db)"
    and "checkpoint_counts (audit_crypto E) own cp"
    and "collision_free (audit_crypto E) (row_inputs E db0 \<union> row_inputs E db)"
    and "\<forall>i\<in>row_inputs E db0 \<union> row_inputs E db. valid_input i"
    and "r0 \<in> set (activities db0)" "act_chain r0 = Some (cp_chain cp)" "act_seq r0 \<noteq> None"
    and "seq_of r0 \<le> cp_seq_to cp"
  shows "\<exists>r\<in>set (activities db). act_seq r \<noteq> None \<and> own_input E r = own_input E r0"
proof -
  let ?R = "{r \<in> set (activities db0). act_seq r \<noteq> None}" and ?S = "set (chained_rows db)"
  have ok0: "audit_ok E db0" using audit_run_inv [OF assms(1,2)] by simp
  then have R: "\<forall>r\<in>?R. row_linked E ?R r" by (auto simp: audit_ok_def linked_rows_def)
  have sets: "own_input E ` (?R \<union> ?S) = row_inputs E db0 \<union> row_inputs E db"
    by (auto simp: row_inputs_def set_chained_rows)
  from accepted_report(2) [OF assms(4-6)] obtain b where b: "b \<in> ?S" "text_of (act_chain b) = cp_chain cp"
    "seq_of b = cp_seq_to cp" "text_of (act_hash b) = cp_head_hash cp" by blast
  from assms(3) obtain a where a: "a \<in> ?R" "act_chain a = Some (cp_chain cp)" "seq_of a = cp_seq_to cp"
      "text_of (act_hash a) = cp_head_hash cp" by (fastforce simp: anchored_def seq_of_def)
  note S = accepted_report(1) [OF assms(4)]
  have "event_hash (audit_crypto E) (own_input E a) = event_hash (audit_crypto E) (own_input E b)"
    using R S a b by (auto simp: row_linked_def row_ok_def own_input_def)
  then have ab: "own_input E a = own_input E b"
    by (rule event_hash_inject [OF assms(7), rotated 4]) (use assms(8) sets a(1) b(1) in auto)
  have "1 \<le> seq_of r0" using R assms(9,11) by (auto simp: row_linked_def row_ok_def)
  then have d: "seq_of a - int (nat (cp_seq_to cp - seq_of r0)) = seq_of r0" "1 \<le> seq_of a - int (nat (cp_seq_to cp - seq_of r0))"
    using a(3) assms(12) by auto
  from linked_history_equal [OF R S _ _ a(1) b(1) ab d(2), unfolded sets, OF assms(7,8)] obtain a' b'
    where ab': "a' \<in> ?R" "b' \<in> ?S" "own_input E a' = own_input E b'" "seq_of a' = seq_of r0"
      "text_of (act_chain a') = text_of (act_chain r0)"
    using d(1) a(2) assms(10) by auto
  have "row_key a' = row_key r0"
    using ok0 ab'(1,4,5) assms(9,11) key_of by (auto simp: audit_ok_def linked_rows_def) (metis key_of option.distinct(1))
  then have "a' = r0"
    using ok0 ab'(1) assms(9,11) by (auto simp: audit_ok_def linked_rows_def distinct_map dest: inj_onD)
  then show ?thesis using ab'(2,3) by (auto simp: set_chained_rows)
qed

lemma valid_text_hex [simp]: "valid_text (hex bs)"
proof (rule valid_text_ascii)
  have "hex_digit (unat (b :: 8 word) div 16) < 128" "hex_digit (unat b mod 16) < 128" for b
  proof -
    have "unat b div 16 < 16" "unat b mod 16 < 16"
      using unsigned_less [of b] by (simp_all add: div_less_iff_less_mult)
    then show "hex_digit (unat b div 16) < 128" "hex_digit (unat b mod 16) < 128"
      by (auto simp: hex_digit_def)
  qed
  then show "\<forall>c\<in>set (hex bs). c < 128" by (auto simp: hex_def)
qed

lemma valid_text_event_hash [simp]: "valid_text (event_hash L i)"
  by (simp add: event_hash_def)

lemma valid_text_genesis [simp]: "valid_text genesis_hash"
  by (rule valid_text_ascii) (simp add: genesis_hash_def)

definition demo_row :: "int \<Rightarrow> str \<Rightarrow> activity" where
  "demo_row n h = event_row toy_env demo_chain \<lparr>head_seq = n, head_hash = h\<rparr> [] n demo_event"

definition demo_hash :: str where
  "demo_hash = event_hash toy_audit_lib (event_input demo_chain 1 genesis_hash [] 0 demo_event)"

lemma demo_store_rows: "activities demo_store = [demo_row 0 genesis_hash, demo_row 1 demo_hash]"
  by (simp add: demo_store_def demo_history_def fresh_writer_def calm_eval issue_checkpoint_def
      store_checkpoint_def insert_checkpoint_def last_checkpoint_seq_def seq_of_def toy_env_def op_defs db_defs
      no_faults_def demo_row_def demo_hash_def)

lemma demo_row_valid: "valid_text h \<Longrightarrow> valid_input (own_input toy_env (demo_row n h))"
proof -
  assume h: "valid_text h"
  have "own_input toy_env (demo_row n h) = event_input demo_chain (n + 1) h [] n demo_event"
    using event_row_digest [of toy_env "[]" "\<lparr>head_seq = n, head_hash = h\<rparr>" demo_chain n demo_event]
      toy_laws_hold event_actor_key_bare [of toy_env "calm 0" demo_event]
    by (simp add: own_input_def demo_row_def laws_def)
      (simp add: event_row_def event_actor_key_def resolve_actor_key_def demo_event_def new_event_def)
  moreover have "valid_text (lit s)" if "\<forall>c\<in>set (lit s). c < 128" for s using valid_text_ascii that by blast
  ultimately show ?thesis using h
    by (auto simp: valid_input_def digest_fields_def event_input_def demo_event_def new_event_def demo_chain_def
        category_str_def activity_status_str_def lit_def intro!: valid_text_ascii)
qed

theorem checkpoint_pins_history_witness:
  "\<exists>r\<in>set (activities demo_store). act_seq r \<noteq> None \<and>
    own_input toy_env r = own_input toy_env (demo_row 0 genesis_hash)"
proof -
  let ?r0 = "demo_row 0 genesis_hash"
  have r0: "?r0 \<in> set (activities demo_store)" by (simp add: demo_store_rows)
  obtain ws where run: "audit_run toy_env [] ws demo_store" using demo_store_runs by blast
  obtain cp where cp: "cp \<in> set (checkpoints demo_store)" using demo_store_checkpoints by (cases "checkpoints demo_store") auto
  let ?own = "Some (public_key_b64 (audit_crypto toy_env) [])"
  from audit_run_inv [OF run toy_laws_hold] have ok: "checkpoints_ok toy_env [] demo_store" by simp
  have "cp_chain cp = demo_chain \<and> cp_seq_to cp = 2"
    using cp by (auto simp: demo_store_def demo_history_def fresh_writer_def calm_eval issue_checkpoint_def
      store_checkpoint_def insert_checkpoint_def last_checkpoint_seq_def seq_of_def toy_env_def op_defs db_defs
      no_faults_def)
  moreover have "act_chain ?r0 = Some demo_chain \<and> act_seq ?r0 \<noteq> None \<and> seq_of ?r0 \<le> 2"
    by (auto simp: demo_store_rows demo_row_def event_row_def seq_of_def)
  moreover have "\<forall>i\<in>row_inputs toy_env demo_store. valid_input i"
    by (auto simp: row_inputs_def demo_store_rows demo_hash_def intro!: demo_row_valid)
  moreover have "collision_free (audit_crypto toy_env) I" for I
    by (simp add: collision_free_def toy_env_def toy_audit_lib_def)
  ultimately show "\<exists>r\<in>set (activities demo_store). act_seq r \<noteq> None \<and> own_input toy_env r = own_input toy_env ?r0"
    using honest_history_verifies_facts [OF run toy_laws_hold refl] own_checkpoint_counts [OF toy_laws_hold ok cp] ok cp
    by (intro checkpoint_pins_history [OF run toy_laws_hold, where own = ?own and cp = cp])
      (auto simp: checkpoints_ok_def r0)
qed

section \<open>What the verifier cannot see\<close>

definition drop_tail :: "str \<Rightarrow> int \<Rightarrow> audit_store \<Rightarrow> audit_store" where
  "drop_tail c m db = db\<lparr>activities :=
    filter (\<lambda>r. act_chain r = Some c \<and> act_seq r \<noteq> None \<longrightarrow> seq_of r \<le> m) (activities db)\<rparr>"

lemma drop_tail_ok:
  assumes "audit_ok E db"
  shows "audit_ok E (drop_tail c m db)"
proof -
  let ?keep = "\<lambda>r. act_chain r = Some c \<and> act_seq r \<noteq> None \<longrightarrow> seq_of r \<le> m"
  let ?rows = "filter (\<lambda>r. act_seq r \<noteq> None) (activities db)"
  let ?rest = "filter (\<lambda>r. act_seq r \<noteq> None) (filter ?keep (activities db))"
  have l: "linked_rows E ?rows" using assms by (simp add: audit_ok_def)
  have rest: "?rest = filter ?keep ?rows"
    unfolding filter_filter by (rule filter_cong) blast+
  have "row_linked E (set ?rest) r" if r: "r \<in> set ?rest" for r
  proof -
    have "r \<in> set ?rows" using r by auto
    then have lr: "row_linked E (set ?rows) r" "act_chain r \<noteq> None" using l by (auto simp: linked_rows_def)
    then show ?thesis
    proof (cases "seq_of r = 1 \<and> text_of (act_previous r) = genesis_hash")
      case False
      then obtain q where q: "q \<in> set ?rows" "follows q r" using lr by (auto simp: row_linked_def)
      then have "act_chain q \<noteq> None" using l by (auto simp: linked_rows_def)
      then have "act_chain q = act_chain r" using q(2) lr(2) by (auto simp: follows_def)
      then have "q \<in> set ?rest" using q r by (auto simp: follows_def)
      then show ?thesis using lr(1) q(2) by (auto simp: row_linked_def)
    qed (auto simp: row_linked_def)
  qed
  moreover have "distinct (map row_key ?rows)" using l unfolding linked_rows_def by blast
  then have "distinct (map row_key ?rest)" unfolding rest by (rule distinct_map_filter)
  moreover have "\<forall>r\<in>set ?rest. r \<in> set ?rows" by auto
  ultimately have "linked_rows E ?rest" using l unfolding linked_rows_def by blast
  then show ?thesis by (simp add: audit_ok_def drop_tail_def)
qed

text \<open>
  The verifier does not see a missing tail.  From the table of an honest history, delete all rows
  of a chain after position \<open>m\<close>, where no checkpoint of that chain is later than \<open>m\<close>: the rows since
  the last checkpoint.  The report still says intact, although the rows are gone.
\<close>

theorem tail_truncation_undetected:
  assumes "audit_run E key ws db" "laws E" "own = Some (public_key_b64 (audit_crypto E) key)"
    and "rep_intact (report_of E own db)"
    and "\<forall>cp\<in>set (checkpoints db). cp_chain cp = c \<longrightarrow> cp_seq_to cp \<le> m"
  shows "rep_intact (report_of E own (drop_tail c m db)) \<and>
    (\<forall>r\<in>set (activities (drop_tail c m db)). act_chain r = Some c \<and> act_seq r \<noteq> None \<longrightarrow> seq_of r \<le> m)"
proof -
  from audit_run_inv [OF assms(1,2)] have ok: "audit_ok E db" "checkpoints_ok E key db" by auto
  have same: "checkpoints (drop_tail c m db) = checkpoints db" by (simp add: drop_tail_def)
  have "anchored (drop_tail c m db) cp" if cp: "cp \<in> set (checkpoints db)" for cp
  proof -
    obtain r where "r \<in> set (activities db)" "act_chain r = Some (cp_chain cp)" "act_seq r = Some (cp_seq_to cp)"
      "text_of (act_hash r) = cp_head_hash cp"
      using ok(2) cp by (auto simp: checkpoints_ok_def anchored_def)
    then show ?thesis using assms(5) cp by (auto simp: anchored_def drop_tail_def seq_of_def intro!: bexI [of _ r])
  qed
  then have "rep_intact (report_of E own (drop_tail c m db))"
    using assms(4) report_linked(2,4) [OF drop_tail_ok [OF ok(1)]] report_linked(4) [OF ok(1)]
    by (auto simp: same)
  then show ?thesis by (auto simp: drop_tail_def)
qed

lemma demo_checkpoint_positions: "\<forall>cp\<in>set (checkpoints demo_store). cp_chain cp = demo_chain \<and> cp_seq_to cp = 2"
  by (auto simp: demo_store_def demo_history_def fresh_writer_def calm_eval issue_checkpoint_def
      store_checkpoint_def insert_checkpoint_def last_checkpoint_seq_def seq_of_def toy_env_def op_defs db_defs
      no_faults_def)

text \<open>A third event after the checkpoint, and the table without it.\<close>

definition demo_longer :: audit_store where
  "demo_longer = snd (handle_event toy_env demo_chain (calm 3) demo_event (fresh_writer, demo_store))"

theorem tail_truncation_undetected_witness:
  "rep_intact (report_of toy_env (Some (public_key_b64 (audit_crypto toy_env) [])) (drop_tail demo_chain 2 demo_longer))"
proof -
  obtain ws where run: "audit_run toy_env [] ws demo_store" using demo_store_runs by blast
  obtain w where w: "handle_event toy_env demo_chain (calm 3) demo_event (fresh_writer, demo_store) = (w, demo_longer)"
    unfolding demo_longer_def by (metis prod.collapse)
  from audit_run_inv [OF run toy_laws_hold] have "checkpoints demo_longer = checkpoints demo_store"
    using handle_event_step [OF w] toy_laws_hold by (simp add: laws_def writer_ok_def fresh_writer_def)
  then have cps: "checkpoints demo_longer \<noteq> []"
      "\<forall>cp\<in>set (checkpoints demo_longer). cp_chain cp = demo_chain \<longrightarrow> cp_seq_to cp \<le> 2"
    using demo_store_checkpoints demo_checkpoint_positions by simp_all
  from audit_run.handle [OF audit_run.restart [OF run, of demo_chain], of demo_chain] w
  have long: "audit_run toy_env [] (ws(demo_chain := fresh_writer, demo_chain := w)) demo_longer" by simp
  show ?thesis
    using honest_history_verifies_facts [OF long toy_laws_hold refl] cps
    by (intro tail_truncation_undetected [OF long toy_laws_hold refl, THEN conjunct1]) auto
qed

section \<open>A lost answer silences the writer\<close>

lemma position_taken_next:
  "\<exists>q\<in>set (activities db). act_chain q = Some c \<and> act_seq q = Some (head_seq at + 1) \<Longrightarrow>
    position_taken (event_row E c at k now ev) db"
  by (auto simp: position_taken_def event_row_def)

lemma handle_event_stuck:
  assumes "writer_head w = Some at" "\<exists>q\<in>set (activities db). act_chain q = Some c \<and> act_seq q = Some (head_seq at + 1)"
  shows "handle_event E c h ev (w, db) = (mark_dropped w, db)"
proof -
  have w: "w\<lparr>writer_head := Some at\<rparr> = w" using assms(1) by simp
  obtain e where "write_attempts E (map (hd_fate h) [1..<write_attempts_limit + 1])
      (event_row E c at (event_actor_key E h ev) (hd_now h) ev) db = (Inl e, db)"
    using write_attempts_taken [OF position_taken_next [OF assms(2)]] by blast
  then show ?thesis by (simp add: handle_event_def write_with_retry_def Let_def assms(1) w)
qed

lemma fold_stuck:
  assumes "writer_head w = Some at" "\<exists>q\<in>set (activities db). act_chain q = Some c \<and> act_seq q = Some (head_seq at + 1)"
  shows "\<exists>w'. fold (\<lambda>(h, ev). handle_event E c h ev) hs (w, db) = (w', db) \<and>
    audit_dropped w' = audit_dropped w + length hs \<and> (audit_healthy w' \<longrightarrow> hs = [])"
  using assms(1)
proof (induction hs arbitrary: w)
  case (Cons x hs)
  obtain h ev where x: "x = (h, ev)" by fastforce
  have "writer_head (mark_dropped w) = Some at" using Cons.prems by (simp add: mark_dropped_def)
  from Cons.IH [OF this] obtain w' where w': "fold (\<lambda>(h, ev). handle_event E c h ev) hs (mark_dropped w, db) = (w', db)"
    "audit_dropped w' = audit_dropped (mark_dropped w) + length hs" "audit_healthy w' \<longrightarrow> hs = []" by blast
  then show ?case
    using handle_event_stuck [OF Cons.prems assms(2)] x by (auto simp: mark_dropped_def) 
qed simp

lemma write_attempts_unacknowledged:
  assumes "\<not> position_taken r db"
  shows "\<exists>e. write_attempts E (Unacknowledged d # fs) r db = (Inl e, db\<lparr>activities := activities db @ [r]\<rparr>)"
proof -
  have ins: "insert_activity r db = db\<lparr>activities := activities db @ [r]\<rparr>"
    using assms by (simp add: insert_activity_def)
  show ?thesis
  proof (cases fs)
    case Nil
    then show ?thesis using ins by (simp add: write_event_def)
  next
    case (Cons g gs)
    obtain e where "write_attempts E (g # gs) r (insert_activity r db) = (Inl e, insert_activity r db)"
      using write_attempts_taken [OF position_taken_insert] by blast
    then show ?thesis using Cons ins by (simp add: catch_def write_event_def)
  qed
qed

text \<open>
  C14: One lost answer silences a writer.  When the database executes the insertion of an event but its
  answer is lost, the retries run into the unique index, the writer keeps its old position, and from
  then on every event of the process - however well the database works - is dropped: the table gains
  the one row and nothing else, and each event is counted as dropped, the stored one included.
\<close>

theorem lost_answer_silences_writer:
  assumes "writer_head w = Some at" "hd_fate h 1 = Unacknowledged e"
    and "\<not> (\<exists>q\<in>set (activities db). act_chain q = Some c \<and> act_seq q = Some (head_seq at + 1))"
  shows "\<exists>w' row. fold (\<lambda>(h, ev). handle_event E c h ev) ((h, ev) # hs) (w, db) =
      (w', db\<lparr>activities := activities db @ [row]\<rparr>) \<and>
    audit_dropped w' = audit_dropped w + 1 + length hs \<and> \<not> audit_healthy w'"
proof -
  let ?row = "event_row E c at (event_actor_key E h ev) (hd_now h) ev"
  let ?db = "db\<lparr>activities := activities db @ [?row]\<rparr>" and ?w = "mark_dropped w"
  have w: "w\<lparr>writer_head := Some at\<rparr> = w" using assms(1) by simp
  have "\<not> position_taken ?row db" using assms(3) by (simp add: position_taken_def event_row_def)
  from write_attempts_unacknowledged [OF this] obtain d where
    d: "write_attempts E (Unacknowledged e # map (hd_fate h) [2..<4]) ?row db = (Inl d, ?db)" by blast
  have "map (hd_fate h) [1..<write_attempts_limit + 1] = Unacknowledged e # map (hd_fate h) [2..<4]"
    using assms(2) by (simp add: write_attempts_limit_def upt_rec numeral_2_eq_2 numeral_3_eq_3)
  with d have "write_attempts E (map (hd_fate h) [1..<write_attempts_limit + 1]) ?row db = (Inl d, ?db)"
    by (simp only:)
  then have first: "handle_event E c h ev (w, db) = (?w, ?db)"
    by (simp add: handle_event_def write_with_retry_def Let_def assms(1) w)
  have "writer_head ?w = Some at" using assms(1) by (simp add: mark_dropped_def)
  moreover have "\<exists>q\<in>set (activities ?db). act_chain q = Some c \<and> act_seq q = Some (head_seq at + 1)"
    by (simp add: event_row_def)
  ultimately obtain w' where w': "fold (\<lambda>(h, ev). handle_event E c h ev) hs (?w, ?db) = (w', ?db)"
    "audit_dropped w' = audit_dropped ?w + length hs" "audit_healthy w' \<longrightarrow> hs = []"
    using fold_stuck by blast
  have "\<not> audit_healthy w'"
    using w' by (cases hs) (auto simp: mark_dropped_def)
  then show ?thesis using first w' by (auto simp: mark_dropped_def)
qed

theorem lost_answer_silences_writer_witness:
  "\<exists>w' row. fold (\<lambda>(h, ev). handle_event toy_env demo_chain h ev)
      [((calm 1)\<lparr>hd_fate := \<lambda>_. Unacknowledged (ServerError [])\<rparr>, demo_event), (calm 2, demo_event), (calm 3, demo_event)]
      (fresh_writer\<lparr>writer_head := Some \<lparr>head_seq = 0, head_hash = genesis_hash\<rparr>\<rparr>,
       \<lparr>activities = [], checkpoints = []\<rparr>) =
      (w', \<lparr>activities = [], checkpoints = []\<rparr>\<lparr>activities := [] @ [row]\<rparr>) \<and>
    audit_dropped w' = 0 + 1 + 2 \<and> \<not> audit_healthy w'"
  using lost_answer_silences_writer [of "fresh_writer\<lparr>writer_head := Some \<lparr>head_seq = 0, head_hash = genesis_hash\<rparr>\<rparr>"
      "\<lparr>head_seq = 0, head_hash = genesis_hash\<rparr>" "(calm 1)\<lparr>hd_fate := \<lambda>_. Unacknowledged (ServerError [])\<rparr>"
      "ServerError []" "\<lparr>activities = [], checkpoints = []\<rparr>" demo_chain toy_env demo_event
      "[(calm 2, demo_event), (calm 3, demo_event)]"]
  by (simp add: fresh_writer_def)

section \<open>Every event is accounted for\<close>

inductive logger_run :: "audit_env \<Rightarrow> str \<Rightarrow> nat \<Rightarrow> audit_logger \<Rightarrow> bool" for E c where
  log_start: "logger_run E c 0 \<lparr>log_queue = [], log_parked = [], log_open = True, log_acks = [],
    log_writer = fresh_writer, log_db = \<lparr>activities = [], checkpoints = []\<rparr>\<rparr>"
| log_record: "logger_run E c n s \<Longrightarrow> logger_run E c (Suc n) (record_event ev s)"
| log_flush: "logger_run E c n s \<Longrightarrow> logger_run E c n (send_flush k s)"
| log_timeout: "logger_run E c n s \<Longrightarrow> logger_run E c n (flush_timed_out s)"
| log_unpark: "logger_run E c n s \<Longrightarrow> logger_run E c n (unpark i s)"
| log_handle: "logger_run E c n s \<Longrightarrow> logger_run E c n (handle_next E c h s)"
| log_close: "logger_run E c n s \<Longrightarrow> logger_run E c n (s\<lparr>log_open := False\<rparr>)"

definition pending_events :: "audit_msg list \<Rightarrow> nat" where
  "pending_events ms = count_where (\<lambda>m. case m of EventMsg _ \<Rightarrow> True | FlushMsg _ \<Rightarrow> False) ms"

definition pending :: "audit_logger \<Rightarrow> nat" where
  "pending s = pending_events (log_queue s) + pending_events (log_parked s)"

lemma pending_events_simps [simp]:
  "pending_events [] = 0" "pending_events (EventMsg ev # ms) = Suc (pending_events ms)"
  "pending_events (FlushMsg k # ms) = pending_events ms"
  "pending_events (ms @ ns) = pending_events ms + pending_events ns"
  by (simp_all add: pending_events_def count_where_def)

lemma pending_events_remove:
  "i < length ms \<Longrightarrow> pending_events ms =
    pending_events (take i ms @ drop (Suc i) ms) + (case ms ! i of EventMsg _ \<Rightarrow> 1 | FlushMsg _ \<Rightarrow> 0)"
  by (subst id_take_nth_drop [of i ms]) (auto split: audit_msg.split)

definition row_count :: "audit_logger \<Rightarrow> nat" where
  "row_count s = length (activities (log_db s))"

definition drop_count :: "audit_logger \<Rightarrow> nat" where
  "drop_count s = audit_dropped (log_writer s)"

definition accounted :: "nat \<Rightarrow> audit_logger \<Rightarrow> bool" where
  "accounted n s \<longleftrightarrow> row_count s + pending s \<le> n \<and> n \<le> row_count s + pending s + drop_count s \<and>
    (audit_healthy (log_writer s) \<longrightarrow> drop_count s = 0)"

lemma enqueue_effect:
  "pending (enqueue m s) = pending s + pending_events [m] \<and> log_writer (enqueue m s) = log_writer s \<and>
    log_db (enqueue m s) = log_db s"
  by (simp add: enqueue_def pending_def)

lemma drop_message_effect:
  "pending (drop_message s) = pending s \<and> log_db (drop_message s) = log_db s \<and>
    drop_count (drop_message s) = drop_count s + 1 \<and> \<not> audit_healthy (log_writer (drop_message s))"
  by (simp add: drop_message_def pending_def mark_dropped_def drop_count_def)

lemma unpark_effect:
  "log_db (unpark i s) = log_db s \<and>
    (pending (unpark i s) = pending s \<and> log_writer (unpark i s) = log_writer s \<or>
     pending s = Suc (pending (unpark i s)) \<and> log_writer (unpark i s) = mark_dropped (log_writer s))"
proof (cases "i < length (log_parked s)")
  case True
  then show ?thesis
    using pending_events_remove [OF True]
    by (auto simp: unpark_def Let_def pending_def drop_message_def split: audit_msg.splits)
qed (simp add: unpark_def)

lemma insert_activity_length:
  "length (activities (insert_activity r db)) = length (activities db) + (if position_taken r db then 0 else 1)"
  by (simp add: insert_activity_def)

lemma write_attempts_count:
  assumes "write_attempts E fs r db = (x, db')"
  shows "length (activities db) \<le> length (activities db') \<and> length (activities db') \<le> length (activities db) + 1 \<and>
    (x = Inr () \<longrightarrow> length (activities db') = length (activities db) + 1)"
proof (cases "position_taken r db")
  case True
  then show ?thesis using write_attempts_taken [OF True, of E fs] assms by auto
next
  case False
  then have "r \<notin> set (activities db)" by (auto simp: position_taken_def)
  then show ?thesis using write_attempts_cases [OF assms] insert_activity_length [of r db] False by auto
qed

lemma handle_event_count:
  assumes "handle_event E c h ev (w, db) = (w', db')"
  shows "length (activities db) \<le> length (activities db') \<and> length (activities db') \<le> length (activities db) + 1 \<and>
    (audit_dropped w' = audit_dropped w \<and> audit_healthy w' = audit_healthy w \<and>
      length (activities db') = length (activities db) + 1 \<or>
     audit_dropped w' = audit_dropped w + 1 \<and> \<not> audit_healthy w')"
proof (cases "case writer_head w of Some at \<Rightarrow> Some at | None \<Rightarrow> load_chain_head h c db")
  case None
  then show ?thesis using assms by (auto simp: handle_event_def mark_dropped_def)
next
  case (Some at)
  let ?row = "event_row E c at (event_actor_key E h ev) (hd_now h) ev"
  obtain x db1 where x: "write_attempts E (map (hd_fate h) [1..<write_attempts_limit + 1]) ?row db = (x, db1)"
    by fastforce
  show ?thesis
    using write_attempts_count [OF x] assms Some x
    by (auto simp: handle_event_def write_with_retry_def Let_def mark_dropped_def split: sum.splits)
qed

lemma logger_run_accounted: "logger_run E c n s \<Longrightarrow> accounted n s"
proof (induction rule: logger_run.induct)
  case log_start
  then show ?case by (simp add: accounted_def row_count_def drop_count_def pending_def fresh_writer_def)
next
  case (log_record n s ev)
  then show ?case
    using enqueue_effect [of "EventMsg ev" s] drop_message_effect [of s]
    by (simp add: record_event_def accounted_def row_count_def drop_count_def)
next
  case (log_flush n s k)
  then show ?case
    using enqueue_effect [of "FlushMsg k" s] by (simp add: send_flush_def accounted_def row_count_def drop_count_def)
next
  case (log_timeout n s)
  then show ?case
    using drop_message_effect [of s] by (simp add: flush_timed_out_def accounted_def row_count_def)
next
  case (log_unpark n s i)
  then show ?case
    using unpark_effect [of i s] by (auto simp: accounted_def row_count_def drop_count_def mark_dropped_def)
next
  case (log_handle n s h)
  show ?case
  proof (cases "log_queue s")
    case Nil
    then show ?thesis using log_handle by (simp add: handle_next_def)
  next
    case (Cons m ms)
    show ?thesis
    proof (cases m)
      case (FlushMsg k)
      then show ?thesis
        using log_handle Cons by (simp add: handle_next_def accounted_def pending_def row_count_def drop_count_def)
    next
      case (EventMsg ev)
      obtain w db where w: "handle_event E c h ev (log_writer s, log_db s) = (w, db)" by fastforce
      have step: "handle_next E c h s = s\<lparr>log_queue := ms, log_writer := w, log_db := db\<rparr>"
        using Cons EventMsg w by (simp add: handle_next_def)
      show ?thesis
        using handle_event_count [OF w] log_handle.IH Cons EventMsg
        unfolding step by (auto simp: accounted_def pending_def row_count_def drop_count_def)
    qed
  qed
next
  case (log_close n s)
  then show ?case by (simp add: accounted_def pending_def row_count_def drop_count_def)
qed

text \<open>
  No event disappears silently and none is stored twice.  After any run of one process - recording
  while the queue has room or is full, waiting senders, flushes that answer or time out, a closed
  queue, any database faults - at most the recorded events are stored or still waiting, and every
  recorded event is stored, waiting, or counted as dropped; and as long as the subsystem calls itself
  healthy nothing was dropped at all.
\<close>

theorem events_accounted:
  assumes "logger_run E c n s"
  shows "length (activities (log_db s)) + pending s \<le> n \<and>
    n \<le> length (activities (log_db s)) + pending s + audit_dropped (log_writer s) \<and>
    (audit_healthy (log_writer s) \<longrightarrow> n = length (activities (log_db s)) + pending s)"
  using logger_run_accounted [OF assms] by (auto simp: accounted_def row_count_def drop_count_def)

definition demo_log :: audit_logger where
  "demo_log = record_event demo_event \<lparr>log_queue = [], log_parked = [], log_open = True, log_acks = [],
     log_writer = fresh_writer, log_db = \<lparr>activities = [], checkpoints = []\<rparr>\<rparr>"

theorem events_accounted_witness: "length (activities (log_db demo_log)) + pending demo_log = 1"
proof -
  have "audit_healthy (log_writer demo_log)"
    by (simp add: demo_log_def record_event_def enqueue_def fresh_writer_def)
  then show ?thesis
    using events_accounted [OF logger_run.log_record [OF logger_run.log_start, where ev = demo_event and E = toy_env and c = demo_chain]]
    by (simp add: demo_log_def)
qed

end
