(* ===== verification/Rbac.thy ===== *)
theory Rbac
  imports Identity "HOL-Library.List_Lexorder" "HOL-Library.Product_Lexorder"
begin

text \<open>
  Roles and permissions: \<^verbatim>\<open>src/services/rbac.rs\<close> with the rows of \<^verbatim>\<open>src/models/{role, permission,
  user_role}.rs\<close>, the permission guard of \<^verbatim>\<open>src/utils/permission_middleware.rs\<close>, and the handlers of
  \<^verbatim>\<open>src/routes/rbac.rs\<close>.  Roles hang on identity roots: a user's roles are those of the subject of its
  user row.  The guard also records a refusal in the audit trail (\<open>Audit_Log\<close>); that has no effect here.
\<close>

section \<open>Rows\<close>

record role =
  role_key :: str
  role_name :: str
  role_display_name :: str
  role_description :: "str option"
  role_is_system :: bool
  role_created_at :: int
  role_updated_at :: int

record permission =
  permission_key :: str
  permission_name :: str
  permission_display_name :: str
  permission_description :: "str option"
  permission_resource :: str
  permission_action :: str
  permission_is_system :: bool
  permission_created_at :: int
  permission_updated_at :: int

record user_role =
  ur_key :: str
  ur_actor :: str
  ur_role :: str
  ur_assigned_at :: int
  ur_assigned_by :: str

record role_permission =
  rp_key :: str
  rp_role :: str
  rp_permission :: str
  rp_granted_at :: int
  rp_granted_by :: str

record rbac_world = store +
  roles :: "role list"
  permissions :: "permission list"
  user_roles :: "user_role list"
  role_permissions :: "role_permission list"

type_synonym ('x, 'a) rbac_op = "('x rbac_world_scheme, 'a) handler"

record role_response =
  rr_id :: str
  rr_name :: str
  rr_display_name :: str
  rr_description :: "str option"
  rr_is_system :: bool
  rr_created_at :: int
  rr_updated_at :: int
  rr_permissions :: "str list"

definition role_response_of :: "role \<Rightarrow> role_response" where
  "role_response_of r =
    \<lparr>rr_id = role_key r, rr_name = role_name r, rr_display_name = role_display_name r,
     rr_description = role_description r, rr_is_system = role_is_system r,
     rr_created_at = role_created_at r, rr_updated_at = role_updated_at r, rr_permissions = []\<rparr>"

record role_with_permissions =
  rwp_id :: str
  rwp_name :: str
  rwp_display_name :: str
  rwp_description :: "str option"
  rwp_permissions :: "str list"
  rwp_assigned_at :: int

record user_role_response =
  urr_user :: str
  urr_roles :: "role_with_permissions list"

record create_role_request =
  cr_name :: str
  cr_display_name :: str
  cr_description :: "str option"

record update_role_request =
  upr_display_name :: "str option"
  upr_description :: "str option"

record create_permission_request =
  cp_name :: str
  cp_display_name :: str
  cp_description :: "str option"
  cp_resource :: str
  cp_action :: str

definition role_indexes :: "role index list" where
  "role_indexes = [(''id'', \<lambda>r. [role_key r]), (''role_name_idx'', \<lambda>r. [role_name r])]"

definition permission_indexes :: "permission index list" where
  "permission_indexes = [(''id'', \<lambda>r. [permission_key r]), (''permission_name_idx'', \<lambda>r. [permission_name r])]"

definition user_role_indexes :: "user_role index list" where
  "user_role_indexes = [(''id'', \<lambda>r. [ur_key r]), (''user_role_unique_idx'', \<lambda>r. [ur_actor r, ur_role r])]"

definition role_permission_indexes :: "role_permission index list" where
  "role_permission_indexes =
    [(''id'', \<lambda>r. [rp_key r]), (''role_permission_unique_idx'', \<lambda>r. [rp_role r, rp_permission r])]"

section \<open>Names and paging\<close>

definition rbac_name_char :: "nat \<Rightarrow> bool" where
  "rbac_name_char c \<longleftrightarrow> is_ascii_alphanumeric c \<or> c \<in> {95, 45, 46, 58}"

definition validate_rbac_name :: "string \<Rightarrow> str \<Rightarrow> auth_error + str" where
  "validate_rbac_name kind name =
    (let t = trim name in
     if t = [] then Inl (ValidationError (lit kind @ lit '' name is required''))
     else if 64 < length t then Inl (ValidationError (lit kind @ lit '' name must be at most 64 characters''))
     else if \<not> list_all rbac_name_char t
     then Inl (ValidationError (lit kind @ lit '' name may only contain letters, digits and '' @
            [39, 95, 39, 32, 39, 45, 39, 32, 39, 46, 39, 32, 39, 58, 39]))
     else Inr t)"

text \<open>Pages are counted from 1 in \<^verbatim>\<open>u32\<close>; the product saturates.\<close>

definition page_window :: "nat option \<Rightarrow> nat option \<Rightarrow> nat \<times> nat" where
  "page_window page limit =
    (let p = max 1 (case page of None \<Rightarrow> 1 | Some p \<Rightarrow> p);
         l = min 200 (max 1 (case limit of None \<Rightarrow> 50 | Some l \<Rightarrow> l))
     in (l, min ((p - 1) * l) (2 ^ 32 - 1)))"

definition page_of :: "nat \<times> nat \<Rightarrow> 'a list \<Rightarrow> 'a list" where
  "page_of w rows = take (fst w) (drop (snd w) rows)"

definition as_db_error :: "('s, 'a) handler \<Rightarrow> ('s, 'a) handler" where
  "as_db_error m = map_error (\<lambda>e. DatabaseError (display e)) m"

definition quote_name :: "string \<Rightarrow> str \<Rightarrow> str" where
  "quote_name kind n = lit kind @ [32, 39] @ n @ [39]"

section \<open>Roles\<close>

definition role_by_name :: "str \<Rightarrow> 'x rbac_world_scheme \<Rightarrow> role option" where
  "role_by_name n s = find (\<lambda>r. role_name r = n) (roles s)"

definition permission_by_name :: "str \<Rightarrow> 'x rbac_world_scheme \<Rightarrow> permission option" where
  "permission_by_name n s = find (\<lambda>p. permission_name p = n) (permissions s)"

definition get_role_by_name :: "faults \<Rightarrow> str \<Rightarrow> ('x, role option) rbac_op" where
  "get_role_by_name F n = as_db_error (db_read F ''rbac.q2'' (role_by_name n))"

definition get_permission_by_name :: "faults \<Rightarrow> str \<Rightarrow> ('x, permission option) rbac_op" where
  "get_permission_by_name F n = as_db_error (db_read F ''rbac.q6'' (permission_by_name n))"

definition new_role :: "int \<Rightarrow> str \<Rightarrow> create_role_request \<Rightarrow> str \<Rightarrow> role" where
  "new_role now key req name =
    \<lparr>role_key = key, role_name = name, role_display_name = cr_display_name req,
     role_description = cr_description req, role_is_system = False, role_created_at = now, role_updated_at = now\<rparr>"

definition create_role :: "faults \<Rightarrow> conflict_report \<Rightarrow> int \<Rightarrow> str \<Rightarrow> create_role_request \<Rightarrow>
    ('x, role_response) rbac_op" where
  "create_role F V now key req =
    bind (lift_result (validate_rbac_name ''Role'' (cr_name req))) (\<lambda>name.
    bind (get_role_by_name F name) (\<lambda>found.
    seq (require (found = None) (ValidationError (lit ''Role name already exists'')))
    (seq (as_db_error (seq (database_up F ''rbac.q1'')
      (insert_row V role_indexes roles roles_update (new_role now key req name))))
    (ret (role_response_of (new_role now key req name))))))"

text \<open>
  The names of a batch of roles' permissions, by two queries.  Links are compared as text, and a
  role whose links name no existing permission keeps its empty list.
\<close>

definition links_of :: "str list \<Rightarrow> 'x rbac_world_scheme \<Rightarrow> (str \<times> str) list" where
  "links_of role_keys s =
    map (\<lambda>l. (lit ''role:'' @ rp_role l, lit ''permission:'' @ rp_permission l))
      (filter (\<lambda>l. lit ''role:'' @ rp_role l \<in> set role_keys) (role_permissions s))"

definition names_of :: "str list \<Rightarrow> 'x rbac_world_scheme \<Rightarrow> (str \<times> str) list" where
  "names_of keys s =
    map (\<lambda>p. (lit ''permission:'' @ permission_key p, permission_name p))
      (filter (\<lambda>p. lit ''permission:'' @ permission_key p \<in> set keys) (permissions s))"

definition names_by_role :: "(str \<times> str) list \<Rightarrow> (str \<times> str) list \<Rightarrow> str \<Rightarrow> str list" where
  "names_by_role links named key =
    List.map_filter (\<lambda>(r, p). if r = key then map_of named p else None) links"

definition attach_permissions :: "faults \<Rightarrow> role_response list \<Rightarrow> ('x, role_response list) rbac_op" where
  "attach_permissions F rs =
    (if rs = [] then ret rs
     else bind (db_read F ''rbac_list_role_permission_links''
         (links_of (map (\<lambda>r. lit ''role:'' @ rr_id r) rs))) (\<lambda>links.
       if links = [] then ret rs
       else bind (db_read F ''rbac_list_permission_names''
           (names_of (remdups_adj (sort (map snd links))))) (\<lambda>named.
         ret (map (\<lambda>r. let names = names_by_role links named (lit ''role:'' @ rr_id r) in
           if names = [] then r else r\<lparr>rr_permissions := sort names\<rparr>) rs))))"

definition update_role :: "faults \<Rightarrow> int \<Rightarrow> str \<Rightarrow> update_role_request \<Rightarrow> ('x, role_response) rbac_op" where
  "update_role F now name req =
    bind (get_role_by_name F name) (\<lambda>found.
    bind (the_or found (NotFound (lit ''Role not found''))) (\<lambda>r.
    seq (require (\<not> role_is_system r) (ValidationError (lit ''Cannot update system role'')))
    (seq (require (\<not> (upr_display_name req = None \<and> upr_description req = None))
      (ValidationError (lit ''No fields to update'')))
    (bind (as_db_error (db_exec F ''rbac_update_role'' (\<lambda>s.
        let t = roles_update (update_where (\<lambda>q. role_key q = role_key r) (\<lambda>q.
          q\<lparr>role_display_name := (case upr_display_name req of None \<Rightarrow> role_display_name q | Some d \<Rightarrow> d),
            role_description := (case upr_description req of None \<Rightarrow> role_description q | Some d \<Rightarrow> Some d),
            role_updated_at := now\<rparr>)) s
        in (find (\<lambda>q. role_key q = role_key r) (roles t), t)))) (\<lambda>updated.
     bind (the_or updated (DatabaseError (lit ''Failed to update role''))) (\<lambda>u.
     bind (attach_permissions F [role_response_of u]) (\<lambda>rs.
     ret (hd rs))))))))"

definition delete_role :: "faults \<Rightarrow> str \<Rightarrow> ('x, unit) rbac_op" where
  "delete_role F name =
    bind (get_role_by_name F name) (\<lambda>found.
    bind (the_or found (NotFound (lit ''Role not found''))) (\<lambda>r.
    seq (require (\<not> role_is_system r) (ValidationError (lit ''Cannot delete system role'')))
    (bind (as_db_error (db_read F ''rbac.q3'' (\<lambda>s. count_where (\<lambda>l. ur_role l = role_key r) (user_roles s)))) (\<lambda>n.
     seq (require (n = 0) (ValidationError (lit ''Cannot delete role that is assigned to users'')))
     (seq (as_db_error (db_write F ''rbac.q4''
        (role_permissions_update (delete_where (\<lambda>l. rp_role l = role_key r)))))
     (as_db_error (db_write F ''rbac_delete_role''
        (roles_update (delete_where (\<lambda>q. role_key q = role_key r))))))))))"

definition list_roles :: "faults \<Rightarrow> nat option \<Rightarrow> nat option \<Rightarrow> ('x, role_response list) rbac_op" where
  "list_roles F page limit =
    bind (as_db_error (db_read F ''rbac_list_roles'' (\<lambda>s.
      page_of (page_window page limit) (rev (sort_key role_created_at (roles s)))))) (\<lambda>rs.
    attach_permissions F (map role_response_of rs))"

section \<open>Permissions\<close>

definition new_permission :: "int \<Rightarrow> str \<Rightarrow> create_permission_request \<Rightarrow> str \<Rightarrow> permission" where
  "new_permission now key req name =
    \<lparr>permission_key = key, permission_name = name, permission_display_name = cp_display_name req,
     permission_description = cp_description req, permission_resource = cp_resource req,
     permission_action = cp_action req, permission_is_system = False,
     permission_created_at = now, permission_updated_at = now\<rparr>"

definition create_permission :: "faults \<Rightarrow> conflict_report \<Rightarrow> int \<Rightarrow> str \<Rightarrow> create_permission_request \<Rightarrow>
    ('x, permission) rbac_op" where
  "create_permission F V now key req =
    bind (lift_result (validate_rbac_name ''Permission'' (cp_name req))) (\<lambda>name.
    bind (get_permission_by_name F name) (\<lambda>found.
    seq (require (found = None) (ValidationError (lit ''Permission name already exists'')))
    (seq (as_db_error (seq (database_up F ''rbac.q5'')
      (insert_row V permission_indexes permissions permissions_update (new_permission now key req name))))
    (ret (new_permission now key req name)))))"

definition list_permissions :: "faults \<Rightarrow> nat option \<Rightarrow> nat option \<Rightarrow> ('x, permission list) rbac_op" where
  "list_permissions F page limit =
    as_db_error (db_read F ''rbac_list_permissions'' (\<lambda>s.
      page_of (page_window page limit)
        (sort_key (\<lambda>p. (permission_resource p, permission_action p)) (permissions s))))"

definition permission_names_of_role :: "str \<Rightarrow> 'x rbac_world_scheme \<Rightarrow> str list" where
  "permission_names_of_role rkey s =
    (let ids = map rp_permission (filter (\<lambda>l. rp_role l = rkey) (role_permissions s)) in
     filter (\<lambda>n. n \<noteq> []) (map permission_name (filter (\<lambda>p. permission_key p \<in> set ids) (permissions s))))"

text \<open>Both queries see the same tables; without links the second is not sent.\<close>

definition get_role_permissions :: "faults \<Rightarrow> str \<Rightarrow> ('x, str list) rbac_op" where
  "get_role_permissions F name =
    bind (get_role_by_name F name) (\<lambda>found.
    bind (the_or found (NotFound (quote_name ''Role'' name @ lit '' not found''))) (\<lambda>r.
    bind (as_db_error (db_read F ''rbac.q12'' (\<lambda>s.
      filter (\<lambda>l. rp_role l = role_key r) (role_permissions s)))) (\<lambda>links.
    if links = [] then ret []
    else as_db_error (db_read F ''rbac.q13'' (permission_names_of_role (role_key r))))))"

definition assign_permission_to_role :: "faults \<Rightarrow> conflict_report \<Rightarrow> int \<Rightarrow> str \<Rightarrow> str \<Rightarrow> str \<Rightarrow> user \<Rightarrow>
    ('x, unit) rbac_op" where
  "assign_permission_to_role F V now key rname pname granted_by =
    bind (get_role_by_name F rname) (\<lambda>r.
    bind (the_or r (NotFound (quote_name ''Role'' rname @ lit '' not found''))) (\<lambda>r.
    bind (get_permission_by_name F pname) (\<lambda>p.
    bind (the_or p (NotFound (quote_name ''Permission'' pname @ lit '' not found''))) (\<lambda>p.
    bind (actor_ref_of_user F (user_key granted_by)) (\<lambda>granter.
    bind (as_db_error (db_read F ''rbac.q14'' (\<lambda>s.
      filter (\<lambda>l. rp_role l = role_key r \<and> rp_permission l = permission_key p) (role_permissions s)))) (\<lambda>existing.
    seq (require (existing = []) (ValidationError (lit ''Role already has this permission'')))
    (as_db_error (seq (database_up F ''rbac.q15'')
      (insert_row V role_permission_indexes role_permissions role_permissions_update
        \<lparr>rp_key = key, rp_role = role_key r, rp_permission = permission_key p, rp_granted_at = now,
         rp_granted_by = granter\<rparr>)))))))))"

definition remove_permission_from_role :: "faults \<Rightarrow> str \<Rightarrow> str \<Rightarrow> ('x, unit) rbac_op" where
  "remove_permission_from_role F rname pname =
    bind (get_role_by_name F rname) (\<lambda>r.
    bind (the_or r (NotFound (quote_name ''Role'' rname @ lit '' not found''))) (\<lambda>r.
    bind (get_permission_by_name F pname) (\<lambda>p.
    bind (the_or p (NotFound (quote_name ''Permission'' pname @ lit '' not found''))) (\<lambda>p.
    as_db_error (db_write F ''rbac.q16'' (role_permissions_update
      (delete_where (\<lambda>l. rp_role l = role_key r \<and> rp_permission l = permission_key p))))))))"

section \<open>Roles of users\<close>

definition assign_role :: "faults \<Rightarrow> conflict_report \<Rightarrow> int \<Rightarrow> str \<Rightarrow> str \<Rightarrow> str \<Rightarrow> str \<Rightarrow> ('x, unit) rbac_op" where
  "assign_role F V now key uid rname assigned_by =
    bind (get_role_by_name F rname) (\<lambda>r.
    bind (the_or r (NotFound (quote_name ''Role'' rname @ lit '' not found''))) (\<lambda>r.
    bind (actor_ref_of_user F uid) (\<lambda>actor.
    bind (as_db_error (db_read F ''rbac.q7'' (\<lambda>s.
      filter (\<lambda>l. ur_actor l = actor \<and> ur_role l = role_key r) (user_roles s)))) (\<lambda>existing.
    seq (require (existing = []) (ValidationError (lit ''User already has this role'')))
    (as_db_error (seq (database_up F ''rbac.q8'')
      (insert_row V user_role_indexes user_roles user_roles_update
        \<lparr>ur_key = key, ur_actor = actor, ur_role = role_key r, ur_assigned_at = now,
         ur_assigned_by = assigned_by\<rparr>)))))))"

definition assign_role_to_user :: "faults \<Rightarrow> conflict_report \<Rightarrow> int \<Rightarrow> str \<Rightarrow> str \<Rightarrow> str \<Rightarrow> user \<Rightarrow>
    ('x, unit) rbac_op" where
  "assign_role_to_user F V now key uid rname assigned_by =
    bind (actor_ref_of_user F (user_key assigned_by)) (\<lambda>by. assign_role F V now key uid rname by)"

definition assign_role_as_system :: "faults \<Rightarrow> conflict_report \<Rightarrow> int \<Rightarrow> str \<Rightarrow> str \<Rightarrow> str \<Rightarrow> ('x, unit) rbac_op" where
  "assign_role_as_system F V now key uid rname = assign_role F V now key uid rname (lit ''system'')"

definition remove_role_from_user :: "faults \<Rightarrow> str \<Rightarrow> str \<Rightarrow> ('x, unit) rbac_op" where
  "remove_role_from_user F uid rname =
    bind (get_role_by_name F rname) (\<lambda>r.
    bind (the_or r (NotFound (quote_name ''Role'' rname @ lit '' not found''))) (\<lambda>r.
    bind (actor_ref_of_user F uid) (\<lambda>actor.
    as_db_error (db_write F ''rbac.q9'' (user_roles_update
      (delete_where (\<lambda>l. ur_actor l = actor \<and> ur_role l = role_key r)))))))"

text \<open>The roles of a user: those of the subject of its row; a missing row or subject matches nothing.\<close>

definition assignments_of :: "str \<Rightarrow> 'x rbac_world_scheme \<Rightarrow> user_role list" where
  "assignments_of uid s = filter (\<lambda>l. Some (ur_actor l) = actor_of_user_row uid s) (user_roles s)"

definition later_faults :: "faults \<Rightarrow> nat \<Rightarrow> faults" where
  "later_faults F i = (\<lambda>l n. F l (n + i))"

fun roles_with_permissions :: "faults \<Rightarrow> nat \<Rightarrow> (str \<times> int) list \<Rightarrow> role list \<Rightarrow>
    ('x, role_with_permissions list) rbac_op" where
  "roles_with_permissions F i stamps [] = ret []"
| "roles_with_permissions F i stamps (r # rs) =
    bind (get_role_permissions (later_faults F i) (role_name r)) (\<lambda>ps.
    bind (roles_with_permissions F (Suc i) stamps rs) (\<lambda>rest.
    ret (\<lparr>rwp_id = role_key r, rwp_name = role_name r, rwp_display_name = role_display_name r,
          rwp_description = role_description r, rwp_permissions = ps,
          rwp_assigned_at = (case map_of stamps (role_key r) of None \<Rightarrow> 0 | Some t \<Rightarrow> t)\<rparr> # rest)))"

definition get_user_roles :: "faults \<Rightarrow> str \<Rightarrow> ('x, user_role_response) rbac_op" where
  "get_user_roles F uid =
    (let user_id = normalize_user_id uid in
     bind (as_db_error (db_read F ''rbac.q10'' (assignments_of user_id))) (\<lambda>rows.
     let keys = filter (\<lambda>l. trim (ur_role l) \<noteq> []) rows in
     if keys = [] then ret \<lparr>urr_user = user_id, urr_roles = []\<rparr>
     else bind (as_db_error (db_read F ''rbac.q11'' (\<lambda>s.
         filter (\<lambda>r. role_key r \<in> set (map (\<lambda>l. trim (ur_role l)) keys)) (roles s)))) (\<lambda>rs.
       bind (roles_with_permissions F 0 (rev (map (\<lambda>l. (trim (ur_role l), ur_assigned_at l)) keys)) rs) (\<lambda>out.
       ret \<lparr>urr_user = user_id, urr_roles = out\<rparr>))))"

section \<open>Checks\<close>

definition permission_count :: "str \<Rightarrow> str \<Rightarrow> 'x rbac_world_scheme \<Rightarrow> nat" where
  "permission_count uid pname s =
    count_where (\<lambda>l. rp_role l \<in> set (map ur_role (assignments_of uid s)) \<and>
      rp_permission l \<in> set (map permission_key (filter (\<lambda>p. permission_name p = pname) (permissions s))))
    (role_permissions s)"

definition check_user_permission :: "faults \<Rightarrow> str \<Rightarrow> str \<Rightarrow> ('x, bool) rbac_op" where
  "check_user_permission F uid pname =
    bind (db_read F ''check_user_permission'' (permission_count (normalize_user_id uid) pname)) (\<lambda>n. ret (0 < n))"

definition role_count :: "str \<Rightarrow> str \<Rightarrow> 'x rbac_world_scheme \<Rightarrow> nat" where
  "role_count uid rname s =
    count_where (\<lambda>l. Some (ur_actor l) = actor_of_user_row uid s \<and>
      ur_role l \<in> set (map role_key (filter (\<lambda>r. role_name r = rname) (roles s)))) (user_roles s)"

definition check_user_role :: "faults \<Rightarrow> str \<Rightarrow> str \<Rightarrow> ('x, bool) rbac_op" where
  "check_user_role F uid rname =
    bind (db_read F ''check_user_role'' (role_count (normalize_user_id uid) rname)) (\<lambda>n. ret (0 < n))"

definition permission_names_of_user :: "str \<Rightarrow> 'x rbac_world_scheme \<Rightarrow> str list" where
  "permission_names_of_user uid s =
    (let held = map ur_role (assignments_of uid s);
         ids = map rp_permission (filter (\<lambda>l. rp_role l \<in> set held) (role_permissions s))
     in map permission_name (filter (\<lambda>p. permission_key p \<in> set ids) (permissions s)))"

definition get_user_permissions :: "faults \<Rightarrow> str \<Rightarrow> ('x, str list) rbac_op" where
  "get_user_permissions F uid =
    bind (as_db_error (db_read F ''rbac.q17'' (permission_names_of_user (normalize_user_id uid)))) (\<lambda>names.
    ret (remdups_adj (sort (filter (\<lambda>n. n \<noteq> []) names))))"

definition require_permission :: "faults \<Rightarrow> str \<Rightarrow> str \<Rightarrow> ('x, unit) rbac_op" where
  "require_permission F uid pname =
    catch (check_user_permission F uid pname)
      (\<lambda>e. throw (wrap_error ''Permission check failed: '' e))
      (\<lambda>ok. require ok (MissingPermission pname))"

definition require_role :: "faults \<Rightarrow> str \<Rightarrow> str \<Rightarrow> ('x, unit) rbac_op" where
  "require_role F uid rname =
    catch (check_user_role F uid rname)
      (\<lambda>e. throw (wrap_error ''Role check failed: '' e))
      (\<lambda>ok. require ok (Forbidden (lit ''Missing role: '' @ rname)))"

end
