(* ===== verification/Rbac_Routes.thy ===== *)
theory Rbac_Routes
  imports Rbac
begin

text \<open>
  The handlers of \<^verbatim>\<open>src/routes/rbac.rs\<close> over the service, each behind its permission.  \<open>guarded\<close> is the
  contract of a permission guard: it lets a request pass only when the requester holds the permission,
  and changes nothing itself.
\<close>

section \<open>Guards\<close>

locale guarded =
  fixes guard :: "'u \<Rightarrow> 'p \<Rightarrow> ('s, 'e, unit) op" and holds :: "'u \<Rightarrow> 'p \<Rightarrow> 's \<Rightarrow> bool"
  assumes guard_passes: "guard u p s = (Inr (), t) \<Longrightarrow> t = s \<and> holds u p s"
    and guard_refuses: "guard u p s = (Inl e, t) \<Longrightarrow> t = s"
begin

lemma guarded_cases: "seq (guard u p) m s = (r, t) \<Longrightarrow>
  (\<exists>e. r = Inl e) \<and> t = s \<or> holds u p s \<and> m s = (r, t)"
  by (cases "guard u p s"; cases "fst (guard u p s)")
    (auto simp: seq_def bind_def dest: guard_passes guard_refuses)

lemma guarded_powerless: "\<not> holds u p s \<Longrightarrow> snd (seq (guard u p) m s) = s"
  using guarded_cases [of u p m s "fst (seq (guard u p) m s)" "snd (seq (guard u p) m s)"] by auto

text \<open>Requests of users who lack the permissions they need leave the state alone, in any number.\<close>

lemma powerless_run:
  assumes "\<And>s q. q \<in> set qs \<Longrightarrow> \<exists>m. serve q = seq (guard (who q) (needs q)) m"
    and "\<And>q. q \<in> set qs \<Longrightarrow> \<not> holds (who q) (needs q) s"
  shows "fold (\<lambda>q s. snd (serve q s)) qs s = s"
  using assms
proof (induction qs)
  case (Cons q qs)
  obtain m where "serve q = seq (guard (who q) (needs q)) m" using Cons.prems(1) by (meson list.set_intros(1))
  then have "snd (serve q s) = s" using guarded_powerless Cons.prems(2) by (metis list.set_intros(1))
  moreover have "fold (\<lambda>q s. snd (serve q s)) qs s = s"
    by (rule Cons.IH) (use Cons.prems in \<open>auto\<close>)
  ultimately show ?case by simp
qed simp

end

section \<open>Handlers\<close>

definition auth_local :: "string \<Rightarrow> str" where
  "auth_local n = lit ''soulauth:'' @ lit n"

definition users_read :: str where "users_read = auth_local ''users.read''"
definition users_write :: str where "users_write = auth_local ''users.write''"
definition roles_read :: str where "roles_read = auth_local ''roles.read''"
definition roles_write :: str where "roles_write = auth_local ''roles.write''"
definition roles_delete :: str where "roles_delete = auth_local ''roles.delete''"
definition permissions_read :: str where "permissions_read = auth_local ''permissions.read''"
definition permissions_write :: str where "permissions_write = auth_local ''permissions.write''"
definition security_read :: str where "security_read = auth_local ''security.read''"
definition security_write :: str where "security_write = auth_local ''security.write''"
definition audit_read :: str where "audit_read = auth_local ''audit.read''"
definition oidc_clients_read :: str where "oidc_clients_read = auth_local ''oidc_clients.read''"
definition oidc_clients_write :: str where "oidc_clients_write = auth_local ''oidc_clients.write''"
definition actors_read :: str where "actors_read = auth_local ''actors.read''"
definition actors_write :: str where "actors_write = auth_local ''actors.write''"

definition create_role_route :: "faults \<Rightarrow> conflict_report \<Rightarrow> int \<Rightarrow> str \<Rightarrow> user \<Rightarrow> create_role_request \<Rightarrow>
    ('x, role_response) rbac_op" where
  "create_role_route F V now key u req =
    seq (require_permission F (user_key u) roles_write) (create_role F V now key req)"

definition list_roles_route :: "faults \<Rightarrow> user \<Rightarrow> nat option \<Rightarrow> nat option \<Rightarrow> ('x, role_response list) rbac_op" where
  "list_roles_route F u page limit =
    seq (require_permission F (user_key u) roles_read) (list_roles F page limit)"

text \<open>A role whose permissions cannot be read is shown without them.\<close>

definition get_role_route :: "faults \<Rightarrow> user \<Rightarrow> str \<Rightarrow> ('x, role_response) rbac_op" where
  "get_role_route F u name =
    seq (require_permission F (user_key u) roles_read)
    (bind (get_role_by_name F name) (\<lambda>found.
     bind (the_or found (NotFound (quote_name ''Role'' name @ lit '' not found''))) (\<lambda>r.
     catch (get_role_permissions (later_faults F 1) name)
       (\<lambda>_. ret (role_response_of r))
       (\<lambda>ps. ret ((role_response_of r)\<lparr>rr_permissions := ps\<rparr>)))))"

definition update_role_route :: "faults \<Rightarrow> int \<Rightarrow> user \<Rightarrow> str \<Rightarrow> update_role_request \<Rightarrow> ('x, role_response) rbac_op" where
  "update_role_route F now u name req =
    seq (require_permission F (user_key u) roles_write) (update_role F now name req)"

definition delete_role_route :: "faults \<Rightarrow> user \<Rightarrow> str \<Rightarrow> ('x, unit) rbac_op" where
  "delete_role_route F u name =
    seq (require_permission F (user_key u) roles_delete) (delete_role F name)"

definition create_permission_route :: "faults \<Rightarrow> conflict_report \<Rightarrow> int \<Rightarrow> str \<Rightarrow> user \<Rightarrow>
    create_permission_request \<Rightarrow> ('x, permission) rbac_op" where
  "create_permission_route F V now key u req =
    seq (require_permission F (user_key u) permissions_write) (create_permission F V now key req)"

definition list_permissions_route :: "faults \<Rightarrow> user \<Rightarrow> nat option \<Rightarrow> nat option \<Rightarrow> ('x, permission list) rbac_op" where
  "list_permissions_route F u page limit =
    seq (require_permission F (user_key u) permissions_read) (list_permissions F page limit)"

definition get_permission_route :: "faults \<Rightarrow> user \<Rightarrow> str \<Rightarrow> ('x, permission) rbac_op" where
  "get_permission_route F u name =
    seq (require_permission F (user_key u) permissions_read)
    (bind (get_permission_by_name F name) (\<lambda>found.
     the_or found (NotFound (quote_name ''Permission'' name @ lit '' not found''))))"

definition get_role_permissions_route :: "faults \<Rightarrow> user \<Rightarrow> str \<Rightarrow> ('x, str list) rbac_op" where
  "get_role_permissions_route F u name =
    seq (require_permission F (user_key u) roles_read) (get_role_permissions F name)"

definition assign_permission_route :: "faults \<Rightarrow> conflict_report \<Rightarrow> int \<Rightarrow> str \<Rightarrow> user \<Rightarrow> str \<Rightarrow> str \<Rightarrow>
    ('x, unit) rbac_op" where
  "assign_permission_route F V now key u rname pname =
    seq (require_permission F (user_key u) permissions_write)
      (assign_permission_to_role F V now key rname pname u)"

definition remove_permission_route :: "faults \<Rightarrow> user \<Rightarrow> str \<Rightarrow> str \<Rightarrow> ('x, unit) rbac_op" where
  "remove_permission_route F u rname pname =
    seq (require_permission F (user_key u) permissions_write) (remove_permission_from_role F rname pname)"

text \<open>One's own roles and permissions need no permission; a check that fails counts as a refusal.\<close>

definition self_or_users_read :: "faults \<Rightarrow> user \<Rightarrow> str \<Rightarrow> ('x, unit) rbac_op" where
  "self_or_users_read F u target =
    (if user_key u = target then ret ()
     else catch (check_user_permission F (user_key u) users_read)
       (\<lambda>_. throw (MissingPermission users_read))
       (\<lambda>ok. require ok (MissingPermission users_read)))"

definition get_user_roles_route :: "faults \<Rightarrow> user \<Rightarrow> str \<Rightarrow> ('x, user_role_response) rbac_op" where
  "get_user_roles_route F u target =
    (let uid = normalize_user_id target in seq (self_or_users_read F u uid) (get_user_roles F uid))"

definition get_user_permissions_route :: "faults \<Rightarrow> user \<Rightarrow> str \<Rightarrow> ('x, str list) rbac_op" where
  "get_user_permissions_route F u target =
    (let uid = normalize_user_id target in seq (self_or_users_read F u uid) (get_user_permissions F uid))"

definition assign_role_route :: "faults \<Rightarrow> conflict_report \<Rightarrow> int \<Rightarrow> str \<Rightarrow> user \<Rightarrow> str \<Rightarrow> str \<Rightarrow> ('x, unit) rbac_op" where
  "assign_role_route F V now key u target rname =
    seq (require_permission F (user_key u) roles_write)
      (assign_role_to_user F V now key (normalize_user_id target) rname u)"

definition remove_role_route :: "faults \<Rightarrow> user \<Rightarrow> str \<Rightarrow> str \<Rightarrow> ('x, unit) rbac_op" where
  "remove_role_route F u target rname =
    seq (require_permission F (user_key u) roles_write)
      (remove_role_from_user F (normalize_user_id target) rname)"

definition check_permission_route :: "faults \<Rightarrow> user \<Rightarrow> str \<Rightarrow> ('x, bool) rbac_op" where
  "check_permission_route F u pname = check_user_permission F (user_key u) pname"

definition check_role_route :: "faults \<Rightarrow> user \<Rightarrow> str \<Rightarrow> ('x, bool) rbac_op" where
  "check_role_route F u rname = check_user_role F (user_key u) rname"

section \<open>What the guard knows\<close>

definition has_permission :: "str \<Rightarrow> str \<Rightarrow> 'x rbac_world_scheme \<Rightarrow> bool" where
  "has_permission uid pname s \<longleftrightarrow> 0 < permission_count (normalize_user_id uid) pname s"

lemma as_db_error_success [op_success]: "as_db_error m s = (Inr a, t) \<longleftrightarrow> m s = (Inr a, t)"
  by (simp add: as_db_error_def op_success)

lemma as_db_error_failure [op_failure]:
  "as_db_error m s = (Inl e, t) \<longleftrightarrow> (\<exists>f. e = DatabaseError (display f) \<and> m s = (Inl f, t))"
  by (auto simp: as_db_error_def op_failure)

lemma get_role_success [op_success]:
  "get_role_by_name F n s = (Inr x, t) \<longleftrightarrow> F (lit ''rbac.q2'') 0 = None \<and> x = role_by_name n s \<and> t = s"
  by (simp add: get_role_by_name_def op_success)

lemma get_permission_success [op_success]:
  "get_permission_by_name F n s = (Inr x, t) \<longleftrightarrow> F (lit ''rbac.q6'') 0 = None \<and> x = permission_by_name n s \<and> t = s"
  by (simp add: get_permission_by_name_def op_success)

lemma get_by_name_failure [op_failure]:
  "get_role_by_name F n s = (Inl e, t) \<longleftrightarrow>
    (\<exists>f. F (lit ''rbac.q2'') 0 = Some f \<and> e = DatabaseError (display f)) \<and> t = s"
  "get_permission_by_name F n s = (Inl e, t) \<longleftrightarrow>
    (\<exists>f. F (lit ''rbac.q6'') 0 = Some f \<and> e = DatabaseError (display f)) \<and> t = s"
  by (auto simp: get_role_by_name_def get_permission_by_name_def op_failure)

lemma preserves_as_db_error [preserve]: "preserves I m \<Longrightarrow> preserves I (as_db_error m)"
  by (simp add: as_db_error_def preserves_map_error)

lemma check_user_permission_pure: "check_user_permission F uid p s = (r, t) \<Longrightarrow>
  t = s \<and> (r = Inr True \<longrightarrow> has_permission uid p s)"
  by (auto simp: check_user_permission_def has_permission_def db_defs op_defs split: option.splits)

lemma require_permission_pure: "require_permission F uid p s = (r, t) \<Longrightarrow>
  t = s \<and> (r = Inr () \<longrightarrow> has_permission uid p s)"
  by (auto simp: require_permission_def catch_def require_def split: prod.splits sum.splits if_splits
      dest: check_user_permission_pure)

text \<open>The requester comes with the faults its request meets.\<close>

interpretation permission_guard: guarded "\<lambda>w. require_permission (fst w) (snd w)" "\<lambda>w. has_permission (snd w)"
  by unfold_locales (auto dest: require_permission_pure)

lemmas route_cases = permission_guard.guarded_cases [of "(F, uid)" for F uid, simplified]

end
