(* ===== verification/Config.thy ===== *)
theory Config
  imports Prelude Strings
begin

text \<open>
  The configuration of \<^verbatim>\<open>src/config.rs\<close>.  The process environment is a function from variable names to
  their text (\<open>None\<close> for an unset or non-Unicode variable) and is the state that \<open>from_env\<close> reads;
  the checks that refuse to start are values of \<open>config_error\<close>.
\<close>

section \<open>Variables\<close>

datatype config_error = MissingVar string | InvalidVar string str

type_synonym environment = "string \<Rightarrow> str option"

type_synonym 'a config_op = "(environment, config_error, 'a) op"

definition non_empty :: "str \<Rightarrow> str option" where
  "non_empty s = (if s = [] then None else Some s)"

definition required :: "string \<Rightarrow> str config_op" where
  "required name = bind (reads (\<lambda>E. E name)) (\<lambda>v.
     the_or (Option.bind (map_option trim v) non_empty) (MissingVar name))"

definition optional :: "environment \<Rightarrow> string \<Rightarrow> str option" where
  "optional E name = Option.bind (map_option trim (E name)) non_empty"

definition optional_raw :: "environment \<Rightarrow> string \<Rightarrow> str option" where
  "optional_raw E name = map_option trim (E name)"

text \<open>
  \<^verbatim>\<open>str::parse\<close> at an integer type with the bounds \<open>lo\<close> and \<open>hi\<close>: an optional sign, at least one digit;
  a minus sign is not a digit of an unsigned type.
\<close>

definition parse_digits :: "str \<Rightarrow> int option" where
  "parse_digits s = (if s \<noteq> [] \<and> list_all is_ascii_digit s then Some (int (undec s 0)) else None)"

definition parse_integer :: "int \<Rightarrow> int \<Rightarrow> str \<Rightarrow> int option" where
  "parse_integer lo hi s =
    (let n = (case s of
        [] \<Rightarrow> None
      | c # t \<Rightarrow> if c = 43 then parse_digits t
                 else if c = 45 \<and> lo < 0 then map_option uminus (parse_digits t)
                 else parse_digits s) in
     Option.bind n (\<lambda>i. if lo \<le> i \<and> i \<le> hi then Some i else None))"

definition parse_with_default :: "int \<Rightarrow> int \<Rightarrow> string \<Rightarrow> int \<Rightarrow> int config_op" where
  "parse_with_default lo hi name dflt =
    bind (reads (\<lambda>E. optional E name)) (\<lambda>v.
    (case v of
       None \<Rightarrow> ret dflt
     | Some raw \<Rightarrow> the_or (parse_integer lo hi raw)
         (InvalidVar name (lit ''cannot parse '' @ [96] @ raw @ [96]))))"

definition parse_bool :: "environment \<Rightarrow> string \<Rightarrow> bool \<Rightarrow> bool" where
  "parse_bool E name dflt =
    (case optional E name of
       None \<Rightarrow> dflt
     | Some v \<Rightarrow> to_ascii_lowercase v \<in> {lit ''1'', lit ''true'', lit ''yes'', lit ''on''})"

definition both_present :: "str option \<Rightarrow> str option \<Rightarrow> bool" where
  "both_present a b \<longleftrightarrow>
    (let filled = (\<lambda>v. case v of None \<Rightarrow> False | Some s \<Rightarrow> trim s \<noteq> []) in filled a \<and> filled b)"

section \<open>Hosts\<close>

text \<open>\<^verbatim>\<open>split_once\<close> at a string, and \<^verbatim>\<open>trim_end_matches\<close>.\<close>

fun cut_at :: "str \<Rightarrow> str \<Rightarrow> (str \<times> str) option" where
  "cut_at p [] = (if p = [] then Some ([], []) else None)"
| "cut_at p (c # s) =
    (case strip_prefix p (c # s) of
       Some r \<Rightarrow> Some ([], r)
     | None \<Rightarrow> map_option (\<lambda>(l, r). (c # l, r)) (cut_at p s))"

definition trim_end_matches :: "nat \<Rightarrow> str \<Rightarrow> str" where
  "trim_end_matches d s = rev (dropWhile (\<lambda>c. c = d) (rev s))"

definition starts_with :: "str \<Rightarrow> str \<Rightarrow> bool" where
  "starts_with p s \<longleftrightarrow> strip_prefix p s \<noteq> None"

definition host_of :: "str \<Rightarrow> str option" where
  "host_of url =
    Option.bind (cut_at (lit ''://'') url) (\<lambda>(_, rest).
    case strip_prefix [91] rest of
      Some inner \<Rightarrow> map_option (\<lambda>(l, _). 91 # l @ [93]) (split_once 93 inner)
    | None \<Rightarrow> non_empty (takeWhile (\<lambda>c. c \<notin> {47, 58}) rest))"

definition is_loopback_host :: "str \<Rightarrow> bool" where
  "is_loopback_host h \<longleftrightarrow> h \<in> {lit ''127.0.0.1'', lit ''localhost'', lit ''[::1]'', lit ''::1''}"

text \<open>
  The shared criterion of the two URL checks below and of the redirect URIs of a client: \<^verbatim>\<open>https\<close>, or
  a loopback host.
\<close>

datatype url_verdict = UrlFine | UrlPlaintext | UrlRelative

definition judge_url :: "str \<Rightarrow> url_verdict" where
  "judge_url raw =
    (if starts_with (lit ''https://'') raw then UrlFine
     else (case host_of raw of
         Some h \<Rightarrow> if is_loopback_host h then UrlFine else UrlPlaintext
       | None \<Rightarrow> UrlRelative))"

definition check_oauth_base_url :: "string \<Rightarrow> str option \<Rightarrow> config_error + unit" where
  "check_oauth_base_url name value =
    (case Option.bind (map_option trim value) non_empty of
       None \<Rightarrow> Inr ()
     | Some raw \<Rightarrow>
         if last raw = 47 then Inl (InvalidVar name (lit ''must not end with a trailing slash''))
         else (case judge_url raw of
             UrlFine \<Rightarrow> Inr ()
           | UrlPlaintext \<Rightarrow> Inl (InvalidVar name (lit ''plaintext http is only allowed for loopback hosts; a remote OAuth endpoint must use https or the client secret and access tokens travel in the clear''))
           | UrlRelative \<Rightarrow> Inl (InvalidVar name (lit ''must start with https:// or http://''))))"

definition check_oauth_redirect_url :: "str option \<Rightarrow> config_error + unit" where
  "check_oauth_redirect_url value =
    (case Option.bind (map_option trim value) non_empty of
       None \<Rightarrow> Inr ()
     | Some raw \<Rightarrow>
         (case judge_url raw of
             UrlFine \<Rightarrow> Inr ()
           | UrlPlaintext \<Rightarrow> Inl (InvalidVar ''OAUTH_REDIRECT_URL'' (lit ''plaintext http is only allowed for loopback hosts; a remote callback URL must use https or the authorization code travels in the clear''))
           | UrlRelative \<Rightarrow> Inl (InvalidVar ''OAUTH_REDIRECT_URL'' (lit ''must be an absolute URL starting with https:// or http://''))))"

definition check_cors_origins :: "str list \<Rightarrow> config_error + unit" where
  "check_cors_origins origins =
    (if lit ''*'' \<in> set origins
     then Inl (InvalidVar ''CORS_ALLOWED_ORIGINS'' (lit ''`*` is not accepted: it would let any site call this service with the user's Authorization header. List the origins explicitly, or leave it empty to allow only APP_URL itself''))
     else Inr ())"

section \<open>The configuration\<close>

record config =
  cfg_database_url :: str
  cfg_database_user :: str
  cfg_database_pass :: str
  cfg_database_namespace :: str
  cfg_database_name :: str
  cfg_database_connection_timeout :: int
  cfg_jwt_secret :: str
  cfg_jwt_expiration :: int
  cfg_google_client_id :: "str option"
  cfg_google_client_secret :: "str option"
  cfg_github_client_id :: "str option"
  cfg_github_client_secret :: "str option"
  cfg_oauth_redirect_url :: "str option"
  cfg_google_oauth_base_url :: "str option"
  cfg_github_oauth_base_url :: "str option"
  cfg_proxy_enabled :: bool
  cfg_proxy_url :: "str option"
  cfg_smtp_host :: str
  cfg_smtp_port :: int
  cfg_smtp_username :: str
  cfg_smtp_password :: str
  cfg_smtp_from :: str
  cfg_smtp_insecure :: bool
  cfg_app_url :: str
  cfg_email_verification_enabled :: bool
  cfg_trust_proxy_headers :: bool
  cfg_bootstrap_token :: "str option"
  cfg_cors_allowed_origins :: "str list"
  cfg_oidc_rsa_private_key_pem :: "str option"
  cfg_oidc_rsa_private_key_path :: "str option"
  cfg_password_min_length :: int
  cfg_mfa_encryption_key :: "str option"
  cfg_instance_id :: "str option"
  cfg_audit_integrity_key :: "str option"
  cfg_login_page_url :: "str option"
  cfg_verify_email_page_url :: "str option"
  cfg_reset_password_page_url :: "str option"
  cfg_bind_addr :: str
  cfg_session_cache_ttl_seconds :: int
  cfg_lockout_max_attempts :: int
  cfg_lockout_duration_minutes :: int
  cfg_lockout_reset_window_minutes :: int
  cfg_lockout_user_enabled :: bool
  cfg_lockout_ip_enabled :: bool

definition google_configured :: "config \<Rightarrow> bool" where
  "google_configured c \<longleftrightarrow> both_present (cfg_google_client_id c) (cfg_google_client_secret c)"

definition github_configured :: "config \<Rightarrow> bool" where
  "github_configured c \<longleftrightarrow> both_present (cfg_github_client_id c) (cfg_github_client_secret c)"

definition any_oauth_provider_configured :: "config \<Rightarrow> bool" where
  "any_oauth_provider_configured c \<longleftrightarrow> google_configured c \<or> github_configured c"

definition serves_remote_clients :: "config \<Rightarrow> bool" where
  "serves_remote_clients c =
    (case host_of (trim (cfg_app_url c)) of None \<Rightarrow> True | Some h \<Rightarrow> \<not> is_loopback_host h)"

definition database_is_local :: "config \<Rightarrow> bool" where
  "database_is_local c = (case host_of (cfg_database_url c) of None \<Rightarrow> False | Some h \<Rightarrow> is_loopback_host h)"

definition database_is_encrypted :: "config \<Rightarrow> bool" where
  "database_is_encrypted c =
    (let url = to_ascii_lowercase (trim (cfg_database_url c)) in
     starts_with (lit ''https://'') url \<or> starts_with (lit ''wss://'') url)"

definition cookies_secure :: "config \<Rightarrow> bool" where
  "cookies_secure c = starts_with (lit ''https://'') (to_ascii_lowercase (trim (cfg_app_url c)))"

definition must :: "bool \<Rightarrow> string \<Rightarrow> string \<Rightarrow> config_error + unit \<Rightarrow> config_error + unit" where
  "must b name reason k = (if b then k else Inl (InvalidVar name (lit reason)))"

definition check_production_secrets :: "config \<Rightarrow> config_error + unit" where
  "check_production_secrets c =
    (if \<not> serves_remote_clients c then Inr ()
     else
       must (starts_with (lit ''https://'') (to_ascii_lowercase (trim (cfg_app_url c)))) ''APP_URL''
         ''must use https when it is not a loopback address; over plaintext the session cookie loses `Secure`, mail links are unencrypted, and the OIDC issuer violates the Discovery spec. Terminate TLS in front of SoulAuth and set APP_URL to the public https address''
       (must (\<not> (cfg_oidc_rsa_private_key_pem c = None \<and> cfg_oidc_rsa_private_key_path c = None)) ''OIDC_RSA_PRIVATE_KEY_PEM''
         ''a persistent OIDC signing key is required when APP_URL is not a loopback address; without it every restart invalidates all issued ID tokens and replicas sign with different keys. Set OIDC_RSA_PRIVATE_KEY_PEM or OIDC_RSA_PRIVATE_KEY_PATH''
       (must (cfg_mfa_encryption_key c \<noteq> None) ''MFA_SECRET_ENCRYPTION_KEY''
         ''a dedicated MFA encryption key is required when APP_URL is not a loopback address. There is no fallback: MFA is unavailable without it, because deriving it from another secret would mean rotating that secret locks every MFA user out. Generate one with `openssl rand -base64 32`''
       (must (database_is_local c \<or> database_is_encrypted c) ''DATABASE_URL''
         ''must use https:// or wss:// when the database is not on loopback; over plaintext the root credentials, every query, all password hashes and all session fingerprints travel unencrypted''
       (must (database_is_local c \<or> to_ascii_lowercase (trim (cfg_database_user c)) \<noteq> lit ''root'') ''DATABASE_USER''
         ''must not be `root` in production: define a namespace- or database-scoped user with only the privileges SoulAuth needs, so that a single injection or a leaked connection string is not whole-cluster access''
       (must (Option.bind (map_option trim (cfg_instance_id c)) non_empty \<noteq> None) ''SOULAUTH_INSTANCE_ID''
         ''must be set explicitly when APP_URL is not a loopback address; it names this replica's audit hash chain, and two replicas sharing one name collide on the unique index, which silently drops the later replica's audit events. Use the pod or host name''
       (must (cfg_audit_integrity_key c \<noteq> None) ''AUDIT_INTEGRITY_KEY''
         ''a dedicated audit integrity key is required when APP_URL is not a loopback address; without it no checkpoint is signed, and a hash chain alone can be recomputed by anyone holding database write access. Generate one with `openssl rand -base64 32`''
       (Inr ()))))))))"

definition cors_of_env :: "environment \<Rightarrow> str list" where
  "cors_of_env E =
    (case optional E ''CORS_ALLOWED_ORIGINS'' of
       None \<Rightarrow> []
     | Some raw \<Rightarrow> filter (\<lambda>w. w \<noteq> []) (map (\<lambda>w. trim_end_matches 47 (trim w)) (split_on (\<lambda>c. c = 44) raw)))"

definition or_default :: "str option \<Rightarrow> string \<Rightarrow> str" where
  "or_default v d = (case v of None \<Rightarrow> lit d | Some s \<Rightarrow> s)"

abbreviation u16_max :: int where "u16_max \<equiv> 2 ^ 16 - 1"
abbreviation u32_max :: int where "u32_max \<equiv> 2 ^ 32 - 1"
abbreviation u64_max :: int where "u64_max \<equiv> 2 ^ 64 - 1"
abbreviation i64_min :: int where "i64_min \<equiv> - (2 ^ 63)"
abbreviation i64_max :: int where "i64_max \<equiv> 2 ^ 63 - 1"

definition check_config :: "config \<Rightarrow> config_error + unit" where
  "check_config c =
    (if byte_len (cfg_jwt_secret c) < 32
     then Inl (InvalidVar ''JWT_SECRET'' (lit ''must be at least 32 characters''))
     else if cfg_lockout_max_attempts c = 0
     then Inl (InvalidVar ''LOCKOUT_MAX_ATTEMPTS'' (lit ''must be at least 1; zero would lock every account on first attempt''))
     else if cfg_lockout_duration_minutes c = 0
     then Inl (InvalidVar ''LOCKOUT_DURATION_MINUTES'' (lit ''must be at least 1; a zero-minute lockout is not a lockout''))
     else (case check_oauth_base_url ''GOOGLE_OAUTH_BASE_URL'' (cfg_google_oauth_base_url c) of
         Inl e \<Rightarrow> Inl e
       | Inr _ \<Rightarrow> (case check_oauth_base_url ''GITHUB_OAUTH_BASE_URL'' (cfg_github_oauth_base_url c) of
           Inl e \<Rightarrow> Inl e
         | Inr _ \<Rightarrow>
             if any_oauth_provider_configured c \<and> cfg_oauth_redirect_url c = None
             then Inl (InvalidVar ''OAUTH_REDIRECT_URL'' (lit ''must be set when any OAuth provider is configured''))
             else (case check_oauth_redirect_url (cfg_oauth_redirect_url c) of
                 Inl e \<Rightarrow> Inl e
               | Inr _ \<Rightarrow> check_production_secrets c))))"

definition config_from :: "environment \<Rightarrow> str \<Rightarrow> str list \<Rightarrow> int \<Rightarrow> str \<Rightarrow> int \<Rightarrow> str \<Rightarrow> int \<Rightarrow> str \<Rightarrow> int \<Rightarrow> int \<Rightarrow> int \<Rightarrow>
    int \<Rightarrow> int \<Rightarrow> config" where
  "config_from E app cors timeout secret expiration host port sender min_length ttl attempts duration window =
      \<lparr>cfg_database_url = or_default (optional E ''DATABASE_URL'') ''http://localhost:8000'',
       cfg_database_user = or_default (optional E ''DATABASE_USER'') ''root'',
       cfg_database_pass = or_default (optional E ''DATABASE_PASS'') ''root'',
       cfg_database_namespace = or_default (optional E ''DATABASE_NAMESPACE'') ''auth'',
       cfg_database_name = or_default (optional E ''DATABASE_NAME'') ''main'',
       cfg_database_connection_timeout = timeout, cfg_jwt_secret = secret, cfg_jwt_expiration = expiration,
       cfg_google_client_id = optional E ''GOOGLE_CLIENT_ID'',
       cfg_google_client_secret = optional E ''GOOGLE_CLIENT_SECRET'',
       cfg_github_client_id = optional E ''GITHUB_CLIENT_ID'',
       cfg_github_client_secret = optional E ''GITHUB_CLIENT_SECRET'',
       cfg_oauth_redirect_url = optional E ''OAUTH_REDIRECT_URL'',
       cfg_google_oauth_base_url = optional E ''GOOGLE_OAUTH_BASE_URL'',
       cfg_github_oauth_base_url = optional E ''GITHUB_OAUTH_BASE_URL'',
       cfg_proxy_enabled = parse_bool E ''PROXY_ENABLED'' False, cfg_proxy_url = optional E ''PROXY_URL'',
       cfg_smtp_host = host, cfg_smtp_port = port,
       cfg_smtp_username = (case E ''SMTP_USERNAME'' of None \<Rightarrow> [] | Some s \<Rightarrow> s),
       cfg_smtp_password = (case E ''SMTP_PASSWORD'' of None \<Rightarrow> [] | Some s \<Rightarrow> s),
       cfg_smtp_from = sender, cfg_smtp_insecure = parse_bool E ''SMTP_INSECURE'' False, cfg_app_url = app,
       cfg_email_verification_enabled = parse_bool E ''EMAIL_VERIFICATION_ENABLED'' False,
       cfg_trust_proxy_headers = parse_bool E ''TRUST_PROXY_HEADERS'' False,
       cfg_bootstrap_token = optional_raw E ''SOULAUTH_BOOTSTRAP_TOKEN'', cfg_cors_allowed_origins = cors,
       cfg_oidc_rsa_private_key_pem = optional E ''OIDC_RSA_PRIVATE_KEY_PEM'',
       cfg_oidc_rsa_private_key_path = optional E ''OIDC_RSA_PRIVATE_KEY_PATH'',
       cfg_password_min_length = min_length,
       cfg_mfa_encryption_key = optional E ''MFA_SECRET_ENCRYPTION_KEY'',
       cfg_instance_id = optional E ''SOULAUTH_INSTANCE_ID'',
       cfg_audit_integrity_key = optional E ''AUDIT_INTEGRITY_KEY'',
       cfg_login_page_url = optional E ''LOGIN_PAGE_URL'',
       cfg_verify_email_page_url = optional E ''VERIFY_EMAIL_PAGE_URL'',
       cfg_reset_password_page_url = optional E ''RESET_PASSWORD_PAGE_URL'',
       cfg_bind_addr = or_default (optional E ''BIND_ADDR'') ''0.0.0.0:8080'',
       cfg_session_cache_ttl_seconds = ttl, cfg_lockout_max_attempts = attempts,
       cfg_lockout_duration_minutes = duration, cfg_lockout_reset_window_minutes = window,
       cfg_lockout_user_enabled = parse_bool E ''LOCKOUT_USER_ENABLED'' True,
       cfg_lockout_ip_enabled = parse_bool E ''LOCKOUT_IP_ENABLED'' True\<rparr>"

definition from_env :: "config config_op" where
  "from_env =
    bind (required ''APP_URL'') (\<lambda>app.
    bind (reads cors_of_env) (\<lambda>cors.
    seq (lift_result (check_cors_origins cors))
    (bind (parse_with_default 0 u64_max ''DATABASE_CONNECTION_TIMEOUT'' 30) (\<lambda>timeout.
    bind (required ''JWT_SECRET'') (\<lambda>secret.
    bind (parse_with_default i64_min i64_max ''JWT_EXPIRATION'' 86400) (\<lambda>expiration.
    bind (required ''SMTP_HOST'') (\<lambda>host.
    bind (parse_with_default 0 u16_max ''SMTP_PORT'' 587) (\<lambda>port.
    bind (required ''SMTP_FROM'') (\<lambda>sender.
    bind (parse_with_default 0 u64_max ''PASSWORD_MIN_LENGTH'' 12) (\<lambda>min_length.
    bind (parse_with_default 0 u64_max ''AUTH_SESSION_CACHE_TTL_SECONDS'' 5) (\<lambda>ttl.
    bind (parse_with_default 0 u32_max ''LOCKOUT_MAX_ATTEMPTS'' 5) (\<lambda>attempts.
    bind (parse_with_default 0 u32_max ''LOCKOUT_DURATION_MINUTES'' 15) (\<lambda>duration.
    bind (parse_with_default 0 u32_max ''LOCKOUT_RESET_WINDOW_MINUTES'' 60) (\<lambda>window.
    bind (reads (\<lambda>E. config_from E app cors timeout secret expiration host port sender min_length ttl attempts duration window)) (\<lambda>c.
    seq (lift_result (check_config c)) (ret c))))))))))))))))"

definition page_or :: "str option \<Rightarrow> config \<Rightarrow> string \<Rightarrow> str" where
  "page_or page c path = (case page of None \<Rightarrow> trim_end_matches 47 (cfg_app_url c) @ lit path | Some u \<Rightarrow> u)"

definition login_page_url :: "config \<Rightarrow> str" where
  "login_page_url c = page_or (cfg_login_page_url c) c ''/login''"

definition verify_email_page_url :: "config \<Rightarrow> str" where
  "verify_email_page_url c = page_or (cfg_verify_email_page_url c) c ''/verify-email''"

definition reset_password_page_url :: "config \<Rightarrow> str" where
  "reset_password_page_url c = page_or (cfg_reset_password_page_url c) c ''/reset-password''"

definition audit_chain_id :: "config \<Rightarrow> str" where
  "audit_chain_id c =
    (case Option.bind (map_option trim (cfg_instance_id c)) non_empty of None \<Rightarrow> cfg_bind_addr c | Some v \<Rightarrow> v)"

definition effective_cors_origins :: "config \<Rightarrow> str list" where
  "effective_cors_origins c =
    (if cfg_cors_allowed_origins c = [] then [trim_end_matches 47 (cfg_app_url c)] else cfg_cors_allowed_origins c)"

section \<open>Parsed integers\<close>

lemma parse_integer_bounds: "parse_integer lo hi s = Some i \<Longrightarrow> lo \<le> i \<and> i \<le> hi"
  by (auto simp: parse_integer_def Let_def bind_eq_Some_conv split: if_splits)

lemma parse_digits_dec: "parse_digits (dec n) = Some (int n)"
  using dec_digits [of _ n] by (auto simp: parse_digits_def undec_dec list_all_iff)

lemma dec_first_digit: "\<exists>c t. dec n = c # t \<and> c \<noteq> 43 \<and> c \<noteq> 45"
  using dec_not_Nil [of n] dec_digits [of _ n]
  by (cases "dec n") (force simp: is_ascii_digit_def)+

lemma parse_integer_dec_int:
  assumes "lo \<le> i" "i \<le> hi" shows "parse_integer lo hi (dec_int i) = Some i"
proof (cases "i < 0")
  case True
  then have "dec_int i = 45 # dec (nat (- i))" by (simp add: dec_int_def)
  then show ?thesis using assms True parse_digits_dec [of "nat (- i)"] by (simp add: parse_integer_def)
next
  case False
  obtain c t where "dec (nat i) = c # t" "c \<noteq> 43" "c \<noteq> 45" using dec_first_digit by blast
  then show ?thesis using assms False parse_digits_dec [of "nat i"] by (simp add: parse_integer_def dec_int_def)
qed

definition env_int :: "int \<Rightarrow> int \<Rightarrow> int \<Rightarrow> environment \<Rightarrow> string \<Rightarrow> int option" where
  "env_int lo hi d E name = (case optional E name of None \<Rightarrow> Some d | Some raw \<Rightarrow> parse_integer lo hi raw)"

lemma env_int_bounds: "env_int lo hi d E name = Some i \<Longrightarrow> lo \<le> d \<Longrightarrow> d \<le> hi \<Longrightarrow> lo \<le> i \<and> i \<le> hi"
  using parse_integer_bounds by (auto simp: env_int_def split: option.splits)

lemma parse_with_default_success:
  "parse_with_default lo hi name d E = (Inr i, E') \<longleftrightarrow> env_int lo hi d E name = Some i \<and> E' = E"
  by (auto simp: parse_with_default_def env_int_def op_success split: option.splits)

lemma required_success: "required name E = (Inr v, E') \<longleftrightarrow> optional E name = Some v \<and> E' = E"
  by (auto simp: required_def optional_def op_success)

section \<open>The host of a URL\<close>

text \<open>
  The reference is the host of RFC 3986: the authority ends at a slash, a question mark or a number sign,
  user information ends at the last at-sign, and a port follows the host.
\<close>

definition url_authority :: "str \<Rightarrow> str" where
  "url_authority url = (case cut_at (lit ''://'') url of
     None \<Rightarrow> [] | Some (_, rest) \<Rightarrow> takeWhile (\<lambda>c. c \<notin> {35, 47, 63}) rest)"

definition has_userinfo :: "str \<Rightarrow> bool" where
  "has_userinfo url \<longleftrightarrow> 64 \<in> set (url_authority url)"

definition host_port_host :: "str \<Rightarrow> str" where
  "host_port_host s =
    (case strip_prefix [91] s of
       Some inner \<Rightarrow> 91 # takeWhile (\<lambda>c. c \<noteq> 93) inner @ [93]
     | None \<Rightarrow> takeWhile (\<lambda>c. c \<noteq> 58) s)"

definition real_host :: "str \<Rightarrow> str" where
  "real_host url = host_port_host (rev (takeWhile (\<lambda>c. c \<noteq> 64) (rev (url_authority url))))"

lemma takeWhile_no: "(\<And>c. c \<in> set s \<Longrightarrow> P c) \<Longrightarrow> takeWhile P s = s"
  by (simp add: takeWhile_eq_all_conv)

lemma real_host_plain: "\<not> has_userinfo url \<Longrightarrow> real_host url = host_port_host (url_authority url)"
  by (simp add: real_host_def has_userinfo_def) (metis (mono_tags, lifting) rev_rev_ident set_rev takeWhile_no)

lemma loopback_chars: "is_loopback_host h \<Longrightarrow> c \<in> set h \<Longrightarrow> c \<notin> {35, 47, 63, 64}"
  unfolding is_loopback_host_def lit_def by (elim insertE) auto

text \<open>Without user information, a host that passes the loopback test is the host of the URL.\<close>

lemma loopback_host_is_real:
  assumes host: "host_of url = Some h" and loop: "is_loopback_host h" and plain: "\<not> has_userinfo url"
  shows "real_host url = h"
proof -
  obtain scheme rest where cut: "cut_at (lit ''://'') url = Some (scheme, rest)"
    using host by (auto simp: host_of_def bind_eq_Some_conv)
  let ?auth = "takeWhile (\<lambda>c. c \<notin> {35, 47, 63}) rest"
  have auth: "url_authority url = ?auth" using cut by (simp add: url_authority_def)
  have "host_port_host ?auth = h"
  proof (cases "strip_prefix [91] rest")
    case (Some inner)
    then obtain l r where split: "split_once 93 inner = Some (l, r)" and h: "h = 91 # l @ [93]"
      using host cut by (auto simp: host_of_def)
    have clean: "\<forall>c\<in>set l. c \<notin> {35, 47, 63}" using loopback_chars [OF loop] h by auto
    have "rest = 91 # l @ 93 # r" using Some split_once_SomeD [OF split] by simp
    then have "?auth = 91 # l @ 93 # takeWhile (\<lambda>c. c \<notin> {35, 47, 63}) r"
      using clean by (auto simp: takeWhile_append)
    moreover have "93 \<notin> set l" using split_once_SomeD [OF split] by simp
    then have "takeWhile (\<lambda>c. c \<noteq> 93) (l @ 93 # x) = l" for x by (induction l) auto
    ultimately show ?thesis using h by (simp add: host_port_host_def)
  next
    case None
    then have h: "takeWhile (\<lambda>c. c \<notin> {47, 58}) rest = h" "h \<noteq> []"
      using host cut by (auto simp: host_of_def non_empty_def split: if_splits)
    have clean: "\<forall>c\<in>set h. c \<notin> {35, 47, 63}" using loopback_chars [OF loop] by auto
    obtain t where rest: "rest = h @ t" and t: "t = [] \<or> hd t \<in> {47, 58}"
      using h(1) by (metis (mono_tags, lifting) hd_dropWhile takeWhile_dropWhile_id)
    have no58: "\<forall>c\<in>set h. c \<noteq> 58" using h(1) set_takeWhileD by fastforce
    have "?auth = h @ takeWhile (\<lambda>c. c \<notin> {35, 47, 63}) t"
      unfolding rest by (rule takeWhile_append2) (use clean in blast)
    moreover have "takeWhile (\<lambda>c. c \<noteq> 58) (h @ x) = h @ takeWhile (\<lambda>c. c \<noteq> 58) x" for x
      by (rule takeWhile_append2) (use no58 in blast)
    moreover have "takeWhile (\<lambda>c. c \<noteq> 58) (takeWhile (\<lambda>c. c \<notin> {35, 47, 63}) t) = []"
      using t by (cases t) auto
    ultimately have "takeWhile (\<lambda>c. c \<noteq> 58) ?auth = h" by simp
    moreover have "strip_prefix [91] ?auth = None"
      using None by (cases rest) (auto split: if_splits)
    ultimately show ?thesis by (simp add: host_port_host_def)
  qed
  then show ?thesis using real_host_plain [OF plain] auth by simp
qed

end
