(* ===== verification/Oidc.thy ===== *)
theory Oidc
  imports Jwt Rbac_Routes Config
begin

text \<open>
  The OpenID provider: \<^verbatim>\<open>src/services/oidc.rs\<close> with the rows of \<^verbatim>\<open>src/models/{oidc_client, oidc_token}.rs\<close>.
  Codes and tokens are stored under their digest.  The service reports errors as text
  (\<^verbatim>\<open>anyhow\<close>); \<open>as_text\<close> is the conversion of an \<^verbatim>\<open>AuthError\<close> by \<^verbatim>\<open>?\<close>.  Random strings are
  arguments, and the signer of ID tokens is a field of \<open>oidc_env\<close>.
\<close>

section \<open>Rows and messages\<close>

datatype client_type = Public | Confidential

datatype grant_type = AuthorizationCodeGrant | RefreshTokenGrant | ClientCredentialsGrant

datatype response_type = CodeResponse | IdTokenResponse | CodeIdTokenResponse

record oidc_client =
  client_id :: str
  client_secret_hash :: str
  client_name :: str
  client_type :: client_type
  redirect_uris :: "str list"
  post_logout_redirect_uris :: "str list"
  allowed_scopes :: "str list"
  allowed_grant_types :: "grant_type list"
  allowed_response_types :: "response_type list"
  require_pkce :: bool
  access_token_lifetime :: int
  refresh_token_lifetime :: int
  id_token_lifetime :: int
  client_active :: bool
  client_created_by :: str
  client_created_at :: int
  client_updated_at :: int

record oidc_code =
  code_hash :: str
  code_client :: str
  code_actor :: str
  code_redirect_uri :: str
  code_scope :: str
  code_state :: "str option"
  code_nonce :: "str option"
  code_challenge :: "str option"
  code_challenge_method :: "str option"
  code_session_ref :: "str option"
  code_used :: bool
  code_expires_at :: int
  code_created_at :: int

record oidc_access_token =
  access_hash :: str
  access_client :: str
  access_actor :: str
  access_scope :: str
  access_expires_at :: int
  access_created_at :: int

record oidc_refresh_token =
  refresh_hash :: str
  refresh_client :: str
  refresh_actor :: str
  refresh_access_hash :: str
  refresh_scope :: str
  refresh_session_ref :: "str option"
  refresh_used :: bool
  refresh_expires_at :: int
  refresh_created_at :: int

record oidc_world = rbac_world +
  clients :: "oidc_client list"
  codes :: "oidc_code list"
  access_tokens :: "oidc_access_token list"
  refresh_tokens :: "oidc_refresh_token list"

type_synonym 'a oidc_op = "(oidc_world, str, 'a) op"

record token_request =
  tr_grant_type :: str
  tr_code :: "str option"
  tr_redirect_uri :: "str option"
  tr_client_id :: "str option"
  tr_client_secret :: "str option"
  tr_code_verifier :: "str option"
  tr_refresh_token :: "str option"
  tr_scope :: "str option"

record authorize_request =
  ar_response_type :: str
  ar_client_id :: str
  ar_redirect_uri :: str
  ar_scope :: "str option"
  ar_state :: "str option"
  ar_nonce :: "str option"
  ar_code_challenge :: "str option"
  ar_code_challenge_method :: "str option"
  ar_prompt :: "str option"
  ar_max_age :: "int option"

record id_token_claims =
  idt_iss :: str
  idt_sub :: str
  idt_aud :: str
  idt_exp :: int
  idt_iat :: int
  idt_auth_time :: int
  idt_sid :: str
  idt_nonce :: "str option"
  idt_email :: "str option"
  idt_email_verified :: "bool option"
  idt_preferred_username :: "str option"

record token_response =
  resp_access_token :: str
  resp_expires_in :: int
  resp_refresh_token :: "str option"
  resp_id_token :: "str option"
  resp_scope :: str

record userinfo_response =
  ui_sub :: str
  ui_email :: "str option"
  ui_email_verified :: "bool option"
  ui_preferred_username :: "str option"
  ui_updated_at :: "int option"

definition request_client_id :: "token_request \<Rightarrow> str" where
  "request_client_id r = (case tr_client_id r of None \<Rightarrow> [] | Some c \<Rightarrow> c)"

record oidc_env =
  oidc_prims :: primitives
  oidc_hashing :: hashing
  oidc_config :: config
  sign_id_token :: "id_token_claims \<Rightarrow> str + str"
  read_id_token :: "str \<Rightarrow> id_token_claims option"

definition as_text :: "('s, 'a) handler \<Rightarrow> ('s, str, 'a) op" where
  "as_text m = map_error display m"

definition context_error :: "string \<Rightarrow> ('s, str, 'a) op \<Rightarrow> ('s, str, 'a) op" where
  "context_error prefix m = map_error (\<lambda>e. lit prefix @ e) m"

section \<open>Scopes, secrets and PKCE\<close>

record claim_disclosure =
  disclose_email :: bool
  disclose_profile :: bool

definition disclosure_from_scope :: "str \<Rightarrow> claim_disclosure" where
  "disclosure_from_scope scope =
    (let scopes = split_whitespace scope in
     \<lparr>disclose_email = (lit ''email'' \<in> set scopes), disclose_profile = (lit ''profile'' \<in> set scopes)\<rparr>)"

fun grant_scopes :: "str list \<Rightarrow> str list \<Rightarrow> str list \<Rightarrow> str + str list" where
  "grant_scopes allowed granted [] = Inr granted"
| "grant_scopes allowed granted (w # ws) =
    (if w \<notin> set allowed then Inl (lit ''Scope not allowed for this client: '' @ w)
     else grant_scopes allowed (if w \<in> set granted then granted else granted @ [w]) ws)"

definition resolve_scope :: "oidc_client \<Rightarrow> str option \<Rightarrow> str + str" where
  "resolve_scope client requested =
    (let r = trim (case requested of None \<Rightarrow> lit ''openid'' | Some q \<Rightarrow> q) in
     if r = [] then Inr (lit ''openid'')
     else (case grant_scopes (allowed_scopes client) [] (split_whitespace r) of
             Inl e \<Rightarrow> Inl e
           | Inr ws \<Rightarrow> Inr (join [32] ws)))"

text \<open>The comparison of \<^verbatim>\<open>oidc.rs\<close> is a copy of the one in \<^verbatim>\<open>crypto.rs\<close>.\<close>

definition verify_client_secret_hash :: "oidc_env \<Rightarrow> str \<Rightarrow> str \<Rightarrow> bool" where
  "verify_client_secret_hash E stored provided =
    (if strip_prefix (lit ''$argon2'') stored \<noteq> None
     then (case argon2_verify (oidc_prims E) stored provided of None \<Rightarrow> False | Some b \<Rightarrow> b)
     else constant_time_eq (as_bytes (hex (sha256 (oidc_hashing E) (as_bytes provided)))) (as_bytes stored))"

definition hash_client_secret :: "oidc_env \<Rightarrow> bytes \<Rightarrow> str \<Rightarrow> str + str" where
  "hash_client_secret E salt secret =
    ok_or (argon2_hash (oidc_prims E) salt secret) (lit ''Failed to hash client secret'')"

definition verifier_char :: "nat \<Rightarrow> bool" where
  "verifier_char c \<longleftrightarrow> is_ascii_alphanumeric c \<or> c \<in> {45, 46, 95, 126}"

definition verify_pkce_value :: "oidc_env \<Rightarrow> str \<Rightarrow> str option \<Rightarrow> str \<Rightarrow> str + bool" where
  "verify_pkce_value E challenge meth verifier =
    (if \<not> (43 \<le> byte_len verifier \<and> byte_len verifier \<le> 128)
     then Inl (lit ''Invalid code verifier: length must be between 43 and 128 characters'')
     else if \<not> list_all verifier_char (utf8 verifier)
     then Inl (lit ''Invalid code verifier: contains characters outside RFC 7636 charset'')
     else (case meth of
         None \<Rightarrow> Inl (lit ''Missing code_challenge_method; S256 is required'')
       | Some m \<Rightarrow>
           if m = lit ''S256''
           then Inr (constant_time_eq
             (as_bytes (b64url (oidc_hashing E) (sha256 (oidc_hashing E) (as_bytes verifier)))) (as_bytes challenge))
           else Inl (lit ''Unsupported code challenge method: '' @ m)))"

section \<open>Rows of the store\<close>

definition get_client :: "faults \<Rightarrow> str \<Rightarrow> oidc_client oidc_op" where
  "get_client F cid =
    bind (as_text (db_read F ''oidc_get_client''
      (\<lambda>s. find (\<lambda>c. client_id c = cid \<and> client_active c) (clients s)))) (\<lambda>c.
    the_or c (lit ''Client not found''))"

definition get_user_by_ref :: "faults \<Rightarrow> str \<Rightarrow> user oidc_op" where
  "get_user_by_ref F uid =
    (let key = normalize_actor_id (normalize_user_id uid) in
     bind (as_text (db_read F ''oidc_get_user_by_actor_ref''
       (\<lambda>s. find (\<lambda>u. subject_id u = Some key \<or> user_key u = key) (users s)))) (\<lambda>u.
     the_or u (lit ''User not found'')))"

definition identity_gate :: "faults \<Rightarrow> str \<Rightarrow> authenticable oidc_op" where
  "identity_gate F uid =
    context_error ''Identity root is not authenticable: '' (as_text (authenticable_actor_of_user F uid))"

definition stable_subject_of_user :: "faults \<Rightarrow> user \<Rightarrow> str oidc_op" where
  "stable_subject_of_user F u =
    bind (identity_gate F (user_key u)) (\<lambda>g. ret (subject_key (gate_actor g)))"

definition load_active_user :: "faults \<Rightarrow> str \<Rightarrow> user oidc_op" where
  "load_active_user F uid =
    bind (get_user_by_ref F uid) (\<lambda>u.
    bind (identity_gate F (normalize_user_id (user_key u))) (\<lambda>_.
    seq (context_error ''Account is not active: '' (as_text (lift_result (ensure_usable u))))
    (ret u)))"

definition authenticated_at_of_session :: "faults \<Rightarrow> str \<Rightarrow> int option oidc_op" where
  "authenticated_at_of_session F key =
    context_error ''Failed to read session authentication time: '' (as_text
      (db_read F ''oidc_session_authenticated_at''
        (\<lambda>s. case find (\<lambda>r. session_key r = key) (sessions s) of
            None \<Rightarrow> None | Some r \<Rightarrow> session_authenticated_at r)))"

definition code_indexes :: "oidc_code index list" where
  "code_indexes = [(''oidc_auth_code_idx'', \<lambda>r. [code_hash r])]"

definition access_indexes :: "oidc_access_token index list" where
  "access_indexes = [(''oidc_access_token_idx'', \<lambda>r. [access_hash r])]"

definition refresh_indexes :: "oidc_refresh_token index list" where
  "refresh_indexes = [(''oidc_refresh_token_idx'', \<lambda>r. [refresh_hash r])]"

text \<open>
  The owner of a code is the subject of the user row; a row that has none is refused by the column's
  type (\<open>no_subject\<close> is the database's error).
\<close>

definition save_authorization_code :: "faults \<Rightarrow> conflict_report \<Rightarrow> str \<Rightarrow> oidc_code \<Rightarrow> unit oidc_op" where
  "save_authorization_code F V uid c =
    as_text (seq (database_up F ''oidc_save_authorization_code'')
      (bind (reads (actor_of_user_row uid)) (\<lambda>owner.
       case owner of
         None \<Rightarrow> throw (V ''oidc_authorization_code.user_id'')
       | Some actor \<Rightarrow> insert_row V code_indexes codes codes_update (c\<lparr>code_actor := actor\<rparr>))))"

definition get_authorization_code :: "faults \<Rightarrow> oidc_env \<Rightarrow> str \<Rightarrow> oidc_code oidc_op" where
  "get_authorization_code F E code =
    bind (as_text (db_read F ''oidc_get_authorization_code''
      (\<lambda>s. find (\<lambda>c. code_hash c = hash_bearer (oidc_hashing E) code) (codes s)))) (\<lambda>c.
    the_or c (lit ''Authorization code not found''))"

definition redeemable :: "str \<Rightarrow> oidc_code \<Rightarrow> bool" where
  "redeemable h c \<longleftrightarrow> code_hash c = h \<and> \<not> code_used c"

definition claim_code :: "str \<Rightarrow> oidc_code list \<Rightarrow> bool \<times> oidc_code list" where
  "claim_code h cs =
    (count_where (redeemable h) cs = 1, update_where (redeemable h) (\<lambda>c. c\<lparr>code_used := True\<rparr>) cs)"

definition update_authorization_code :: "faults \<Rightarrow> str \<Rightarrow> unit oidc_op" where
  "update_authorization_code F h =
    bind (as_text (db_exec F ''oidc_update_authorization_code''
      (\<lambda>s. (fst (claim_code h (codes s)), codes_update (\<lambda>_. snd (claim_code h (codes s))) s)))) (\<lambda>one.
    require one (lit ''Authorization code already used''))"

definition save_access_token :: "faults \<Rightarrow> conflict_report \<Rightarrow> oidc_access_token \<Rightarrow> unit oidc_op" where
  "save_access_token F V t =
    as_text (seq (database_up F ''oidc_save_access_token'')
      (insert_row V access_indexes access_tokens access_tokens_update
        (t\<lparr>access_actor := normalize_actor_id (access_actor t)\<rparr>)))"

definition get_access_token :: "faults \<Rightarrow> oidc_env \<Rightarrow> str \<Rightarrow> oidc_access_token oidc_op" where
  "get_access_token F E token =
    bind (as_text (db_read F ''oidc_get_access_token''
      (\<lambda>s. find (\<lambda>t. access_hash t = hash_bearer (oidc_hashing E) token) (access_tokens s)))) (\<lambda>t.
    the_or t (lit ''Access token not found''))"

definition revoke_access_token_by_hash :: "faults \<Rightarrow> str \<Rightarrow> unit oidc_op" where
  "revoke_access_token_by_hash F h =
    as_text (db_write F ''oidc_revoke_access_token''
      (access_tokens_update (delete_where (\<lambda>t. access_hash t = h))))"

definition save_refresh_token :: "faults \<Rightarrow> conflict_report \<Rightarrow> oidc_refresh_token \<Rightarrow> unit oidc_op" where
  "save_refresh_token F V t =
    as_text (seq (database_up F ''oidc_save_refresh_token'')
      (insert_row V refresh_indexes refresh_tokens refresh_tokens_update
        (t\<lparr>refresh_actor := normalize_actor_id (refresh_actor t)\<rparr>)))"

definition get_refresh_token :: "faults \<Rightarrow> oidc_env \<Rightarrow> str \<Rightarrow> oidc_refresh_token oidc_op" where
  "get_refresh_token F E token =
    bind (as_text (db_read F ''oidc_get_refresh_token''
      (\<lambda>s. find (\<lambda>t. refresh_hash t = hash_bearer (oidc_hashing E) token) (refresh_tokens s)))) (\<lambda>t.
    the_or t (lit ''Refresh token not found''))"

definition refreshable :: "str \<Rightarrow> oidc_refresh_token \<Rightarrow> bool" where
  "refreshable h t \<longleftrightarrow> refresh_hash t = h \<and> \<not> refresh_used t"

definition claim_refresh :: "str \<Rightarrow> oidc_refresh_token list \<Rightarrow> bool \<times> oidc_refresh_token list" where
  "claim_refresh h ts =
    (count_where (refreshable h) ts = 1, update_where (refreshable h) (\<lambda>t. t\<lparr>refresh_used := True\<rparr>) ts)"

definition consume_refresh_token_by_hash :: "faults \<Rightarrow> str \<Rightarrow> bool oidc_op" where
  "consume_refresh_token_by_hash F h =
    as_text (db_exec F ''oidc_consume_refresh_token''
      (\<lambda>s. (fst (claim_refresh h (refresh_tokens s)),
            refresh_tokens_update (\<lambda>_. snd (claim_refresh h (refresh_tokens s))) s)))"

text \<open>
  Both readings of the reference are matched: an actor key, and the subject of a user row.
\<close>

definition owned_by :: "str \<Rightarrow> 'x store_scheme \<Rightarrow> str \<Rightarrow> bool" where
  "owned_by uid s actor \<longleftrightarrow>
    (let key = normalize_actor_id (normalize_user_id uid) in
     actor = key \<or> Some actor = (case find (\<lambda>u. user_key u = key) (users s) of
       None \<Rightarrow> None | Some u \<Rightarrow> subject_id u))"

definition revoke_client_tokens_for_user :: "faults \<Rightarrow> str \<Rightarrow> str \<Rightarrow> unit oidc_op" where
  "revoke_client_tokens_for_user F cid uid =
    seq (as_text (db_write F ''oidc_revoke_access_tokens_for_client''
      (\<lambda>s. access_tokens_update (delete_where (\<lambda>t. access_client t = cid \<and> owned_by uid s (access_actor t))) s)))
    (as_text (db_write F ''oidc_revoke_refresh_tokens_for_client''
      (\<lambda>s. refresh_tokens_update (delete_where (\<lambda>t. refresh_client t = cid \<and> owned_by uid s (refresh_actor t))) s)))"

definition revoke_all_tokens_for_user :: "faults \<Rightarrow> str \<Rightarrow> unit oidc_op" where
  "revoke_all_tokens_for_user F uid =
    seq (as_text (db_write F ''oidc_revoke_all_access_tokens''
      (\<lambda>s. access_tokens_update (delete_where (\<lambda>t. owned_by uid s (access_actor t))) s)))
    (as_text (db_write F ''oidc_revoke_all_refresh_tokens''
      (\<lambda>s. refresh_tokens_update (delete_where (\<lambda>t. owned_by uid s (refresh_actor t))) s)))"

definition cleanup_expired_artifacts :: "faults \<Rightarrow> int \<Rightarrow> unit oidc_op" where
  "cleanup_expired_artifacts F now =
    seq (as_text (db_write F ''oidc_cleanup_codes'' (codes_update (delete_where (\<lambda>c. code_expires_at c < now)))))
    (seq (as_text (db_write F ''oidc_cleanup_access_tokens''
      (access_tokens_update (delete_where (\<lambda>t. access_expires_at t < now)))))
    (as_text (db_write F ''oidc_cleanup_refresh_tokens''
      (refresh_tokens_update (delete_where (\<lambda>t. refresh_expires_at t < now))))))"

section \<open>Authorization codes\<close>

fun parse_response_types :: "str list \<Rightarrow> str + response_type list" where
  "parse_response_types [] = Inr []"
| "parse_response_types (w # ws) =
    (if w = lit ''code''
     then (case parse_response_types ws of Inl e \<Rightarrow> Inl e | Inr rs \<Rightarrow> Inr (CodeResponse # rs))
     else Inl (lit ''unsupported response type; this endpoint implements response_type=code only''))"

definition check_challenge_method :: "authorize_request \<Rightarrow> str + unit" where
  "check_challenge_method r =
    (if ar_code_challenge r = None then Inr ()
     else (case ar_code_challenge_method r of
         None \<Rightarrow> Inl (lit ''code_challenge_method is required and must be S256'')
       | Some m \<Rightarrow>
           if m = lit ''S256'' then Inr ()
           else Inl (lit ''Unsupported code_challenge_method '' @ [39] @ m @ [39] @ lit '': only S256 is supported'')))"

definition check_authorize :: "oidc_client \<Rightarrow> authorize_request \<Rightarrow> unit oidc_op" where
  "check_authorize client r =
    seq (require (client_active client) (lit ''Client is not active''))
    (seq (require (ar_redirect_uri r \<in> set (redirect_uris client)) (lit ''Invalid redirect URI''))
    (bind (lift_result (parse_response_types (split_whitespace (ar_response_type r)))) (\<lambda>rts.
    seq (require (\<forall>rt\<in>set rts. rt \<in> set (allowed_response_types client))
      (lit ''Response type not allowed for this client''))
    (seq (require (\<not> (require_pkce client \<and> ar_code_challenge r = None))
      (lit ''PKCE is required for this client''))
    (lift_result (check_challenge_method r))))))"

definition new_code :: "oidc_env \<Rightarrow> int \<Rightarrow> str \<Rightarrow> authorize_request \<Rightarrow> str \<Rightarrow> str \<Rightarrow> oidc_code" where
  "new_code E now code r session_ref scope =
    \<lparr>code_hash = hash_bearer (oidc_hashing E) code, code_client = ar_client_id r, code_actor = [],
     code_redirect_uri = ar_redirect_uri r, code_scope = scope, code_state = ar_state r,
     code_nonce = ar_nonce r, code_challenge = ar_code_challenge r,
     code_challenge_method = ar_code_challenge_method r, code_session_ref = Some session_ref,
     code_used = False, code_expires_at = now + 600, code_created_at = now\<rparr>"

definition create_authorization_code :: "faults \<Rightarrow> conflict_report \<Rightarrow> oidc_env \<Rightarrow> int \<Rightarrow> str \<Rightarrow>
    authorize_request \<Rightarrow> str \<Rightarrow> str \<Rightarrow> str oidc_op" where
  "create_authorization_code F V E now code r uid session_ref =
    bind (context_error ''get client failed: '' (get_client F (ar_client_id r))) (\<lambda>client.
    seq (check_authorize client r)
    (bind (lift_result (resolve_scope client (ar_scope r))) (\<lambda>scope.
    seq (save_authorization_code F V uid (new_code E now code r session_ref scope))
    (ret code))))"

section \<open>Tokens\<close>

definition authenticate_client :: "faults \<Rightarrow> oidc_env \<Rightarrow> token_request \<Rightarrow> oidc_client oidc_op" where
  "authenticate_client F E r =
    bind (get_client F (request_client_id r)) (\<lambda>client.
    (case (client_type client, tr_client_secret r) of
       (Confidential, None) \<Rightarrow> throw (lit ''Client secret required for confidential clients'')
     | (_, Some secret) \<Rightarrow>
         if verify_client_secret_hash E (client_secret_hash client) secret then ret client
         else throw (lit ''Invalid client credentials'')
     | (Public, None) \<Rightarrow> ret client))"

definition issuer :: "oidc_env \<Rightarrow> str" where
  "issuer E = trim_end_matches 47 (cfg_app_url (oidc_config E))"

definition sid_of :: "str option \<Rightarrow> str option" where
  "sid_of session_ref = (case map_option trim session_ref of None \<Rightarrow> None | Some s \<Rightarrow> if s = [] then None else Some s)"

text \<open>A failed read of the session's authentication time falls back to the last login.\<close>

definition auth_time_of :: "faults \<Rightarrow> int \<Rightarrow> str \<Rightarrow> user \<Rightarrow> int oidc_op" where
  "auth_time_of F now sid u =
    catch (authenticated_at_of_session F sid)
      (\<lambda>_. ret (case last_login_at u of Some t \<Rightarrow> t | None \<Rightarrow> now))
      (\<lambda>at. ret (case at of Some t \<Rightarrow> t | None \<Rightarrow> (case last_login_at u of Some t \<Rightarrow> t | None \<Rightarrow> now)))"

definition id_claims :: "oidc_env \<Rightarrow> int \<Rightarrow> oidc_client \<Rightarrow> user \<Rightarrow> str option \<Rightarrow> str \<Rightarrow> str \<Rightarrow> str \<Rightarrow> int \<Rightarrow>
    id_token_claims" where
  "id_claims E now client u nonce sid scope subject at =
    (let d = disclosure_from_scope scope in
     \<lparr>idt_iss = issuer E, idt_sub = subject, idt_aud = client_id client,
      idt_exp = now + id_token_lifetime client, idt_iat = now, idt_auth_time = at, idt_sid = sid,
      idt_nonce = nonce, idt_email = (if disclose_email d then Some (email u) else None),
      idt_email_verified = (if disclose_email d then Some (is_email_verified u) else None),
      idt_preferred_username = (if disclose_profile d then Some (username u) else None)\<rparr>)"

definition generate_id_token :: "faults \<Rightarrow> oidc_env \<Rightarrow> int \<Rightarrow> oidc_client \<Rightarrow> user \<Rightarrow> str option \<Rightarrow> str option \<Rightarrow>
    str \<Rightarrow> str oidc_op" where
  "generate_id_token F E now client u nonce session_ref scope =
    bind (the_or (sid_of session_ref) (lit ''Missing auth session reference; refusing to issue ID token'')) (\<lambda>sid.
    bind (stable_subject_of_user F u) (\<lambda>subject.
    bind (auth_time_of F now sid u) (\<lambda>at.
    context_error ''Failed to generate ID token: ''
      (lift_result (sign_id_token E (id_claims E now client u nonce sid scope subject at))))))"

text \<open>The two random strings of a grant.\<close>

record token_draws =
  draw_access :: str
  draw_refresh :: str

definition access_row :: "oidc_env \<Rightarrow> int \<Rightarrow> token_draws \<Rightarrow> oidc_client \<Rightarrow> str \<Rightarrow> str \<Rightarrow> oidc_access_token" where
  "access_row E now d client uid scope =
    \<lparr>access_hash = hash_bearer (oidc_hashing E) (draw_access d), access_client = client_id client,
     access_actor = uid, access_scope = scope, access_expires_at = now + access_token_lifetime client,
     access_created_at = now\<rparr>"

definition refresh_row :: "oidc_env \<Rightarrow> int \<Rightarrow> token_draws \<Rightarrow> oidc_client \<Rightarrow> str \<Rightarrow> str \<Rightarrow> str option \<Rightarrow>
    oidc_refresh_token" where
  "refresh_row E now d client uid scope session_ref =
    \<lparr>refresh_hash = hash_bearer (oidc_hashing E) (draw_refresh d), refresh_client = client_id client,
     refresh_actor = uid, refresh_access_hash = hash_bearer (oidc_hashing E) (draw_access d),
     refresh_scope = scope, refresh_session_ref = session_ref, refresh_used = False,
     refresh_expires_at = now + refresh_token_lifetime client, refresh_created_at = now\<rparr>"

definition issue_refresh :: "faults \<Rightarrow> conflict_report \<Rightarrow> oidc_env \<Rightarrow> int \<Rightarrow> token_draws \<Rightarrow> oidc_client \<Rightarrow> str \<Rightarrow>
    str \<Rightarrow> str option \<Rightarrow> str option oidc_op" where
  "issue_refresh F V E now d client uid scope session_ref =
    (if RefreshTokenGrant \<in> set (allowed_grant_types client)
     then seq (context_error ''save refresh token failed: ''
         (save_refresh_token F V (refresh_row E now d client uid scope session_ref)))
       (ret (Some (draw_refresh d)))
     else ret None)"

definition issue_id_token :: "faults \<Rightarrow> oidc_env \<Rightarrow> int \<Rightarrow> oidc_client \<Rightarrow> user \<Rightarrow> str option \<Rightarrow> str option \<Rightarrow> str \<Rightarrow>
    str option oidc_op" where
  "issue_id_token F E now client u nonce session_ref scope =
    (if lit ''openid'' \<in> set (split_whitespace scope)
     then bind (generate_id_token F E now client u nonce session_ref scope) (\<lambda>t. ret (Some t))
     else ret None)"

definition generate_tokens :: "faults \<Rightarrow> conflict_report \<Rightarrow> oidc_env \<Rightarrow> int \<Rightarrow> token_draws \<Rightarrow> oidc_client \<Rightarrow> str \<Rightarrow>
    str \<Rightarrow> str option \<Rightarrow> str option \<Rightarrow> token_response oidc_op" where
  "generate_tokens F V E now d client uid scope nonce session_ref =
    bind (context_error ''refusing to issue tokens: '' (load_active_user F uid)) (\<lambda>u.
    seq (context_error ''save access token failed: ''
      (save_access_token F V (access_row E now d client uid scope)))
    (bind (issue_refresh F V E now d client uid scope session_ref) (\<lambda>refresh.
    bind (issue_id_token F E now client u nonce session_ref scope) (\<lambda>idt.
    ret \<lparr>resp_access_token = draw_access d, resp_expires_in = access_token_lifetime client,
         resp_refresh_token = refresh, resp_id_token = idt, resp_scope = scope\<rparr>))))"

definition check_code_pkce :: "oidc_env \<Rightarrow> oidc_client \<Rightarrow> oidc_code \<Rightarrow> str option \<Rightarrow> unit oidc_op" where
  "check_code_pkce E client c verifier =
    seq (require (\<not> (client_type client = Public \<and> code_challenge c = None))
      (lit ''PKCE is required for public clients; this authorization code was issued without a code_challenge''))
    (case code_challenge c of
       None \<Rightarrow> ret ()
     | Some ch \<Rightarrow>
         bind (the_or verifier (lit ''Code verifier required'')) (\<lambda>v.
         bind (lift_result (verify_pkce_value E ch (code_challenge_method c) v)) (\<lambda>ok.
         require ok (lit ''Invalid code verifier''))))"

definition check_code :: "oidc_env \<Rightarrow> int \<Rightarrow> oidc_client \<Rightarrow> oidc_code \<Rightarrow> token_request \<Rightarrow> str \<Rightarrow> unit oidc_op" where
  "check_code E now client c r redirect =
    seq (require (\<not> code_used c) (lit ''Authorization code already used''))
    (seq (require (\<not> code_expires_at c < now) (lit ''Authorization code expired''))
    (seq (require (code_client c = request_client_id r) (lit ''Authorization code was not issued to this client''))
    (seq (require (code_redirect_uri c = redirect) (lit ''Redirect URI mismatch''))
    (check_code_pkce E client c (tr_code_verifier r)))))"

definition handle_authorization_code_grant :: "faults \<Rightarrow> conflict_report \<Rightarrow> oidc_env \<Rightarrow> int \<Rightarrow> token_draws \<Rightarrow>
    token_request \<Rightarrow> token_response oidc_op" where
  "handle_authorization_code_grant F V E now d r =
    bind (the_or (tr_code r) (lit ''Missing authorization code'')) (\<lambda>code.
    bind (the_or (tr_redirect_uri r) (lit ''Missing redirect URI'')) (\<lambda>redirect.
    bind (authenticate_client F E r) (\<lambda>client.
    seq (require (AuthorizationCodeGrant \<in> set (allowed_grant_types client))
      (lit ''Grant type not allowed for this client''))
    (bind (context_error ''get authorization code failed: '' (get_authorization_code F E code)) (\<lambda>c.
    seq (check_code E now client c r redirect)
    (seq (context_error ''mark authorization code used failed: '' (update_authorization_code F (code_hash c)))
    (context_error ''generate tokens failed: ''
      (generate_tokens F V E now d client (code_actor c) (code_scope c) (code_nonce c) (code_session_ref c)))))))))"

definition refreshed_scope :: "str \<Rightarrow> str option \<Rightarrow> str + str" where
  "refreshed_scope original requested =
    (case requested of
       None \<Rightarrow> Inr original
     | Some q \<Rightarrow>
         if \<forall>w\<in>set (split_whitespace q). w \<in> set (split_whitespace original) then Inr q
         else Inl (lit ''Requested scope exceeds the original grant''))"

definition rotate_refresh_token :: "faults \<Rightarrow> conflict_report \<Rightarrow> oidc_env \<Rightarrow> int \<Rightarrow> token_draws \<Rightarrow> oidc_client \<Rightarrow>
    oidc_refresh_token \<Rightarrow> str option \<Rightarrow> token_response oidc_op" where
  "rotate_refresh_token F V E now d client t requested =
    bind (consume_refresh_token_by_hash F (refresh_hash t)) (\<lambda>one.
    seq (require one (lit ''Refresh token already used''))
    (seq (revoke_access_token_by_hash F (refresh_access_hash t))
    (bind (lift_result (refreshed_scope (refresh_scope t) requested)) (\<lambda>scope.
    generate_tokens F V E now d client (refresh_actor t) scope None (refresh_session_ref t)))))"

definition handle_refresh_token_grant :: "faults \<Rightarrow> conflict_report \<Rightarrow> oidc_env \<Rightarrow> int \<Rightarrow> token_draws \<Rightarrow>
    token_request \<Rightarrow> token_response oidc_op" where
  "handle_refresh_token_grant F V E now d r =
    bind (the_or (tr_refresh_token r) (lit ''Missing refresh token'')) (\<lambda>token.
    bind (authenticate_client F E r) (\<lambda>client.
    seq (require (RefreshTokenGrant \<in> set (allowed_grant_types client))
      (lit ''Grant type not allowed for this client''))
    (bind (get_refresh_token F E token) (\<lambda>t.
    seq (require (refresh_client t = request_client_id r) (lit ''Refresh token was not issued to this client''))
    (seq (require (\<not> refresh_expires_at t < now) (lit ''Refresh token expired''))
    (if refresh_used t
     then seq (revoke_client_tokens_for_user F (refresh_client t) (refresh_actor t))
       (throw (lit ''Refresh token already used''))
     else rotate_refresh_token F V E now d client t (tr_scope r)))))))"

definition exchange_code_for_tokens :: "faults \<Rightarrow> conflict_report \<Rightarrow> oidc_env \<Rightarrow> int \<Rightarrow> token_draws \<Rightarrow>
    token_request \<Rightarrow> token_response oidc_op" where
  "exchange_code_for_tokens F V E now d r =
    (if tr_grant_type r = lit ''authorization_code'' then handle_authorization_code_grant F V E now d r
     else if tr_grant_type r = lit ''refresh_token'' then handle_refresh_token_grant F V E now d r
     else throw (lit ''Unsupported grant type''))"

section \<open>UserInfo and the logout hint\<close>

definition userinfo_of :: "str \<Rightarrow> user \<Rightarrow> str \<Rightarrow> userinfo_response" where
  "userinfo_of scope u subject =
    (let d = disclosure_from_scope scope in
     \<lparr>ui_sub = subject, ui_email = (if disclose_email d then Some (email u) else None),
      ui_email_verified = (if disclose_email d then Some (is_email_verified u) else None),
      ui_preferred_username = (if disclose_profile d then Some (username u) else None),
      ui_updated_at = (if disclose_profile d then Some (user_updated_at u) else None)\<rparr>)"

definition get_userinfo :: "faults \<Rightarrow> oidc_env \<Rightarrow> int \<Rightarrow> str \<Rightarrow> userinfo_response oidc_op" where
  "get_userinfo F E now token =
    bind (get_access_token F E token) (\<lambda>t.
    seq (require (\<not> access_expires_at t < now) (lit ''Access token expired''))
    (seq (require (lit ''openid'' \<in> set (split_whitespace (access_scope t)))
      (lit ''Access token does not carry the openid scope''))
    (bind (load_active_user F (access_actor t)) (\<lambda>u.
    bind (stable_subject_of_user F u) (\<lambda>subject.
    ret (userinfo_of (access_scope t) u subject))))))"

definition verify_id_token_hint :: "oidc_env \<Rightarrow> str \<Rightarrow> (str \<times> str) option" where
  "verify_id_token_hint E token = map_option (\<lambda>c. (idt_sub c, idt_aud c)) (read_id_token E token)"

end
