(* ===== verification/Oidc_Clients.thy ===== *)
theory Oidc_Clients
  imports Oidc
begin

text \<open>
  The registry of OIDC clients: \<^verbatim>\<open>src/services/oidc_client_management.rs\<close> and the handlers of
  \<^verbatim>\<open>src/routes/oidc_client.rs\<close>.  Client ids, secrets and salts are drawn by the caller
  (\<open>client_draws\<close>); the service reports errors as text and the handlers turn them into HTTP errors.
\<close>

section \<open>Requests and answers\<close>

record create_client_request =
  ccr_name :: str
  ccr_type :: client_type
  ccr_redirect_uris :: "str list"
  ccr_post_logout :: "str list option"
  ccr_scopes :: "str list option"
  ccr_grant_types :: "grant_type list option"
  ccr_response_types :: "response_type list option"
  ccr_require_pkce :: "bool option"
  ccr_access_lifetime :: "int option"
  ccr_refresh_lifetime :: "int option"
  ccr_id_lifetime :: "int option"

record client_response =
  cres_id :: str
  cres_secret :: str
  cres_name :: str
  cres_type :: client_type
  cres_redirect_uris :: "str list"
  cres_post_logout :: "str list"
  cres_scopes :: "str list"
  cres_grant_types :: "grant_type list"
  cres_response_types :: "response_type list"
  cres_require_pkce :: bool
  cres_access_lifetime :: int
  cres_refresh_lifetime :: int
  cres_id_lifetime :: int
  cres_active :: bool
  cres_created_at :: int
  cres_updated_at :: int

definition client_response_of :: "str \<Rightarrow> oidc_client \<Rightarrow> client_response" where
  "client_response_of secret c =
    \<lparr>cres_id = client_id c, cres_secret = secret, cres_name = client_name c, cres_type = client_type c,
     cres_redirect_uris = redirect_uris c, cres_post_logout = post_logout_redirect_uris c,
     cres_scopes = allowed_scopes c, cres_grant_types = allowed_grant_types c,
     cres_response_types = allowed_response_types c, cres_require_pkce = require_pkce c,
     cres_access_lifetime = access_token_lifetime c, cres_refresh_lifetime = refresh_token_lifetime c,
     cres_id_lifetime = id_token_lifetime c, cres_active = client_active c,
     cres_created_at = client_created_at c, cres_updated_at = client_updated_at c\<rparr>"

definition masked :: str where
  "masked = lit ''***''"

record client_draws =
  draw_millis :: int
  draw_client_suffix :: str
  draw_client_secret :: str
  draw_secret_salt :: bytes

definition or_else :: "'a option \<Rightarrow> 'a \<Rightarrow> 'a" where
  "or_else x d = (case x of None \<Rightarrow> d | Some a \<Rightarrow> a)"

section \<open>The service\<close>

definition max_id_token_lifetime :: int where
  "max_id_token_lifetime = 300"

definition clamp_id_token_lifetime :: "int \<Rightarrow> int" where
  "clamp_id_token_lifetime requested =
    (if requested \<le> 0 then max_id_token_lifetime else min requested max_id_token_lifetime)"

definition resolve_require_pkce :: "client_type \<Rightarrow> bool option \<Rightarrow> bool" where
  "resolve_require_pkce ty requested =
    (case ty of Public \<Rightarrow> True | Confidential \<Rightarrow> or_else requested True)"

definition generate_client_id :: "int \<Rightarrow> str \<Rightarrow> str" where
  "generate_client_id millis random = lit ''client_'' @ dec_int millis @ random"

definition new_client :: "int \<Rightarrow> client_draws \<Rightarrow> str \<Rightarrow> create_client_request \<Rightarrow> str \<Rightarrow> oidc_client" where
  "new_client now d hashed r creator =
    \<lparr>client_id = generate_client_id (draw_millis d) (draw_client_suffix d),
     client_secret_hash = hashed, client_name = ccr_name r, client_type = ccr_type r,
     redirect_uris = ccr_redirect_uris r, post_logout_redirect_uris = or_else (ccr_post_logout r) [],
     allowed_scopes = or_else (ccr_scopes r) [lit ''openid'', lit ''profile'', lit ''email''],
     allowed_grant_types = or_else (ccr_grant_types r) [AuthorizationCodeGrant, RefreshTokenGrant],
     allowed_response_types = or_else (ccr_response_types r) [CodeResponse],
     require_pkce = resolve_require_pkce (ccr_type r) (ccr_require_pkce r),
     access_token_lifetime = or_else (ccr_access_lifetime r) 3600,
     refresh_token_lifetime = or_else (ccr_refresh_lifetime r) 86400,
     id_token_lifetime = clamp_id_token_lifetime (or_else (ccr_id_lifetime r) max_id_token_lifetime),
     client_active = True, client_created_by = creator, client_created_at = now, client_updated_at = now\<rparr>"

definition client_indexes :: "oidc_client index list" where
  "client_indexes = [(''oidc_client_id_idx'', \<lambda>c. [client_id c])]"

definition save_client :: "faults \<Rightarrow> conflict_report \<Rightarrow> oidc_client \<Rightarrow> unit oidc_op" where
  "save_client F V c =
    as_text (seq (database_up F ''oidc_client_save'') (insert_row V client_indexes clients clients_update c))"

definition create_client :: "faults \<Rightarrow> conflict_report \<Rightarrow> oidc_env \<Rightarrow> int \<Rightarrow> client_draws \<Rightarrow> create_client_request \<Rightarrow>
    str \<Rightarrow> client_response oidc_op" where
  "create_client F V E now d r creator =
    bind (lift_result (hash_client_secret E (draw_secret_salt d) (draw_client_secret d))) (\<lambda>h.
    let c = new_client now d h r creator in
    seq (save_client F V c) (ret (client_response_of (draw_client_secret d) c)))"

definition active_client :: "str \<Rightarrow> oidc_client \<Rightarrow> bool" where
  "active_client cid c \<longleftrightarrow> client_id c = cid \<and> client_active c"

definition load_registered_client :: "faults \<Rightarrow> str \<Rightarrow> oidc_client oidc_op" where
  "load_registered_client F cid =
    bind (as_text (db_read F ''oidc_client_get'' (\<lambda>s. find (active_client cid) (clients s)))) (\<lambda>c.
    the_or c (lit ''Client not found''))"

text \<open>The count is a 64-bit number that is cast to 32 bits.\<close>

definition count_clients :: "faults \<Rightarrow> int oidc_op" where
  "count_clients F =
    as_text (db_read F ''oidc_client_count''
      (\<lambda>s. signed_take_bit 31 (int (count_where client_active (clients s)))))"

definition list_clients :: "faults \<Rightarrow> int option \<Rightarrow> int option \<Rightarrow> client_response list oidc_op" where
  "list_clients F limit offset =
    as_text (db_read F ''oidc_client_list'' (\<lambda>s.
      map (client_response_of masked)
        (page_of (nat (or_else limit 50), nat (or_else offset 0)) (filter client_active (clients s)))))"

definition merge_client :: "int \<Rightarrow> create_client_request \<Rightarrow> oidc_client \<Rightarrow> oidc_client" where
  "merge_client now r c =
    c\<lparr>client_name := ccr_name r, client_type := ccr_type r, redirect_uris := ccr_redirect_uris r,
      post_logout_redirect_uris := or_else (ccr_post_logout r) [],
      allowed_scopes := or_else (ccr_scopes r) (allowed_scopes c),
      allowed_grant_types := or_else (ccr_grant_types r) (allowed_grant_types c),
      allowed_response_types := or_else (ccr_response_types r) (allowed_response_types c),
      require_pkce := resolve_require_pkce (ccr_type r)
        (Some (or_else (ccr_require_pkce r) (require_pkce c))),
      access_token_lifetime := or_else (ccr_access_lifetime r) (access_token_lifetime c),
      refresh_token_lifetime := or_else (ccr_refresh_lifetime r) (refresh_token_lifetime c),
      id_token_lifetime := clamp_id_token_lifetime (or_else (ccr_id_lifetime r) (id_token_lifetime c)),
      client_updated_at := now\<rparr>"

text \<open>The columns that \<^verbatim>\<open>update_client_in_db\<close> sets; the others of the row stay.\<close>

definition set_columns :: "oidc_client \<Rightarrow> oidc_client \<Rightarrow> oidc_client" where
  "set_columns new row =
    row\<lparr>client_name := client_name new, client_type := client_type new, redirect_uris := redirect_uris new,
      post_logout_redirect_uris := post_logout_redirect_uris new, allowed_scopes := allowed_scopes new,
      allowed_grant_types := allowed_grant_types new, allowed_response_types := allowed_response_types new,
      require_pkce := require_pkce new, access_token_lifetime := access_token_lifetime new,
      refresh_token_lifetime := refresh_token_lifetime new, id_token_lifetime := id_token_lifetime new,
      client_updated_at := client_updated_at new\<rparr>"

definition update_client_in_db :: "faults \<Rightarrow> oidc_client \<Rightarrow> unit oidc_op" where
  "update_client_in_db F c =
    as_text (db_write F ''oidc_client_update''
      (clients_update (update_where (\<lambda>row. client_id row = client_id c) (set_columns c))))"

definition update_client :: "faults \<Rightarrow> int \<Rightarrow> str \<Rightarrow> create_client_request \<Rightarrow> client_response oidc_op" where
  "update_client F now cid r =
    bind (load_registered_client F cid) (\<lambda>c.
    let c' = merge_client now r c in
    seq (update_client_in_db F c') (ret (client_response_of masked c')))"

text \<open>\<^verbatim>\<open>UPDATE .. WHERE client_id = .. RETURN VALUE client_id\<close>: no returned row is an error.\<close>

definition change_client :: "faults \<Rightarrow> string \<Rightarrow> str \<Rightarrow> (oidc_client \<Rightarrow> oidc_client) \<Rightarrow> unit oidc_op" where
  "change_client F label cid f =
    bind (as_text (db_exec F label (\<lambda>s.
      (\<exists>c\<in>set (clients s). client_id c = cid, clients_update (update_where (\<lambda>c. client_id c = cid) f) s)))) (\<lambda>found.
    require found (lit ''Client not found''))"

definition disable_client :: "faults \<Rightarrow> int \<Rightarrow> str \<Rightarrow> unit oidc_op" where
  "disable_client F now cid =
    change_client F ''oidc_client_disable'' cid (\<lambda>c. c\<lparr>client_active := False, client_updated_at := now\<rparr>)"

definition regenerate_client_secret :: "faults \<Rightarrow> oidc_env \<Rightarrow> int \<Rightarrow> client_draws \<Rightarrow> str \<Rightarrow> str oidc_op" where
  "regenerate_client_secret F E now d cid =
    bind (lift_result (hash_client_secret E (draw_secret_salt d) (draw_client_secret d))) (\<lambda>h.
    seq (change_client F ''oidc_client_regenerate'' cid
      (\<lambda>c. c\<lparr>client_secret_hash := h, client_updated_at := now\<rparr>))
    (ret (draw_client_secret d)))"

section \<open>The handlers\<close>

definition client_error :: "str \<Rightarrow> auth_error" where
  "client_error e =
    (if contains (lit ''Client not found'') e then NotFound (lit ''Client not found'') else ServerError e)"

definition reject_unsupported_grant_types :: "create_client_request \<Rightarrow> auth_error + unit" where
  "reject_unsupported_grant_types r =
    (case ccr_grant_types r of
       None \<Rightarrow> Inr ()
     | Some grants \<Rightarrow>
         if ClientCredentialsGrant \<in> set grants
         then Inl (BadRequest (lit ''client_credentials is not supported by this token endpoint; only authorization_code and refresh_token are implemented''))
         else Inr ())"

definition reject_unsupported_response_types :: "create_client_request \<Rightarrow> auth_error + unit" where
  "reject_unsupported_response_types r =
    (case ccr_response_types r of
       None \<Rightarrow> Inr ()
     | Some types \<Rightarrow>
         if \<exists>t\<in>set types. t \<noteq> CodeResponse
         then Inl (BadRequest (lit ''only response_type=code is supported by this authorization endpoint; implicit and hybrid flows are not implemented''))
         else Inr ())"

fun check_redirect_uris :: "str list \<Rightarrow> auth_error + unit" where
  "check_redirect_uris [] = Inr ()"
| "check_redirect_uris (uri # uris) =
    (if 35 \<in> set uri then Inl (BadRequest (lit ''Redirect URI must not contain a fragment: '' @ uri))
     else (case judge_url uri of
         UrlFine \<Rightarrow> check_redirect_uris uris
       | UrlPlaintext \<Rightarrow> Inl (BadRequest (lit ''Redirect URI must use https (http is only allowed for loopback hosts '' @
           [8212] @ lit '' an exact 127.0.0.1, localhost or [::1]): '' @ uri))
       | UrlRelative \<Rightarrow> Inl (BadRequest (lit ''Redirect URI must be an absolute URL starting with https:// or http://: '' @ uri))))"

definition validate_redirect_uris :: "create_client_request \<Rightarrow> auth_error + unit" where
  "validate_redirect_uris r = check_redirect_uris (ccr_redirect_uris r @ or_else (ccr_post_logout r) [])"

text \<open>The declared lengths; the message is the one of the validation library (\<open>describe\<close>).\<close>

definition request_valid :: "create_client_request \<Rightarrow> bool" where
  "request_valid r \<longleftrightarrow> 1 \<le> length (ccr_name r) \<and> length (ccr_name r) \<le> 100 \<and> 1 \<le> length (ccr_redirect_uris r)"

definition admit_client_request :: "(create_client_request \<Rightarrow> str) \<Rightarrow> create_client_request \<Rightarrow>
    (oidc_world, unit) handler" where
  "admit_client_request describe r =
    seq (require (request_valid r) (BadRequest (lit ''Validation error: '' @ describe r)))
    (seq (lift_result (validate_redirect_uris r))
    (seq (lift_result (reject_unsupported_grant_types r))
    (lift_result (reject_unsupported_response_types r))))"

definition create_client_route :: "faults \<Rightarrow> conflict_report \<Rightarrow> oidc_env \<Rightarrow> (create_client_request \<Rightarrow> str) \<Rightarrow> int \<Rightarrow>
    client_draws \<Rightarrow> user \<Rightarrow> create_client_request \<Rightarrow> (oidc_world, client_response) handler" where
  "create_client_route F V E describe now d u r =
    seq (require_permission F (user_key u) oidc_clients_write)
    (seq (admit_client_request describe r)
    (map_error ServerError (create_client F V E now d r (user_key u))))"

record client_page =
  page_clients :: "client_response list"
  page_total :: int
  page_limit :: int
  page_offset :: int

definition list_clients_route :: "faults \<Rightarrow> user \<Rightarrow> int option \<Rightarrow> int option \<Rightarrow> (oidc_world, client_page) handler" where
  "list_clients_route F u limit_q offset_q =
    seq (require_permission F (user_key u) oidc_clients_read)
    (let limit = min 200 (max 1 (or_else limit_q 50)); offset = max 0 (or_else offset_q 0) in
     bind (map_error ServerError (list_clients F (Some limit) (Some offset))) (\<lambda>cs.
     bind (map_error ServerError (count_clients F)) (\<lambda>total.
     ret \<lparr>page_clients = cs, page_total = total, page_limit = limit, page_offset = offset\<rparr>)))"

definition get_client_route :: "faults \<Rightarrow> user \<Rightarrow> str \<Rightarrow> (oidc_world, client_response) handler" where
  "get_client_route F u cid =
    seq (require_permission F (user_key u) oidc_clients_read)
    (bind (map_error client_error (load_registered_client F cid)) (\<lambda>c. ret (client_response_of masked c)))"

definition update_client_route :: "faults \<Rightarrow> (create_client_request \<Rightarrow> str) \<Rightarrow> int \<Rightarrow> user \<Rightarrow> str \<Rightarrow>
    create_client_request \<Rightarrow> (oidc_world, client_response) handler" where
  "update_client_route F describe now u cid r =
    seq (require_permission F (user_key u) oidc_clients_write)
    (seq (admit_client_request describe r)
    (map_error client_error (update_client F now cid r)))"

definition disable_client_route :: "faults \<Rightarrow> int \<Rightarrow> user \<Rightarrow> str \<Rightarrow> (oidc_world, unit) handler" where
  "disable_client_route F now u cid =
    seq (require_permission F (user_key u) oidc_clients_write)
    (map_error client_error (disable_client F now cid))"

definition regenerate_secret_route :: "faults \<Rightarrow> oidc_env \<Rightarrow> int \<Rightarrow> client_draws \<Rightarrow> user \<Rightarrow> str \<Rightarrow>
    (oidc_world, str) handler" where
  "regenerate_secret_route F E now d u cid =
    seq (require_permission F (user_key u) oidc_clients_write)
    (map_error client_error (regenerate_client_secret F E now d cid))"

end
