(* ===== verification/Oidc_Routes.thy ===== *)
theory Oidc_Routes
  imports Oidc_Clients
begin

text \<open>
  The endpoints of \<^verbatim>\<open>src/routes/oidc.rs\<close>: authorize, token, userinfo and logout, with the cookies and
  signed values that carry a browser through them.  URL encoding, header syntax and the JWT library are
  fields of \<open>web_env\<close>; discovery and the key set are constants of the service and left out.
\<close>

section \<open>Signed values and cookies\<close>

datatype browser_claims =
    BrowserClaims str str int int
  | ReturnClaims str int int
  | StateClaims str "str option" int int

record web_env =
  url_encode :: "str \<Rightarrow> str"
  url_decode :: "str \<Rightarrow> str option"
  header_value :: "str \<Rightarrow> str + str"
  sign_browser :: "str \<Rightarrow> browser_claims \<Rightarrow> str + str"
  read_browser :: "str \<Rightarrow> int \<Rightarrow> str \<Rightarrow> browser_claims option"

definition soulauth_session_cookie :: str where "soulauth_session_cookie = lit ''soulauth_session''"
definition oidc_return_cookie :: str where "oidc_return_cookie = lit ''soulauth_oidc_return''"
definition oauth_state_cookie :: str where "oauth_state_cookie = lit ''soulauth_oauth_state''"
definition session_ttl_seconds :: int where "session_ttl_seconds = 86400"
definition oauth_state_ttl_seconds :: int where "oauth_state_ttl_seconds = 600"

definition build_cookie :: "web_env \<Rightarrow> str \<Rightarrow> str \<Rightarrow> int \<Rightarrow> bool \<Rightarrow> str" where
  "build_cookie W name val max_age_seconds secure =
    name @ [61] @ url_encode W val @ lit ''; Path=/; Max-Age='' @ dec_int max_age_seconds @ lit ''; HttpOnly'' @
    (if secure then lit ''; Secure'' else []) @ lit ''; SameSite=Lax''"

definition build_expired_cookie :: "web_env \<Rightarrow> str \<Rightarrow> bool \<Rightarrow> str" where
  "build_expired_cookie W name secure = build_cookie W name [] 0 secure"

definition signed :: "web_env \<Rightarrow> str \<Rightarrow> browser_claims \<Rightarrow> auth_error + str" where
  "signed W secret c = (case sign_browser W secret c of Inl e \<Rightarrow> Inl (TokenError e) | Inr t \<Rightarrow> Inr t)"

definition create_browser_session_token :: "web_env \<Rightarrow> int \<Rightarrow> str \<Rightarrow> str \<Rightarrow> str \<Rightarrow> auth_error + str" where
  "create_browser_session_token W now uid key secret =
    signed W secret (BrowserClaims uid key (now + session_ttl_seconds) now)"

record browser_session =
  bs_user :: str
  bs_session_key :: str
  bs_issued_at :: int

definition decode_browser_session_token :: "web_env \<Rightarrow> int \<Rightarrow> str \<Rightarrow> str \<Rightarrow> auth_error + browser_session" where
  "decode_browser_session_token W now token secret =
    (case read_browser W secret now token of
       Some (BrowserClaims uid sid _ iat) \<Rightarrow>
         if trim sid = [] then Inl InvalidToken
         else Inr \<lparr>bs_user = uid, bs_session_key = sid, bs_issued_at = iat\<rparr>
     | _ \<Rightarrow> Inl InvalidToken)"

definition is_valid_oidc_return_target :: "str \<Rightarrow> bool" where
  "is_valid_oidc_return_target t \<longleftrightarrow>
    starts_with (lit ''/api/oidc/authorize?'') t \<and> \<not> starts_with (lit ''//'') t"

definition create_oidc_return_token :: "web_env \<Rightarrow> int \<Rightarrow> str \<Rightarrow> str \<Rightarrow> auth_error + str" where
  "create_oidc_return_token W now target secret =
    (if \<not> is_valid_oidc_return_target target then Inl (BadRequest (lit ''Invalid OIDC return target''))
     else signed W secret (ReturnClaims target (now + oauth_state_ttl_seconds) now))"

definition decode_oidc_return_token :: "web_env \<Rightarrow> int \<Rightarrow> str \<Rightarrow> str \<Rightarrow> auth_error + str" where
  "decode_oidc_return_token W now token secret =
    (case read_browser W secret now token of
       Some (ReturnClaims target _ _) \<Rightarrow>
         if is_valid_oidc_return_target target then Inr target else Inl InvalidToken
     | _ \<Rightarrow> Inl InvalidToken)"

text \<open>The nonce of an OAuth state is drawn by the caller and returned with the token.\<close>

definition create_oauth_state_token :: "web_env \<Rightarrow> int \<Rightarrow> str \<Rightarrow> str option \<Rightarrow> str \<Rightarrow> auth_error + str \<times> str" where
  "create_oauth_state_token W now nonce return_target secret =
    (if (case return_target of None \<Rightarrow> False | Some t \<Rightarrow> \<not> is_valid_oidc_return_target t)
     then Inl (BadRequest (lit ''Invalid OIDC return target''))
     else (case signed W secret (StateClaims nonce return_target (now + oauth_state_ttl_seconds) now) of
         Inl e \<Rightarrow> Inl e
       | Inr token \<Rightarrow> Inr (token, nonce)))"

definition decode_oauth_state_token :: "web_env \<Rightarrow> int \<Rightarrow> str \<Rightarrow> str \<Rightarrow> auth_error + str \<times> str option" where
  "decode_oauth_state_token W now token secret =
    (case read_browser W secret now token of
       Some (StateClaims nonce return_target _ _) \<Rightarrow>
         if (case return_target of None \<Rightarrow> False | Some t \<Rightarrow> \<not> is_valid_oidc_return_target t)
         then Inl InvalidToken else Inr (nonce, return_target)
     | _ \<Rightarrow> Inl InvalidToken)"

text \<open>
  \<^verbatim>\<open>find_map\<close>: the first cookie of that name whose value decodes.
\<close>

fun first_some :: "('a \<Rightarrow> 'b option) \<Rightarrow> 'a list \<Rightarrow> 'b option" where
  "first_some f [] = None"
| "first_some f (x # xs) = (case f x of None \<Rightarrow> first_some f xs | Some y \<Rightarrow> Some y)"

definition cookie_value :: "web_env \<Rightarrow> str list \<Rightarrow> str \<Rightarrow> str option" where
  "cookie_value W headers name =
    first_some (\<lambda>c. case split_once 61 (trim c) of
        None \<Rightarrow> None
      | Some (n, v) \<Rightarrow> if n = name then url_decode W v else None)
      (concat (map (split_on (\<lambda>c. c = 59)) headers))"

section \<open>The authorization endpoint\<close>

record http_redirect =
  location :: str
  set_cookie :: "str option"

record authorize_call =
  call_params :: "str \<Rightarrow> str option"
  call_uri :: str
  call_authorization :: "str option"
  call_cookies :: "str list"

definition authorize_request_of :: "(str \<Rightarrow> str option) \<Rightarrow> auth_error + authorize_request" where
  "authorize_request_of p =
    (case p (lit ''response_type'') of
       None \<Rightarrow> Inl (BadRequest (lit ''Missing response_type''))
     | Some rt \<Rightarrow> (case p (lit ''client_id'') of
         None \<Rightarrow> Inl (BadRequest (lit ''Missing client_id''))
       | Some cid \<Rightarrow> (case p (lit ''redirect_uri'') of
           None \<Rightarrow> Inl (BadRequest (lit ''Missing redirect_uri''))
         | Some uri \<Rightarrow> Inr
             \<lparr>ar_response_type = rt, ar_client_id = cid, ar_redirect_uri = uri, ar_scope = p (lit ''scope''),
              ar_state = p (lit ''state''), ar_nonce = p (lit ''nonce''),
              ar_code_challenge = p (lit ''code_challenge''),
              ar_code_challenge_method = p (lit ''code_challenge_method''), ar_prompt = p (lit ''prompt''),
              ar_max_age = Option.bind (p (lit ''max_age'')) (parse_integer i64_min i64_max)\<rparr>)))"

definition load_client :: "faults \<Rightarrow> str \<Rightarrow> (oidc_world, oidc_client) handler" where
  "load_client F cid =
    bind (map_error (wrap_error ''Failed to load OIDC client: '')
      (db_read F ''load_oidc_client'' (\<lambda>s. find (active_client cid) (clients s)))) (\<lambda>c.
    the_or c (BadRequest (lit ''Invalid OIDC client'')))"

definition parse_requested_types :: "str \<Rightarrow> auth_error + response_type list" where
  "parse_requested_types text =
    (case parse_response_types (split_whitespace text) of
       Inl e \<Rightarrow> Inl (BadRequest e)
     | Inr rts \<Rightarrow> if rts = [] then Inl (BadRequest (lit ''Missing response type'')) else Inr rts)"

definition validate_authorize_request :: "faults \<Rightarrow> authorize_request \<Rightarrow> (oidc_world, unit) handler" where
  "validate_authorize_request F r =
    bind (load_client F (ar_client_id r)) (\<lambda>client.
    seq (require (ar_redirect_uri r \<in> set (redirect_uris client)) (BadRequest (lit ''Invalid redirect URI'')))
    (bind (lift_result (parse_requested_types (ar_response_type r))) (\<lambda>rts.
    seq (require (\<forall>rt\<in>set rts. rt \<in> set (allowed_response_types client))
      (BadRequest (lit ''Response type not allowed'')))
    (require (\<not> (require_pkce client \<and> ar_code_challenge r = None)) (BadRequest (lit ''PKCE is required''))))))"

definition prompts :: "string \<Rightarrow> authorize_request \<Rightarrow> bool" where
  "prompts word r = (case ar_prompt r of None \<Rightarrow> False | Some p \<Rightarrow> lit word \<in> set (split_whitespace p))"

definition browser_session_is_active :: "faults \<Rightarrow> int \<Rightarrow> str \<Rightarrow> ('x store_scheme, bool) handler" where
  "browser_session_is_active F now key =
    catch (db_read F ''browser_session_is_active''
      (\<lambda>s. count_where (\<lambda>r. session_key r = key \<and> now < session_expires_at r) (sessions s)))
      (\<lambda>_. ret False) (\<lambda>n. ret (0 < n))"

definition resolve_existing_user_id :: "faults \<Rightarrow> str \<Rightarrow> ('x store_scheme, str) handler" where
  "resolve_existing_user_id F uid =
    bind (db_read F ''resolve_session_user'' (\<lambda>s. find (\<lambda>u. user_key u = normalize_user_id uid) (users s))) (\<lambda>found.
    bind (the_or found UserNotFound) (\<lambda>u.
    seq (lift_result (ensure_usable u)) (ret (user_key u))))"

text \<open>The user and the session behind a request, if there are any: by bearer token, or by cookie.\<close>

definition bearer_identity :: "faults \<Rightarrow> jwt_env \<Rightarrow> int \<Rightarrow> str \<Rightarrow> ('x store_scheme, str \<times> str option) handler" where
  "bearer_identity F J now token =
    bind (decode_and_verify_token F J now token) (\<lambda>c.
    bind (authenticable_actor F (claims_sub c) Human) (\<lambda>g.
    bind (load_user_from_actor F (actor_key (gate_actor g))) (\<lambda>u.
    seq (lift_result (ensure_usable u)) (ret (user_key u, claims_session c)))))"

definition bearer_principal :: "faults \<Rightarrow> jwt_env \<Rightarrow> int \<Rightarrow> str option \<Rightarrow> ('x store_scheme, (str \<times> str) option) handler" where
  "bearer_principal F J now header =
    (case Option.bind header strip_bearer_scheme of
       None \<Rightarrow> ret None
     | Some token \<Rightarrow>
         catch (bearer_identity F J now (trim token)) (\<lambda>_. ret None)
           (\<lambda>(uid, sid). ret (map_option (Pair uid) sid)))"

definition cookie_principal :: "faults \<Rightarrow> web_env \<Rightarrow> config \<Rightarrow> int \<Rightarrow> str list \<Rightarrow> int option \<Rightarrow>
    ('x store_scheme, (str \<times> str) option) handler" where
  "cookie_principal F W cfg now cookies max_age =
    (case cookie_value W cookies soulauth_session_cookie of
       None \<Rightarrow> ret None
     | Some token \<Rightarrow>
         (case decode_browser_session_token W now token (cfg_jwt_secret cfg) of
            Inl _ \<Rightarrow> ret None
          | Inr b \<Rightarrow>
              if (case max_age of None \<Rightarrow> False | Some m \<Rightarrow> m < now - bs_issued_at b) then ret None
              else bind (browser_session_is_active F now (bs_session_key b)) (\<lambda>active.
                if \<not> active then ret None
                else catch (resolve_existing_user_id F (bs_user b)) (\<lambda>_. ret None)
                  (\<lambda>uid. ret (Some (uid, bs_session_key b))))))"

definition separator :: "str \<Rightarrow> str" where
  "separator url = (if 63 \<in> set url then [38] else [63])"

definition create_error_redirect :: "web_env \<Rightarrow> str \<Rightarrow> string \<Rightarrow> str option \<Rightarrow> str option \<Rightarrow> str" where
  "create_error_redirect W uri err description state =
    uri @ separator uri @ lit ''error='' @ lit err @
    (case description of None \<Rightarrow> [] | Some d \<Rightarrow> lit ''&error_description='' @ url_encode W d) @
    (case state of None \<Rightarrow> [] | Some s \<Rightarrow> lit ''&state='' @ url_encode W s)"

definition redirect_to :: "str \<Rightarrow> http_redirect" where
  "redirect_to url = \<lparr>location = url, set_cookie = None\<rparr>"

definition code_redirect :: "web_env \<Rightarrow> authorize_request \<Rightarrow> str \<Rightarrow> str" where
  "code_redirect W r code =
    ar_redirect_uri r @ separator (ar_redirect_uri r) @ lit ''code='' @ url_encode W code @
    (case ar_state r of None \<Rightarrow> [] | Some s \<Rightarrow> lit ''&state='' @ url_encode W s)"

definition create_authorize_response :: "faults \<Rightarrow> conflict_report \<Rightarrow> oidc_env \<Rightarrow> web_env \<Rightarrow> int \<Rightarrow> str \<Rightarrow>
    authorize_request \<Rightarrow> str \<Rightarrow> str \<Rightarrow> (oidc_world, http_redirect) handler" where
  "create_authorize_response F V E W now code r uid session_ref =
    catch (create_authorization_code F V E now code r uid session_ref)
      (\<lambda>e. ret (redirect_to (create_error_redirect W (ar_redirect_uri r) ''invalid_request'' (Some e) (ar_state r))))
      (\<lambda>issued. ret (redirect_to (code_redirect W r issued)))"

text \<open>Without a usable session: the error of \<^verbatim>\<open>prompt=none\<close>, or the login page with a signed way back.\<close>

definition send_to_login :: "web_env \<Rightarrow> config \<Rightarrow> int \<Rightarrow> str \<Rightarrow> (oidc_world, http_redirect) handler" where
  "send_to_login W cfg now uri =
    bind (lift_result (create_oidc_return_token W now uri (cfg_jwt_secret cfg))) (\<lambda>token.
    let cookie = build_cookie W oidc_return_cookie token oauth_state_ttl_seconds (cookies_secure cfg);
        page = login_page_url cfg in
    (case header_value W cookie of
       Inl e \<Rightarrow> throw (BadRequest (lit ''Invalid return cookie: '' @ e))
     | Inr v \<Rightarrow> ret \<lparr>location = page @ separator page @ lit ''return_to='' @ url_encode W token,
                  set_cookie = Some v\<rparr>))"

definition authorize_principal :: "faults \<Rightarrow> jwt_env \<Rightarrow> web_env \<Rightarrow> config \<Rightarrow> int \<Rightarrow> authorize_call \<Rightarrow>
    authorize_request \<Rightarrow> ('x store_scheme, (str \<times> str) option) handler" where
  "authorize_principal F J W cfg now call r =
    (if prompts ''login'' r then ret None
     else bind (bearer_principal F J now (call_authorization call)) (\<lambda>p.
       case p of
         Some q \<Rightarrow> ret (Some q)
       | None \<Rightarrow> cookie_principal F W cfg now (call_cookies call) (ar_max_age r)))"

definition authorize :: "faults \<Rightarrow> conflict_report \<Rightarrow> jwt_env \<Rightarrow> oidc_env \<Rightarrow> web_env \<Rightarrow> int \<Rightarrow> str \<Rightarrow> authorize_call \<Rightarrow>
    (oidc_world, http_redirect) handler" where
  "authorize F V J E W now code call =
    bind (lift_result (authorize_request_of (call_params call))) (\<lambda>r.
    seq (validate_authorize_request F r)
    (bind (authorize_principal F J W (oidc_config E) now call r) (\<lambda>p.
     case p of
       Some (uid, sid) \<Rightarrow> create_authorize_response F V E W now code r uid sid
     | None \<Rightarrow>
         if prompts ''none'' r
         then ret (redirect_to (create_error_redirect W (ar_redirect_uri r) ''login_required''
           (Some (lit ''No active session for prompt=none'')) (ar_state r)))
         else send_to_login W (oidc_config E) now (call_uri call))))"

section \<open>The token endpoint\<close>

text \<open>\<^verbatim>\<open>u8::from_str_radix(.., 16)\<close> on two bytes: it accepts a plus sign.\<close>

definition hex_digit :: "byte \<Rightarrow> nat option" where
  "hex_digit c =
    (if 48 \<le> c \<and> c \<le> 57 then Some (c - 48)
     else if 65 \<le> c \<and> c \<le> 70 then Some (c - 55)
     else if 97 \<le> c \<and> c \<le> 102 then Some (c - 87) else None)"

definition hex_pair :: "byte \<Rightarrow> byte \<Rightarrow> nat option" where
  "hex_pair a b =
    (if a = 43 then hex_digit b
     else (case (hex_digit a, hex_digit b) of (Some h, Some l) \<Rightarrow> Some (16 * h + l) | _ \<Rightarrow> None))"

fun percent_bytes :: "byte list \<Rightarrow> byte list" where
  "percent_bytes [] = []"
| "percent_bytes (c # a # b # rest) =
    (if c = 37
     then (case hex_pair a b of Some n \<Rightarrow> n # percent_bytes rest | None \<Rightarrow> c # percent_bytes (a # b # rest))
     else c # percent_bytes (a # b # rest))"
| "percent_bytes (c # rest) = c # percent_bytes rest"

text \<open>\<^verbatim>\<open>String::from_utf8\<close>.\<close>

definition from_utf8 :: "byte list \<Rightarrow> str option" where
  "from_utf8 bs = (let s = utf8_decode bs in if valid_text s \<and> utf8 s = bs then Some s else None)"

definition percent_decode :: "str \<Rightarrow> str" where
  "percent_decode raw = (case from_utf8 (percent_bytes (utf8 raw)) of None \<Rightarrow> raw | Some s \<Rightarrow> s)"

definition basic_client_credentials :: "(str \<Rightarrow> byte list option) \<Rightarrow> str option \<Rightarrow> (str \<times> str) option" where
  "basic_client_credentials b64 header =
    Option.bind header (\<lambda>raw.
    Option.bind (split_once 32 raw) (\<lambda>(scheme, encoded).
    if to_ascii_lowercase scheme \<noteq> lit ''basic'' then None
    else Option.bind (b64 (trim encoded)) (\<lambda>decoded.
    Option.bind (from_utf8 decoded) (\<lambda>text.
    map_option (\<lambda>(cid, secret). (percent_decode cid, percent_decode secret)) (split_once 58 text)))))"

datatype token_answer = Granted token_response | Refused str str

definition merge_basic :: "(str \<times> str) option \<Rightarrow> token_request \<Rightarrow> token_answer + token_request" where
  "merge_basic basic r =
    (case basic of
       None \<Rightarrow> Inr r
     | Some (bid, secret) \<Rightarrow>
         if tr_client_secret r \<noteq> None
         then Inl (Refused (lit ''invalid_request'') (lit ''client credentials must not be sent in both the Authorization header                  and the request body''))
         else if tr_client_id r \<noteq> None \<and> tr_client_id r \<noteq> Some bid
         then Inl (Refused (lit ''invalid_client'') (lit ''client_id in the Authorization header does not match the request body''))
         else Inr (r\<lparr>tr_client_id := Some bid, tr_client_secret := Some secret\<rparr>))"

definition token_route :: "faults \<Rightarrow> conflict_report \<Rightarrow> oidc_env \<Rightarrow> int \<Rightarrow> token_draws \<Rightarrow> (str \<Rightarrow> byte list option) \<Rightarrow>
    str option \<Rightarrow> token_request \<Rightarrow> (oidc_world, auth_error, token_answer) op" where
  "token_route F V E now d b64 header r0 =
    (case merge_basic (basic_client_credentials b64 header) r0 of
       Inl refusal \<Rightarrow> ret refusal
     | Inr r \<Rightarrow>
         if tr_client_id r = None
         then ret (Refused (lit ''invalid_request'') (lit ''client_id is required when the client does not authenticate with the Authorization header''))
         else catch (exchange_code_for_tokens F V E now d r)
           (\<lambda>e. ret (Refused (lit ''invalid_grant'') e)) (\<lambda>resp. ret (Granted resp)))"

definition userinfo_route :: "faults \<Rightarrow> oidc_env \<Rightarrow> int \<Rightarrow> str option option \<Rightarrow> (oidc_world, userinfo_response) handler" where
  "userinfo_route F E now header =
    bind (the_or header (Unauthorized (lit ''Missing authorization header''))) (\<lambda>text.
    bind (the_or text (Unauthorized (lit ''Invalid authorization header''))) (\<lambda>auth.
    bind (the_or (map_option trim (strip_bearer_scheme auth)) (Unauthorized (lit ''Invalid token type''))) (\<lambda>tok.
    map_error (\<lambda>_. Unauthorized (lit ''Invalid access token'')) (get_userinfo F E now tok))))"

section \<open>Logout\<close>

text \<open>
  A failed revocation does not stop the logout; its reason is what the audit event would carry.
\<close>

record logout_answer =
  answer_redirect :: http_redirect
  incomplete_revocation :: "str option"

definition revoke_for_logout :: "faults \<Rightarrow> str \<Rightarrow> str \<Rightarrow> (oidc_world, str option) handler" where
  "revoke_for_logout F cid uid =
    bind (catch (revoke_client_tokens_for_user F cid uid)
      (\<lambda>e. ret (Some (lit ''tokens: '' @ e))) (\<lambda>_. ret None)) (\<lambda>failed.
    catch (delete_sessions_by_user_id F uid)
      (\<lambda>e. ret (Some (case failed of
          None \<Rightarrow> lit ''sessions: '' @ display e
        | Some prev \<Rightarrow> prev @ lit ''; sessions: '' @ display e)))
      (\<lambda>_. ret failed))"

definition post_logout_target :: "faults \<Rightarrow> web_env \<Rightarrow> config \<Rightarrow> str option \<Rightarrow> str option \<Rightarrow> (str \<times> str) option \<Rightarrow>
    (oidc_world, str) handler" where
  "post_logout_target F W cfg requested state hint =
    (case (requested, hint) of
       (Some url, Some (_, cid)) \<Rightarrow>
         catch (load_client F cid)
           (\<lambda>_. ret (cfg_app_url cfg))
           (\<lambda>client. ret
             (if url \<in> set (post_logout_redirect_uris client)
              then url @ (case state of None \<Rightarrow> [] | Some s \<Rightarrow> separator url @ lit ''state='' @ url_encode W s)
              else cfg_app_url cfg))
     | _ \<Rightarrow> ret (cfg_app_url cfg))"

definition logout_route :: "faults \<Rightarrow> oidc_env \<Rightarrow> web_env \<Rightarrow> (str \<Rightarrow> str option) \<Rightarrow> (oidc_world, logout_answer) handler" where
  "logout_route F E W p =
    (let cfg = oidc_config E;
         hint = Option.bind (p (lit ''id_token_hint'')) (verify_id_token_hint E) in
     bind (case hint of None \<Rightarrow> ret None | Some (uid, cid) \<Rightarrow> revoke_for_logout F cid uid) (\<lambda>failed.
     bind (post_logout_target F W cfg (p (lit ''post_logout_redirect_uri'')) (p (lit ''state'')) hint) (\<lambda>url.
     (case header_value W (build_expired_cookie W soulauth_session_cookie (cookies_secure cfg)) of
        Inl e \<Rightarrow> throw (BadRequest (lit ''Invalid session cookie: '' @ e))
      | Inr v \<Rightarrow> ret \<lparr>answer_redirect = \<lparr>location = url, set_cookie = Some v\<rparr>,
                   incomplete_revocation = failed\<rparr>))))"

end
