(* ===== verification/Config_Safety.thy ===== *)
theory Config_Safety
  imports Config
begin

text \<open>
  What a configuration that \<open>from_env\<close> accepts is known to satisfy, and what its loopback criterion
  means for the host a URL really names.
\<close>

section \<open>Accepted configurations\<close>

lemma must_success [simp]: "must b name reason k = Inr u \<longleftrightarrow> b \<and> k = Inr u"
  by (simp add: must_def)

definition url_safe :: "str \<Rightarrow> bool" where
  "url_safe u \<longleftrightarrow> starts_with (lit ''https://'') u \<or> (\<exists>h. host_of u = Some h \<and> is_loopback_host h)"

lemma judge_fine: "judge_url u = UrlFine \<longleftrightarrow> url_safe u"
  by (auto simp: judge_url_def url_safe_def split: option.splits)

lemma redirect_url_checked:
  "check_oauth_redirect_url value = Inr () \<Longrightarrow> Option.bind (map_option trim value) non_empty = Some u \<Longrightarrow> url_safe u"
  by (auto simp: check_oauth_redirect_url_def judge_fine [symmetric] split: url_verdict.splits)

lemma base_url_checked:
  "check_oauth_base_url name value = Inr () \<Longrightarrow> Option.bind (map_option trim value) non_empty = Some u \<Longrightarrow>
    url_safe u \<and> last u \<noteq> 47"
  by (auto simp: check_oauth_base_url_def judge_fine [symmetric] split: url_verdict.splits if_splits)

text \<open>The conditions on a deployment that serves more than the machine it runs on.\<close>

definition production_ready :: "config \<Rightarrow> bool" where
  "production_ready c \<longleftrightarrow> cookies_secure c \<and>
    (cfg_oidc_rsa_private_key_pem c \<noteq> None \<or> cfg_oidc_rsa_private_key_path c \<noteq> None) \<and>
    cfg_mfa_encryption_key c \<noteq> None \<and> cfg_audit_integrity_key c \<noteq> None \<and>
    cfg_instance_id c \<noteq> None \<and>
    (database_is_local c \<or>
      database_is_encrypted c \<and> to_ascii_lowercase (trim (cfg_database_user c)) \<noteq> lit ''root'')"

lemma production_checked:
  "check_production_secrets c = Inr u \<Longrightarrow> serves_remote_clients c \<Longrightarrow> production_ready c"
  by (auto simp: check_production_secrets_def production_ready_def cookies_secure_def bind_eq_Some_conv split: if_splits)

lemma config_checked:
  assumes "check_config c = Inr u"
  shows "32 \<le> byte_len (cfg_jwt_secret c)" "cfg_lockout_max_attempts c \<noteq> 0" "cfg_lockout_duration_minutes c \<noteq> 0"
    "check_oauth_base_url ''GOOGLE_OAUTH_BASE_URL'' (cfg_google_oauth_base_url c) = Inr ()"
    "check_oauth_base_url ''GITHUB_OAUTH_BASE_URL'' (cfg_github_oauth_base_url c) = Inr ()"
    "any_oauth_provider_configured c \<Longrightarrow> cfg_oauth_redirect_url c \<noteq> None"
    "check_oauth_redirect_url (cfg_oauth_redirect_url c) = Inr ()" "check_production_secrets c = Inr ()"
  using assms by (auto simp: check_config_def split: if_splits sum.splits)

text \<open>What every optional variable looks like: trimmed and non-empty.\<close>

lemma optional_clean:
  "optional E name = Some v \<Longrightarrow> Option.bind (map_option trim (optional E name)) non_empty = Some v"
  by (cases "E name") (auto simp: optional_def non_empty_def split: if_splits)

text \<open>A successful start, stage by stage.\<close>

lemma from_env_success:
  "from_env E = (Inr c, E') \<longleftrightarrow> E' = E \<and> (\<exists>app timeout secret expiration host port sender min_length ttl attempts duration window.
    optional E ''APP_URL'' = Some app \<and> check_cors_origins (cors_of_env E) = Inr () \<and>
    env_int 0 u64_max 30 E ''DATABASE_CONNECTION_TIMEOUT'' = Some timeout \<and>
    optional E ''JWT_SECRET'' = Some secret \<and> env_int i64_min i64_max 86400 E ''JWT_EXPIRATION'' = Some expiration \<and>
    optional E ''SMTP_HOST'' = Some host \<and> env_int 0 u16_max 587 E ''SMTP_PORT'' = Some port \<and>
    optional E ''SMTP_FROM'' = Some sender \<and> env_int 0 u64_max 12 E ''PASSWORD_MIN_LENGTH'' = Some min_length \<and>
    env_int 0 u64_max 5 E ''AUTH_SESSION_CACHE_TTL_SECONDS'' = Some ttl \<and>
    env_int 0 u32_max 5 E ''LOCKOUT_MAX_ATTEMPTS'' = Some attempts \<and>
    env_int 0 u32_max 15 E ''LOCKOUT_DURATION_MINUTES'' = Some duration \<and>
    env_int 0 u32_max 60 E ''LOCKOUT_RESET_WINDOW_MINUTES'' = Some window \<and>
    c = config_from E app (cors_of_env E) timeout secret expiration host port sender min_length ttl attempts duration window \<and>
    check_config c = Inr ())"
  unfolding from_env_def bind_success seq_success lift_result_success reads_eq ret_eq
    required_success parse_with_default_success
  by (simp; blast)

lemma cut_at_missing: "d \<notin> set s \<Longrightarrow> cut_at (d # p) s = None"
  by (induction s) (auto split: option.split)

lemma set_trim_end_matches: "set s \<subseteq> insert d (set (trim_end_matches d s))"
proof -
  have "rev s = takeWhile (\<lambda>c. c = d) (rev s) @ dropWhile (\<lambda>c. c = d) (rev s)" by simp
  then have "set s = set (takeWhile (\<lambda>c. c = d) (rev s)) \<union> set (trim_end_matches d s)"
    unfolding trim_end_matches_def by (metis set_append set_rev)
  then show ?thesis by (auto dest: set_takeWhileD)
qed

text \<open>The fallback origin is the application's own address, which is a star only if the start is refused.\<close>

lemma star_is_no_address:
  assumes "trim_end_matches 47 (cfg_app_url c) = lit ''*''"
  shows "serves_remote_clients c" "\<not> cookies_secure c"
proof -
  have only: "set (trim (cfg_app_url c)) \<subseteq> {42, 47}"
    using set_trim_end_matches [of "cfg_app_url c" 47] set_trim_by [of is_whitespace "cfg_app_url c"] assms
    by (auto simp: lit_def)
  then have "58 \<notin> set (trim (cfg_app_url c))" by auto
  then have "cut_at (lit ''://'') (trim (cfg_app_url c)) = None"
    using cut_at_missing [of 58 "trim (cfg_app_url c)"] by (auto simp: lit_def)
  then show "serves_remote_clients c" by (simp add: serves_remote_clients_def host_of_def)
  have "104 \<notin> set (to_ascii_lowercase (trim (cfg_app_url c)))"
    using only by (auto simp: to_ascii_lowercase_def ascii_lower_def split: if_splits)
  then show "\<not> cookies_secure c"
    by (auto simp: cookies_secure_def starts_with_def lit_def)
qed

lemma no_star_origin:
  assumes "check_config c = Inr ()" "check_cors_origins (cfg_cors_allowed_origins c) = Inr ()"
  shows "lit ''*'' \<notin> set (effective_cors_origins c)"
  using assms star_is_no_address [of c] production_checked [OF config_checked(8) [OF assms(1)]]
  by (auto simp: effective_cors_origins_def check_cors_origins_def production_ready_def split: if_splits)

definition oauth_urls :: "config \<Rightarrow> str set" where
  "oauth_urls c = set_option (cfg_oauth_redirect_url c) \<union> set_option (cfg_google_oauth_base_url c) \<union>
    set_option (cfg_github_oauth_base_url c)"

lemma oauth_urls_checked:
  assumes "check_config c = Inr ()" "cfg_oauth_redirect_url c = optional E a"
    "cfg_google_oauth_base_url c = optional E g" "cfg_github_oauth_base_url c = optional E h"
    "u \<in> oauth_urls c"
  shows "url_safe u"
proof -
  consider "optional E a = Some u" | "optional E g = Some u" | "optional E h = Some u"
    using assms by (auto simp: oauth_urls_def elem_set)
  then show ?thesis
  proof cases
    case 1
    show ?thesis by (rule redirect_url_checked [OF config_checked(7) [OF assms(1)]])
        (simp only: assms(2) optional_clean [OF 1])
  next
    case 2
    show ?thesis by (rule conjunct1 [OF base_url_checked [OF config_checked(4) [OF assms(1)]]])
        (simp only: assms(3) optional_clean [OF 2])
  next
    case 3
    show ?thesis by (rule conjunct1 [OF base_url_checked [OF config_checked(5) [OF assms(1)]]])
        (simp only: assms(4) optional_clean [OF 3])
  qed
qed

lemma chain_id_explicit:
  assumes "cfg_instance_id c = optional E name" "cfg_instance_id c \<noteq> None"
  shows "optional E name = Some (audit_chain_id c)"
  using assms optional_clean [of E name] by (auto simp: audit_chain_id_def)

lemmas text_eval = trim_by_def is_whitespace_def non_empty_def lit_def

section \<open>What the host of a URL really is\<close>

text \<open>
  The code's criterion reads the user information of a URL as its host.  The property below is stated with
  the host of RFC 3986, for the URLs whose authority has no at-sign; the last lemma shows one that has.
\<close>

definition link_safe :: "str \<Rightarrow> bool" where
  "link_safe u \<longleftrightarrow> starts_with (lit ''https://'') u \<or> is_loopback_host (real_host u)"

lemma url_safe_link: "url_safe u \<Longrightarrow> \<not> has_userinfo u \<Longrightarrow> link_safe u"
  using loopback_host_is_real by (auto simp: url_safe_def link_safe_def)

lemma remote_is_served:
  "\<not> has_userinfo (trim (cfg_app_url c)) \<Longrightarrow> \<not> is_loopback_host (real_host (trim (cfg_app_url c))) \<Longrightarrow>
    serves_remote_clients c"
  using loopback_host_is_real by (auto simp: serves_remote_clients_def split: option.split)

definition production_safe :: "config \<Rightarrow> bool" where
  "production_safe c \<longleftrightarrow> cookies_secure c \<and>
    (cfg_oidc_rsa_private_key_pem c \<noteq> None \<or> cfg_oidc_rsa_private_key_path c \<noteq> None) \<and>
    cfg_mfa_encryption_key c \<noteq> None \<and> cfg_audit_integrity_key c \<noteq> None \<and> cfg_instance_id c \<noteq> None \<and>
    (has_userinfo (cfg_database_url c) \<or> is_loopback_host (real_host (cfg_database_url c)) \<or>
      database_is_encrypted c \<and> to_ascii_lowercase (trim (cfg_database_user c)) \<noteq> lit ''root'')"

lemma production_ready_safe: "production_ready c \<Longrightarrow> production_safe c"
  using loopback_host_is_real [of "cfg_database_url c"]
  by (auto simp: production_ready_def production_safe_def database_is_local_def split: option.splits)

lemma userinfo_callback_admitted:
  "check_oauth_redirect_url (Some (lit ''http://localhost:x@evil.example/cb'')) = Inr () \<and>
   real_host (lit ''http://localhost:x@evil.example/cb'') = lit ''evil.example'' \<and>
   \<not> link_safe (lit ''http://localhost:x@evil.example/cb'')"
proof -
  let ?u = "lit ''http://localhost:x@evil.example/cb''"
  have trim: "trim ?u = ?u" by (simp add: text_eval)
  have host: "host_of ?u = Some (lit ''localhost'')"
    by (simp add: host_of_def lit_def non_empty_def strip_prefix_None)
  have real: "real_host ?u = lit ''evil.example''"
    by (simp add: real_host_def url_authority_def host_port_host_def lit_def strip_prefix_None)
  have scheme: "\<not> starts_with (lit ''https://'') ?u" by (simp add: starts_with_def lit_def strip_prefix_None)
  have "judge_url ?u = UrlFine" by (simp add: judge_url_def host is_loopback_host_def)
  moreover have "?u \<noteq> []" by (simp add: lit_def)
  ultimately show ?thesis using real scheme
    by (simp add: check_oauth_redirect_url_def trim non_empty_def link_safe_def is_loopback_host_def)
qed

text \<open>
  C27: a configuration the process starts with has a secret of at least 32 bytes, lock-out parameters that
  lock, integers within their types and no wildcard among the origins that the CORS layer will be given.
  Every provider endpoint and callback without user information is \<^verbatim>\<open>https\<close> or has a loopback address for
  its real host, where plaintext is allowed.  If the application's own address has no user information
  and its real host is not a loopback address then the deployment counts as one that serves remote
  clients; and whenever it counts as such its cookies are \<^verbatim>\<open>Secure\<close>, all persistent keys are configured,
  the database link, unless its address has user information, is local or encrypted and not root's, and
  the audit chain is named by the operator.
\<close>

theorem accepted_deployment:
  assumes "from_env E = (Inr c, E')"
  shows "E' = E \<and> 32 \<le> byte_len (cfg_jwt_secret c) \<and>
    cfg_lockout_max_attempts c \<in> {1..u32_max} \<and> cfg_lockout_duration_minutes c \<in> {1..u32_max} \<and>
    cfg_smtp_port c \<in> {0..u16_max} \<and> cfg_jwt_expiration c \<in> {i64_min..i64_max} \<and>
    lit ''*'' \<notin> set (effective_cors_origins c) \<and>
    (\<forall>u\<in>oauth_urls c. has_userinfo u \<or> starts_with (lit ''https://'') u \<or> is_loopback_host (real_host u)) \<and>
    (any_oauth_provider_configured c \<longrightarrow> cfg_oauth_redirect_url c \<noteq> None) \<and>
    (\<not> has_userinfo (trim (cfg_app_url c)) \<and> \<not> is_loopback_host (real_host (trim (cfg_app_url c))) \<longrightarrow>
      serves_remote_clients c) \<and>
    (serves_remote_clients c \<longrightarrow>
      production_safe c \<and> optional E ''SOULAUTH_INSTANCE_ID'' = Some (audit_chain_id c))"
proof -
  obtain expiration port attempts duration where
    n: "env_int i64_min i64_max 86400 E ''JWT_EXPIRATION'' = Some expiration"
       "env_int 0 u16_max 587 E ''SMTP_PORT'' = Some port"
       "env_int 0 u32_max 5 E ''LOCKOUT_MAX_ATTEMPTS'' = Some attempts"
       "env_int 0 u32_max 15 E ''LOCKOUT_DURATION_MINUTES'' = Some duration"
    and c: "cfg_jwt_expiration c = expiration" "cfg_smtp_port c = port" "cfg_lockout_max_attempts c = attempts"
       "cfg_lockout_duration_minutes c = duration" "cfg_cors_allowed_origins c = cors_of_env E"
       "cfg_oauth_redirect_url c = optional E ''OAUTH_REDIRECT_URL''"
       "cfg_google_oauth_base_url c = optional E ''GOOGLE_OAUTH_BASE_URL''"
       "cfg_github_oauth_base_url c = optional E ''GITHUB_OAUTH_BASE_URL''"
       "cfg_instance_id c = optional E ''SOULAUTH_INSTANCE_ID''"
    and ok: "check_config c = Inr ()" "check_cors_origins (cors_of_env E) = Inr ()" and E': "E' = E"
    using assms unfolding from_env_success config_from_def by fastforce
  note checked = config_checked [OF ok(1)]
  have "attempts \<in> {1..u32_max}" "duration \<in> {1..u32_max}"
    using env_int_bounds [OF n(3)] env_int_bounds [OF n(4)] checked(2,3) c(3,4) by auto
  moreover have "port \<in> {0..u16_max}" "expiration \<in> {i64_min..i64_max}"
    using env_int_bounds [OF n(2)] env_int_bounds [OF n(1)] by auto
  moreover have "lit ''*'' \<notin> set (effective_cors_origins c)" using no_star_origin ok c(5) by simp
  moreover have "\<forall>u\<in>oauth_urls c. has_userinfo u \<or> starts_with (lit ''https://'') u \<or> is_loopback_host (real_host u)"
    using oauth_urls_checked [OF ok(1) c(6) c(7) c(8)] url_safe_link by (auto simp: link_safe_def)
  moreover have "serves_remote_clients c \<longrightarrow>
      production_safe c \<and> optional E ''SOULAUTH_INSTANCE_ID'' = Some (audit_chain_id c)"
    using production_checked [OF checked(8)] chain_id_explicit [OF c(9)] production_ready_safe
    by (auto simp: production_ready_def)
  ultimately show ?thesis using E' checked(1,6) c(1-4) remote_is_served [of c] by simp
qed

definition demo_environment :: environment where
  "demo_environment = map_option lit \<circ> [''APP_URL'' \<mapsto> ''https://id/'', ''JWT_SECRET'' \<mapsto> ''0123456789abcdef0123456789abcdef'',
     ''SMTP_HOST'' \<mapsto> ''mail'', ''SMTP_FROM'' \<mapsto> ''id@x'', ''LOCKOUT_MAX_ATTEMPTS'' \<mapsto> '' +7 '',
     ''DATABASE_URL'' \<mapsto> ''wss://db'', ''DATABASE_USER'' \<mapsto> ''app'',
     ''OIDC_RSA_PRIVATE_KEY_PATH'' \<mapsto> ''/key'', ''MFA_SECRET_ENCRYPTION_KEY'' \<mapsto> ''k'',
     ''SOULAUTH_INSTANCE_ID'' \<mapsto> ''pod'', ''AUDIT_INTEGRITY_KEY'' \<mapsto> ''a'']"

definition demo_config :: config where
  "demo_config = config_from demo_environment (lit ''https://id/'') [] 30
     (lit ''0123456789abcdef0123456789abcdef'') 86400 (lit ''mail'') 587 (lit ''id@x'') 12 5 7 15 60"

lemma demo_variables [simp]:
  "optional demo_environment ''APP_URL'' = Some (lit ''https://id/'')"
  "optional demo_environment ''JWT_SECRET'' = Some (lit ''0123456789abcdef0123456789abcdef'')"
  "optional demo_environment ''SMTP_HOST'' = Some (lit ''mail'')"
  "optional demo_environment ''SMTP_FROM'' = Some (lit ''id@x'')"
  "optional demo_environment ''LOCKOUT_MAX_ATTEMPTS'' = Some (lit ''+7'')"
  "optional demo_environment ''DATABASE_URL'' = Some (lit ''wss://db'')"
  "optional demo_environment ''DATABASE_USER'' = Some (lit ''app'')"
  "optional demo_environment ''OIDC_RSA_PRIVATE_KEY_PATH'' = Some (lit ''/key'')"
  "optional demo_environment ''MFA_SECRET_ENCRYPTION_KEY'' = Some (lit ''k'')"
  "optional demo_environment ''SOULAUTH_INSTANCE_ID'' = Some (lit ''pod'')"
  "optional demo_environment ''AUDIT_INTEGRITY_KEY'' = Some (lit ''a'')"
  by (simp_all add: optional_def demo_environment_def text_eval)

lemma demo_unset:
  "optional demo_environment ''CORS_ALLOWED_ORIGINS'' = None"
  "optional demo_environment ''DATABASE_CONNECTION_TIMEOUT'' = None"
  "optional demo_environment ''JWT_EXPIRATION'' = None"
  "optional demo_environment ''SMTP_PORT'' = None"
  "optional demo_environment ''PASSWORD_MIN_LENGTH'' = None"
  "optional demo_environment ''AUTH_SESSION_CACHE_TTL_SECONDS'' = None"
  "optional demo_environment ''LOCKOUT_DURATION_MINUTES'' = None"
  "optional demo_environment ''LOCKOUT_RESET_WINDOW_MINUTES'' = None"
  "optional demo_environment ''GOOGLE_CLIENT_ID'' = None"
  "optional demo_environment ''GITHUB_CLIENT_ID'' = None"
  "optional demo_environment ''OAUTH_REDIRECT_URL'' = None"
  "optional demo_environment ''GOOGLE_OAUTH_BASE_URL'' = None"
  "optional demo_environment ''GITHUB_OAUTH_BASE_URL'' = None"
  by (simp_all add: optional_def demo_environment_def)

lemma demo_fields [simp]:
  "cfg_app_url demo_config = lit ''https://id/''" "cfg_jwt_secret demo_config = lit ''0123456789abcdef0123456789abcdef''"
  "cfg_database_url demo_config = lit ''wss://db''" "cfg_database_user demo_config = lit ''app''"
  "cfg_oidc_rsa_private_key_path demo_config = Some (lit ''/key'')" "cfg_mfa_encryption_key demo_config = Some (lit ''k'')"
  "cfg_instance_id demo_config = Some (lit ''pod'')" "cfg_audit_integrity_key demo_config = Some (lit ''a'')"
  "cfg_lockout_max_attempts demo_config = 7" "cfg_lockout_duration_minutes demo_config = 15"
  "cfg_google_client_id demo_config = None" "cfg_github_client_id demo_config = None"
  "cfg_oauth_redirect_url demo_config = None" "cfg_google_oauth_base_url demo_config = None"
  "cfg_github_oauth_base_url demo_config = None"
  by (simp_all add: demo_config_def config_from_def or_default_def demo_unset)

lemma demo_host: "host_of (lit ''https://id/'') = Some (lit ''id'')" "host_of (lit ''wss://db'') = Some (lit ''db'')"
  by (simp_all add: host_of_def lit_def non_empty_def strip_prefix_None)

lemma demo_trims: "trim (lit ''https://id/'') = lit ''https://id/''" "trim (lit ''wss://db'') = lit ''wss://db''"
  "trim (lit ''app'') = lit ''app''" "trim (lit ''pod'') = lit ''pod''"
  by (simp_all add: text_eval)

lemma demo_is_remote: "serves_remote_clients demo_config" "\<not> database_is_local demo_config"
  by (simp_all add: serves_remote_clients_def database_is_local_def demo_trims demo_host is_loopback_host_def)

lemma demo_is_encrypted: "database_is_encrypted demo_config"
  "starts_with (lit ''https://'') (to_ascii_lowercase (lit ''https://id/''))" "to_ascii_lowercase (lit ''app'') \<noteq> lit ''root''"
  by (simp_all add: database_is_encrypted_def demo_trims to_ascii_lowercase_def ascii_lower_def is_ascii_uppercase_def
      starts_with_def lit_def text_eval Let_def)

lemma lit_not_Nil [simp]: "lit (c # s) \<noteq> []" by (simp add: lit_def)

lemma demo_checked: "check_config demo_config = Inr ()"
proof -
  have "byte_len (lit ''0123456789abcdef0123456789abcdef'') = 32"
    by (subst byte_len_ascii) (simp_all add: lit_def)
  moreover have "check_production_secrets demo_config = Inr ()"
    by (simp add: check_production_secrets_def must_def demo_is_remote demo_is_encrypted demo_trims non_empty_def)
  ultimately show ?thesis
    by (simp add: check_config_def check_oauth_base_url_def check_oauth_redirect_url_def
        any_oauth_provider_configured_def google_configured_def github_configured_def both_present_def)
qed

lemma demo_starts: "from_env demo_environment = (Inr demo_config, demo_environment)"
proof -
  have "env_int 0 u32_max 5 demo_environment ''LOCKOUT_MAX_ATTEMPTS'' = Some 7"
    by (simp add: env_int_def parse_integer_def parse_digits_def lit_def is_ascii_digit_def)
  moreover have "cors_of_env demo_environment = []" by (simp add: cors_of_env_def demo_unset)
  ultimately show ?thesis using demo_checked
    by (simp add: from_env_success env_int_def demo_unset check_cors_origins_def demo_config_def)
qed

theorem accepted_deployment_witness:
  "from_env demo_environment = (Inr demo_config, demo_environment) \<and> serves_remote_clients demo_config \<and>
   cfg_lockout_max_attempts demo_config = 7 \<and> production_safe demo_config \<and>
   optional demo_environment ''SOULAUTH_INSTANCE_ID'' = Some (audit_chain_id demo_config)"
  using accepted_deployment [OF demo_starts] demo_starts demo_is_remote by simp

end
