(* ===== verification/Oidc_Safety.thy ===== *)
theory Oidc_Safety
  imports Oidc Account_Life Config_Safety
begin

text \<open>
  What the OpenID provider promises: codes and refresh tokens are spent by one request each, a
  successful exchange has passed every check, a refresh never widens a grant, the reuse of a rotated
  token revokes the family, and a subject that may not authenticate gets nothing.
\<close>

section \<open>Spending codes and refresh tokens\<close>

lemma count_after_mark:
  assumes "\<And>r. \<not> P (f r)" "\<And>r. P r \<Longrightarrow> Q (f r) = False" "\<And>r. P r \<Longrightarrow> Q r \<Longrightarrow> False"
  shows "count_where Q (update_where P f rs) = count_where Q rs"
  using assms(2,3) by (induction rs) auto

lemma count_marked: "(\<And>r. \<not> P (f r)) \<Longrightarrow> count_where P (update_where P f rs) = 0"
  by (induction rs) auto

lemma claim_code_claimable:
  "count_where (redeemable h') (snd (claim_code h cs)) = (if h' = h then 0 else count_where (redeemable h') cs)"
proof (cases "h' = h")
  case True
  then show ?thesis by (simp add: claim_code_def count_marked redeemable_def)
next
  case False
  then show ?thesis
    by (simp add: claim_code_def) (rule count_after_mark; auto simp: redeemable_def)
qed

lemma fst_claim [simp]:
  "fst (claim_code h cs) \<longleftrightarrow> count_where (redeemable h) cs = 1"
  "fst (claim_refresh h ts) \<longleftrightarrow> count_where (refreshable h) ts = 1"
  by (simp_all add: claim_code_def claim_refresh_def)

interpretation code_shot: exclusive_one_shot claim_code "\<lambda>h. h" "\<lambda>h cs. count_where (redeemable h) cs = 1"
  by unfold_locales (auto simp: claim_code_claimable split: if_splits)

lemma claim_refresh_claimable:
  "count_where (refreshable h') (snd (claim_refresh h ts)) = (if h' = h then 0 else count_where (refreshable h') ts)"
proof (cases "h' = h")
  case True
  then show ?thesis by (simp add: claim_refresh_def count_marked refreshable_def)
next
  case False
  then show ?thesis
    by (simp add: claim_refresh_def) (rule count_after_mark; auto simp: refreshable_def)
qed

interpretation refresh_shot: exclusive_one_shot claim_refresh "\<lambda>h. h"
    "\<lambda>h ts. count_where (refreshable h) ts = 1"
  by unfold_locales (auto simp: claim_refresh_claimable split: if_splits)

section \<open>Inversion\<close>

lemma as_text_success [op_success]: "as_text m s = (Inr a, t) \<longleftrightarrow> m s = (Inr a, t)"
  by (simp add: as_text_def op_success)

lemma context_success [op_success]: "context_error p m s = (Inr a, t) \<longleftrightarrow> m s = (Inr a, t)"
  by (simp add: context_error_def op_success)

lemma preserves_as_text [preserve]: "preserves I m \<Longrightarrow> preserves I (as_text m)"
  by (simp add: as_text_def preserves_map_error)

lemma preserves_context [preserve]: "preserves I m \<Longrightarrow> preserves I (context_error p m)"
  by (simp add: context_error_def preserves_map_error)

lemma get_client_success: "get_client F cid w = (Inr c, w') \<Longrightarrow>
  w' = w \<and> c \<in> set (clients w) \<and> client_id c = cid \<and> client_active c"
  by (auto simp: get_client_def op_success eq_commute [of "Some _" "find _ _"] dest!: find_Some_in)

definition client_authenticated :: "oidc_env \<Rightarrow> token_request \<Rightarrow> oidc_client \<Rightarrow> bool" where
  "client_authenticated E r c \<longleftrightarrow>
    (case tr_client_secret r of
       None \<Rightarrow> client_type c = Public
     | Some secret \<Rightarrow> verify_client_secret_hash E (client_secret_hash c) secret)"

lemma authenticate_client_success:
  assumes "authenticate_client F E r w = (Inr c, w')"
  shows "w' = w \<and> c \<in> set (clients w) \<and> client_id c = request_client_id r \<and> client_active c \<and>
    client_authenticated E r c"
proof -
  from assms obtain d u where d: "get_client F (request_client_id r) w = (Inr d, u)"
    and rest: "(case (client_type d, tr_client_secret r) of
       (Confidential, None) \<Rightarrow> throw (lit ''Client secret required for confidential clients'')
     | (_, Some secret) \<Rightarrow>
         if verify_client_secret_hash E (client_secret_hash d) secret then ret d
         else throw (lit ''Invalid client credentials'')
     | (Public, None) \<Rightarrow> ret d) u = (Inr c, w')"
    by (auto simp: authenticate_client_def op_success)
  then show ?thesis
    using get_client_success [OF d]
    by (auto simp: client_authenticated_def split: client_type.splits option.splits if_splits)
qed

lemma identity_gate_success:
  "identity_gate F uid w = (Inr g, w') \<Longrightarrow> w' = w \<and> admitted (gate_actor g) w \<and>
    (\<exists>key. actor_of_user_row uid w = Some key \<and> actor_row key w = Some (gate_actor g))"
  using gate_of_user_admits [of F uid w g w'] by (auto simp: identity_gate_def op_success)

text \<open>A user behind a reference that may act now: the row, its status, and the gate of its identity.\<close>

definition active_user :: "str \<Rightarrow> user \<Rightarrow> oidc_world \<Rightarrow> bool" where
  "active_user uid u w \<longleftrightarrow> u \<in> set (users w) \<and> user_status u = lit ''Active'' \<and>
    (let key = normalize_actor_id (normalize_user_id uid) in subject_id u = Some key \<or> user_key u = key) \<and>
    (\<exists>key a. actor_of_user_row (user_key u) w = Some key \<and> actor_row key w = Some a \<and> admitted a w)"

lemma load_active_user_success:
  assumes "load_active_user F uid w = (Inr u, w')"
  shows "w' = w \<and> active_user uid u w"
proof -
  obtain g w1 w2 where u: "get_user_by_ref F uid w = (Inr u, w1)"
    and g: "identity_gate F (normalize_user_id (user_key u)) w1 = (Inr g, w2)"
    and st: "w' = w2" "ensure_usable u = Inr ()"
    using assms by (auto simp: load_active_user_def op_success)
  have "w1 = w" "u \<in> set (users w)"
    "let key = normalize_actor_id (normalize_user_id uid) in subject_id u = Some key \<or> user_key u = key"
    using u by (auto simp: get_user_by_ref_def op_success Let_def eq_commute [of "Some _" "find _ _"] dest!: find_Some_in)
  moreover have "actor_of_user_row (normalize_user_id (user_key u)) w = actor_of_user_row (user_key u) w"
    by (simp add: actor_of_user_row_def normalize_user_id_fixed [OF normalize_user_id_bare])
  ultimately show ?thesis using identity_gate_success [OF g] st by (auto simp: active_user_def)
qed

lemma insert_row_appends: "insert_row V ixs get upd r s = (Inr u, t) \<Longrightarrow> t = upd (\<lambda>rows. rows @ [r]) s"
  by (auto simp: insert_row_def split: option.splits)

text \<open>What issuing tokens leaves behind.\<close>

definition issued_access :: "oidc_env \<Rightarrow> int \<Rightarrow> token_draws \<Rightarrow> oidc_client \<Rightarrow> str \<Rightarrow> str \<Rightarrow> oidc_access_token" where
  "issued_access E now d client uid scope =
    (access_row E now d client uid scope)\<lparr>access_actor := normalize_actor_id uid\<rparr>"

definition issued_refresh :: "oidc_env \<Rightarrow> int \<Rightarrow> token_draws \<Rightarrow> oidc_client \<Rightarrow> str \<Rightarrow> str \<Rightarrow> str option \<Rightarrow>
    oidc_refresh_token list" where
  "issued_refresh E now d client uid scope session_ref =
    (if RefreshTokenGrant \<in> set (allowed_grant_types client)
     then [(refresh_row E now d client uid scope session_ref)\<lparr>refresh_actor := normalize_actor_id uid\<rparr>]
     else [])"

lemma issue_id_token_same:
  "issue_id_token F E now client u nonce session_ref scope w = (Inr x, w') \<Longrightarrow> w' = w \<and>
    (x \<noteq> None \<longleftrightarrow> lit ''openid'' \<in> set (split_whitespace scope))"
  by (auto simp: issue_id_token_def generate_id_token_def stable_subject_of_user_def auth_time_of_def
      authenticated_at_of_session_def op_success context_error_def as_text_def op_failure split: if_splits
      dest!: identity_gate_success)

lemma issue_refresh_success:
  "issue_refresh F V E now d client uid scope session_ref w = (Inr x, w') \<Longrightarrow>
    w' = w\<lparr>refresh_tokens := refresh_tokens w @ issued_refresh E now d client uid scope session_ref\<rparr>"
  by (auto simp: issue_refresh_def issued_refresh_def save_refresh_token_def op_success refresh_row_def
      split: if_splits dest!: insert_row_appends)

lemma generate_tokens_success:
  assumes "generate_tokens F V E now d client uid scope nonce session_ref w = (Inr resp, w')"
  shows "(\<exists>u. active_user uid u w) \<and> resp_scope resp = scope \<and>
    w' = w\<lparr>access_tokens := access_tokens w @ [issued_access E now d client uid scope],
      refresh_tokens := refresh_tokens w @ issued_refresh E now d client uid scope session_ref\<rparr>"
proof -
  obtain u w1 w2 w3 w4 x y where u: "load_active_user F uid w = (Inr u, w1)"
    and a: "save_access_token F V (access_row E now d client uid scope) w1 = (Inr (), w2)"
    and r: "issue_refresh F V E now d client uid scope session_ref w2 = (Inr x, w3)"
    and i: "issue_id_token F E now client u nonce session_ref scope w3 = (Inr y, w4)"
    and e: "w' = w4" "resp_scope resp = scope"
    using assms by (auto simp: generate_tokens_def op_success)
  have "w1 = w" "active_user uid u w" using load_active_user_success [OF u] by auto
  moreover have "w2 = w1\<lparr>access_tokens := access_tokens w1 @ [issued_access E now d client uid scope]\<rparr>"
    using a by (auto simp: save_access_token_def op_success issued_access_def access_row_def dest!: insert_row_appends)
  ultimately show ?thesis
    using issue_refresh_success [OF r] issue_id_token_same [OF i] e by auto
qed

section \<open>What a redeemed code has shown\<close>

definition pkce_proved :: "oidc_env \<Rightarrow> oidc_client \<Rightarrow> oidc_code \<Rightarrow> str option \<Rightarrow> bool" where
  "pkce_proved E client c verifier \<longleftrightarrow>
    (case code_challenge c of
       None \<Rightarrow> client_type client = Confidential
     | Some ch \<Rightarrow> (\<exists>v. verifier = Some v \<and> code_challenge_method c = Some (lit ''S256'') \<and>
         43 \<le> byte_len v \<and> byte_len v \<le> 128 \<and>
         as_bytes (b64url (oidc_hashing E) (sha256 (oidc_hashing E) (as_bytes v))) = as_bytes ch))"

definition code_grounds :: "oidc_env \<Rightarrow> int \<Rightarrow> oidc_world \<Rightarrow> token_request \<Rightarrow> oidc_client \<Rightarrow> oidc_code \<Rightarrow> bool" where
  "code_grounds E now w r client c \<longleftrightarrow>
    client \<in> set (clients w) \<and> client_active client \<and> client_id client = request_client_id r \<and>
    client_authenticated E r client \<and> AuthorizationCodeGrant \<in> set (allowed_grant_types client) \<and>
    c \<in> set (codes w) \<and> tr_code r \<noteq> None \<and> code_hash c = hash_bearer (oidc_hashing E) (the (tr_code r)) \<and>
    \<not> code_used c \<and> now \<le> code_expires_at c \<and> code_client c = client_id client \<and>
    tr_redirect_uri r = Some (code_redirect_uri c) \<and> pkce_proved E client c (tr_code_verifier r)"

lemma verify_pkce_value_true:
  "verify_pkce_value E ch meth v = Inr True \<Longrightarrow> meth = Some (lit ''S256'') \<and> 43 \<le> byte_len v \<and> byte_len v \<le> 128 \<and>
    as_bytes (b64url (oidc_hashing E) (sha256 (oidc_hashing E) (as_bytes v))) = as_bytes ch"
  by (auto simp: verify_pkce_value_def constant_time_eq_iff split: if_splits option.splits)

lemma check_code_success:
  assumes "check_code E now client c r redirect w = (Inr u, w')"
  shows "w' = w \<and> \<not> code_used c \<and> now \<le> code_expires_at c \<and> code_client c = request_client_id r \<and>
    code_redirect_uri c = redirect \<and> pkce_proved E client c (tr_code_verifier r)"
  using assms by (cases "client_type client")
    (auto simp: check_code_def check_code_pkce_def pkce_proved_def op_success split: option.splits
      dest!: verify_pkce_value_true)

definition code_mark :: "str \<Rightarrow> oidc_code list \<Rightarrow> oidc_code list" where
  "code_mark h cs = update_where (redeemable h) (\<lambda>c. c\<lparr>code_used := True\<rparr>) cs"

lemma code_grant_success:
  assumes "handle_authorization_code_grant F V E now d r w = (Inr resp, w')"
  shows "\<exists>client c u. code_grounds E now w r client c \<and> active_user (code_actor c) u w \<and>
    resp_scope resp = code_scope c \<and>
    w' = w\<lparr>codes := code_mark (code_hash c) (codes w),
      access_tokens := access_tokens w @ [issued_access E now d client (code_actor c) (code_scope c)],
      refresh_tokens := refresh_tokens w @
        issued_refresh E now d client (code_actor c) (code_scope c) (code_session_ref c)\<rparr>"
proof -
  obtain code redirect client c w1 w2 w3 w4 where r: "tr_code r = Some code" "tr_redirect_uri r = Some redirect"
    and a: "authenticate_client F E r w = (Inr client, w1)"
    and g: "AuthorizationCodeGrant \<in> set (allowed_grant_types client)"
    and c: "get_authorization_code F E code w1 = (Inr c, w2)"
    and ch: "check_code E now client c r redirect w2 = (Inr (), w3)"
    and m: "update_authorization_code F (code_hash c) w3 = (Inr (), w4)"
    and t: "generate_tokens F V E now d client (code_actor c) (code_scope c) (code_nonce c)
      (code_session_ref c) w4 = (Inr resp, w')"
    using assms by (auto simp: handle_authorization_code_grant_def op_success)
  note a = authenticate_client_success [OF a]
  have c: "w2 = w1" "c \<in> set (codes w)" "code_hash c = hash_bearer (oidc_hashing E) code"
    using c a by (auto simp: get_authorization_code_def op_success eq_commute [of "Some _" "find _ _"] dest!: find_Some_in)
  note ch = check_code_success [OF ch]
  have m: "w4 = w\<lparr>codes := code_mark (code_hash c) (codes w)\<rparr>"
    using m ch c a by (auto simp: update_authorization_code_def op_success claim_code_def code_mark_def)
  have "code_grounds E now w r client c" using a g c ch r by (auto simp: code_grounds_def)
  moreover obtain u where "active_user (code_actor c) u w4" using generate_tokens_success [OF t] by blast
  then have "active_user (code_actor c) u w"
    by (simp add: active_user_def m actor_of_user_row_def actor_row_def admitted_def account_row_def)
  ultimately show ?thesis using generate_tokens_success [OF t] m by auto
qed

lemma code_grant_checked_facts:
  assumes "exchange_code_for_tokens F V E now d r w = (Inr resp, w')"
    and "tr_grant_type r = lit ''authorization_code''"
  shows "\<exists>client c u. code_grounds E now w r client c \<and> active_user (code_actor c) u w \<and>
    resp_scope resp = code_scope c \<and>
    w' = w\<lparr>codes := code_mark (code_hash c) (codes w),
      access_tokens := access_tokens w @ [issued_access E now d client (code_actor c) (code_scope c)],
      refresh_tokens := refresh_tokens w @
        issued_refresh E now d client (code_actor c) (code_scope c) (code_session_ref c)\<rparr>"
proof (rule code_grant_success)
  show "handle_authorization_code_grant F V E now d r w = (Inr resp, w')"
    using assms(1) unfolding exchange_code_for_tokens_def if_P [OF assms(2)] .
qed

text \<open>
  C17: What a redeemed code has proved.  If the exchange of an authorization code succeeds, the client
  is active, may use the grant and has authenticated (with its secret, or as a public client without
  one); the code is known, unused, not expired, was issued to this client and for the redirect URI that
  is presented; a public client has proved possession of the PKCE verifier, and so has any client whose
  code carries a challenge, by S256; and the subject behind the code is active and passes the gate.
  The code is then marked, and exactly the new tokens with the code's scope are stored.
\<close>

theorem code_grant_checked:
  assumes "exchange_code_for_tokens F V E now d r w = (Inr resp, w')"
    and "tr_grant_type r = lit ''authorization_code''"
  shows "\<exists>client c u. code_grounds E now w r client c \<and> active_user (code_actor c) u w \<and>
    resp_scope resp = code_scope c \<and>
    w' = w\<lparr>codes := code_mark (code_hash c) (codes w),
      access_tokens := access_tokens w @ [issued_access E now d client (code_actor c) (code_scope c)],
      refresh_tokens := refresh_tokens w @
        issued_refresh E now d client (code_actor c) (code_scope c) (code_session_ref c)\<rparr>"
  using assms by (rule code_grant_checked_facts)

section \<open>Codes are redeemed once\<close>

text \<open>Every stored code with this digest is marked.\<close>

definition code_spent :: "str \<Rightarrow> oidc_world \<Rightarrow> bool" where
  "code_spent h w \<longleftrightarrow> (\<forall>c\<in>set (codes w). code_hash c = h \<longrightarrow> code_used c)"

lemma code_spent_mark: "code_spent h w \<Longrightarrow> code_spent h (w\<lparr>codes := code_mark k (codes w)\<rparr>)"
  by (simp add: code_spent_def code_mark_def ball_update_where)

lemma code_spent_marked: "code_spent h (w\<lparr>codes := code_mark h (codes w)\<rparr>)"
  by (simp add: code_spent_def code_mark_def ball_update_where redeemable_def)

lemma spent_insert_other:
  "code_hash c \<noteq> h \<Longrightarrow> preserves (code_spent h) (insert_row V code_indexes codes codes_update c)"
  by (auto simp: preserves_def insert_row_def code_spent_def split: option.split)

lemma spent_insert_tokens [preserve]:
  "preserves (code_spent h) (insert_row V access_indexes access_tokens access_tokens_update t)"
  "preserves (code_spent h) (insert_row V refresh_indexes refresh_tokens refresh_tokens_update u)"
  by (auto simp: preserves_def insert_row_def code_spent_def split: option.split)

lemma preserves_oidc_reads [preserve]:
  "preserves I (get_client F cid)" "preserves I (get_user_by_ref F uid)" "preserves I (identity_gate F uid)"
  "preserves I (stable_subject_of_user F u)" "preserves I (authenticated_at_of_session F key)"
  "preserves I (get_authorization_code F E code)" "preserves I (get_access_token F E token)"
  "preserves I (get_refresh_token F E token)"
  unfolding get_client_def get_user_by_ref_def identity_gate_def stable_subject_of_user_def Let_def
    authenticated_at_of_session_def get_authorization_code_def get_access_token_def get_refresh_token_def
  by (intro preserve preserves_db_read)+

lemma preserves_load_active_user [preserve]: "preserves I (load_active_user F uid)"
  unfolding load_active_user_def by (intro preserve)

lemma preserves_authenticate_client [preserve]: "preserves I (authenticate_client F E r)"
  unfolding authenticate_client_def
  by (intro preserve) (auto intro!: preserve split: client_type.split option.split)

lemma preserves_id_token [preserve]: "preserves I (issue_id_token F E now client u nonce sref scope)"
  unfolding issue_id_token_def generate_id_token_def auth_time_of_def by (intro preserve)

lemma preserves_check_code [preserve]: "preserves I (check_code E now client c r redirect)"
  unfolding check_code_def check_code_pkce_def by (intro preserve)

lemma spent_generate_tokens [preserve]:
  "preserves (code_spent h) (generate_tokens F V E now d client uid scope nonce sref)"
  unfolding generate_tokens_def save_access_token_def issue_refresh_def save_refresh_token_def
  by (intro preserve preserves_database_up)

lemma spent_mark_code [preserve]: "preserves (code_spent h) (update_authorization_code F k)"
  unfolding update_authorization_code_def
  by (intro preserve preserves_db_exec)
    (simp add: claim_code_def code_spent_mark [unfolded code_mark_def])

lemma spent_code_grant [preserve]: "preserves (code_spent h) (handle_authorization_code_grant F V E now d r)"
  unfolding handle_authorization_code_grant_def by (intro preserve)

lemma spent_revocations [preserve]:
  "preserves (code_spent h) (revoke_client_tokens_for_user F cid uid)"
  "preserves (code_spent h) (revoke_all_tokens_for_user F uid)"
  "preserves (code_spent h) (revoke_access_token_by_hash F k)"
  "preserves (code_spent h) (consume_refresh_token_by_hash F k)"
  "preserves (code_spent h) (cleanup_expired_artifacts F now)"
  unfolding revoke_client_tokens_for_user_def revoke_all_tokens_for_user_def revoke_access_token_by_hash_def
    consume_refresh_token_by_hash_def cleanup_expired_artifacts_def
  by (intro preserve preserves_db_write preserves_db_exec; simp add: code_spent_def)+

lemma spent_refresh_grant [preserve]: "preserves (code_spent h) (handle_refresh_token_grant F V E now d r)"
  unfolding handle_refresh_token_grant_def rotate_refresh_token_def by (intro preserve)

lemma spent_exchange: "preserves (code_spent h) (exchange_code_for_tokens F V E now d r)"
  unfolding exchange_code_for_tokens_def by (intro preserve)

lemma spent_authorize:
  "hash_bearer (oidc_hashing E) code \<noteq> h \<Longrightarrow>
    preserves (code_spent h) (create_authorization_code F V E now code r uid sref)"
  unfolding create_authorization_code_def save_authorization_code_def check_authorize_def
  by (intro preserve preserves_database_up) (auto intro!: preserve spent_insert_other simp: new_code_def)

text \<open>
  The steps of the provider.  \<open>issued\<close> collects the codes that are handed out on the way; everything
  the other services do (accounts, sessions, client management) leaves the three tables alone.
\<close>

definition same_oidc :: "oidc_world \<Rightarrow> oidc_world \<Rightarrow> bool" where
  "same_oidc w w' \<longleftrightarrow> codes w' = codes w \<and> access_tokens w' = access_tokens w \<and> refresh_tokens w' = refresh_tokens w"

inductive oidc_run :: "oidc_env \<Rightarrow> oidc_world \<Rightarrow> str set \<Rightarrow> oidc_world \<Rightarrow> bool" for E w where
  run_start: "oidc_run E w {} w"
| run_authorize: "oidc_run E w issued v \<Longrightarrow> create_authorization_code F V E now code r uid sref v = (x, v') \<Longrightarrow>
    oidc_run E w (insert code issued) v'"
| run_exchange: "oidc_run E w issued v \<Longrightarrow> exchange_code_for_tokens F V E now d q v = (y, v') \<Longrightarrow>
    oidc_run E w issued v'"
| run_revoke: "oidc_run E w issued v \<Longrightarrow> revoke_client_tokens_for_user F cid uid v = (z, v') \<Longrightarrow>
    oidc_run E w issued v'"
| run_revoke_all: "oidc_run E w issued v \<Longrightarrow> revoke_all_tokens_for_user F uid v = (z, v') \<Longrightarrow>
    oidc_run E w issued v'"
| run_cleanup: "oidc_run E w issued v \<Longrightarrow> cleanup_expired_artifacts F now v = (z, v') \<Longrightarrow>
    oidc_run E w issued v'"
| run_elsewhere: "oidc_run E w issued v \<Longrightarrow> same_oidc v v' \<Longrightarrow> oidc_run E w issued v'"

lemma oidc_run_spent:
  assumes "oidc_run E w issued v" "code_spent h w" "h \<notin> hash_bearer (oidc_hashing E) ` issued"
  shows "code_spent h v"
  using assms
proof (induction rule: oidc_run.induct)
  case (run_authorize issued v F V now code r uid sref x v')
  have "hash_bearer (oidc_hashing E) code \<noteq> h" using run_authorize.prems(2) by auto
  from preserves_step [OF spent_authorize [OF this] run_authorize(2)] show ?case
    using run_authorize.IH run_authorize.prems by blast
next
  case (run_exchange issued v F V now d q y v')
  show ?case
    by (rule preserves_step [OF spent_exchange run_exchange(2)]) (use run_exchange.IH run_exchange.prems in blast)
next
  case (run_revoke issued v F cid uid z v')
  show ?case
    by (rule preserves_step [OF spent_revocations(1) run_revoke(2)]) (use run_revoke.IH run_revoke.prems in blast)
next
  case (run_revoke_all issued v F uid z v')
  show ?case
    by (rule preserves_step [OF spent_revocations(2) run_revoke_all(2)]) (use run_revoke_all.IH run_revoke_all.prems in blast)
next
  case (run_cleanup issued v F now z v')
  show ?case
    by (rule preserves_step [OF spent_revocations(5) run_cleanup(2)]) (use run_cleanup.IH run_cleanup.prems in blast)
next
  case (run_elsewhere issued v v')
  then show ?case by (simp add: same_oidc_def code_spent_def)
qed


section \<open>Refreshing\<close>

definition refresh_grounds :: "oidc_env \<Rightarrow> int \<Rightarrow> oidc_world \<Rightarrow> token_request \<Rightarrow> oidc_client \<Rightarrow> oidc_refresh_token \<Rightarrow> bool" where
  "refresh_grounds E now w r client t \<longleftrightarrow>
    client \<in> set (clients w) \<and> client_active client \<and> client_id client = request_client_id r \<and>
    client_authenticated E r client \<and> RefreshTokenGrant \<in> set (allowed_grant_types client) \<and>
    t \<in> set (refresh_tokens w) \<and> tr_refresh_token r \<noteq> None \<and>
    refresh_hash t = hash_bearer (oidc_hashing E) (the (tr_refresh_token r)) \<and>
    refresh_client t = client_id client \<and> now \<le> refresh_expires_at t"

definition refresh_mark :: "str \<Rightarrow> oidc_refresh_token list \<Rightarrow> oidc_refresh_token list" where
  "refresh_mark h ts = update_where (refreshable h) (\<lambda>t. t\<lparr>refresh_used := True\<rparr>) ts"

definition rotated_world :: "oidc_env \<Rightarrow> int \<Rightarrow> token_draws \<Rightarrow> oidc_client \<Rightarrow> oidc_refresh_token \<Rightarrow> str \<Rightarrow>
    oidc_world \<Rightarrow> oidc_world" where
  "rotated_world E now d client t scope w =
    w\<lparr>access_tokens := delete_where (\<lambda>a. access_hash a = refresh_access_hash t) (access_tokens w) @
        [issued_access E now d client (refresh_actor t) scope],
      refresh_tokens := refresh_mark (refresh_hash t) (refresh_tokens w) @
        issued_refresh E now d client (refresh_actor t) scope (refresh_session_ref t)\<rparr>"

lemma get_refresh_success: "get_refresh_token F E token w = (Inr t, w') \<Longrightarrow>
  w' = w \<and> t \<in> set (refresh_tokens w) \<and> refresh_hash t = hash_bearer (oidc_hashing E) token"
  by (auto simp: get_refresh_token_def op_success eq_commute [of "Some _" "find _ _"] dest!: find_Some_in)

lemma refreshed_scope_subset:
  "refreshed_scope original q = Inr scope \<Longrightarrow> set (split_whitespace scope) \<subseteq> set (split_whitespace original)"
  by (auto simp: refreshed_scope_def split: option.splits if_splits)

lemma rotate_success:
  assumes "rotate_refresh_token F V E now d client t q w = (Inr resp, w')"
  shows "(\<exists>u. active_user (refresh_actor t) u w) \<and> w' = rotated_world E now d client t (resp_scope resp) w \<and>
    set (split_whitespace (resp_scope resp)) \<subseteq> set (split_whitespace (refresh_scope t))"
proof -
  obtain w1 w2 scope where c: "consume_refresh_token_by_hash F (refresh_hash t) w = (Inr True, w1)"
    and a: "revoke_access_token_by_hash F (refresh_access_hash t) w1 = (Inr (), w2)"
    and sc: "refreshed_scope (refresh_scope t) q = Inr scope"
    and g: "generate_tokens F V E now d client (refresh_actor t) scope None (refresh_session_ref t) w2 = (Inr resp, w')"
    using assms by (auto simp: rotate_refresh_token_def op_success)
  have w1: "w1 = w\<lparr>refresh_tokens := refresh_mark (refresh_hash t) (refresh_tokens w)\<rparr>"
    using c by (auto simp: consume_refresh_token_by_hash_def op_success claim_refresh_def refresh_mark_def)
  have w2: "w2 = w1\<lparr>access_tokens := delete_where (\<lambda>a. access_hash a = refresh_access_hash t) (access_tokens w1)\<rparr>"
    using a by (auto simp: revoke_access_token_by_hash_def op_success)
  note g = generate_tokens_success [OF g]
  then obtain u where "active_user (refresh_actor t) u w2" by blast
  then have "active_user (refresh_actor t) u w"
    by (simp add: active_user_def w1 w2 actor_of_user_row_def actor_row_def admitted_def account_row_def)
  then show ?thesis using g refreshed_scope_subset [OF sc] w1 w2 by (auto simp: rotated_world_def)
qed

lemma refresh_grant_success:
  assumes "handle_refresh_token_grant F V E now d r w = (Inr resp, w')"
  shows "\<exists>client t u. refresh_grounds E now w r client t \<and> \<not> refresh_used t \<and> active_user (refresh_actor t) u w \<and>
    w' = rotated_world E now d client t (resp_scope resp) w \<and>
    set (split_whitespace (resp_scope resp)) \<subseteq> set (split_whitespace (refresh_scope t))"
proof -
  obtain token client t w1 w2 where r: "tr_refresh_token r = Some token"
    and a: "authenticate_client F E r w = (Inr client, w1)" "RefreshTokenGrant \<in> set (allowed_grant_types client)"
    and t: "get_refresh_token F E token w1 = (Inr t, w2)" "refresh_client t = request_client_id r"
      "\<not> refresh_expires_at t < now" "\<not> refresh_used t"
    and g: "rotate_refresh_token F V E now d client t (tr_scope r) w2 = (Inr resp, w')"
    using assms by (auto simp: handle_refresh_token_grant_def op_success split: if_splits)
  note A = authenticate_client_success [OF a(1)] and T = get_refresh_success [OF t(1)]
  have w: "w1 = w" "w2 = w" using A T by auto
  have "refresh_grounds E now w r client t" using A T r a(2) t(2,3) w by (auto simp: refresh_grounds_def)
  then show ?thesis using rotate_success [OF g] t(4) w by blast
qed

text \<open>
  C19: A refresh rotates and never widens.  If a refresh succeeds, the client has authenticated and owns
  the presented token, which is known, not expired and had not been used; the subject may still
  authenticate; the granted scope is contained in the token's scope.  The token is then marked used,
  the access token it was issued with is deleted, and the new pair is stored.
\<close>

theorem refresh_rotates:
  assumes "exchange_code_for_tokens F V E now d r w = (Inr resp, w')"
    and "tr_grant_type r = lit ''refresh_token''"
  shows "\<exists>client t u. refresh_grounds E now w r client t \<and> \<not> refresh_used t \<and> active_user (refresh_actor t) u w \<and>
    w' = rotated_world E now d client t (resp_scope resp) w \<and>
    set (split_whitespace (resp_scope resp)) \<subseteq> set (split_whitespace (refresh_scope t))"
proof (rule refresh_grant_success)
  have "lit ''refresh_token'' \<noteq> lit ''authorization_code''" by simp
  then show "handle_refresh_token_grant F V E now d r w = (Inr resp, w')"
    using assms(1) unfolding exchange_code_for_tokens_def assms(2) by (simp only: if_False if_True simp_thms)
qed

section \<open>Reuse of a rotated token\<close>

definition family_alive :: "str \<Rightarrow> str \<Rightarrow> oidc_world \<Rightarrow> bool" where
  "family_alive cid actor w \<longleftrightarrow>
    (\<exists>a\<in>set (access_tokens w). access_client a = cid \<and> access_actor a = actor) \<or>
    (\<exists>t\<in>set (refresh_tokens w). refresh_client t = cid \<and> refresh_actor t = actor)"

definition plain_key :: "str \<Rightarrow> bool" where
  "plain_key k \<longleftrightarrow> bare_key (lit ''user:'') k \<and> bare_key (lit ''actor_identity:'') k"

lemma plain_key_normal: "plain_key k \<Longrightarrow> normalize_actor_id (normalize_user_id k) = k"
  by (simp add: plain_key_def normalize_user_id_fixed normalize_actor_id_fixed)

lemma revoke_family:
  assumes "plain_key actor"
  shows "fst (revoke_client_tokens_for_user no_faults cid actor w) = Inr () \<and>
    \<not> family_alive cid actor (snd (revoke_client_tokens_for_user no_faults cid actor w))"
  using assms by (auto simp: revoke_client_tokens_for_user_def family_alive_def owned_by_def Let_def
      plain_key_normal as_text_def map_error_def catch_def seq_def bind_def)

text \<open>An authenticated client presents a refresh token of its own, expired or not.\<close>

definition presents_own :: "oidc_env \<Rightarrow> oidc_world \<Rightarrow> token_request \<Rightarrow> oidc_client \<Rightarrow> oidc_refresh_token \<Rightarrow> bool" where
  "presents_own E w r client t \<longleftrightarrow>
    find (\<lambda>c. client_id c = request_client_id r \<and> client_active c) (clients w) = Some client \<and>
    client_authenticated E r client \<and> RefreshTokenGrant \<in> set (allowed_grant_types client) \<and>
    tr_refresh_token r \<noteq> None \<and> refresh_hash t = hash_bearer (oidc_hashing E) (the (tr_refresh_token r)) \<and>
    find (\<lambda>q. refresh_hash q = refresh_hash t) (refresh_tokens w) = Some t \<and> refresh_client t = client_id client"

text \<open>
  C18: Reusing a rotated refresh token kills the family, while the token has not expired.  In a database
  without faults, when an authenticated client presents a token of its own that has already been used, the
  answer is an error.  Until the token's expiry no access or refresh token of that client for that
  subject - whose key has the plain form the revocation looks for - exists afterwards, also none that
  came from later rotations.  After the expiry the request is refused before the reuse is looked at, and
  revokes nothing.
\<close>

theorem refresh_reuse_revokes:
  assumes "tr_grant_type r = lit ''refresh_token''" "presents_own E w r client t" "refresh_used t"
    and "plain_key (refresh_actor t)"
  shows "if now \<le> refresh_expires_at t
    then \<exists>w'. exchange_code_for_tokens no_faults V E now d r w = (Inl (lit ''Refresh token already used''), w') \<and>
      \<not> family_alive (client_id client) (refresh_actor t) w'
    else exchange_code_for_tokens no_faults V E now d r w = (Inl (lit ''Refresh token expired''), w)"
proof -
  obtain token where token: "tr_refresh_token r = Some token" "refresh_hash t = hash_bearer (oidc_hashing E) token"
    using assms(2) by (auto simp: presents_own_def)
  have c: "get_client no_faults (request_client_id r) w = (Inr client, w)"
    using assms(2) by (simp add: presents_own_def get_client_def as_text_def op_defs)
  have a: "authenticate_client no_faults E r w = (Inr client, w)"
    using assms(2) c by (cases "client_type client")
      (auto simp: authenticate_client_def bind_def presents_own_def client_authenticated_def split: option.splits)
  have t: "get_refresh_token no_faults E token w = (Inr t, w)"
  proof -
    have "find (\<lambda>q. refresh_hash q = refresh_hash t) (refresh_tokens w) = Some t"
      using assms(2) unfolding presents_own_def by blast
    then show ?thesis by (simp add: get_refresh_token_def as_text_def op_defs token(2) [symmetric])
  qed
  obtain w' where rv: "revoke_client_tokens_for_user no_faults (refresh_client t) (refresh_actor t) w = (Inr (), w')"
    "\<not> family_alive (refresh_client t) (refresh_actor t) w'"
    using revoke_family [OF assms(4), of "refresh_client t" w] by (metis prod.collapse)
  have own: "request_client_id r = refresh_client t"
  proof -
    have "find (\<lambda>c. client_id c = request_client_id r \<and> client_active c) (clients w) = Some client"
      "refresh_client t = client_id client" using assms(2) unfolding presents_own_def by blast+
    with find_Some_in [OF this(1)] show ?thesis by simp
  qed
  have g: "handle_refresh_token_grant no_faults V E now d r w =
      (if now \<le> refresh_expires_at t then (Inl (lit ''Refresh token already used''), w')
       else (Inl (lit ''Refresh token expired''), w))"
    using assms(2,3) token(1) a t rv(1) own
    by (simp add: handle_refresh_token_grant_def bind_def seq_def the_or_def lift_result_def ok_or_def require_def
        presents_own_def)
  have "lit ''refresh_token'' \<noteq> lit ''authorization_code''" by simp
  then have "exchange_code_for_tokens no_faults V E now d r w = handle_refresh_token_grant no_faults V E now d r w"
    unfolding exchange_code_for_tokens_def assms(1) by (simp only: if_False if_True simp_thms)
  then show ?thesis using g rv(2) assms(2) by (auto simp: presents_own_def)
qed

section \<open>Subjects that may not authenticate\<close>

lemma userinfo_success:
  assumes "get_userinfo F E now token w = (Inr ui, w')"
  shows "\<exists>t u. t \<in> set (access_tokens w) \<and> access_hash t = hash_bearer (oidc_hashing E) token \<and>
    now \<le> access_expires_at t \<and> active_user (access_actor t) u w"
proof -
  obtain t w1 w2 u where t: "get_access_token F E token w = (Inr t, w1)" "\<not> access_expires_at t < now"
    and u: "load_active_user F (access_actor t) w1 = (Inr u, w2)"
    using assms by (auto simp: get_userinfo_def op_success)
  have "w1 = w" "t \<in> set (access_tokens w)" "access_hash t = hash_bearer (oidc_hashing E) token"
    using t(1) by (auto simp: get_access_token_def op_success eq_commute [of "Some _" "find _ _"] dest!: find_Some_in)
  then show ?thesis using load_active_user_success [OF u] t(2) by fastforce
qed

definition barred :: "str \<Rightarrow> oidc_world \<Rightarrow> bool" where
  "barred actor w \<longleftrightarrow> plain_key actor \<and> actor \<notin> user_key ` set (users w) \<and>
    (\<forall>u\<in>set (users w). subject_id u = Some actor \<longrightarrow> user_status u = lit ''Active'' \<longrightarrow>
      actor_of_user_row (user_key u) w = Some actor \<and>
      (\<forall>a. actor_row actor w = Some a \<longrightarrow> actor_status a \<noteq> lit ''active''))"

lemma barred_not_active: "barred actor w \<Longrightarrow> \<not> active_user actor u w"
  by (auto simp: barred_def active_user_def plain_key_normal Let_def admitted_def)

text \<open>Every code and token that is presented with this secret belongs to the subject.\<close>

definition issued_for :: "oidc_env \<Rightarrow> str \<Rightarrow> str \<Rightarrow> oidc_world \<Rightarrow> bool" where
  "issued_for E actor secret w \<longleftrightarrow> (let h = hash_bearer (oidc_hashing E) secret in
     (\<forall>c\<in>set (codes w). code_hash c = h \<longrightarrow> code_actor c = actor) \<and>
     (\<forall>t\<in>set (refresh_tokens w). refresh_hash t = h \<longrightarrow> refresh_actor t = actor) \<and>
     (\<forall>t\<in>set (access_tokens w). access_hash t = h \<longrightarrow> access_actor t = actor))"

text \<open>
  C20: A suspended subject gets nothing more.  If every user row of a subject is not active, or the
  subject's identity root is not (and the subject's key is not the record id of a user row), then no
  code, refresh token or access token that was issued for it still yields anything: the exchange, the
  refresh and UserInfo all fail, under any faults.
\<close>

theorem suspended_gets_nothing:
  assumes "barred actor w" "issued_for E actor secret w"
  shows "(tr_grant_type r = lit ''authorization_code'' \<and> tr_code r = Some secret \<or>
      tr_grant_type r = lit ''refresh_token'' \<and> tr_refresh_token r = Some secret \<longrightarrow>
      \<not> succeeds (exchange_code_for_tokens F V E now d r) w) \<and>
    \<not> succeeds (get_userinfo F E now secret) w"
proof (intro conjI impI)
  assume that: "tr_grant_type r = lit ''authorization_code'' \<and> tr_code r = Some secret \<or>
      tr_grant_type r = lit ''refresh_token'' \<and> tr_refresh_token r = Some secret"
  show "\<not> succeeds (exchange_code_for_tokens F V E now d r) w"
  proof
    assume "succeeds (exchange_code_for_tokens F V E now d r) w"
    then obtain resp w' where run: "exchange_code_for_tokens F V E now d r w = (Inr resp, w')"
      by (auto simp: succeeds_iff)
    from that show False
    proof
      assume g: "tr_grant_type r = lit ''authorization_code'' \<and> tr_code r = Some secret"
      then obtain client c u where "code_grounds E now w r client c" "active_user (code_actor c) u w"
        using code_grant_success [of F V E now d r w resp w'] run by (auto simp: exchange_code_for_tokens_def)
      then show False using g assms(2) barred_not_active [OF assms(1)]
        by (auto simp: code_grounds_def issued_for_def Let_def)
    next
      assume g: "tr_grant_type r = lit ''refresh_token'' \<and> tr_refresh_token r = Some secret"
      then obtain client t u where "refresh_grounds E now w r client t" "active_user (refresh_actor t) u w"
        using refresh_grant_success [of F V E now d r w resp w'] run by (auto simp: exchange_code_for_tokens_def)
      then show False using g assms(2) barred_not_active [OF assms(1)]
        by (auto simp: refresh_grounds_def issued_for_def Let_def)
    qed
  qed
next
  show "\<not> succeeds (get_userinfo F E now secret) w"
  proof
    assume "succeeds (get_userinfo F E now secret) w"
    then obtain ui w' where "get_userinfo F E now secret w = (Inr ui, w')" by (auto simp: succeeds_iff)
    from userinfo_success [OF this] show False
      using assms(2) barred_not_active [OF assms(1)] by (auto simp: issued_for_def Let_def)
  qed
qed

section \<open>A concrete provider\<close>

definition demo_client :: oidc_client where
  "demo_client = \<lparr>client_id = lit ''app'', client_secret_hash = lit ''$argon2x'', client_name = lit ''App'',
     client_type = Confidential, redirect_uris = [lit ''https://app/cb''], post_logout_redirect_uris = [],
     allowed_scopes = [lit ''openid'', lit ''profile''],
     allowed_grant_types = [AuthorizationCodeGrant, RefreshTokenGrant], allowed_response_types = [CodeResponse],
     require_pkce = False, access_token_lifetime = 900, refresh_token_lifetime = 1000, id_token_lifetime = 300,
     client_active = True, client_created_by = [], client_created_at = 0, client_updated_at = 0\<rparr>"

definition provider_demo :: oidc_env where
  "provider_demo = \<lparr>oidc_prims = \<lparr>b64_encode = (\<lambda>_. []), b64_decode = (\<lambda>_. None), seal = (\<lambda>_ _ _. None),
       unseal = (\<lambda>_ _ _. None), argon2_hash = (\<lambda>_ s. Some (lit ''$argon2'' @ s)),
       argon2_verify = (\<lambda>h s. Some (h = lit ''$argon2'' @ s))\<rparr>,
     oidc_hashing = plain_hashing, oidc_config = demo_config,
     sign_id_token = (\<lambda>c. Inr (idt_sub c)), read_id_token = (\<lambda>_. None)\<rparr>"

definition demo_code :: oidc_code where
  "demo_code = \<lparr>code_hash = lit ''code'', code_client = lit ''app'', code_actor = lit ''a1'',
     code_redirect_uri = lit ''https://app/cb'', code_scope = lit ''profile'', code_state = None,
     code_nonce = None, code_challenge = None, code_challenge_method = None,
     code_session_ref = Some (lit ''s1''), code_used = False, code_expires_at = 600, code_created_at = 0\<rparr>"

definition demo_refresh :: oidc_refresh_token where
  "demo_refresh = \<lparr>refresh_hash = lit ''ref'', refresh_client = lit ''app'', refresh_actor = lit ''a1'',
     refresh_access_hash = lit ''acc'', refresh_scope = lit ''profile'', refresh_session_ref = None,
     refresh_used = False, refresh_expires_at = 1000, refresh_created_at = 0\<rparr>"

definition oidc_demo :: oidc_world where
  "oidc_demo = store.extend (store.truncate demo_world)
     \<lparr>roles = [], permissions = [], user_roles = [], role_permissions = [],
      clients = [demo_client], codes = [demo_code], access_tokens = [], refresh_tokens = [demo_refresh]\<rparr>"

definition demo_exchange :: token_request where
  "demo_exchange = \<lparr>tr_grant_type = lit ''authorization_code'', tr_code = Some (lit ''code''),
     tr_redirect_uri = Some (lit ''https://app/cb''), tr_client_id = Some (lit ''app''),
     tr_client_secret = Some (lit ''x''), tr_code_verifier = None, tr_refresh_token = None, tr_scope = None\<rparr>"

definition demo_renewal :: token_request where
  "demo_renewal = demo_exchange\<lparr>tr_grant_type := lit ''refresh_token'', tr_refresh_token := Some (lit ''ref'')\<rparr>"

definition demo_draws2 :: token_draws where
  "demo_draws2 = \<lparr>draw_access = lit ''A'', draw_refresh = lit ''R''\<rparr>"

lemma oidc_demo_simps [simp]:
  "users oidc_demo = [sample_user]" "clients oidc_demo = [demo_client]" "codes oidc_demo = [demo_code]"
  "access_tokens oidc_demo = []" "refresh_tokens oidc_demo = [demo_refresh]"
  "actors oidc_demo = actors demo_world" "accounts oidc_demo = accounts demo_world"
  by (simp_all add: oidc_demo_def demo_world_def empty_world_def empty_store_def store.defs)

lemma plain_bearer [simp]: "hash_bearer (oidc_hashing provider_demo) (lit ''code'') = lit ''code''"
  "hash_bearer (oidc_hashing provider_demo) (lit ''ref'') = lit ''ref''"
  "hash_bearer (oidc_hashing provider_demo) (lit ''A'') = lit ''A''"
  "hash_bearer (oidc_hashing provider_demo) (lit ''R'') = lit ''R''"
  by (simp_all add: provider_demo_def plain_hashing_def hash_bearer_def as_bytes_def utf8_def utf8_char_def lit_def)

lemma demo_client_ok [simp]: "client_authenticated provider_demo demo_exchange demo_client"
  by (simp add: client_authenticated_def demo_exchange_def verify_client_secret_hash_def demo_client_def
      provider_demo_def lit_def)

lemma demo_gate_like:
  assumes "users w = [sample_user]" "actors w = actors demo_world" "accounts w = accounts demo_world"
  shows "authenticable_actor_of_user no_faults (lit ''u1'') (w :: oidc_world) =
    (Inr \<lparr>gate_actor = hd (actors demo_world), gate_account = Some (hd (accounts demo_world))\<rparr>, w)"
  by (simp add: authenticable_actor_of_user_def actor_ref_of_user_def actor_of_user_row_def op_eval assms
      gate_eq gate_decision_def actor_row_def account_row_def demo_world_def sample_user_def demo_keys_def
      aggregate_actor_def aggregate_account_def new_local_def parse_kind_def kind_str_def
      parse_actor_status_def actor_status_str_def)

lemma demo_user [simp]: "user_key sample_user = lit ''u1''" "subject_id sample_user = Some (lit ''a1'')"
  "ensure_usable sample_user = Inr ()" "normalize_user_id (lit ''a1'') = lit ''a1''"
  by (simp_all add: sample_user_def ensure_usable_def parse_account_status_def)
    (rule normalize_user_id_fixed, simp add: bare_eval)

lemma demo_active:
  assumes "users w = [sample_user]" "actors w = actors demo_world" "accounts w = accounts demo_world"
  shows "load_active_user no_faults (lit ''a1'') w = (Inr sample_user, w)"
  by (simp add: load_active_user_def get_user_by_ref_def identity_gate_def context_error_def as_text_def op_eval
      Let_def assms(1) demo_gate_like [OF assms])

lemma profile_words: "split_whitespace (lit ''profile'') = [lit ''profile'']"
  by (simp add: lit_def split_whitespace_def is_whitespace_def)

lemma demo_tokens:
  assumes "users w = [sample_user]" "actors w = actors demo_world" "accounts w = accounts demo_world"
    and "access_tokens w = []" "refresh_tokens w = [t]" "refresh_hash t = lit ''ref''"
  shows "\<exists>resp w'. generate_tokens no_faults V provider_demo now demo_draws2 demo_client (lit ''a1'') (lit ''profile'') nonce
    sref w = (Inr resp, w')"
proof -
  let ?a = "access_row provider_demo now demo_draws2 demo_client (lit ''a1'') (lit ''profile'')"
  obtain w1 where a: "save_access_token no_faults V ?a w = (Inr (), w1)" "refresh_tokens w1 = refresh_tokens w"
    by (simp add: save_access_token_def as_text_def op_eval insert_row_def index_conflict_def access_indexes_def assms(4))
  have "refresh_hash (refresh_row provider_demo now demo_draws2 demo_client (lit ''a1'') (lit ''profile'') sref) = lit ''R''"
    by (simp add: refresh_row_def demo_draws2_def)
  then obtain w2 x where r: "issue_refresh no_faults V provider_demo now demo_draws2 demo_client (lit ''a1'') (lit ''profile'') sref w1 =
      (Inr x, w2)"
    by (simp add: issue_refresh_def save_refresh_token_def as_text_def context_error_def op_eval insert_row_def
        index_conflict_def refresh_indexes_def assms(5,6) a(2) demo_client_def)
  show ?thesis
    by (simp add: generate_tokens_def issue_id_token_def profile_words bind_def seq_def context_error_def map_error_def
        catch_def demo_active [OF assms(1-3)] a(1) r)
qed

lemma demo_authenticated:
  assumes "clients w = [demo_client]" "tr_client_id r = Some (lit ''app'')" "tr_client_secret r = Some (lit ''x'')"
  shows "authenticate_client no_faults provider_demo r w = (Inr demo_client, w)"
proof -
  have "verify_client_secret_hash provider_demo (client_secret_hash demo_client) (lit ''x'')"
    by (simp add: verify_client_secret_hash_def demo_client_def provider_demo_def lit_def)
  moreover have "client_active demo_client" "client_id demo_client = lit ''app''"
    by (simp_all add: demo_client_def)
  ultimately show ?thesis
    by (cases "client_type demo_client") (simp_all add: authenticate_client_def get_client_def as_text_def op_eval
        request_client_id_def assms)
qed

lemma demo_grants: "AuthorizationCodeGrant \<in> set (allowed_grant_types demo_client)"
  "RefreshTokenGrant \<in> set (allowed_grant_types demo_client)"
  by (simp_all add: demo_client_def)

lemma demo_exchanged: "\<exists>resp w'. exchange_code_for_tokens no_faults V provider_demo 5 demo_draws2 demo_exchange oidc_demo =
    (Inr resp, w')"
proof -
  have "get_authorization_code no_faults provider_demo (lit ''code'') oidc_demo = (Inr demo_code, oidc_demo)"
    by (simp add: get_authorization_code_def as_text_def op_eval, simp add: demo_code_def)
  moreover have "check_code provider_demo 5 demo_client demo_code demo_exchange (lit ''https://app/cb'') w = (Inr (), w)" for w :: oidc_world
    by (simp add: check_code_def check_code_pkce_def demo_code_def demo_client_def demo_exchange_def op_eval
        request_client_id_def)
  moreover have "code_hash demo_code = lit ''code''" "\<not> code_used demo_code" "code_actor demo_code = lit ''a1''"
    "code_scope demo_code = lit ''profile''" by (simp_all add: demo_code_def)
  moreover have "refresh_hash demo_refresh = lit ''ref''" by (simp add: demo_refresh_def)
  moreover obtain cs where "update_authorization_code no_faults (lit ''code'') oidc_demo = (Inr (), oidc_demo\<lparr>codes := cs\<rparr>)"
    using calculation(3,4) by (simp add: update_authorization_code_def as_text_def op_eval claim_code_def redeemable_def)
  moreover obtain resp w' where "generate_tokens no_faults V provider_demo 5 demo_draws2 demo_client (lit ''a1'') (lit ''profile'')
      (code_nonce demo_code) (code_session_ref demo_code) (oidc_demo\<lparr>codes := cs\<rparr>) = (Inr resp, w')"
    using demo_tokens [of "oidc_demo\<lparr>codes := cs\<rparr>" demo_refresh V 5 "code_nonce demo_code" "code_session_ref demo_code"]
      calculation(7) by fastforce
  moreover have "tr_grant_type demo_exchange = lit ''authorization_code''" "tr_code demo_exchange = Some (lit ''code'')"
    "tr_redirect_uri demo_exchange = Some (lit ''https://app/cb'')" "tr_client_id demo_exchange = Some (lit ''app'')"
    "tr_client_secret demo_exchange = Some (lit ''x'')" by (simp_all add: demo_exchange_def)
  ultimately show ?thesis
    using demo_authenticated [of oidc_demo demo_exchange] demo_grants(1)
    by (simp add: exchange_code_for_tokens_def handle_authorization_code_grant_def context_error_def bind_def seq_def
        map_error_def catch_def the_or_def lift_result_def ok_or_def require_def)
qed

theorem code_grant_checked_witness:
  "\<exists>resp w' client c. exchange_code_for_tokens no_faults demo_report provider_demo 5 demo_draws2 demo_exchange oidc_demo = (Inr resp, w') \<and>
    code_grounds provider_demo 5 oidc_demo demo_exchange client c \<and> length (access_tokens w') = 1"
proof -
  obtain resp w' where run: "exchange_code_for_tokens no_faults demo_report provider_demo 5 demo_draws2 demo_exchange oidc_demo = (Inr resp, w')"
    using demo_exchanged by blast
  have "tr_grant_type demo_exchange = lit ''authorization_code''" by (simp add: demo_exchange_def)
  from code_grant_checked [OF run this] run show ?thesis by fastforce
qed


lemma demo_request [simp]:
  "tr_grant_type demo_renewal = lit ''refresh_token''" "tr_refresh_token demo_renewal = Some (lit ''ref'')"
  "tr_client_id demo_renewal = Some (lit ''app'')" "tr_client_secret demo_renewal = Some (lit ''x'')"
  "tr_scope demo_renewal = None" "tr_grant_type demo_exchange = lit ''authorization_code''"
  "tr_code demo_exchange = Some (lit ''code'')"
  by (simp_all add: demo_renewal_def demo_exchange_def)

lemma demo_token [simp]: "refresh_hash demo_refresh = lit ''ref''" "refresh_actor demo_refresh = lit ''a1''"
  "refresh_client demo_refresh = lit ''app''" "refresh_expires_at demo_refresh = 1000"
  "refresh_scope demo_refresh = lit ''profile''" "\<not> refresh_used demo_refresh"
  by (simp_all add: demo_refresh_def)

theorem refresh_rotates_witness:
  "\<exists>resp w' client t. exchange_code_for_tokens no_faults demo_report provider_demo 5 demo_draws2 demo_renewal oidc_demo = (Inr resp, w') \<and>
    refresh_grounds provider_demo 5 oidc_demo demo_renewal client t \<and> length (access_tokens w') = 1"
proof -
  have get: "get_refresh_token no_faults provider_demo (lit ''ref'') oidc_demo = (Inr demo_refresh, oidc_demo)"
    by (simp add: get_refresh_token_def as_text_def op_eval)
  let ?t = "demo_refresh\<lparr>refresh_used := True\<rparr>" and ?h = "refresh_hash demo_refresh"
  have consume: "consume_refresh_token_by_hash no_faults ?h oidc_demo = (Inr True, oidc_demo\<lparr>refresh_tokens := [?t]\<rparr>)"
    by (simp add: consume_refresh_token_by_hash_def as_text_def op_eval claim_refresh_def refreshable_def)
  have revoke: "revoke_access_token_by_hash no_faults a (oidc_demo\<lparr>refresh_tokens := [?t]\<rparr>) =
      (Inr (), oidc_demo\<lparr>refresh_tokens := [?t]\<rparr>)" for a
    by (simp add: revoke_access_token_by_hash_def as_text_def op_eval)
  have "\<exists>resp w'. generate_tokens no_faults demo_report provider_demo 5 demo_draws2 demo_client (lit ''a1'') (lit ''profile'')
      None (refresh_session_ref demo_refresh) (oidc_demo\<lparr>refresh_tokens := [?t]\<rparr>) = (Inr resp, w')"
    by (rule demo_tokens [where t = ?t]) simp_all
  then obtain resp w' where gen: "generate_tokens no_faults demo_report provider_demo 5 demo_draws2 demo_client (lit ''a1'') (lit ''profile'')
      None (refresh_session_ref demo_refresh) (oidc_demo\<lparr>refresh_tokens := [?t]\<rparr>) = (Inr resp, w')"
    by blast
  have rotate: "rotate_refresh_token no_faults demo_report provider_demo 5 demo_draws2 demo_client demo_refresh None oidc_demo = (Inr resp, w')"
    using consume revoke gen by (simp add: rotate_refresh_token_def refreshed_scope_def bind_def seq_def require_def lift_result_def)
  have auth: "authenticate_client no_faults provider_demo demo_renewal oidc_demo = (Inr demo_client, oidc_demo)"
    by (rule demo_authenticated) simp_all
  have "handle_refresh_token_grant no_faults demo_report provider_demo 5 demo_draws2 demo_renewal oidc_demo = (Inr resp, w')"
    using auth get rotate demo_grants(2)
    by (simp add: handle_refresh_token_grant_def bind_def seq_def the_or_def lift_result_def ok_or_def require_def
        request_client_id_def)
  then have run: "exchange_code_for_tokens no_faults demo_report provider_demo 5 demo_draws2 demo_renewal oidc_demo = (Inr resp, w')"
    by (simp add: exchange_code_for_tokens_def)
  from refresh_rotates [OF this demo_request(1)] run show ?thesis by (fastforce simp: rotated_world_def)
qed

text \<open>The presented token has been rotated before: its successor dies with it.\<close>

definition reuse_demo :: oidc_world where
  "reuse_demo = oidc_demo\<lparr>refresh_tokens := [demo_refresh\<lparr>refresh_used := True\<rparr>,
     demo_refresh\<lparr>refresh_hash := lit ''next''\<rparr>]\<rparr>"

theorem refresh_reuse_revokes_witness:
  "family_alive (lit ''app'') (lit ''a1'') reuse_demo \<and>
    (\<exists>w'. exchange_code_for_tokens no_faults demo_report provider_demo 5 demo_draws2 demo_renewal reuse_demo =
        (Inl (lit ''Refresh token already used''), w') \<and> \<not> family_alive (lit ''app'') (lit ''a1'') w')"
proof -
  let ?t = "demo_refresh\<lparr>refresh_used := True\<rparr>"
  have c: "client_id demo_client = lit ''app''" "client_active demo_client" by (simp_all add: demo_client_def)
  have auth: "client_authenticated provider_demo demo_renewal demo_client"
    using demo_client_ok by (simp add: client_authenticated_def demo_renewal_def)
  have "presents_own provider_demo reuse_demo demo_renewal demo_client ?t"
    using auth c demo_grants(2) by (simp add: presents_own_def reuse_demo_def request_client_id_def)
  moreover have "plain_key (refresh_actor ?t)"
    by (simp add: plain_key_def) (simp add: bare_eval)
  ultimately show ?thesis
    using refresh_reuse_revokes [of demo_renewal provider_demo reuse_demo demo_client ?t 5 demo_report demo_draws2] c
    by (simp add: family_alive_def reuse_demo_def)
qed

definition suspended_demo :: oidc_world where
  "suspended_demo = oidc_demo\<lparr>users := [sample_user\<lparr>user_status := lit ''Suspended''\<rparr>]\<rparr>"

theorem suspended_gets_nothing_witness:
  "\<not> succeeds (exchange_code_for_tokens no_faults demo_report provider_demo 5 demo_draws2 demo_exchange)
    suspended_demo"
proof -
  have "plain_key (lit ''a1'')" by (simp add: plain_key_def) (simp add: bare_eval)
  then have "barred (lit ''a1'') suspended_demo" by (simp add: barred_def suspended_demo_def)
  moreover have "issued_for provider_demo (lit ''a1'') (lit ''code'') suspended_demo"
    by (simp add: issued_for_def suspended_demo_def Let_def demo_code_def)
  ultimately show ?thesis using suspended_gets_nothing demo_request(6,7) by blast
qed

end
