(* ===== verification/Rbac_Safety.thy ===== *)
theory Rbac_Safety
  imports Rbac_Routes Auth_Cache
begin

text \<open>
  The administration of roles and permissions refines an abstract authority: who holds which role, and
  which role grants which permission.  The tables keep their referential integrity, system roles stand,
  and a requester without the permission changes nothing.
\<close>

section \<open>Requests\<close>

datatype rbac_request =
    NewRole create_role_request
  | ChangeRole str update_role_request
  | DropRole str
  | NewPermission create_permission_request
  | Grant str str
  | Withdraw str str
  | Assign str str
  | Unassign str str

definition void :: "('s, 'e, 'a) op \<Rightarrow> ('s, 'e, unit) op" where
  "void m = bind m (\<lambda>_. ret ())"

fun serve :: "faults \<Rightarrow> conflict_report \<Rightarrow> int \<Rightarrow> str \<Rightarrow> user \<Rightarrow> rbac_request \<Rightarrow> ('x, unit) rbac_op" where
  "serve F V now key u (NewRole req) = void (create_role_route F V now key u req)"
| "serve F V now key u (ChangeRole n req) = void (update_role_route F now u n req)"
| "serve F V now key u (DropRole n) = delete_role_route F u n"
| "serve F V now key u (NewPermission req) = void (create_permission_route F V now key u req)"
| "serve F V now key u (Grant r p) = assign_permission_route F V now key u r p"
| "serve F V now key u (Withdraw r p) = remove_permission_route F u r p"
| "serve F V now key u (Assign t r) = assign_role_route F V now key u t r"
| "serve F V now key u (Unassign t r) = remove_role_route F u t r"

fun needed :: "rbac_request \<Rightarrow> str" where
  "needed (NewRole _) = roles_write"
| "needed (ChangeRole _ _) = roles_write"
| "needed (DropRole _) = roles_delete"
| "needed (NewPermission _) = permissions_write"
| "needed (Grant _ _) = permissions_write"
| "needed (Withdraw _ _) = permissions_write"
| "needed (Assign _ _) = roles_write"
| "needed (Unassign _ _) = roles_write"

section \<open>Integrity of the tables\<close>

definition valid_rbac_name :: "str \<Rightarrow> bool" where
  "valid_rbac_name n \<longleftrightarrow> n \<noteq> [] \<and> length n \<le> 64 \<and> list_all rbac_name_char n"

definition rbac_ok :: "'x rbac_world_scheme \<Rightarrow> bool" where
  "rbac_ok s \<longleftrightarrow> unique_ok role_indexes (roles s) \<and> unique_ok permission_indexes (permissions s) \<and>
    unique_ok user_role_indexes (user_roles s) \<and> unique_ok role_permission_indexes (role_permissions s) \<and>
    (\<forall>r\<in>set (roles s). valid_rbac_name (role_name r)) \<and>
    (\<forall>p\<in>set (permissions s). valid_rbac_name (permission_name p)) \<and>
    (\<forall>l\<in>set (user_roles s). ur_role l \<in> role_key ` set (roles s)) \<and>
    (\<forall>l\<in>set (role_permissions s). rp_role l \<in> role_key ` set (roles s) \<and>
      rp_permission l \<in> permission_key ` set (permissions s))"

lemma validate_rbac_name_valid: "validate_rbac_name kind n = Inr m \<Longrightarrow> valid_rbac_name m"
  by (auto simp: validate_rbac_name_def valid_rbac_name_def Let_def split: if_splits)

lemma found_role: "role_by_name n s = Some r \<Longrightarrow> r \<in> set (roles s) \<and> role_name r = n"
  by (auto simp: role_by_name_def dest: find_Some_in)

lemma found_permission: "permission_by_name n s = Some p \<Longrightarrow> p \<in> set (permissions s) \<and> permission_name p = n"
  by (auto simp: permission_by_name_def dest: find_Some_in)

lemma role_unique:
  assumes "rbac_ok s" "r \<in> set (roles s)" "q \<in> set (roles s)"
  shows "role_key r = role_key q \<Longrightarrow> r = q" "role_name r = role_name q \<Longrightarrow> r = q"
  using assms by (auto simp: rbac_ok_def unique_ok_def role_indexes_def distinct_map inj_on_def)

lemma permission_unique:
  assumes "rbac_ok s" "p \<in> set (permissions s)" "q \<in> set (permissions s)"
  shows "permission_key p = permission_key q \<Longrightarrow> p = q" "permission_name p = permission_name q \<Longrightarrow> p = q"
  using assms by (auto simp: rbac_ok_def unique_ok_def permission_indexes_def distinct_map inj_on_def)

section \<open>Effects\<close>

lemma create_role_effect: "create_role F V now key req s = (r, t) \<Longrightarrow>
  (\<exists>e. r = Inl e) \<and> t = s \<or>
  (\<exists>name. validate_rbac_name ''Role'' (cr_name req) = Inr name \<and>
    index_conflict role_indexes (new_role now key req name) (roles s) = None \<and>
    t = roles_update (\<lambda>rows. rows @ [new_role now key req name]) s)"
  by (cases r) (auto simp: create_role_def op_success op_failure)

lemma create_permission_effect: "create_permission F V now key req s = (r, t) \<Longrightarrow>
  (\<exists>e. r = Inl e) \<and> t = s \<or>
  (\<exists>name. validate_rbac_name ''Permission'' (cp_name req) = Inr name \<and>
    index_conflict permission_indexes (new_permission now key req name) (permissions s) = None \<and>
    t = permissions_update (\<lambda>rows. rows @ [new_permission now key req name]) s)"
  by (cases r) (auto simp: create_permission_def op_success op_failure)

lemma preserves_attach [preserve]: "preserves I (attach_permissions F rs)"
  unfolding attach_permissions_def by (auto intro!: preserve)

lemma update_role_effect: "update_role F now n req s = (r, t) \<Longrightarrow>
  t = s \<or> (\<exists>q. role_by_name n s = Some q \<and> \<not> role_is_system q \<and>
    t = roles_update (update_where (\<lambda>x. role_key x = role_key q) (\<lambda>x.
      x\<lparr>role_display_name := (case upr_display_name req of None \<Rightarrow> role_display_name x | Some d \<Rightarrow> d),
        role_description := (case upr_description req of None \<Rightarrow> role_description x | Some d \<Rightarrow> Some d),
        role_updated_at := now\<rparr>)) s)"
  by (cases r) (auto simp: update_role_def op_success op_failure Let_def dest: preserves_step [OF preserves_attach])

lemma delete_role_effect: "delete_role F n s = (r, t) \<Longrightarrow>
  (\<exists>e. r = Inl e) \<and> t = s \<or>
  (\<exists>q. role_by_name n s = Some q \<and> \<not> role_is_system q \<and> (\<forall>l\<in>set (user_roles s). ur_role l \<noteq> role_key q) \<and>
    (let u = role_permissions_update (delete_where (\<lambda>l. rp_role l = role_key q)) s in
     (\<exists>e. r = Inl e) \<and> t = u \<or> r = Inr () \<and> t = roles_update (delete_where (\<lambda>x. role_key x = role_key q)) u))"
  by (cases r) (auto simp: delete_role_def op_success op_failure Let_def count_where_def filter_empty_conv)

lemma assign_role_effect: "assign_role F V now key uid n by_actor s = (r, t) \<Longrightarrow>
  (\<exists>e. r = Inl e) \<and> t = s \<or>
  (\<exists>q a l. r = Inr () \<and> role_by_name n s = Some q \<and> actor_of_user_row uid s = Some a \<and>
    l = \<lparr>ur_key = key, ur_actor = a, ur_role = role_key q, ur_assigned_at = now, ur_assigned_by = by_actor\<rparr> \<and>
    index_conflict user_role_indexes l (user_roles s) = None \<and>
    t = user_roles_update (\<lambda>rows. rows @ [l]) s)"
  by (cases r) (auto simp: assign_role_def actor_ref_of_user_def op_success op_failure)

lemma remove_role_effect: "remove_role_from_user F uid n s = (r, t) \<Longrightarrow>
  (\<exists>e. r = Inl e) \<and> t = s \<or>
  (\<exists>q a. r = Inr () \<and> role_by_name n s = Some q \<and> actor_of_user_row uid s = Some a \<and>
    t = user_roles_update (delete_where (\<lambda>l. ur_actor l = a \<and> ur_role l = role_key q)) s)"
  by (cases r) (auto simp: remove_role_from_user_def actor_ref_of_user_def op_success op_failure)

lemma assign_permission_effect: "assign_permission_to_role F V now key n p u s = (r, t) \<Longrightarrow>
  (\<exists>e. r = Inl e) \<and> t = s \<or>
  (\<exists>q x a l. r = Inr () \<and> role_by_name n s = Some q \<and> permission_by_name p s = Some x \<and>
    l = \<lparr>rp_key = key, rp_role = role_key q, rp_permission = permission_key x, rp_granted_at = now, rp_granted_by = a\<rparr> \<and>
    index_conflict role_permission_indexes l (role_permissions s) = None \<and>
    t = role_permissions_update (\<lambda>rows. rows @ [l]) s)"
  by (cases r) (auto simp: assign_permission_to_role_def actor_ref_of_user_def op_success op_failure)

lemma remove_permission_effect: "remove_permission_from_role F n p s = (r, t) \<Longrightarrow>
  (\<exists>e. r = Inl e) \<and> t = s \<or>
  (\<exists>q x. r = Inr () \<and> role_by_name n s = Some q \<and> permission_by_name p s = Some x \<and>
    t = role_permissions_update (delete_where (\<lambda>l. rp_role l = role_key q \<and> rp_permission l = permission_key x)) s)"
  by (cases r) (auto simp: remove_permission_from_role_def op_success op_failure)

section \<open>The authority behind the tables\<close>

definition held_roles :: "'x rbac_world_scheme \<Rightarrow> (str \<times> str) set" where
  "held_roles s = {(ur_actor l, role_name r) |l r. l \<in> set (user_roles s) \<and> r \<in> set (roles s) \<and> ur_role l = role_key r}"

definition granted :: "'x rbac_world_scheme \<Rightarrow> (str \<times> str) set" where
  "granted s = {(role_name r, permission_name p) |l r p. l \<in> set (role_permissions s) \<and> r \<in> set (roles s) \<and>
     p \<in> set (permissions s) \<and> rp_role l = role_key r \<and> rp_permission l = permission_key p}"

text \<open>What a request means for the authority; the actor is the subject of the target's user row.\<close>

fun intended :: "str option \<Rightarrow> rbac_request \<Rightarrow> (str \<times> str) set \<times> (str \<times> str) set \<Rightarrow>
    (str \<times> str) set \<times> (str \<times> str) set" where
  "intended a (DropRole n) (held, gr) = (held, gr - {n} \<times> UNIV)"
| "intended a (Grant n p) (held, gr) = (held, insert (n, p) gr)"
| "intended a (Withdraw n p) (held, gr) = (held, gr - {(n, p)})"
| "intended (Some a) (Assign _ n) (held, gr) = (insert (a, n) held, gr)"
| "intended (Some a) (Unassign _ n) (held, gr) = (held - {(a, n)}, gr)"
| "intended _ _ auth = auth"

definition target :: "rbac_request \<Rightarrow> 'x rbac_world_scheme \<Rightarrow> str option" where
  "target q s = (case q of Assign t _ \<Rightarrow> actor_of_user_row (normalize_user_id t) s
    | Unassign t _ \<Rightarrow> actor_of_user_row (normalize_user_id t) s | _ \<Rightarrow> None)"

abbreviation authority :: "'x rbac_world_scheme \<Rightarrow> (str \<times> str) set \<times> (str \<times> str) set" where
  "authority s \<equiv> (held_roles s, granted s)"

lemma rbac_links: "rbac_ok s \<Longrightarrow> l \<in> set (user_roles s) \<Longrightarrow> ur_role l \<in> role_key ` set (roles s)"
  "rbac_ok s \<Longrightarrow> g \<in> set (role_permissions s) \<Longrightarrow> rp_role g \<in> role_key ` set (roles s)"
  "rbac_ok s \<Longrightarrow> g \<in> set (role_permissions s) \<Longrightarrow> rp_permission g \<in> permission_key ` set (permissions s)"
  by (simp_all add: rbac_ok_def)

lemma add_role_refines:
  assumes ok: "rbac_ok s" and new: "index_conflict role_indexes q (roles s) = None"
    and name: "valid_rbac_name (role_name q)"
  shows "rbac_ok (roles_update (\<lambda>rows. rows @ [q]) s)" "authority (roles_update (\<lambda>rows. rows @ [q]) s) = authority s"
proof -
  show "rbac_ok (roles_update (\<lambda>rows. rows @ [q]) s)"
    using ok new name by (auto simp: rbac_ok_def intro: unique_ok_append)
  have "role_key q \<notin> role_key ` set (roles s)"
    using new by (force simp: index_conflict_None role_indexes_def)
  then have "\<forall>l\<in>set (user_roles s). ur_role l \<noteq> role_key q" "\<forall>l\<in>set (role_permissions s). rp_role l \<noteq> role_key q"
    using rbac_links [OF ok] by metis+
  then show "authority (roles_update (\<lambda>rows. rows @ [q]) s) = authority s"
    by (auto simp: held_roles_def granted_def)
qed

lemma add_permission_refines:
  assumes ok: "rbac_ok s" and new: "index_conflict permission_indexes q (permissions s) = None"
    and name: "valid_rbac_name (permission_name q)"
  shows "rbac_ok (permissions_update (\<lambda>rows. rows @ [q]) s)"
    "authority (permissions_update (\<lambda>rows. rows @ [q]) s) = authority s"
proof -
  show "rbac_ok (permissions_update (\<lambda>rows. rows @ [q]) s)"
    using ok new name by (auto simp: rbac_ok_def intro: unique_ok_append)
  have "permission_key q \<notin> permission_key ` set (permissions s)"
    using new by (force simp: index_conflict_None permission_indexes_def)
  then have "\<forall>l\<in>set (role_permissions s). rp_permission l \<noteq> permission_key q"
    using rbac_links [OF ok] by metis
  then show "authority (permissions_update (\<lambda>rows. rows @ [q]) s) = authority s"
    by (auto simp: held_roles_def granted_def)
qed

lemma change_role_refines:
  assumes ok: "rbac_ok s" and f: "\<And>x. role_key (f x) = role_key x" "\<And>x. role_name (f x) = role_name x"
  shows "rbac_ok (roles_update (update_where P f) s)" "authority (roles_update (update_where P f) s) = authority s"
proof -
  have key_set: "role_key ` set (update_where P f rs) = role_key ` set rs" for rs
    by (rule key_image_update_where) (simp add: f)
  have names: "\<forall>r\<in>set (update_where P f (roles s)). valid_rbac_name (role_name r)"
    using ok by (simp add: rbac_ok_def ball_update_where f)
  show "rbac_ok (roles_update (update_where P f) s)"
    using ok names by (auto simp: rbac_ok_def key_set role_indexes_def f intro!: unique_ok_update)
  have pair: "(\<exists>r\<in>set (update_where P f rs). role_key r = k \<and> role_name r = n) \<longleftrightarrow>
      (\<exists>r\<in>set rs. role_key r = k \<and> role_name r = n)" for k n rs
    by (induction rs) (auto simp: f)
  show "authority (roles_update (update_where P f) s) = authority s"
    unfolding held_roles_def granted_def
    by (auto simp: set_eq_iff) (metis pair)+
qed

lemma drop_role_refines:
  assumes ok: "rbac_ok s" and q: "q \<in> set (roles s)" and free: "\<forall>l\<in>set (user_roles s). ur_role l \<noteq> role_key q"
  defines "u \<equiv> role_permissions_update (delete_where (\<lambda>l. rp_role l = role_key q)) s"
  defines "v \<equiv> roles_update (delete_where (\<lambda>x. role_key x = role_key q)) u"
  shows "rbac_ok u" "rbac_ok v"
    "authority u = intended a (DropRole (role_name q)) (authority s)"
    "authority v = intended a (DropRole (role_name q)) (authority s)"
proof -
  show "rbac_ok u" using ok by (auto simp: rbac_ok_def u_def intro: unique_ok_delete)
  show "rbac_ok v" using ok free
    by (auto simp: rbac_ok_def u_def v_def image_iff intro!: unique_ok_delete; fastforce)
  have uniq: "role_name r = role_name q \<longleftrightarrow> role_key r = role_key q" if "r \<in> set (roles s)" for r
    using role_unique [OF ok that q] by auto
  show "authority u = intended a (DropRole (role_name q)) (authority s)"
    by (auto simp: held_roles_def granted_def u_def uniq) (metis uniq)
  show "authority v = intended a (DropRole (role_name q)) (authority s)"
    using free by (auto simp: held_roles_def granted_def u_def v_def uniq) (metis uniq)+
qed

lemma assign_refines:
  assumes ok: "rbac_ok s" and q: "q \<in> set (roles s)" and l: "ur_role l = role_key q"
    and new: "index_conflict user_role_indexes l (user_roles s) = None"
  shows "rbac_ok (user_roles_update (\<lambda>rows. rows @ [l]) s)"
    "authority (user_roles_update (\<lambda>rows. rows @ [l]) s) = (insert (ur_actor l, role_name q) (held_roles s), granted s)"
proof -
  show "rbac_ok (user_roles_update (\<lambda>rows. rows @ [l]) s)"
    using ok q l new by (auto simp: rbac_ok_def intro: unique_ok_append)
  show "authority (user_roles_update (\<lambda>rows. rows @ [l]) s) = (insert (ur_actor l, role_name q) (held_roles s), granted s)"
    using role_unique(1) [OF ok q] q l by (auto simp: held_roles_def granted_def) metis+
qed

lemma unassign_refines:
  fixes a :: str
  assumes ok: "rbac_ok s" and q: "q \<in> set (roles s)"
  defines "t \<equiv> user_roles_update (delete_where (\<lambda>l. ur_actor l = a \<and> ur_role l = role_key q)) s"
  shows "rbac_ok t" "authority t = (held_roles s - {(a, role_name q)}, granted s)"
proof -
  show "rbac_ok t" using ok by (auto simp: rbac_ok_def t_def intro: unique_ok_delete)
  have uniq: "role_name r = role_name q \<longleftrightarrow> role_key r = role_key q" if "r \<in> set (roles s)" for r
    using role_unique [OF ok that q] by auto
  show "authority t = (held_roles s - {(a, role_name q)}, granted s)"
    by (auto simp: held_roles_def granted_def t_def uniq) (metis uniq)+
qed

lemma grant_refines:
  assumes ok: "rbac_ok s" and q: "q \<in> set (roles s)" "p \<in> set (permissions s)"
    and l: "rp_role l = role_key q" "rp_permission l = permission_key p"
    and new: "index_conflict role_permission_indexes l (role_permissions s) = None"
  shows "rbac_ok (role_permissions_update (\<lambda>rows. rows @ [l]) s)"
    "authority (role_permissions_update (\<lambda>rows. rows @ [l]) s) =
      (held_roles s, insert (role_name q, permission_name p) (granted s))"
proof -
  show "rbac_ok (role_permissions_update (\<lambda>rows. rows @ [l]) s)"
    using ok q l new by (auto simp: rbac_ok_def intro: unique_ok_append)
  show "authority (role_permissions_update (\<lambda>rows. rows @ [l]) s) =
      (held_roles s, insert (role_name q, permission_name p) (granted s))"
    using role_unique(1) [OF ok q(1)] permission_unique(1) [OF ok q(2)] q l
    by (auto simp: held_roles_def granted_def) metis+
qed

lemma withdraw_refines:
  assumes ok: "rbac_ok s" and q: "q \<in> set (roles s)" "p \<in> set (permissions s)"
  defines "t \<equiv> role_permissions_update (delete_where (\<lambda>l. rp_role l = role_key q \<and> rp_permission l = permission_key p)) s"
  shows "rbac_ok t" "authority t = (held_roles s, granted s - {(role_name q, permission_name p)})"
proof -
  show "rbac_ok t" using ok by (auto simp: rbac_ok_def t_def intro: unique_ok_delete)
  have uniq: "role_name r = role_name q \<longleftrightarrow> role_key r = role_key q" if "r \<in> set (roles s)" for r
    using role_unique [OF ok that q(1)] by auto
  have uniqp: "permission_name x = permission_name p \<longleftrightarrow> permission_key x = permission_key p" if "x \<in> set (permissions s)" for x
    using permission_unique [OF ok that q(2)] by auto
  show "authority t = (held_roles s, granted s - {(role_name q, permission_name p)})"
    by (auto simp: held_roles_def granted_def t_def uniq uniqp) (metis uniq uniqp)+
qed

section \<open>Requests refine the authority\<close>

definition refines :: "rbac_request \<Rightarrow> 'x rbac_world_scheme \<Rightarrow> auth_error + unit \<Rightarrow> 'x rbac_world_scheme \<Rightarrow> bool" where
  "refines q s r t \<longleftrightarrow> rbac_ok t \<and>
    (case r of
       Inr _ \<Rightarrow> authority t = intended (target q s) q (authority s)
     | Inl _ \<Rightarrow> authority t = authority s \<or>
         (\<exists>n. q = DropRole n \<and> authority t = intended None q (authority s)))"

lemma refines_refused: "rbac_ok s \<Longrightarrow> refines q s (Inl e) s"
  by (simp add: refines_def)

lemma void_guard: "void (seq g m) = seq g (void m)"
  by (auto simp: void_def seq_def bind_def fun_eq_iff split: prod.split sum.split)

lemma void_cases: "void m s = (r, t) \<Longrightarrow> \<exists>x. m s = (x, t) \<and> (\<forall>e. x = Inl e \<longleftrightarrow> r = Inl e)"
  by (auto simp: void_def bind_def split: prod.splits sum.splits)

lemma serve_guarded:
  "\<exists>m. serve F V now key u q = seq (require_permission F (user_key u) (needed q)) m"
  by (cases q) (auto simp: void_guard create_role_route_def update_role_route_def delete_role_route_def
      create_permission_route_def assign_permission_route_def remove_permission_route_def assign_role_route_def
      remove_role_route_def)

lemma serve_cases:
  assumes "serve F V now key u q s = (r, t)"
  obtains e where "r = Inl e" "t = s"
  | "has_permission (user_key u) (needed q) s"
    "(case q of NewRole req \<Rightarrow> void (create_role F V now key req)
      | ChangeRole n req \<Rightarrow> void (update_role F now n req)
      | DropRole n \<Rightarrow> delete_role F n
      | NewPermission req \<Rightarrow> void (create_permission F V now key req)
      | Grant n p \<Rightarrow> assign_permission_to_role F V now key n p u
      | Withdraw n p \<Rightarrow> remove_permission_from_role F n p
      | Assign v n \<Rightarrow> assign_role_to_user F V now key (normalize_user_id v) n u
      | Unassign v n \<Rightarrow> remove_role_from_user F (normalize_user_id v) n) s = (r, t)"
  using assms by (cases q) (auto simp: void_guard create_role_route_def update_role_route_def delete_role_route_def
      create_permission_route_def assign_permission_route_def remove_permission_route_def assign_role_route_def
      remove_role_route_def dest!: route_cases)

lemma actor_row_same [simp]: "actor_of_user_row (normalize_user_id (normalize_user_id v)) s = actor_of_user_row (normalize_user_id v) s"
  by (simp add: actor_of_user_row_def normalize_user_id_fixed [OF normalize_user_id_bare])

lemma create_role_refines:
  assumes "rbac_ok s" "create_role F V now key req s = (r, t)"
  shows "rbac_ok t \<and> authority t = authority s"
proof (cases "t = s")
  case False
  then obtain name where n: "validate_rbac_name ''Role'' (cr_name req) = Inr name"
    "index_conflict role_indexes (new_role now key req name) (roles s) = None"
    "t = roles_update (\<lambda>rows. rows @ [new_role now key req name]) s"
    using create_role_effect [OF assms(2)] by auto
  have "valid_rbac_name (role_name (new_role now key req name))"
    using validate_rbac_name_valid [OF n(1)] by (simp add: new_role_def)
  from add_role_refines [OF assms(1) n(2) this] show ?thesis using n(3) by simp
qed (use assms in simp)

lemma create_permission_refines:
  assumes "rbac_ok s" "create_permission F V now key req s = (r, t)"
  shows "rbac_ok t \<and> authority t = authority s"
proof (cases "t = s")
  case False
  then obtain name where n: "validate_rbac_name ''Permission'' (cp_name req) = Inr name"
    "index_conflict permission_indexes (new_permission now key req name) (permissions s) = None"
    "t = permissions_update (\<lambda>rows. rows @ [new_permission now key req name]) s"
    using create_permission_effect [OF assms(2)] by auto
  have "valid_rbac_name (permission_name (new_permission now key req name))"
    using validate_rbac_name_valid [OF n(1)] by (simp add: new_permission_def)
  from add_permission_refines [OF assms(1) n(2) this] show ?thesis using n(3) by simp
qed (use assms in simp)

lemma update_role_refines:
  assumes "rbac_ok s" "update_role F now n req s = (r, t)"
  shows "rbac_ok t \<and> authority t = authority s"
proof (cases "t = s")
  case False
  then obtain P f where "t = roles_update (update_where P f) s"
    "\<And>x. role_key (f x) = role_key x" "\<And>x. role_name (f x) = role_name x"
    using update_role_effect [OF assms(2)] by fastforce
  then show ?thesis using change_role_refines [OF assms(1), of f P] by simp
qed (use assms in simp)

lemma delete_role_refines:
  assumes ok: "rbac_ok s" and run: "delete_role F n s = (r, t)"
  shows "refines (DropRole n) s r t"
proof (cases "(\<exists>e. r = Inl e) \<and> t = s")
  case True
  then show ?thesis using refines_refused [OF ok] by auto
next
  case False
  define u where "u q = role_permissions_update (delete_where (\<lambda>l. rp_role l = role_key q)) s" for q :: role
  obtain q where q: "role_by_name n s = Some q" "\<forall>l\<in>set (user_roles s). ur_role l \<noteq> role_key q"
    and t: "(\<exists>e. r = Inl e) \<and> t = u q \<or> r = Inr () \<and> t = roles_update (delete_where (\<lambda>x. role_key x = role_key q)) (u q)"
    using delete_role_effect [OF run] False unfolding u_def Let_def by blast
  have f: "q \<in> set (roles s)" "role_name q = n" using found_role [OF q(1)] by auto
  show ?thesis
    using drop_role_refines [OF ok f(1) q(2), folded u_def] t f(2)
    by (auto simp: refines_def target_def)
qed

lemma assign_role_refines:
  assumes ok: "rbac_ok s" and run: "assign_role F V now key (normalize_user_id v) n by_actor s = (r, t)"
  shows "refines (Assign v n) s r t"
proof (cases "(\<exists>e. r = Inl e) \<and> t = s")
  case True
  then show ?thesis using refines_refused [OF ok] by auto
next
  case False
  then obtain q a l where q: "r = Inr ()" "role_by_name n s = Some q" "actor_of_user_row (normalize_user_id v) s = Some a"
    "l = \<lparr>ur_key = key, ur_actor = a, ur_role = role_key q, ur_assigned_at = now, ur_assigned_by = by_actor\<rparr>"
    "index_conflict user_role_indexes l (user_roles s) = None" "t = user_roles_update (\<lambda>rows. rows @ [l]) s"
    using assign_role_effect [OF run] by blast
  have f: "q \<in> set (roles s)" "role_name q = n" using found_role [OF q(2)] by auto
  show ?thesis
    using assign_refines [OF ok f(1) _ q(5)] q(1,3,4,6) f(2) by (simp add: refines_def target_def)
qed

lemma remove_role_refines:
  assumes ok: "rbac_ok s" and run: "remove_role_from_user F (normalize_user_id v) n s = (r, t)"
  shows "refines (Unassign v n) s r t"
proof (cases "(\<exists>e. r = Inl e) \<and> t = s")
  case True
  then show ?thesis using refines_refused [OF ok] by auto
next
  case False
  then obtain q a where q: "r = Inr ()" "role_by_name n s = Some q" "actor_of_user_row (normalize_user_id v) s = Some a"
    "t = user_roles_update (delete_where (\<lambda>l. ur_actor l = a \<and> ur_role l = role_key q)) s"
    using remove_role_effect [OF run] by blast
  have f: "q \<in> set (roles s)" "role_name q = n" using found_role [OF q(2)] by auto
  show ?thesis using unassign_refines [OF ok f(1), of a] q(1,3,4) f(2) by (simp add: refines_def target_def)
qed

lemma assign_permission_refines:
  assumes ok: "rbac_ok s" and run: "assign_permission_to_role F V now key n p u s = (r, t)"
  shows "refines (Grant n p) s r t"
proof (cases "(\<exists>e. r = Inl e) \<and> t = s")
  case True
  then show ?thesis using refines_refused [OF ok] by auto
next
  case False
  then obtain q x a l where q: "r = Inr ()" "role_by_name n s = Some q" "permission_by_name p s = Some x"
    "l = \<lparr>rp_key = key, rp_role = role_key q, rp_permission = permission_key x, rp_granted_at = now, rp_granted_by = a\<rparr>"
    "index_conflict role_permission_indexes l (role_permissions s) = None"
    "t = role_permissions_update (\<lambda>rows. rows @ [l]) s"
    using assign_permission_effect [OF run] by blast
  have f: "q \<in> set (roles s)" "role_name q = n" "x \<in> set (permissions s)" "permission_name x = p"
    using found_role [OF q(2)] found_permission [OF q(3)] by auto
  show ?thesis
    using grant_refines [OF ok f(1,3) _ _ q(5)] q(1,4,6) f(2,4) by (simp add: refines_def target_def)
qed

lemma remove_permission_refines:
  assumes ok: "rbac_ok s" and run: "remove_permission_from_role F n p s = (r, t)"
  shows "refines (Withdraw n p) s r t"
proof (cases "(\<exists>e. r = Inl e) \<and> t = s")
  case True
  then show ?thesis using refines_refused [OF ok] by auto
next
  case False
  then obtain q x where q: "r = Inr ()" "role_by_name n s = Some q" "permission_by_name p s = Some x"
    "t = role_permissions_update (delete_where (\<lambda>l. rp_role l = role_key q \<and> rp_permission l = permission_key x)) s"
    using remove_permission_effect [OF run] by blast
  have f: "q \<in> set (roles s)" "role_name q = n" "x \<in> set (permissions s)" "permission_name x = p"
    using found_role [OF q(2)] found_permission [OF q(3)] by auto
  show ?thesis using withdraw_refines [OF ok f(1,3)] q(1,4) f(2,4) by (simp add: refines_def target_def)
qed

lemma serve_refines:
  assumes ok: "rbac_ok s" and run: "serve F V now key u q s = (r, t)"
  shows "refines q s r t"
  using run
proof (cases rule: serve_cases)
  case (1 e)
  then show ?thesis using refines_refused [OF ok] by simp
next
  case 2
  note run = 2(2)
  show ?thesis
  proof (cases q)
    case (NewRole req)
    then show ?thesis using run create_role_refines [OF ok]
      by (auto simp: refines_def target_def dest!: void_cases split: sum.split)
  next
    case (ChangeRole n req)
    then show ?thesis using run update_role_refines [OF ok]
      by (auto simp: refines_def target_def dest!: void_cases split: sum.split)
  next
    case (NewPermission req)
    then show ?thesis using run create_permission_refines [OF ok]
      by (auto simp: refines_def target_def dest!: void_cases split: sum.split)
  next
    case (Assign v n)
    then have "\<exists>e. r = Inl e \<and> t = s \<or> (\<exists>a. assign_role F V now key (normalize_user_id v) n a s = (r, t))"
      using run by (cases r) (auto simp: assign_role_to_user_def actor_ref_of_user_def op_success op_failure)
    then show ?thesis using assign_role_refines [OF ok] refines_refused [OF ok] Assign by blast
  qed (use run delete_role_refines [OF ok] assign_permission_refines [OF ok] remove_permission_refines [OF ok]
      remove_role_refines [OF ok] in auto)
qed

text \<open>
  C28: The administration of roles refines the authority it stands for.  From tables with intact
  references, whatever request is served, for whom and under whatever faults: the references are intact
  afterwards; a request that succeeds has changed who holds which role and which role grants what
  exactly as intended; and a request that fails has changed nothing of that, except that a deletion of a
  role that fails half-way may already have withdrawn the role's permissions.
\<close>

theorem rbac_requests_refine:
  assumes "serve F V now key u q s = (r, t)" "rbac_ok s"
  shows "rbac_ok t \<and>
    (case r of
       Inr _ \<Rightarrow> authority t = intended (target q s) q (authority s)
     | Inl _ \<Rightarrow> authority t = authority s \<or>
         (\<exists>n. q = DropRole n \<and> authority t = intended None q (authority s)))"
  using serve_refines [OF assms(2,1)] by (simp add: refines_def)

text \<open>
  Without the permission nothing changes.  If none of the requesters holds the permission its
  request needs, then after all the requests, in any number and order and under any faults, the whole
  store is what it was: nobody can grant itself the first permission.
\<close>

theorem unprivileged_change_nothing:
  assumes "\<And>F V now key u q. (F, V, now, key, u, q) \<in> set reqs \<Longrightarrow> \<not> has_permission (user_key u) (needed q) s"
  shows "fold (\<lambda>(F, V, now, key, u, q) s. snd (serve F V now key u q s)) reqs s = s"
proof -
  have "fold (\<lambda>x s. snd ((case x of (F, V, now, key, u, q) \<Rightarrow> serve F V now key u q) s)) reqs s = s"
    by (rule permission_guard.powerless_run [where who = "\<lambda>(F, V, now, key, u, q). (F, user_key u)"
          and needs = "\<lambda>(F, V, now, key, u, q). needed q"])
      (auto dest: assms intro: serve_guarded)
  then show ?thesis by (simp add: case_prod_unfold)
qed

section \<open>Checks against the authority\<close>

definition may :: "str \<Rightarrow> str \<Rightarrow> 'x rbac_world_scheme \<Rightarrow> bool" where
  "may uid p s \<longleftrightarrow> (\<exists>a n. actor_of_user_row (normalize_user_id uid) s = Some a \<and>
     (a, n) \<in> held_roles s \<and> (n, p) \<in> granted s)"

lemma count_where_pos: "0 < count_where P rs \<longleftrightarrow> (\<exists>r\<in>set rs. P r)"
  by (induction rs) (auto simp: count_where_def)

lemma has_permission_iff:
  assumes ok: "rbac_ok s"
  shows "has_permission uid p s \<longleftrightarrow> may uid p s"
proof
  assume "has_permission uid p s"
  then obtain g l x where g: "g \<in> set (role_permissions s)" "l \<in> set (user_roles s)" "rp_role g = ur_role l"
    "Some (ur_actor l) = actor_of_user_row (normalize_user_id uid) s" "x \<in> set (permissions s)"
    "permission_name x = p" "rp_permission g = permission_key x"
    by (auto simp: has_permission_def permission_count_def count_where_pos assignments_of_def)
  then obtain q where q: "q \<in> set (roles s)" "ur_role l = role_key q" using rbac_links(1) [OF ok] by blast
  have "(ur_actor l, role_name q) \<in> held_roles s" using g q by (auto simp: held_roles_def)
  moreover have "(role_name q, p) \<in> granted s" using g q by (auto simp: granted_def)
  ultimately show "may uid p s" using g(4) unfolding may_def by metis
next
  assume "may uid p s"
  then obtain a n where m: "actor_of_user_row (normalize_user_id uid) s = Some a"
    "(a, n) \<in> held_roles s" "(n, p) \<in> granted s" by (auto simp: may_def)
  then obtain l r where l: "l \<in> set (user_roles s)" "ur_actor l = a" "r \<in> set (roles s)" "ur_role l = role_key r"
    "role_name r = n" by (auto simp: held_roles_def)
  obtain g q x where g: "g \<in> set (role_permissions s)" "q \<in> set (roles s)" "x \<in> set (permissions s)"
    "rp_role g = role_key q" "rp_permission g = permission_key x" "role_name q = n" "permission_name x = p"
    using m(3) by (auto simp: granted_def)
  have "q = r" using role_unique(2) [OF ok g(2) l(3)] g(6) l(5) by simp
  then show "has_permission uid p s"
    using m(1) l g by (auto simp: has_permission_def permission_count_def count_where_pos assignments_of_def intro!: bexI [of _ g] image_eqI [of _ _ l])
qed

lemma distinct_remdups_adj: "sorted (xs :: str list) \<Longrightarrow> distinct (remdups_adj xs)"
  by (induction xs rule: remdups_adj.induct) auto

lemma strict_names: "sorted (remdups_adj (sort (xs :: str list))) \<and> distinct (remdups_adj (sort xs)) \<and>
    set (remdups_adj (sort xs)) = set xs"
  by (simp add: sorted_remdups_adj distinct_remdups_adj)

lemma listed_iff:
  assumes ok: "rbac_ok s"
  shows "p \<in> set (permission_names_of_user (normalize_user_id uid) s) \<longleftrightarrow> may uid p s"
proof -
  have "p \<in> set (permission_names_of_user (normalize_user_id uid) s) \<longleftrightarrow> has_permission uid p s"
    by (auto simp: permission_names_of_user_def has_permission_def permission_count_def count_where_pos image_iff Let_def) metis+
  then show ?thesis using has_permission_iff [OF ok] by simp
qed

text \<open>
  The permission check is exact.  On tables with intact references the guard's counting query
  answers yes exactly when some role of the user grants a permission of that name; and the list of a
  user's permissions, sorted and without repetitions, has exactly the names for which the check says yes.
\<close>

theorem permission_check_exact:
  assumes "rbac_ok s"
  shows "check_user_permission no_faults uid p s = (Inr (may uid p s), s) \<and>
    (\<exists>ps. get_user_permissions no_faults uid s = (Inr ps, s) \<and> sorted ps \<and> distinct ps \<and>
      set ps = {p. may uid p s})"
proof
  show "check_user_permission no_faults uid p s = (Inr (may uid p s), s)"
    using has_permission_iff [OF assms, of uid p] by (simp add: check_user_permission_def has_permission_def bind_def)
  let ?names = "filter (\<lambda>n. n \<noteq> []) (permission_names_of_user (normalize_user_id uid) s)"
  have "p \<noteq> []" if "may uid p s" for p
  proof -
    from that obtain x where "x \<in> set (permissions s)" "permission_name x = p" by (auto simp: may_def granted_def)
    then show ?thesis using assms by (auto simp: rbac_ok_def valid_rbac_name_def)
  qed
  then have "set ?names = {p. may uid p s}"
    using listed_iff [OF assms, of _ uid] by auto
  then show "\<exists>ps. get_user_permissions no_faults uid s = (Inr ps, s) \<and> sorted ps \<and> distinct ps \<and>
      set ps = {p. may uid p s}"
    using strict_names [of ?names]
    by (intro exI [of _ "remdups_adj (sort ?names)"])
      (simp add: get_user_permissions_def as_db_error_def op_eval)
qed

section \<open>System roles stand\<close>

text \<open>A run: requests for the role administration, and anything that leaves its four tables alone.\<close>

definition same_rbac :: "'x rbac_world_scheme \<Rightarrow> 'x rbac_world_scheme \<Rightarrow> bool" where
  "same_rbac s t \<longleftrightarrow> roles t = roles s \<and> permissions t = permissions s \<and> user_roles t = user_roles s \<and>
     role_permissions t = role_permissions s"

inductive rbac_run :: "'x rbac_world_scheme \<Rightarrow> 'x rbac_world_scheme \<Rightarrow> bool" for s where
  rbac_start: "rbac_run s s"
| rbac_serve: "rbac_run s t \<Longrightarrow> serve F V now key u q t = (r, v) \<Longrightarrow> rbac_run s v"
| rbac_elsewhere: "rbac_run s t \<Longrightarrow> same_rbac t v \<Longrightarrow> rbac_run s v"

lemma keeps_system:
  assumes ok: "rbac_ok s" and q: "q \<in> set (roles s)" "\<not> role_is_system q" and r: "r \<in> set (roles s)" "role_is_system r"
  shows "role_key r \<noteq> role_key q"
  using role_unique(1) [OF ok r(1) q(1)] q r by auto

lemma update_where_other: "r \<in> set rs \<Longrightarrow> \<not> P r \<Longrightarrow> r \<in> set (update_where P f rs)"
  by (induction rs) auto

lemma serve_keeps_system:
  assumes ok: "rbac_ok s" and r: "r \<in> set (roles s)" "role_is_system r" and run: "serve F V now key u q s = (x, t)"
  shows "r \<in> set (roles t)"
  using run
proof (cases rule: serve_cases)
  case (1 e)
  then show ?thesis using r by simp
next
  case 2
  note run = 2(2)
  show ?thesis
  proof (cases q)
    case (NewRole req)
    then show ?thesis using run r by (auto dest!: void_cases create_role_effect)
  next
    case (ChangeRole n req)
    then obtain y where y: "update_role F now n req s = (y, t)" using run by (auto dest: void_cases)
    show ?thesis
    proof (cases "t = s")
      case False
      then obtain q' f where "role_by_name n s = Some q'" "\<not> role_is_system q'"
        "t = roles_update (update_where (\<lambda>x. role_key x = role_key q') f) s"
        using update_role_effect [OF y] by blast
      then show ?thesis
        using keeps_system [OF ok _ _ r, of q'] found_role [of n s q'] r by (simp add: update_where_other)
    qed (use r in simp)
  next
    case (DropRole n)
    show ?thesis
    proof (cases "t = s")
      case False
      then obtain q' where "role_by_name n s = Some q'" "\<not> role_is_system q'"
        "t = role_permissions_update (delete_where (\<lambda>l. rp_role l = role_key q')) s \<or>
         t = roles_update (delete_where (\<lambda>x. role_key x = role_key q'))
          (role_permissions_update (delete_where (\<lambda>l. rp_role l = role_key q')) s)"
        using delete_role_effect [of F n s x t] run DropRole unfolding Let_def by auto
      then show ?thesis
        using keeps_system [OF ok _ _ r, of q'] found_role [of n s q'] r by auto
    qed (use r in simp)
  next
    case (NewPermission req)
    then show ?thesis using run r by (auto dest!: void_cases create_permission_effect)
  next
    case (Grant n p)
    then show ?thesis using run r by (auto dest!: assign_permission_effect)
  next
    case (Withdraw n p)
    then show ?thesis using run r by (auto dest!: remove_permission_effect)
  next
    case (Assign v n)
    then have "\<exists>e. x = Inl e \<and> t = s \<or> (\<exists>a. assign_role F V now key (normalize_user_id v) n a s = (x, t))"
      using run by (cases x) (auto simp: assign_role_to_user_def actor_ref_of_user_def op_success op_failure)
    then show ?thesis using r by (auto dest!: assign_role_effect)
  next
    case (Unassign v n)
    then show ?thesis using run r by (auto dest!: remove_role_effect)
  qed
qed

text \<open>
  In every state the role administration reaches from tables with intact references, the references
  are intact, names are unique and well formed, and every system role is still there, unchanged.
\<close>

theorem system_roles_stand:
  assumes "rbac_run s t" "rbac_ok s"
  shows "rbac_ok t \<and> {r \<in> set (roles s). role_is_system r} \<subseteq> set (roles t)"
  using assms
proof (induction rule: rbac_run.induct)
  case (rbac_serve t F V now key u q r v)
  then have ok: "rbac_ok t" and keep: "{r \<in> set (roles s). role_is_system r} \<subseteq> set (roles t)" by auto
  have "rbac_ok v" using serve_refines [OF ok rbac_serve(2)] unfolding refines_def by blast
  moreover have "r \<in> set (roles v)" if "r \<in> set (roles s)" "role_is_system r" for r
    using serve_keeps_system [OF ok _ _ rbac_serve(2)] keep that by blast
  ultimately show ?case by blast
next
  case (rbac_elsewhere t v)
  then show ?case unfolding same_rbac_def rbac_ok_def by simp
qed blast

section \<open>A concrete administration\<close>

definition demo_admin :: role where
  "demo_admin = \<lparr>role_key = lit ''admin'', role_name = lit ''admin'', role_display_name = lit ''Admin'',
     role_description = None, role_is_system = True, role_created_at = 0, role_updated_at = 0\<rparr>"

definition demo_permission :: permission where
  "demo_permission = \<lparr>permission_key = lit ''p1'', permission_name = roles_write, permission_display_name = [],
     permission_description = None, permission_resource = lit ''roles'', permission_action = lit ''write'',
     permission_is_system = True, permission_created_at = 0, permission_updated_at = 0\<rparr>"

definition rbac_demo :: rbac_world where
  "rbac_demo = store.extend (empty_store\<lparr>users := [sample_user]\<rparr>)
     \<lparr>roles = [demo_admin], permissions = [demo_permission],
      user_roles = [\<lparr>ur_key = lit ''l1'', ur_actor = lit ''a1'', ur_role = lit ''admin'', ur_assigned_at = 0,
        ur_assigned_by = lit ''system''\<rparr>],
      role_permissions = [\<lparr>rp_key = lit ''g1'', rp_role = lit ''admin'', rp_permission = lit ''p1'', rp_granted_at = 0,
        rp_granted_by = lit ''system''\<rparr>]\<rparr>"

abbreviation rbac_report :: conflict_report where
  "rbac_report \<equiv> \<lambda>n. DatabaseError (lit n)"

lemma demo_names: "valid_rbac_name (lit ''admin'')" "valid_rbac_name roles_write"
  by (simp_all add: valid_rbac_name_def roles_write_def auth_local_def lit_def rbac_name_char_def char_classes)

lemma demo_tables [simp]:
  "users rbac_demo = [sample_user]" "roles rbac_demo = [demo_admin]" "permissions rbac_demo = [demo_permission]"
  "map ur_role (user_roles rbac_demo) = [lit ''admin'']" "map ur_actor (user_roles rbac_demo) = [lit ''a1'']"
  by (simp_all add: rbac_demo_def empty_store_def store.defs)

lemma rbac_demo_ok: "rbac_ok rbac_demo"
  using demo_names by (simp add: rbac_ok_def rbac_demo_def empty_store_def store.defs unique_ok_def role_indexes_def
      permission_indexes_def user_role_indexes_def role_permission_indexes_def demo_admin_def demo_permission_def)

lemma demo_key: "normalize_user_id (lit ''u1'') = lit ''u1''" "normalize_user_id (lit ''u2'') = lit ''u2''"
  by (rule normalize_user_id_fixed, simp add: bare_key_eval lit_def delim_def delimiters_def is_whitespace_def)+

lemma demo_actor: "actor_of_user_row (lit ''u1'') rbac_demo = Some (lit ''a1'')"
    "actor_of_user_row (lit ''u2'') rbac_demo = None"
  by (simp_all add: actor_of_user_row_def demo_key) (simp_all add: sample_user_def)

lemma demo_authority: "held_roles rbac_demo = {(lit ''a1'', lit ''admin'')}" "granted rbac_demo = {(lit ''admin'', roles_write)}"
  by (auto simp: held_roles_def granted_def rbac_demo_def empty_store_def store.defs demo_admin_def demo_permission_def)

lemma demo_may: "may (lit ''u1'') roles_write rbac_demo" "\<not> may (lit ''u2'') p rbac_demo"
  by (simp_all add: may_def demo_key demo_actor demo_authority)

theorem permission_check_exact_witness:
  "check_user_permission no_faults (lit ''u1'') roles_write rbac_demo = (Inr True, rbac_demo)"
  using permission_check_exact [OF rbac_demo_ok, of "lit ''u1''" roles_write] demo_may by simp

theorem unprivileged_change_nothing_witness:
  "snd (serve no_faults rbac_report 5 (lit ''l2'') (sample_user\<lparr>user_key := lit ''u2''\<rparr>) (Assign (lit ''u2'') (lit ''admin''))
    rbac_demo) = rbac_demo"
  using unprivileged_change_nothing [of "[(no_faults, rbac_report, 5, lit ''l2'', sample_user\<lparr>user_key := lit ''u2''\<rparr>,
      Assign (lit ''u2'') (lit ''admin''))]" rbac_demo] has_permission_iff [OF rbac_demo_ok] demo_may(2)
  by simp

abbreviation demo_unassign :: "(unit, unit) rbac_op" where
  "demo_unassign \<equiv> serve no_faults rbac_report 5 (lit ''l2'') sample_user (Unassign (lit ''u1'') (lit ''admin''))"

lemma demo_unassigned: "\<exists>t. demo_unassign rbac_demo = (Inr (), t)"
proof -
  have "user_key sample_user = lit ''u1''" by (simp add: sample_user_def)
  moreover have "role_name demo_admin = lit ''admin''" by (simp add: demo_admin_def)
  moreover have "require_permission no_faults (lit ''u1'') roles_write rbac_demo = (Inr (), rbac_demo)"
    using permission_check_exact_witness by (simp add: require_permission_def catch_def require_def)
  ultimately show ?thesis
    by (simp add: remove_role_route_def remove_role_from_user_def get_role_by_name_def role_by_name_def as_db_error_def
        actor_ref_of_user_def demo_key demo_actor op_eval)
qed

theorem rbac_requests_refine_witness: "\<exists>t. demo_unassign rbac_demo = (Inr (), t) \<and> held_roles t = {}"
proof -
  obtain t where run: "demo_unassign rbac_demo = (Inr (), t)" using demo_unassigned by blast
  have "target (Unassign (lit ''u1'') (lit ''admin'')) rbac_demo = Some (lit ''a1'')"
    by (simp add: target_def demo_key demo_actor)
  with rbac_requests_refine [OF run rbac_demo_ok] run show ?thesis by (simp add: demo_authority)
qed

theorem system_roles_stand_witness: "rbac_ok (snd (demo_unassign rbac_demo)) \<and> demo_admin \<in> set (roles (snd (demo_unassign rbac_demo)))"
proof -
  obtain t where run: "demo_unassign rbac_demo = (Inr (), t)" using demo_unassigned by blast
  have "role_is_system demo_admin" by (simp add: demo_admin_def)
  then have "demo_admin \<in> {r \<in> set (roles rbac_demo). role_is_system r}" by simp
  then have "rbac_ok t \<and> demo_admin \<in> set (roles t)"
    using system_roles_stand [OF rbac_serve [OF rbac_start run] rbac_demo_ok] by blast
  then show ?thesis unfolding run by simp
qed

end
