(* ===== verification/Oidc_Web.thy ===== *)
theory Oidc_Web
  imports Oidc_Routes Oidc_Registry
begin

text \<open>
  What the endpoints of the provider promise: a code is issued only for an admitted request of an
  authenticated browser or bearer, a logout redirects only to registered addresses; and two flows that
  do not do what they are for.
\<close>

section \<open>Who is behind a request\<close>

definition bearer_grounds :: "jwt_env \<Rightarrow> int \<Rightarrow> str option \<Rightarrow> str \<Rightarrow> str \<Rightarrow> 'x store_scheme \<Rightarrow> bool" where
  "bearer_grounds J now header uid sid s \<longleftrightarrow>
    (\<exists>sent c a u. Option.bind header strip_bearer_scheme = Some sent \<and>
      decode_token_claims J now (trim sent) = Inr c \<and> claims_session c = Some sid \<and>
      session_active (hash_bearer (hashing J) (trim sent)) now s \<and>
      actor_row (claims_sub c) s = Some a \<and> admitted a s \<and>
      u \<in> set (users s) \<and> subject_id u = Some (actor_key a) \<and> user_status u = lit ''Active'' \<and> user_key u = uid)"

definition cookie_grounds :: "web_env \<Rightarrow> config \<Rightarrow> int \<Rightarrow> str list \<Rightarrow> int option \<Rightarrow> str \<Rightarrow> str \<Rightarrow> 'x store_scheme \<Rightarrow> bool" where
  "cookie_grounds W cfg now cookies max_age uid sid s \<longleftrightarrow>
    (\<exists>sent b. cookie_value W cookies soulauth_session_cookie = Some sent \<and>
      decode_browser_session_token W now sent (cfg_jwt_secret cfg) = Inr b \<and> bs_session_key b = sid \<and>
      (\<forall>m. max_age = Some m \<longrightarrow> now - bs_issued_at b \<le> m) \<and>
      (\<exists>r\<in>set (sessions s). session_key r = sid \<and> now < session_expires_at r) \<and>
      (\<exists>u\<in>set (users s). user_key u = uid \<and> uid = normalize_user_id (bs_user b) \<and> user_status u = lit ''Active''))"

lemma bearer_identity_success: "bearer_identity F J now sent s = (Inr (uid, sid), t) \<Longrightarrow>
  (\<exists>c a u. decode_token_claims J now sent = Inr c \<and> claims_session c = sid \<and>
    session_active (hash_bearer (hashing J) sent) now s \<and> actor_row (claims_sub c) s = Some a \<and> admitted a s \<and>
    u \<in> set (users s) \<and> subject_id u = Some (actor_key a) \<and> user_status u = lit ''Active'' \<and> user_key u = uid)"
  by (auto simp: bearer_identity_def decode_and_verify_token_def verify_session_active_def op_success
      dest!: gate_human_admits load_user_success)

lemma pure_ops [preserve]:
  "preserves I (bearer_identity F J now sent)" "preserves I (resolve_existing_user_id F uid)"
  "preserves I (browser_session_is_active F now key)"
  unfolding bearer_identity_def resolve_existing_user_id_def browser_session_is_active_def
    decode_and_verify_token_def verify_session_active_def load_user_from_actor_def
  by (intro preserve)+

lemma pure_load_client [preserve]: "preserves I (load_client F cid)"
  unfolding load_client_def by (intro preserve)

lemma pure_principals [preserve]:
  "preserves I (bearer_principal F J now header)" "preserves I (cookie_principal F W cfg now cookies m)"
  unfolding bearer_principal_def cookie_principal_def
  by (auto intro!: preserve split: option.split sum.split)

lemma pure_principal [preserve]: "preserves I (authorize_principal F J W cfg now call r)"
  unfolding authorize_principal_def by (auto intro!: preserve split: option.split)

lemma pure_result: "(\<And>I. preserves I m) \<Longrightarrow> m s = (r, t) \<Longrightarrow> t = s"
  using preserves_step [of "\<lambda>x. x = s" m s r t] by simp

lemma bearer_principal_found: "bearer_principal F J now header s = (Inr (Some (uid, sid)), t) \<Longrightarrow>
  bearer_grounds J now header uid sid s"
  unfolding bearer_principal_def bearer_grounds_def
  by (auto simp: op_success split: option.splits prod.splits dest!: bearer_identity_success)

lemma cookie_principal_found: "cookie_principal F W cfg now cookies m s = (Inr (Some (uid, sid)), t) \<Longrightarrow>
  cookie_grounds W cfg now cookies m uid sid s"
  unfolding cookie_principal_def cookie_grounds_def browser_session_is_active_def resolve_existing_user_id_def
  by (auto simp: op_success count_where_def filter_empty_conv split: option.splits sum.splits if_splits dest!: find_Some_in)

lemma principal_found:
  assumes "authorize_principal F J W cfg now call r s = (Inr (Some (uid, sid)), t)"
  shows "\<not> prompts ''login'' r \<and> (bearer_grounds J now (call_authorization call) uid sid s \<or>
    cookie_grounds W cfg now (call_cookies call) (ar_max_age r) uid sid s)"
proof -
  have no: "\<not> prompts ''login'' r" using assms by (auto simp: authorize_principal_def)
  then obtain p u where p: "bearer_principal F J now (call_authorization call) s = (Inr p, u)"
    and rest: "(case p of Some q \<Rightarrow> ret (Some q) | None \<Rightarrow> cookie_principal F W cfg now (call_cookies call) (ar_max_age r)) u =
      (Inr (Some (uid, sid)), t)"
    using assms by (auto simp: authorize_principal_def op_success)
  have "u = s" by (rule pure_result [OF pure_principals(1) p])
  show ?thesis
  proof (cases p)
    case None
    then show ?thesis using no rest \<open>u = s\<close> by (simp add: cookie_principal_found)
  next
    case (Some q)
    then have "q = (uid, sid)" using rest by simp
    then show ?thesis using no p Some bearer_principal_found [of F J now "call_authorization call" s uid sid u] by simp
  qed
qed

section \<open>Codes\<close>

lemma validate_authorize_success: "validate_authorize_request F r s = (Inr u, t) \<Longrightarrow>
  t = s \<and> (\<exists>client\<in>set (clients s). client_id client = ar_client_id r \<and> client_active client \<and>
    ar_redirect_uri r \<in> set (redirect_uris client) \<and>
    (require_pkce client \<longrightarrow> ar_code_challenge r \<noteq> None))"
  by (auto simp: validate_authorize_request_def load_client_def active_client_def op_success dest!: find_Some_in)

lemma pure_validate [preserve]: "preserves I (validate_authorize_request F r)"
  unfolding validate_authorize_request_def by (intro preserve)

lemma create_code_cases:
  assumes "create_authorization_code F V E now code r uid sref s = (res, t)"
  shows "(\<exists>e. res = Inl e) \<and> t = s \<or>
    (\<exists>scope actor. res = Inr code \<and> actor_of_user_row uid s = Some actor \<and>
      codes t = codes s @ [(new_code E now code r sref scope)\<lparr>code_actor := actor\<rparr>])"
proof (cases res)
  case (Inl e)
  then show ?thesis using assms
    by (auto simp: create_authorization_code_def save_authorization_code_def check_authorize_def as_text_def
        context_error_def op_success op_failure get_client_def split: option.splits)
next
  case (Inr x)
  then show ?thesis using assms
    by (auto simp: create_authorization_code_def save_authorization_code_def check_authorize_def op_success
        split: option.splits dest!: get_client_success)
qed

text \<open>
  C25: the authorization endpoint stores a code only when the request names an active client and one of its
  redirect addresses, does not force a new login, and comes with a bearer token whose session is stored
  and whose identity root is admitted, or with a signed cookie whose session row is still valid, no older
  than \<^verbatim>\<open>max_age\<close>, of an active user; the code is bound to that user's identity, to that session, client
  and address, and is handed out in the redirect.
\<close>

theorem authorize_grounds:
  assumes "authorize F V J E W now code call s = (res, t)" "codes t \<noteq> codes s"
  shows "\<exists>r client uid sid c. authorize_request_of (call_params call) = Inr r \<and>
    client \<in> set (clients s) \<and> client_id client = ar_client_id r \<and> client_active client \<and>
    ar_redirect_uri r \<in> set (redirect_uris client) \<and> \<not> prompts ''login'' r \<and>
    (bearer_grounds J now (call_authorization call) uid sid s \<or>
     cookie_grounds W (oidc_config E) now (call_cookies call) (ar_max_age r) uid sid s) \<and>
    codes t = codes s @ [c] \<and> actor_of_user_row uid s = Some (code_actor c) \<and> code_session_ref c = Some sid \<and>
    code_client c = client_id client \<and> code_redirect_uri c = ar_redirect_uri r \<and> \<not> code_used c \<and>
    res = Inr (redirect_to (code_redirect W r code))"
proof -
  obtain r where r: "authorize_request_of (call_params call) = Inr r"
    using assms by (cases "authorize_request_of (call_params call)") (auto simp: authorize_def bind_def lift_result_def)
  obtain u where v: "validate_authorize_request F r s = (Inr (), u)"
  proof (cases "validate_authorize_request F r s")
    case (Pair x v)
    have "v = s" by (rule pure_result [OF pure_validate Pair])
    then show ?thesis using assms Pair r that by (cases x) (auto simp: authorize_def op_defs)
  qed
  note client = validate_authorize_success [OF v]
  obtain x v where p: "authorize_principal F J W (oidc_config E) now call r s = (x, v)" by fastforce
  have [simp]: "u = s" "v = s" using client pure_result [OF pure_principal p] by auto
  have rest: "(case x of Inl e \<Rightarrow> (Inl e, s) | Inr p \<Rightarrow> (case p of
       Some (uid, sid) \<Rightarrow> create_authorize_response F V E W now code r uid sid
     | None \<Rightarrow>
         if prompts ''none'' r
         then ret (redirect_to (create_error_redirect W (ar_redirect_uri r) ''login_required''
           (Some (lit ''No active session for prompt=none'')) (ar_state r)))
         else send_to_login W (oidc_config E) now (call_uri call)) s) = (res, t)"
    using assms(1) r v p by (cases x) (simp_all add: authorize_def bind_def seq_def lift_result_def)
  obtain uid sid where x: "x = Inr (Some (uid, sid))"
  proof (cases x)
    case (Inl e)
    then show ?thesis using rest assms(2) by simp
  next
    case (Inr q)
    have "preserves (\<lambda>w. w = s) (send_to_login W (oidc_config E) now (call_uri call))"
      unfolding send_to_login_def by (auto intro!: preserve simp: Let_def split: sum.split)
    then have "snd (send_to_login W (oidc_config E) now (call_uri call) s) = s" by (simp add: preserves_def)
    then show ?thesis using Inr rest assms(2) that by (cases q) (auto split: if_splits)
  qed
  then have resp: "create_authorize_response F V E W now code r uid sid s = (res, t)" using rest by simp
  obtain y w where y: "create_authorization_code F V E now code r uid sid s = (y, w)" by fastforce
  then have "t = w" using resp by (cases y) (auto simp: create_authorize_response_def catch_def)
  then obtain scope actor where "y = Inr code" "actor_of_user_row uid s = Some actor"
      "codes t = codes s @ [(new_code E now code r sid scope)\<lparr>code_actor := actor\<rparr>]"
    using create_code_cases [OF y] assms(2) by auto
  moreover from this have "res = Inr (redirect_to (code_redirect W r code))"
    using resp y by (simp add: create_authorize_response_def catch_def)
  moreover obtain cl where "cl \<in> set (clients s)" "client_id cl = ar_client_id r" "client_active cl"
      "ar_redirect_uri r \<in> set (redirect_uris cl)" using client by blast
  ultimately show ?thesis using r principal_found [OF p [unfolded x]]
    by (intro exI [of _ r] exI [of _ cl] exI [of _ uid] exI [of _ sid]) (simp add: new_code_def)
qed

section \<open>A forced login\<close>

definition login_redirect :: "web_env \<Rightarrow> config \<Rightarrow> str \<Rightarrow> http_redirect \<Rightarrow> bool" where
  "login_redirect W cfg token a \<longleftrightarrow>
    location a = login_page_url cfg @ separator (login_page_url cfg) @ lit ''return_to='' @ url_encode W token"

lemma send_to_login_success: "send_to_login W cfg now uri s = (Inr a, t) \<Longrightarrow>
  t = s \<and> (\<exists>token. create_oidc_return_token W now uri (cfg_jwt_secret cfg) = Inr token \<and> login_redirect W cfg token a)"
proof (cases "create_oidc_return_token W now uri (cfg_jwt_secret cfg)")
  case (Inr token)
  then show "send_to_login W cfg now uri s = (Inr a, t) \<Longrightarrow> ?thesis"
    by (cases "header_value W (build_cookie W oidc_return_cookie token oauth_state_ttl_seconds (cookies_secure cfg))")
      (auto simp: send_to_login_def login_redirect_def Let_def op_eval)
qed (simp add: send_to_login_def op_eval)

lemma pure_send_to_login [preserve]: "preserves I (send_to_login W cfg now uri)"
  unfolding send_to_login_def by (auto intro!: preserve simp: Let_def split: sum.split)

lemma bind_value: "bind (ret x) f = f x" "bind (lift_result (Inr x)) f = f x"
  by (rule ext, simp add: bind_def lift_result_def)+

text \<open>
  a request with \<^verbatim>\<open>prompt=login\<close> never gets a code, whoever sends it and however often it comes back
  from the login page: the login page gets a token for the very same request, and that request is sent
  to the login page again, even with a session that was opened a moment ago.
\<close>

theorem prompt_login_never_ends:
  assumes "authorize_request_of (call_params call) = Inr r" "prompts ''login'' r"
    and "authorize F V J E W now code call s = (res, t)"
  shows "t = s \<and> (\<forall>a. res = Inr a \<longrightarrow>
    prompts ''none'' r \<and> a = redirect_to (create_error_redirect W (ar_redirect_uri r) ''login_required''
      (Some (lit ''No active session for prompt=none'')) (ar_state r)) \<or>
    (\<exists>token. create_oidc_return_token W now (call_uri call) (cfg_jwt_secret (oidc_config E)) = Inr token \<and>
      login_redirect W (oidc_config E) token a))"
proof -
  let ?m = "seq (validate_authorize_request F r)
    (if prompts ''none'' r
         then ret (redirect_to (create_error_redirect W (ar_redirect_uri r) ''login_required''
           (Some (lit ''No active session for prompt=none'')) (ar_state r)))
         else send_to_login W (oidc_config E) now (call_uri call))"
  have run: "?m s = (res, t)"
    using assms by (simp add: authorize_def authorize_principal_def bind_value)
  have "t = s" by (rule pure_result [of ?m, OF _ run]) (auto intro!: preserve)
  moreover have "prompts ''none'' r \<and> a = redirect_to (create_error_redirect W (ar_redirect_uri r) ''login_required''
      (Some (lit ''No active session for prompt=none'')) (ar_state r)) \<or>
    (\<exists>token. create_oidc_return_token W now (call_uri call) (cfg_jwt_secret (oidc_config E)) = Inr token \<and>
      login_redirect W (oidc_config E) token a)" if "res = Inr a" for a
    using run that by (auto simp: op_success split: if_splits dest: send_to_login_success)
  ultimately show ?thesis by blast
qed

section \<open>Logout\<close>

lemma revoke_for_logout_clients: "revoke_for_logout F cid uid s = (r, t) \<Longrightarrow> clients t = clients s \<and> (\<exists>f. r = Inr f)"
proof -
  assume run: "revoke_for_logout F cid uid s = (r, t)"
  have kept: "preserves (\<lambda>w. clients w = clients s) (revoke_for_logout F cid uid)"
    unfolding revoke_for_logout_def revoke_client_tokens_for_user_def delete_sessions_by_user_id_def
    by (intro preserve preserves_db_write) simp_all
  have "clients t = clients s" using preserves_step [OF kept run] by simp
  moreover have "\<exists>f. r = Inr f" using run
    by (auto simp: revoke_for_logout_def bind_def catch_def split: prod.splits sum.splits)
  ultimately show ?thesis by blast
qed

lemma post_logout_success:
  assumes "post_logout_target F W cfg requested state hint s = (Inr url, t)"
  shows "t = s \<and> (url = cfg_app_url cfg \<or>
    (\<exists>uid cid client base. hint = Some (uid, cid) \<and> requested = Some base \<and> client \<in> set (clients s) \<and>
      active_client cid client \<and> base \<in> set (post_logout_redirect_uris client) \<and>
      url = base @ (case state of None \<Rightarrow> [] | Some v \<Rightarrow> separator base @ lit ''state='' @ url_encode W v)))"
proof (cases "requested = None \<or> hint = None")
  case True
  then show ?thesis using assms by (auto simp: post_logout_target_def split: option.splits prod.splits)
next
  case False
  then obtain base uid cid where h: "requested = Some base" "hint = Some (uid, cid)" by auto
  obtain x u where l: "load_client F cid s = (x, u)" by fastforce
  have "u = s" by (rule pure_result [OF pure_load_client l])
  moreover have "client \<in> set (clients s) \<and> active_client cid client" if "x = Inr client" for client
    using l that by (auto simp: load_client_def op_success dest!: find_Some_in)
  ultimately show ?thesis using assms h l
    by (cases x) (auto simp: post_logout_target_def catch_def split: if_splits)
qed

lemma pure_post_logout [preserve]: "preserves I (post_logout_target F W cfg requested state hint)"
  unfolding post_logout_target_def by (auto intro!: preserve split: option.split)

text \<open>
  a logout redirects to the application, or to an address that the active client named by a verified
  ID token registered for this purpose and that the registry admitted, with at most a state appended; it
  leaves the registry alone.
\<close>

theorem logout_lands_registered:
  assumes "registry_ok s" "logout_route F E W p s = (Inr a, t)"
  shows "registry_ok t \<and> (location (answer_redirect a) = cfg_app_url (oidc_config E) \<or>
    (\<exists>hint cl client url. p (lit ''id_token_hint'') = Some hint \<and> read_id_token E hint = Some cl \<and>
      client \<in> set (clients s) \<and> client_id client = idt_aud cl \<and> client_active client \<and>
      p (lit ''post_logout_redirect_uri'') = Some url \<and> url \<in> set (post_logout_redirect_uris client) \<and> redirect_ok url \<and>
      location (answer_redirect a) = url @ (case p (lit ''state'') of None \<Rightarrow> []
        | Some v \<Rightarrow> separator url @ lit ''state='' @ url_encode W v)))"
proof -
  let ?hint = "Option.bind (p (lit ''id_token_hint'')) (verify_id_token_hint E)"
  obtain failed u where revoke: "(case ?hint of None \<Rightarrow> ret None | Some (uid, cid) \<Rightarrow> revoke_for_logout F cid uid) s = (Inr failed, u)"
    and target: "post_logout_target F W (oidc_config E) (p (lit ''post_logout_redirect_uri'')) (p (lit ''state'')) ?hint u =
      (Inr (location (answer_redirect a)), t)"
    using assms(2)
    by (cases "header_value W (build_expired_cookie W soulauth_session_cookie (cookies_secure (oidc_config E)))")
      (auto simp: logout_route_def Let_def op_success)
  have clients: "clients u = clients s"
    using revoke revoke_for_logout_clients by (auto split: option.splits)
  note landed = post_logout_success [OF target]
  have "registry_ok t" using assms(1) landed clients by (simp add: registry_ok_def)
  moreover have "redirect_ok url" if "client \<in> set (clients s)" "url \<in> set (post_logout_redirect_uris client)" for client url
    using assms(1) that by (auto simp: registry_ok_def client_ok_def)
  ultimately show ?thesis using landed clients
    by (fastforce simp: verify_id_token_hint_def active_client_def bind_eq_Some_conv)
qed

text \<open>
  The references of a store are apart: subject keys are drawn as UUIDs of a namespace of their own, so
  none is the key of a user or of an actor, and tokens and sessions belong to actors.
\<close>

definition references_apart :: "oidc_world \<Rightarrow> bool" where
  "references_apart s \<longleftrightarrow>
    (\<forall>a\<in>set (actors s). bare_key (lit ''user:'') (subject_key a) \<and> bare_key (lit ''actor_identity:'') (subject_key a) \<and>
      subject_key a \<notin> user_key ` set (users s) \<and> subject_key a \<notin> actor_key ` set (actors s)) \<and>
    access_actor ` set (access_tokens s) \<subseteq> actor_key ` set (actors s) \<and>
    refresh_actor ` set (refresh_tokens s) \<subseteq> actor_key ` set (actors s)"

lemma delete_where_id: "(\<And>r. r \<in> set rs \<Longrightarrow> \<not> P r) \<Longrightarrow> delete_where P rs = rs"
  by (induction rs) auto

lemma same_tables:
  fixes s :: oidc_world
  shows "f (access_tokens s) = access_tokens s \<Longrightarrow> access_tokens_update f s = s"
    "g (refresh_tokens s) = refresh_tokens s \<Longrightarrow> refresh_tokens_update g s = s"
    "h (sessions s) = sessions s \<Longrightarrow> sessions_update h s = s"
  by (cases s; simp)+

lemma subject_owns_nothing:
  assumes "references_apart s" "a \<in> set (actors s)"
  shows "owner \<in> actor_key ` set (actors s) \<Longrightarrow> \<not> owned_by (subject_key a) s owner"
    "actor_of_user_row (subject_key a) s = None"
proof -
  let ?k = "subject_key a"
  have k: "normalize_user_id ?k = ?k" "normalize_actor_id ?k = ?k"
    using assms(1,2) by (auto simp: references_apart_def normalize_user_id_fixed normalize_actor_id_fixed)
  have "?k \<notin> user_key ` set (users s)" using assms by (simp add: references_apart_def)
  then have "find (\<lambda>u. user_key u = ?k) (users s) = None" by (force simp: find_None_all)
  moreover have "owner \<noteq> ?k" if "owner \<in> actor_key ` set (actors s)"
    using assms that by (metis references_apart_def)
  ultimately show "owner \<in> actor_key ` set (actors s) \<Longrightarrow> \<not> owned_by ?k s owner" "actor_of_user_row ?k s = None"
    using k by (simp_all add: owned_by_def actor_of_user_row_def)
qed

text \<open>
  logging out at the provider with the ID token of a user revokes nothing.  The token names the user
  by the stable subject, the revocations look for the key of an actor or a user: every access token,
  refresh token and session survives, and the answer reports no incomplete revocation.
\<close>

theorem rp_logout_revokes_nothing:
  assumes "references_apart s" and "stable_subject_of_user F u s = (Inr subject, s')"
    and "p (lit ''id_token_hint'') = Some hint" "read_id_token E hint = Some cl" "idt_sub cl = subject"
    and "logout_route no_faults E W p s = (res, t)"
  shows "access_tokens t = access_tokens s \<and> refresh_tokens t = refresh_tokens s \<and> sessions t = sessions s \<and>
    (\<forall>a. res = Inr a \<longrightarrow> incomplete_revocation a = None)"
proof -
  obtain a where a: "a \<in> set (actors s)" "subject = subject_key a"
    using assms(2) identity_gate_success
    by (fastforce simp: stable_subject_of_user_def op_success actor_row_def dest!: find_Some_in)
  note none = subject_owns_nothing [OF assms(1) a(1)]
  have "access_tokens_update (delete_where (\<lambda>r. access_client r = c \<and> owned_by subject s (access_actor r))) s = s" for c
    by (intro same_tables delete_where_id) (use none a(2) assms(1) in \<open>auto simp: references_apart_def\<close>)
  moreover have "refresh_tokens_update (delete_where (\<lambda>r. refresh_client r = c \<and> owned_by subject s (refresh_actor r))) s = s" for c
    by (intro same_tables delete_where_id) (use none a(2) assms(1) in \<open>auto simp: references_apart_def\<close>)
  moreover have "sessions_update (delete_where (\<lambda>r. Some (session_actor r) = actor_of_user_row subject s)) s = s"
    by (intro same_tables delete_where_id) (use none(2) a(2) in simp)
  ultimately have revoke: "revoke_for_logout no_faults c subject s = (Inr None, s)" for c
    by (simp add: revoke_for_logout_def revoke_client_tokens_for_user_def delete_sessions_by_user_id_def as_text_def
        op_eval db_defs)
  let ?m = "bind (post_logout_target no_faults W (oidc_config E) (p (lit ''post_logout_redirect_uri''))
      (p (lit ''state'')) (Some (subject, idt_aud cl))) (\<lambda>url.
     (case header_value W (build_expired_cookie W soulauth_session_cookie (cookies_secure (oidc_config E))) of
        Inl e \<Rightarrow> throw (BadRequest (lit ''Invalid session cookie: '' @ e))
      | Inr v \<Rightarrow> ret \<lparr>answer_redirect = \<lparr>location = url, set_cookie = Some v\<rparr>,
                   incomplete_revocation = None\<rparr>))"
  have run: "?m s = (res, t)"
    using assms(3-6) revoke by (simp add: logout_route_def verify_id_token_hint_def Let_def bind_def)
  have "t = s" by (rule pure_result [of ?m, OF _ run]) (auto intro!: preserve split: sum.split)
  moreover have "incomplete_revocation b = None" if "res = Inr b" for b
    using run that
    by (cases "header_value W (build_expired_cookie W soulauth_session_cookie (cookies_secure (oidc_config E)))")
      (auto simp: op_success)
  ultimately show ?thesis by blast
qed

section \<open>A browser\<close>

definition demo_web :: web_env where
  "demo_web = \<lparr>url_encode = id, url_decode = Some, header_value = Inr, sign_browser = (\<lambda>_ _. Inr (lit ''signed'')),
     read_browser = (\<lambda>_ _ t. if t = lit ''c'' then Some (BrowserClaims (lit ''u1'') (lit ''k'') 100 0) else None)\<rparr>"

definition demo_session :: session where
  "demo_session = \<lparr>session_key = lit ''k'', session_actor = lit ''a1'', session_token_hash = lit ''h'',
     session_expires_at = 100, session_created_at = 0, session_user_agent = [], session_ip = [],
     session_credential_kind = None, session_credential_ref = None, session_credential_label = None,
     session_authenticated_at = Some 0, session_methods = None, session_credential_refs = None\<rparr>"

definition demo_params :: "str option \<Rightarrow> str \<Rightarrow> str option" where
  "demo_params prompt = map_of
    ([(lit ''response_type'', lit ''code''), (lit ''client_id'', lit ''app''), (lit ''redirect_uri'', lit ''https://app/cb''),
      (lit ''code_challenge'', lit ''c''), (lit ''code_challenge_method'', lit ''S256'')] @
     (case prompt of None \<Rightarrow> [] | Some q \<Rightarrow> [(lit ''prompt'', q)]))"

definition demo_call :: "str option \<Rightarrow> authorize_call" where
  "demo_call prompt = \<lparr>call_params = demo_params prompt, call_uri = lit ''/api/oidc/authorize?x'', call_authorization = None,
     call_cookies = [lit ''soulauth_session=c'']\<rparr>"

definition browser_demo :: oidc_world where
  "browser_demo = public_demo\<lparr>sessions := [demo_session]\<rparr>"

lemma demo_browser_request: "authorize_request_of (demo_params q) = Inr (demo_authorize\<lparr>ar_prompt := q\<rparr>)"
  by (cases q) (simp_all add: authorize_request_of_def demo_params_def demo_authorize_def)

lemma demo_words: "split_whitespace (lit ''code'') = [lit ''code'']" "split_whitespace (lit ''login'') = [lit ''login'']"
  by (simp_all add: split_whitespace_def lit_def is_whitespace_def)

lemma demo_validated: "validate_authorize_request no_faults (demo_authorize\<lparr>ar_prompt := q\<rparr>) browser_demo = (Inr (), browser_demo)"
proof -
  let ?c = "demo_client\<lparr>client_type := Public, require_pkce := True\<rparr>"
  have "clients browser_demo = [?c]" by (simp add: browser_demo_def public_demo_def)
  moreover have "active_client (lit ''app'') ?c" by (simp add: active_client_def demo_client_def)
  ultimately have "load_client no_faults (lit ''app'') browser_demo = (Inr ?c, browser_demo)"
    by (simp add: load_client_def op_eval db_defs)
  then show ?thesis
    by (simp add: validate_authorize_request_def op_eval demo_authorize_def parse_requested_types_def demo_words)
      (simp add: demo_client_def)
qed

lemma demo_cookie: "cookie_value demo_web [lit ''soulauth_session=c''] soulauth_session_cookie = Some (lit ''c'')"
  by (simp add: cookie_value_def soulauth_session_cookie_def demo_web_def text_eval)

lemma demo_cookie_principal:
  "cookie_principal no_faults demo_web cfg 5 [lit ''soulauth_session=c''] None browser_demo =
    (Inr (Some (lit ''u1'', lit ''k'')), browser_demo)"
proof -
  have b: "decode_browser_session_token demo_web 5 (lit ''c'') x = Inr \<lparr>bs_user = lit ''u1'', bs_session_key = lit ''k'', bs_issued_at = 0\<rparr>" for x
    by (simp add: decode_browser_session_token_def demo_web_def) (simp add: text_eval)
  have "users browser_demo = [sample_user]" "sessions browser_demo = [demo_session]"
    by (simp_all add: browser_demo_def public_demo_def)
  moreover have "user_key sample_user = lit ''u1''" "user_status sample_user = lit ''Active''" by (simp_all add: sample_user_def)
  moreover have "session_key demo_session = lit ''k''" "session_expires_at demo_session = 100" by (simp_all add: demo_session_def)
  ultimately show ?thesis
    by (simp add: cookie_principal_def demo_cookie b browser_session_is_active_def resolve_existing_user_id_def op_eval
        db_defs count_where_def demo_key ensure_usable_active)
qed

abbreviation demo_jwt :: jwt_env where
  "demo_jwt \<equiv> jwt_env.truncate auth_demo"

lemma demo_code_browser: "\<exists>t. create_authorization_code no_faults demo_report provider_demo 5 (lit ''C'') demo_authorize
    (lit ''u1'') (lit ''k'') browser_demo = (Inr (lit ''C''), t) \<and> codes t \<noteq> codes browser_demo"
proof -
  obtain t where run: "create_authorization_code no_faults demo_report provider_demo 5 (lit ''C'') demo_authorize
    (lit ''u1'') (lit ''k'') browser_demo = (Inr (lit ''C''), t)"
    using demo_code_issued [of browser_demo] by (auto simp: browser_demo_def public_demo_def)
  then show ?thesis using create_code_cases [OF run] by auto
qed

lemma demo_grounds:
  "\<not> bearer_grounds demo_jwt 5 None uid sid browser_demo"
  "cookie_grounds demo_web cfg 5 cookies m uid sid browser_demo \<Longrightarrow> sid = lit ''k''"
  by (auto simp: bearer_grounds_def cookie_grounds_def browser_demo_def demo_session_def)

theorem authorize_grounds_witness:
  "\<exists>t. authorize no_faults demo_report demo_jwt provider_demo demo_web 5 (lit ''C'') (demo_call None) browser_demo =
      (Inr (redirect_to (lit ''https://app/cb?code=C'')), t) \<and>
    (\<exists>c. codes t = codes browser_demo @ [c] \<and> code_session_ref c = Some (lit ''k''))"
proof -
  obtain t where t: "create_authorization_code no_faults demo_report provider_demo 5 (lit ''C'') demo_authorize
    (lit ''u1'') (lit ''k'') browser_demo = (Inr (lit ''C''), t)" "codes t \<noteq> codes browser_demo"
    using demo_code_browser by blast
  have same: "demo_authorize\<lparr>ar_prompt := None\<rparr> = demo_authorize" by (simp add: demo_authorize_def)
  have url: "code_redirect demo_web demo_authorize (lit ''C'') = lit ''https://app/cb?code=C''"
    by (simp add: code_redirect_def demo_authorize_def demo_web_def separator_def) (simp add: lit_def)
  have "bearer_principal no_faults demo_jwt 5 None browser_demo = (Inr None, browser_demo)"
    by (simp add: bearer_principal_def)
  then have "authorize_principal no_faults demo_jwt demo_web demo_config 5 (demo_call None) demo_authorize browser_demo =
      (Inr (Some (lit ''u1'', lit ''k'')), browser_demo)"
    using demo_cookie_principal
    by (simp add: authorize_principal_def prompts_def demo_call_def demo_authorize_def bind_def)
  then have run: "authorize no_faults demo_report demo_jwt provider_demo demo_web 5 (lit ''C'') (demo_call None) browser_demo =
      (Inr (redirect_to (code_redirect demo_web demo_authorize (lit ''C''))), t)"
    using demo_browser_request [of None] demo_validated [of None] t(1)
    by (simp add: authorize_def demo_call_def same bind_value seq_def bind_def create_authorize_response_def catch_def
        provider_demo_def)
  then show ?thesis using authorize_grounds [OF run t(2)] url run by (auto simp: demo_call_def demo_grounds(1) dest: demo_grounds(2))
qed

theorem prompt_login_never_ends_witness:
  "\<exists>a. authorize no_faults demo_report demo_jwt provider_demo demo_web 5 (lit ''C'') (demo_call (Some (lit ''login''))) browser_demo =
    (Inr a, browser_demo) \<and> login_redirect demo_web demo_config (lit ''signed'') a"
proof -
  let ?call = "demo_call (Some (lit ''login''))"
  obtain res t where run: "authorize no_faults demo_report demo_jwt provider_demo demo_web 5 (lit ''C'') ?call browser_demo = (res, t)"
    by fastforce
  have req: "authorize_request_of (call_params ?call) = Inr (demo_authorize\<lparr>ar_prompt := Some (lit ''login'')\<rparr>)"
    using demo_browser_request by (simp add: demo_call_def)
  have prompts: "prompts ''login'' (demo_authorize\<lparr>ar_prompt := Some (lit ''login'')\<rparr>)"
    "\<not> prompts ''none'' (demo_authorize\<lparr>ar_prompt := Some (lit ''login'')\<rparr>)"
    by (simp_all add: prompts_def demo_words)
  have token: "create_oidc_return_token demo_web 5 (call_uri ?call) secret = Inr (lit ''signed'')" for secret
    by (simp add: create_oidc_return_token_def is_valid_oidc_return_target_def starts_with_def demo_call_def demo_web_def
        signed_def strip_prefix_None) (simp add: lit_def)
  have "\<exists>a. res = Inr a"
    using run req demo_validated prompts token
    by (auto simp: authorize_def authorize_principal_def bind_value seq_def send_to_login_def Let_def)
      (auto simp: bind_def demo_web_def)
  then show ?thesis using prompt_login_never_ends [OF req prompts(1) run] run prompts token
    by (auto simp: provider_demo_def)
qed

text \<open>A user with a session and a token logs out with the ID token of the provider.\<close>

definition logout_demo :: oidc_world where
  "logout_demo = oidc_demo\<lparr>sessions := [demo_session],
     clients := [demo_client\<lparr>post_logout_redirect_uris := [lit ''https://app/bye'']\<rparr>],
     access_tokens := [\<lparr>access_hash = lit ''h'', access_client = lit ''app'', access_actor = lit ''a1'', access_scope = [],
       access_expires_at = 100, access_created_at = 0\<rparr>]\<rparr>"

definition demo_id_token :: id_token_claims where
  "demo_id_token = \<lparr>idt_iss = [], idt_sub = lit ''s1'', idt_aud = lit ''app'', idt_exp = 100, idt_iat = 0, idt_auth_time = 0,
     idt_sid = lit ''k'', idt_nonce = None, idt_email = None, idt_email_verified = None, idt_preferred_username = None\<rparr>"

definition logout_provider :: oidc_env where
  "logout_provider = provider_demo\<lparr>read_id_token := (\<lambda>t. if t = lit ''idt'' then Some demo_id_token else None)\<rparr>"

definition logout_params :: "str \<Rightarrow> str option" where
  "logout_params = map_of [(lit ''id_token_hint'', lit ''idt''), (lit ''post_logout_redirect_uri'', lit ''https://app/bye'')]"

lemma logout_demo_tables [simp]:
  "actors logout_demo = actors demo_world" "users logout_demo = [sample_user]" "sessions logout_demo = [demo_session]"
  "accounts logout_demo = accounts demo_world" "refresh_tokens logout_demo = [demo_refresh]"
  "length (access_tokens logout_demo) = 1" "access_actor ` set (access_tokens logout_demo) = {lit ''a1''}"
  by (simp_all add: logout_demo_def)

lemma clients_logout_demo:
  "clients logout_demo = [demo_client\<lparr>post_logout_redirect_uris := [lit ''https://app/bye'']\<rparr>]"
  by (simp add: logout_demo_def)

lemma demo_subject: "stable_subject_of_user no_faults sample_user logout_demo = (Inr (lit ''s1''), logout_demo)"
proof -
  have "user_key sample_user = lit ''u1''" "subject_key (hd (actors demo_world)) = lit ''s1''"
    by (simp_all add: sample_user_def demo_world_def demo_keys_def aggregate_actor_def new_local_def)
  then show ?thesis using demo_gate_like [of logout_demo]
    by (simp add: stable_subject_of_user_def identity_gate_def context_error_def as_text_def op_eval)
qed

lemma demo_apart: "references_apart logout_demo"
proof -
  have "actors demo_world = [aggregate_actor 1 demo_keys]" "actor_key (aggregate_actor 1 demo_keys) = lit ''a1''"
    "subject_key (aggregate_actor 1 demo_keys) = lit ''s1''"
    by (simp_all add: demo_world_def demo_keys_def aggregate_actor_def new_local_def)
  moreover have "user_key sample_user = lit ''u1''" "refresh_actor demo_refresh = lit ''a1''"
    by (simp_all add: sample_user_def demo_refresh_def)
  moreover have "bare_key (lit ''user:'') (lit ''s1'')" "bare_key (lit ''actor_identity:'') (lit ''s1'')"
    by (simp_all add: bare_eval)
  ultimately show ?thesis by (simp add: references_apart_def)
qed

lemma demo_hint: "logout_params (lit ''id_token_hint'') = Some (lit ''idt'')"
  "read_id_token logout_provider (lit ''idt'') = Some demo_id_token" "idt_sub demo_id_token = lit ''s1''"
  "idt_aud demo_id_token = lit ''app''"
  by (simp_all add: logout_params_def logout_provider_def demo_id_token_def)

theorem rp_logout_revokes_nothing_witness:
  "let t = snd (logout_route no_faults logout_provider demo_web logout_params logout_demo) in
   sessions t = [demo_session] \<and> length (access_tokens t) = 1"
proof -
  obtain res t where run: "logout_route no_faults logout_provider demo_web logout_params logout_demo = (res, t)" by fastforce
  show ?thesis using rp_logout_revokes_nothing [OF demo_apart demo_subject demo_hint(1-3) run] run by simp
qed

lemma logout_demo_registry: "registry_ok logout_demo"
proof -
  have "redirect_ok (lit ''https://app/cb'')" "redirect_ok (lit ''https://app/bye'')"
    by (simp_all add: redirect_ok_def url_safe_def starts_with_def lit_def)
  then show ?thesis
    by (simp add: logout_demo_def registry_ok_def unique_ok_def client_ok_def client_indexes_def demo_client_def)
      (simp add: lit_def)
qed

theorem logout_lands_registered_witness:
  "\<exists>a t. logout_route no_faults logout_provider demo_web logout_params logout_demo = (Inr a, t) \<and>
    location (answer_redirect a) = lit ''https://app/bye'' \<and> redirect_ok (location (answer_redirect a))"
proof -
  let ?c = "demo_client\<lparr>post_logout_redirect_uris := [lit ''https://app/bye'']\<rparr>"
  have client: "load_client no_faults (lit ''app'') w = (Inr ?c, w)" if "clients w = [?c]" for w
    using that by (simp add: load_client_def op_eval db_defs active_client_def) (simp add: demo_client_def)
  obtain f t where revoke: "revoke_for_logout no_faults (lit ''app'') (lit ''s1'') logout_demo = (Inr f, t)"
    and "clients t = [?c]"
    using revoke_for_logout_clients [of no_faults "lit ''app''" "lit ''s1''" logout_demo]
    by (cases "revoke_for_logout no_faults (lit ''app'') (lit ''s1'') logout_demo") (auto simp: clients_logout_demo)
  then obtain a where run: "logout_route no_faults logout_provider demo_web logout_params logout_demo = (Inr a, t)"
    and loc: "location (answer_redirect a) = lit ''https://app/bye''"
    using client [of t] demo_hint
    by (auto simp: logout_route_def verify_id_token_hint_def post_logout_target_def op_eval Let_def demo_web_def
        logout_params_def)
  moreover have "cfg_app_url (oidc_config logout_provider) = lit ''https://id/''"
    by (simp add: logout_provider_def provider_demo_def)
  ultimately show ?thesis
    using logout_lands_registered [OF logout_demo_registry run] by (auto simp: logout_params_def)
qed

end
