(* ===== verification/User_Management.thy ===== *)
theory User_Management
  imports Oidc_Clients Auth_Service Audit_Log "HOL-Library.Option_ord"
begin

text \<open>
  Administration of users: \<^verbatim>\<open>src/services/user_management.rs\<close> with the rows of
  \<^verbatim>\<open>src/models/{user_profile, user_preferences}.rs\<close> and the handlers of
  \<^verbatim>\<open>src/routes/user_management.rs\<close>.  The state holds the database of the OpenID provider (\<open>home\<close>), the
  tables of this service, the authentication cache of this instance and the events handed to the
  audit logger.  The responses carry the columns of the rows, so a row stands for its response.
\<close>

section \<open>Rows and requests\<close>

record profile =
  pf_key :: str
  pf_actor :: str
  pf_first_name :: "str option"
  pf_last_name :: "str option"
  pf_display_name :: "str option"
  pf_avatar_url :: "str option"
  pf_phone :: "str option"
  pf_date_of_birth :: "int option"
  pf_timezone :: "str option"
  pf_locale :: "str option"
  pf_bio :: "str option"
  pf_website :: "str option"
  pf_location :: "str option"
  pf_created_at :: int
  pf_updated_at :: int

text \<open>The two requests on a profile, and the two on preferences, have the same fields.\<close>

record profile_request =
  pq_first_name :: "str option"
  pq_last_name :: "str option"
  pq_display_name :: "str option"
  pq_phone :: "str option"
  pq_date_of_birth :: "int option"
  pq_timezone :: "str option"
  pq_locale :: "str option"
  pq_bio :: "str option"
  pq_website :: "str option"
  pq_location :: "str option"

record preferences =
  pr_key :: str
  pr_actor :: str
  pr_theme :: str
  pr_language :: str
  pr_email_notifications :: bool
  pr_sms_notifications :: bool
  pr_marketing_emails :: bool
  pr_security_emails :: bool
  pr_newsletter :: bool
  pr_timezone :: str
  pr_date_format :: str
  pr_time_format :: str
  pr_created_at :: int
  pr_updated_at :: int

record preferences_request =
  rq_theme :: "str option"
  rq_language :: "str option"
  rq_email_notifications :: "bool option"
  rq_sms_notifications :: "bool option"
  rq_marketing_emails :: "bool option"
  rq_security_emails :: "bool option"
  rq_newsletter :: "bool option"
  rq_timezone :: "str option"
  rq_date_format :: "str option"
  rq_time_format :: "str option"

definition default_preferences :: "int \<Rightarrow> str \<Rightarrow> str \<Rightarrow> preferences" where
  "default_preferences now key actor =
    \<lparr>pr_key = key, pr_actor = actor, pr_theme = lit ''light'', pr_language = lit ''en'',
     pr_email_notifications = True, pr_sms_notifications = False, pr_marketing_emails = False,
     pr_security_emails = True, pr_newsletter = False, pr_timezone = lit ''UTC'',
     pr_date_format = lit ''YYYY-MM-DD'', pr_time_format = lit ''24h'',
     pr_created_at = now, pr_updated_at = now\<rparr>"

record status_request =
  us_status :: account_status
  us_reason :: "str option"

record status_response =
  sr_user_id :: str
  sr_status :: account_status
  sr_updated_at :: int
  sr_updated_by :: str
  sr_reason :: "str option"

record membership_request =
  mr_level :: str
  mr_expiry :: "int option"

record user_list_request =
  lr_page :: "nat option"
  lr_limit :: "nat option"
  lr_status :: "account_status option"
  lr_search :: "str option"
  lr_sort_by :: "str option"
  lr_sort_order :: "str option"

record activity_log_request =
  al_page :: "nat option"
  al_limit :: "nat option"
  al_category :: "activity_category option"
  al_status :: "activity_status option"
  al_start :: "int option"
  al_end :: "int option"

record stored_activity = activity +
  act_key :: str

record activity_response =
  ar_id :: str
  ar_actor :: str
  ar_action :: str
  ar_category :: activity_category
  ar_ip_address :: str
  ar_user_agent :: str
  ar_details :: json
  ar_status :: activity_status
  ar_timestamp :: int

record 'a page_response =
  page_items :: "'a list"
  page_total :: nat
  page_number :: nat
  page_limit :: nat
  page_count :: nat

section \<open>State\<close>

record admin_world =
  home :: oidc_world
  profiles :: "profile list"
  preference_rows :: "preferences list"
  activity_rows :: "stored_activity list"
  auth_entries :: auth_cache
  journal :: "audit_event list"

type_synonym 'a admin_op = "(admin_world, 'a) handler"

text \<open>
  What the service finds around it: the cache's time to live, whether a logger is running, what the
  database makes of a violated index and of a row's reference, and the error of an unreadable row.
\<close>

record admin_env =
  ad_ttl :: "int option"
  ad_logger :: bool
  ad_conflict :: conflict_report
  ad_row_text :: "stored_activity \<Rightarrow> str"
  ad_parse_error :: "stored_activity list \<Rightarrow> str"

definition on_home :: "(oidc_world, 'e, 'a) op \<Rightarrow> (admin_world, 'e, 'a) op" where
  "on_home m = zoom home (\<lambda>t w. w\<lparr>home := t\<rparr>) m"

definition profile_indexes :: "profile index list" where
  "profile_indexes = [(''id'', \<lambda>r. [pf_key r]), (''user_profile_user_idx'', \<lambda>r. [pf_actor r])]"

definition preferences_indexes :: "preferences index list" where
  "preferences_indexes = [(''id'', \<lambda>r. [pr_key r]), (''user_preferences_user_idx'', \<lambda>r. [pr_actor r])]"

text \<open>An event is handed to the process's logger, if there is one; this never fails.\<close>

definition log_user_activity :: "admin_env \<Rightarrow> str \<Rightarrow> string \<Rightarrow> activity_category \<Rightarrow> activity_status \<Rightarrow>
    request_context \<Rightarrow> json \<Rightarrow> unit admin_op" where
  "log_user_activity A uid action cat st ctx details =
    (if ad_logger A
     then writes (journal_update (\<lambda>j. j @ [with_details details
       (with_user uid (new_event (lit action) cat st (ctx_ip ctx) (ctx_agent ctx)))]))
     else ret ())"

definition action_details :: "string \<Rightarrow> json" where
  "action_details a = JObj [(lit ''action'', JStr (lit a))]"

section \<open>Membership labels\<close>

definition ascii_upper :: "nat \<Rightarrow> nat" where
  "ascii_upper c = (if is_ascii_lowercase c then c - 32 else c)"

definition normalize_membership_level :: "str \<Rightarrow> auth_error + str" where
  "normalize_membership_level level =
    (let n = map ascii_upper (trim level) in
     if n = [] \<or> 32 < byte_len n
     then Inl (ValidationError (lit ''Membership level must be 1 to 32 characters''))
     else if \<not> list_all (\<lambda>c. is_ascii_alphanumeric c \<or> c = 95 \<or> c = 45) n
     then Inl (ValidationError (lit ''Membership level may contain only letters, digits, `_` and `-`''))
     else Inr n)"

section \<open>Profiles\<close>

definition get_user_profile :: "faults \<Rightarrow> str \<Rightarrow> profile admin_op" where
  "get_user_profile F uid =
    bind (on_home (actor_ref_of_user F uid)) (\<lambda>actor.
    bind (as_db_error (db_read F ''user_mgmt.q3'' (\<lambda>w. find (\<lambda>p. pf_actor p = actor) (profiles w)))) (\<lambda>found.
    the_or found (NotFound (lit ''User profile not found''))))"

definition new_profile :: "int \<Rightarrow> str \<Rightarrow> str \<Rightarrow> profile_request \<Rightarrow> profile" where
  "new_profile now key actor q =
    \<lparr>pf_key = key, pf_actor = actor, pf_first_name = pq_first_name q, pf_last_name = pq_last_name q,
     pf_display_name = pq_display_name q, pf_avatar_url = None, pf_phone = pq_phone q,
     pf_date_of_birth = pq_date_of_birth q, pf_timezone = pq_timezone q, pf_locale = pq_locale q,
     pf_bio = pq_bio q, pf_website = pq_website q, pf_location = pq_location q,
     pf_created_at = now, pf_updated_at = now\<rparr>"

text \<open>Any failure to read the profile counts as its absence; the unique index has the last word.\<close>

definition create_user_profile :: "faults \<Rightarrow> admin_env \<Rightarrow> int \<Rightarrow> str \<Rightarrow> str \<Rightarrow> profile_request \<Rightarrow>
    request_context \<Rightarrow> profile admin_op" where
  "create_user_profile F A now key uid q ctx =
    bind (on_home (actor_ref_of_user F uid)) (\<lambda>actor.
    bind (as_db_error (db_read F ''user_mgmt.q1''
      (\<lambda>w. list_ex (\<lambda>a. actor_key a = actor) (actors (home w))))) (\<lambda>exists.
    seq (require exists (NotFound (lit ''User not found'')))
    (seq (catch (get_user_profile (later_faults F 1) uid) (\<lambda>_. ret ())
        (\<lambda>_. throw (ValidationError (lit ''User profile already exists''))))
    (let p = new_profile now key actor q in
     seq (as_db_error (seq (database_up F ''user_mgmt.q2'')
       (insert_row (ad_conflict A) profile_indexes profiles profiles_update p)))
     (seq (log_user_activity A uid ''profile_created'' CatProfile StatusSuccess ctx
       (action_details ''profile_created''))
     (ret p))))))"

definition keep_or :: "'a option \<Rightarrow> 'a option \<Rightarrow> 'a option" where
  "keep_or new old = (case new of None \<Rightarrow> old | Some x \<Rightarrow> Some x)"

definition patch_profile :: "int \<Rightarrow> profile_request \<Rightarrow> profile \<Rightarrow> profile" where
  "patch_profile now q p = p\<lparr>
     pf_first_name := keep_or (pq_first_name q) (pf_first_name p),
     pf_last_name := keep_or (pq_last_name q) (pf_last_name p),
     pf_display_name := keep_or (pq_display_name q) (pf_display_name p),
     pf_phone := keep_or (pq_phone q) (pf_phone p),
     pf_date_of_birth := keep_or (pq_date_of_birth q) (pf_date_of_birth p),
     pf_timezone := keep_or (pq_timezone q) (pf_timezone p),
     pf_locale := keep_or (pq_locale q) (pf_locale p),
     pf_bio := keep_or (pq_bio q) (pf_bio p),
     pf_website := keep_or (pq_website q) (pf_website p),
     pf_location := keep_or (pq_location q) (pf_location p),
     pf_updated_at := now\<rparr>"

definition update_user_profile :: "faults \<Rightarrow> admin_env \<Rightarrow> int \<Rightarrow> str \<Rightarrow> profile_request \<Rightarrow> request_context \<Rightarrow>
    profile admin_op" where
  "update_user_profile F A now uid q ctx =
    seq (bind (get_user_profile F uid) (\<lambda>_. ret ()))
    (bind (as_db_error (db_exec F ''update_user_profile'' (\<lambda>w.
        let mine = (\<lambda>p. Some (pf_actor p) = actor_of_user_row uid (home w));
            t = profiles_update (update_where mine (patch_profile now q)) w
        in (find mine (profiles t), t)))) (\<lambda>updated.
    bind (the_or updated (DatabaseError (lit ''Failed to update user profile''))) (\<lambda>p.
    seq (log_user_activity A uid ''profile_updated'' CatProfile StatusSuccess ctx
       (action_details ''profile_updated''))
    (ret p))))"

section \<open>Preferences\<close>

definition or_default :: "'a option \<Rightarrow> 'a \<Rightarrow> 'a" where
  "or_default new old = (case new of None \<Rightarrow> old | Some x \<Rightarrow> x)"

definition set_preferences :: "preferences_request \<Rightarrow> preferences \<Rightarrow> preferences" where
  "set_preferences q p = p\<lparr>
     pr_theme := or_default (rq_theme q) (pr_theme p),
     pr_language := or_default (rq_language q) (pr_language p),
     pr_email_notifications := or_default (rq_email_notifications q) (pr_email_notifications p),
     pr_sms_notifications := or_default (rq_sms_notifications q) (pr_sms_notifications p),
     pr_marketing_emails := or_default (rq_marketing_emails q) (pr_marketing_emails p),
     pr_security_emails := or_default (rq_security_emails q) (pr_security_emails p),
     pr_newsletter := or_default (rq_newsletter q) (pr_newsletter p),
     pr_timezone := or_default (rq_timezone q) (pr_timezone p),
     pr_date_format := or_default (rq_date_format q) (pr_date_format p),
     pr_time_format := or_default (rq_time_format q) (pr_time_format p)\<rparr>"

definition get_user_preferences :: "faults \<Rightarrow> str \<Rightarrow> preferences admin_op" where
  "get_user_preferences F uid =
    bind (on_home (actor_ref_of_user F uid)) (\<lambda>actor.
    bind (as_db_error (db_read F ''user_mgmt.q5''
      (\<lambda>w. find (\<lambda>p. pr_actor p = actor) (preference_rows w)))) (\<lambda>found.
    the_or found (NotFound (lit ''User preferences not found''))))"

definition create_user_preferences :: "faults \<Rightarrow> admin_env \<Rightarrow> int \<Rightarrow> str \<Rightarrow> str \<Rightarrow> preferences_request \<Rightarrow>
    request_context \<Rightarrow> preferences admin_op" where
  "create_user_preferences F A now key uid q ctx =
    bind (on_home (actor_ref_of_user F uid)) (\<lambda>actor.
    seq (catch (get_user_preferences (later_faults F 1) uid) (\<lambda>_. ret ())
        (\<lambda>_. throw (ValidationError (lit ''User preferences already exist''))))
    (let p = set_preferences q (default_preferences now key actor) in
     seq (as_db_error (seq (database_up F ''user_mgmt.q4'')
       (insert_row (ad_conflict A) preferences_indexes preference_rows preference_rows_update p)))
     (seq (log_user_activity A uid ''preferences_created'' CatProfile StatusSuccess ctx
       (action_details ''preferences_created''))
     (ret p))))"

definition update_user_preferences :: "faults \<Rightarrow> admin_env \<Rightarrow> int \<Rightarrow> str \<Rightarrow> preferences_request \<Rightarrow>
    request_context \<Rightarrow> preferences admin_op" where
  "update_user_preferences F A now uid q ctx =
    seq (bind (get_user_preferences F uid) (\<lambda>_. ret ()))
    (bind (as_db_error (db_exec F ''update_user_preferences'' (\<lambda>w.
        let mine = (\<lambda>p. Some (pr_actor p) = actor_of_user_row uid (home w));
            t = preference_rows_update
              (update_where mine (\<lambda>p. (set_preferences q p)\<lparr>pr_updated_at := now\<rparr>)) w
        in (find mine (preference_rows t), t)))) (\<lambda>updated.
    bind (the_or updated (DatabaseError (lit ''Failed to update user preferences''))) (\<lambda>p.
    seq (log_user_activity A uid ''preferences_updated'' CatProfile StatusSuccess ctx
       (action_details ''preferences_updated''))
    (ret p))))"

section \<open>Account status\<close>

text \<open>
  The status is written to the user row and then to the identity root, which knows only active and
  suspended here; a root that cannot be read is left as it is.  Deletion revokes the password.
\<close>

definition sync_root :: "faults \<Rightarrow> int \<Rightarrow> account_status \<Rightarrow> str \<Rightarrow> unit admin_op" where
  "sync_root F now st actor =
    seq (catch (on_home (db_read F ''find_record_by_field'' (actor_by_id (lit ''actor_identity:'' @ actor))))
       (\<lambda>_. ret ())
       (\<lambda>found. case found of
            None \<Rightarrow> ret ()
          | Some a \<Rightarrow> on_home (set_status F now (actor_key a)
              (if st = AccActive then ActorActive else ActorSuspended))))
     (if st = AccDeleted then on_home (revoke_password F now actor) else ret ())"

definition sync_subject :: "faults \<Rightarrow> int \<Rightarrow> account_status \<Rightarrow> str option \<Rightarrow> unit admin_op" where
  "sync_subject F now st subject =
    (case subject of None \<Rightarrow> ret () | Some actor \<Rightarrow> sync_root F now st actor)"

definition status_details :: "user \<Rightarrow> status_request \<Rightarrow> json" where
  "status_details u q = JObj [(lit ''action'', JStr (lit ''account_status_changed'')),
     (lit ''new_status'', JStr (account_status_str (us_status q))),
     (lit ''old_status'', JStr (user_status u)), (lit ''reason'', json_opt_str (us_reason q))]"

definition update_account_status :: "faults \<Rightarrow> admin_env \<Rightarrow> int \<Rightarrow> str \<Rightarrow> status_request \<Rightarrow> user \<Rightarrow>
    request_context \<Rightarrow> status_response admin_op" where
  "update_account_status F A now uid q by ctx =
    bind (lift_result (user_record_id_err uid)) (\<lambda>key.
    bind (on_home (as_db_error (db_read F ''user_mgmt.q6'' (\<lambda>s. find (\<lambda>u. user_key u = key) (users s))))) (\<lambda>found.
    bind (the_or found (NotFound (lit ''User not found''))) (\<lambda>u.
    seq (on_home (as_db_error (db_write F ''user_mgmt.q7'' (users_update (update_where (\<lambda>v. user_key v = key)
      (\<lambda>v. v\<lparr>user_status := account_status_str (us_status q), user_updated_at := now\<rparr>))))))
    (seq (sync_subject F now (us_status q) (subject_id u))
    (seq (log_user_activity A uid ''account_status_changed'' CatSecurity StatusSuccess ctx (status_details u q))
    (ret \<lparr>sr_user_id = uid, sr_status = us_status q, sr_updated_at = now, sr_updated_by = email by,
          sr_reason = us_reason q\<rparr>))))))"

section \<open>The activity log\<close>

definition parse_category :: "str \<Rightarrow> activity_category option" where
  "parse_category s = find (\<lambda>c. category_str c = s)
     [CatAuthentication, CatProfile, CatSecurity, CatPermissions, CatData, CatSystem]"

definition parse_activity_status :: "str \<Rightarrow> activity_status option" where
  "parse_activity_status s = find (\<lambda>c. activity_status_str c = s)
     [StatusSuccess, StatusFailed, StatusWarning, StatusInfo]"

text \<open>The key of a reference in the text \<^verbatim>\<open>table:key\<close>.\<close>

definition strip_table :: "str option \<Rightarrow> str" where
  "strip_table v = (case v of
      None \<Rightarrow> []
    | Some t \<Rightarrow> normalize_record_id_key (case split_once 58 t of Some (_, k) \<Rightarrow> k | None \<Rightarrow> t))"

text \<open>
  A row of the projection: the query asks for a column \<^verbatim>\<open>user_id\<close>, which the table does not have,
  and not for \<^verbatim>\<open>actor_identity_id\<close>, which the row type then fills with its default.
\<close>

definition activity_response_of :: "admin_env \<Rightarrow> stored_activity \<Rightarrow> activity_response option" where
  "activity_response_of A r =
    (case (parse_category (act_category r), parse_activity_status (act_status r)) of
       (Some c, Some st) \<Rightarrow> Some \<lparr>ar_id = strip_table (Some (ad_row_text A r)), ar_actor = strip_table None,
          ar_action = act_action r, ar_category = c, ar_ip_address = act_ip_address r,
          ar_user_agent = act_user_agent r, ar_details = act_details r, ar_status = st,
          ar_timestamp = act_timestamp r\<rparr>
     | _ \<Rightarrow> None)"

definition matches_opt :: "('a \<Rightarrow> bool) \<Rightarrow> 'a option \<Rightarrow> bool" where
  "matches_opt p x = (case x of None \<Rightarrow> True | Some y \<Rightarrow> p y)"

definition activity_matches :: "str \<Rightarrow> activity_log_request \<Rightarrow> admin_world \<Rightarrow> stored_activity \<Rightarrow> bool" where
  "activity_matches uid q w r \<longleftrightarrow>
    act_actor r = actor_of_user_row uid (home w) \<and>
    matches_opt (\<lambda>c. act_category r = category_str c) (al_category q) \<and>
    matches_opt (\<lambda>c. act_status r = activity_status_str c) (al_status q) \<and>
    matches_opt (\<lambda>t. t \<le> act_timestamp r) (al_start q) \<and>
    matches_opt (\<lambda>t. act_timestamp r \<le> t) (al_end q)"

text \<open>
  The response's page count is computed in floating point and cast to \<^verbatim>\<open>u32\<close>, which saturates; the
  division is exact for the totals a table can have.
\<close>

definition page_response_of :: "nat option \<Rightarrow> nat \<times> nat \<Rightarrow> 'a list \<Rightarrow> nat \<Rightarrow> 'a page_response" where
  "page_response_of page window items n =
    \<lparr>page_items = items, page_total = n,
     page_number = max 1 (case page of None \<Rightarrow> 1 | Some p \<Rightarrow> p), page_limit = fst window,
     page_count = min (2 ^ 32 - 1) ((n + fst window - 1) div fst window)\<rparr>"

definition get_user_activity_log :: "faults \<Rightarrow> admin_env \<Rightarrow> str \<Rightarrow> activity_log_request \<Rightarrow>
    activity_response page_response admin_op" where
  "get_user_activity_log F A uid q =
    (let window = page_window (al_page q) (al_limit q) in
     bind (as_db_error (db_read F ''user_activity_log'' (\<lambda>w. page_of window
       (rev (sort_key act_timestamp (filter (activity_matches uid q w) (activity_rows w))))))) (\<lambda>rows.
     bind (the_or (those (map (activity_response_of A) rows))
       (DatabaseError (lit ''Failed to parse activities: '' @ ad_parse_error A rows))) (\<lambda>items.
     bind (as_db_error (db_read F ''user_activity_log_count'' (\<lambda>w.
       count_where (activity_matches uid q w) (activity_rows w)))) (\<lambda>n.
     ret (page_response_of (al_page q) window items n)))))"

section \<open>Users\<close>

definition has_password_for :: "faults \<Rightarrow> user \<Rightarrow> ('x store_scheme, bool) handler" where
  "has_password_for F u = (case subject_id u of None \<Rightarrow> ret False | Some actor \<Rightarrow> has_password F actor)"

definition user_has_admin_role :: "faults \<Rightarrow> str \<Rightarrow> ('x, bool) rbac_op" where
  "user_has_admin_role F uid = check_user_role F uid (lit ''admin'')"

definition shown_user :: "faults \<Rightarrow> str \<Rightarrow> user \<Rightarrow> ('x, user_response) rbac_op" where
  "shown_user F uid u =
    bind (has_password_for F u) (\<lambda>pw.
    bind (user_has_admin_role F uid) (\<lambda>admin.
    ret ((user_response_of u pw)\<lparr>response_is_admin := admin\<rparr>)))"

definition get_user_by_id :: "faults \<Rightarrow> str \<Rightarrow> ('x, user_response) rbac_op" where
  "get_user_by_id F uid =
    bind (as_db_error (db_read F ''user_management_get_user_by_id''
      (\<lambda>s. find (\<lambda>u. user_key u = normalize_user_id uid) (users s)))) (\<lambda>found.
    bind (the_or found (NotFound (lit ''User not found''))) (shown_user F uid))"

definition user_matches :: "user_list_request \<Rightarrow> user \<Rightarrow> bool" where
  "user_matches q u \<longleftrightarrow> matches_opt (\<lambda>st. user_status u = account_status_str st) (lr_status q) \<and>
    matches_opt (\<lambda>t. contains t (email u)) (lr_search q)"

text \<open>A missing login time sorts before every other.\<close>

definition sort_users :: "str option \<Rightarrow> user list \<Rightarrow> user list" where
  "sort_users field rows =
    (if field = Some (lit ''email'') then sort_key email rows
     else if field = Some (lit ''username'') then sort_key username rows
     else if field = Some (lit ''updated_at'') then sort_key user_updated_at rows
     else if field = Some (lit ''last_login_at'') then sort_key last_login_at rows
     else sort_key user_created_at rows)"

definition ordered_users :: "user_list_request \<Rightarrow> user list \<Rightarrow> user list" where
  "ordered_users q rows =
    (let sorted = sort_users (lr_sort_by q) rows in
     if matches_opt (\<lambda>o'. to_ascii_lowercase o' \<noteq> lit ''asc'') (lr_sort_order q) then rev sorted else sorted)"

fun listed_users :: "faults \<Rightarrow> nat \<Rightarrow> str list \<Rightarrow> user list \<Rightarrow> ('x, user_response list) rbac_op" where
  "listed_users F i with_password [] = ret []"
| "listed_users F i with_password (u # us) =
    bind (user_has_admin_role (later_faults F i) (user_key u)) (\<lambda>admin.
    bind (listed_users F (Suc i) with_password us) (\<lambda>rest.
    ret ((user_response_of u (case subject_id u of
            None \<Rightarrow> False | Some a \<Rightarrow> lit ''actor_identity:'' @ a \<in> set with_password))
         \<lparr>response_is_admin := admin\<rparr> # rest)))"

definition list_users :: "faults \<Rightarrow> user_list_request \<Rightarrow> ('x, user_response page_response) rbac_op" where
  "list_users F q =
    (let window = page_window (lr_page q) (lr_limit q) in
     bind (as_db_error (db_read F ''user_management_list_users''
       (\<lambda>s. page_of window (ordered_users q (filter (user_matches q) (users s)))))) (\<lambda>rows.
     bind (as_db_error (db_read F ''user_management_count_users''
       (\<lambda>s. count_where (user_matches q) (users s)))) (\<lambda>n.
     bind (identities_with_password F (List.map_filter subject_id rows)) (\<lambda>pw.
     bind (listed_users F 0 pw rows) (\<lambda>items.
     ret (page_response_of (lr_page q) window items n))))))"

text \<open>
  A membership change reads the user row, changes two columns of it and writes the whole row back.
\<close>

definition membership_row :: "faults \<Rightarrow> int \<Rightarrow> str \<Rightarrow> membership_request \<Rightarrow> ('x store_scheme, user) handler" where
  "membership_row F now uid q =
    bind (db_read F ''find_record_by_field'' (user_by_id uid)) (\<lambda>found.
    bind (the_or found (NotFound (lit ''User not found''))) (\<lambda>u.
    bind (lift_result (normalize_membership_level (mr_level q))) (\<lambda>level.
    ret (u\<lparr>membership_level := level, membership_expiry := mr_expiry q, user_updated_at := now\<rparr>))))"

definition update_membership :: "faults \<Rightarrow> conflict_report \<Rightarrow> int \<Rightarrow> str \<Rightarrow> membership_request \<Rightarrow>
    ('x, user_response) rbac_op" where
  "update_membership F V now uid q =
    bind (membership_row F now uid q) (\<lambda>u.
    seq (update_user F V ''update_record'' u)
    (shown_user F (user_key u) u))"

section \<open>Handlers\<close>

text \<open>The extractor has admitted the user \<open>u\<close>; the handlers of one's own records need no more.\<close>

definition create_profile_route :: "faults \<Rightarrow> admin_env \<Rightarrow> int \<Rightarrow> str \<Rightarrow> user \<Rightarrow> profile_request \<Rightarrow>
    request_context \<Rightarrow> profile admin_op" where
  "create_profile_route F A now key u q ctx = create_user_profile F A now key (user_key u) q ctx"

definition get_profile_route :: "faults \<Rightarrow> user \<Rightarrow> profile admin_op" where
  "get_profile_route F u = get_user_profile F (user_key u)"

definition update_profile_route :: "faults \<Rightarrow> admin_env \<Rightarrow> int \<Rightarrow> user \<Rightarrow> profile_request \<Rightarrow>
    request_context \<Rightarrow> profile admin_op" where
  "update_profile_route F A now u q ctx = update_user_profile F A now (user_key u) q ctx"

definition create_preferences_route :: "faults \<Rightarrow> admin_env \<Rightarrow> int \<Rightarrow> str \<Rightarrow> user \<Rightarrow> preferences_request \<Rightarrow>
    request_context \<Rightarrow> preferences admin_op" where
  "create_preferences_route F A now key u q ctx = create_user_preferences F A now key (user_key u) q ctx"

definition get_preferences_route :: "faults \<Rightarrow> user \<Rightarrow> preferences admin_op" where
  "get_preferences_route F u = get_user_preferences F (user_key u)"

definition update_preferences_route :: "faults \<Rightarrow> admin_env \<Rightarrow> int \<Rightarrow> user \<Rightarrow> preferences_request \<Rightarrow>
    request_context \<Rightarrow> preferences admin_op" where
  "update_preferences_route F A now u q ctx = update_user_preferences F A now (user_key u) q ctx"

definition activity_log_route :: "faults \<Rightarrow> admin_env \<Rightarrow> user \<Rightarrow> activity_log_request \<Rightarrow>
    activity_response page_response admin_op" where
  "activity_log_route F A u q = get_user_activity_log F A (user_key u) q"

definition list_users_route :: "faults \<Rightarrow> user \<Rightarrow> user_list_request \<Rightarrow> user_response page_response admin_op" where
  "list_users_route F u q =
    seq (on_home (require_permission F (user_key u) users_read)) (on_home (list_users F q))"

text \<open>Failures to revoke are logged and do not undo the change.\<close>

definition revoke_issued :: "faults \<Rightarrow> str \<Rightarrow> unit admin_op" where
  "revoke_issued F key =
    seq (catch (on_home (delete_sessions_by_user_id F key)) (\<lambda>_. ret ()) ret)
      (catch (on_home (revoke_all_tokens_for_user F key)) (\<lambda>_. ret ()) ret)"

definition update_status_route :: "faults \<Rightarrow> admin_env \<Rightarrow> int \<Rightarrow> user \<Rightarrow> str \<Rightarrow> status_request \<Rightarrow>
    request_context \<Rightarrow> status_response admin_op" where
  "update_status_route F A now u uid q ctx =
    seq (on_home (require_permission F (user_key u) users_write))
    (bind (update_account_status F A now uid q u ctx) (\<lambda>r.
     let key = normalize_user_id uid in
     seq (writes (auth_entries_update (invalidate_user (ad_ttl A) key)))
     (seq (if us_status q \<noteq> AccActive then revoke_issued F key else ret ())
     (ret r))))"

definition get_user_route :: "faults \<Rightarrow> user \<Rightarrow> str \<Rightarrow> user_response admin_op" where
  "get_user_route F u uid =
    seq (on_home (require_permission F (user_key u) users_read)) (on_home (get_user_by_id F uid))"

definition update_membership_route :: "faults \<Rightarrow> admin_env \<Rightarrow> int \<Rightarrow> user \<Rightarrow> str \<Rightarrow> membership_request \<Rightarrow>
    user_response admin_op" where
  "update_membership_route F A now u uid q =
    seq (on_home (require_permission F (user_key u) users_write))
      (on_home (update_membership F (ad_conflict A) now uid q))"

definition get_profile_by_id_route :: "faults \<Rightarrow> user \<Rightarrow> str \<Rightarrow> profile admin_op" where
  "get_profile_by_id_route F u uid =
    seq (on_home (require_permission F (user_key u) users_read)) (get_user_profile F uid)"

definition get_preferences_by_id_route :: "faults \<Rightarrow> user \<Rightarrow> str \<Rightarrow> preferences admin_op" where
  "get_preferences_by_id_route F u uid =
    seq (on_home (require_permission F (user_key u) users_read)) (get_user_preferences F uid)"

definition activity_log_by_id_route :: "faults \<Rightarrow> admin_env \<Rightarrow> user \<Rightarrow> str \<Rightarrow> activity_log_request \<Rightarrow>
    activity_response page_response admin_op" where
  "activity_log_by_id_route F A u uid q =
    seq (on_home (require_permission F (user_key u) audit_read)) (get_user_activity_log F A uid q)"

end
