(* ===== verification/User_Safety.thy ===== *)
theory User_Safety
  imports User_Management Rbac_Safety Oidc_Safety
begin

text \<open>
  What the administration of users achieves: a change of status takes effect for every request that
  follows, on every instance; a membership change writes back the whole row it read; the activity log
  of a user id that names no user.
\<close>

section \<open>The state that requests see\<close>

text \<open>What an extractor of any instance works on: the common database and a cache of its own.\<close>

definition request_world :: "auth_cache \<Rightarrow> 'x store_scheme \<Rightarrow> auth_world" where
  "request_world c s = store.extend (store.truncate s) \<lparr>cache = c, mfa_rows = Map.empty, outbox = []\<rparr>"

lemma request_world_tables [simp]:
  "users (request_world c s) = users s" "actors (request_world c s) = actors s"
  "accounts (request_world c s) = accounts s" "sessions (request_world c s) = sessions s"
  by (simp_all add: request_world_def store.defs)

lemma request_world_rows [simp]:
  "actor_of_user_row uid (request_world c s) = actor_of_user_row uid s"
  "actor_row key (request_world c s) = actor_row key s"
  by (simp_all add: actor_of_user_row_def actor_row_def)

section \<open>Account status\<close>

lemma on_home_success [op_success]:
  "on_home m w = (Inr a, w') \<longleftrightarrow> (\<exists>t. m (home w) = (Inr a, t) \<and> w' = w\<lparr>home := t\<rparr>)"
  by (simp add: on_home_def zoom_success)

lemma on_home_failure [op_failure]:
  "on_home m w = (Inl e, w') \<longleftrightarrow> (\<exists>t. m (home w) = (Inl e, t) \<and> w' = w\<lparr>home := t\<rparr>)"
  by (simp add: on_home_def zoom_failure)

lemma same_home [simp]: "w\<lparr>home := home w\<rparr> = w"
  by simp

lemma account_status_str_active: "account_status_str st = lit ''Active'' \<longleftrightarrow> st = AccActive"
  by (cases st) (simp_all add: account_status_str_def lit_def)

text \<open>What a change of status does to the two places that hold it.\<close>

definition closed_account :: "str \<Rightarrow> str \<Rightarrow> 'x store_scheme \<Rightarrow> bool" where
  "closed_account key actor s \<longleftrightarrow>
    (\<forall>u\<in>set (users s). user_key u = key \<longrightarrow> user_status u \<noteq> lit ''Active'') \<and>
    actor_of_user_row key s = Some actor \<and>
    (\<forall>a. actor_row actor s = Some a \<longrightarrow> actor_status a \<noteq> lit ''active'')"

lemma find_changed:
  assumes "\<And>r. key (f r) = key r"
  shows "find (\<lambda>r. key r = k) (update_where (\<lambda>r. key r = k) f rows) =
    map_option f (find (\<lambda>r. key r = k) rows)"
  using find_Some_in [of "\<lambda>r. key r = k" rows]
  by (auto simp: find_update_where_key [of key, OF assms] split: option.split cong: map_option_cong)

lemma sync_root_users: "sync_root F now st actor w = (Inr x, w') \<Longrightarrow> users (home w') = users (home w)"
  by (auto simp: sync_root_def set_status_def revoke_password_def op_success op_failure split: if_splits option.splits)

lemma sync_root_success:
  assumes run: "sync_root F now st actor w = (Inr x, w')" and st: "st \<noteq> AccActive"
    and up: "F (lit ''find_record_by_field'') 0 = None" and clean: "bare_key (lit ''actor_identity:'') actor"
  shows "\<exists>s. w' = w\<lparr>home := s\<rparr> \<and> users s = users (home w) \<and>
    (\<forall>a. actor_row actor s = Some a \<longrightarrow> actor_status a \<noteq> lit ''active'')"
proof -
  have key: "normalize_actor_id actor = actor" by (rule normalize_actor_id_fixed [OF clean])
  have row: "actor_by_id (lit ''actor_identity:'' @ actor) s = actor_row actor s" for s :: oidc_world
    using actor_by_id_row [of actor s] by (simp add: key)
  have found: "db_read F ''find_record_by_field'' g s = (Inr (g s), s)" for g and s :: oidc_world
    by (simp add: db_read_def seq_def bind_def database_up_def up)
  have dead: "actor_status_str ActorSuspended \<noteq> lit ''active''" by (simp add: actor_status_str_def lit_def)
  obtain w1 where one: "(case actor_row actor (home w) of None \<Rightarrow> ret ()
      | Some a \<Rightarrow> on_home (set_status F now (actor_key a) ActorSuspended)) w = (Inr (), w1)"
    and two: "(if st = AccDeleted then on_home (revoke_password F now actor) else ret ()) w1 = (Inr x, w')"
    using run by (auto simp: sync_root_def op_success op_failure found row st cong: option.case_cong)
  have "\<exists>s. w1 = w\<lparr>home := s\<rparr> \<and> users s = users (home w) \<and>
    (\<forall>a. actor_row actor s = Some a \<longrightarrow> actor_status a \<noteq> lit ''active'')"
  proof (cases "actor_row actor (home w)")
    case None
    then show ?thesis using one by (intro exI [of _ "home w"]) simp
  next
    case (Some a)
    then have a: "actor_key a = actor" by (auto simp: actor_row_def key dest: find_Some_in)
    let ?t = "actors_update (update_where (\<lambda>v. actor_key v = actor)
      (\<lambda>v. v\<lparr>actor_status := actor_status_str ActorSuspended, actor_updated_at := now\<rparr>)) (home w)"
    have "w1 = w\<lparr>home := ?t\<rparr>" using one Some a by (simp add: set_status_def op_success)
    moreover have "\<forall>a. actor_row actor ?t = Some a \<longrightarrow> actor_status a \<noteq> lit ''active''"
      by (auto simp: actor_row_def key find_changed dead)
    ultimately show ?thesis by (intro exI [of _ ?t]) simp
  qed
  with two show ?thesis
    by (auto simp: revoke_password_def db_write_def op_success actor_row_def split: if_splits)
qed

lemma update_account_status_run:
  assumes "update_account_status F A now uid q by' ctx w = (Inr r, w')"
  obtains u w1 w2 where "user_record_id uid = Inr (normalize_user_id uid)"
    "find (\<lambda>u. user_key u = normalize_user_id uid) (users (home w)) = Some u"
    "users (home w1) = update_where (\<lambda>v. user_key v = normalize_user_id uid)
      (\<lambda>v. v\<lparr>user_status := account_status_str (us_status q), user_updated_at := now\<rparr>) (users (home w))"
    "actors (home w1) = actors (home w)"
    "sync_subject F now (us_status q) (subject_id u) w1 = (Inr (), w2)" "home w2 = home w'"
proof -
  obtain key u w1 w2 where key: "user_record_id_err uid = Inr key"
    and u: "find (\<lambda>u. user_key u = key) (users (home w)) = Some u"
    and w1: "w1 = w\<lparr>home := users_update (update_where (\<lambda>v. user_key v = key)
        (\<lambda>v. v\<lparr>user_status := account_status_str (us_status q), user_updated_at := now\<rparr>)) (home w)\<rparr>"
    and sync: "sync_subject F now (us_status q) (subject_id u) w1 = (Inr (), w2)"
    and log: "log_user_activity A uid ''account_status_changed'' CatSecurity StatusSuccess ctx (status_details u q) w2
        = (Inr (), w')"
    using assms unfolding update_account_status_def bind_success seq_success on_home_success
      as_db_error_def map_error_success lift_result_success the_or_success db_read_success db_write_success
    by clarify (rule that, assumption, erule sym, rule refl, simp, simp)
  have rid: "user_record_id uid = Inr key"
    using key by (cases "user_record_id uid") (simp_all add: user_record_id_err_def)
  have k: "key = normalize_user_id uid" by (rule user_record_id_accepts(1) [OF rid])
  have "home w2 = home w'" using log by (auto simp: log_user_activity_def split: if_splits)
  with rid u sync show thesis by (intro that [of u w1 w2]) (simp_all add: k w1)
qed

lemma update_account_status_users:
  assumes "update_account_status F A now uid q by' ctx w = (Inr r, w')"
  shows "users (home w') = update_where (\<lambda>v. user_key v = normalize_user_id uid)
    (\<lambda>v. v\<lparr>user_status := account_status_str (us_status q), user_updated_at := now\<rparr>) (users (home w))"
proof -
  obtain u :: user and w1 w2
    where one: "users (home w1) = update_where (\<lambda>v. user_key v = normalize_user_id uid)
      (\<lambda>v. v\<lparr>user_status := account_status_str (us_status q), user_updated_at := now\<rparr>) (users (home w))"
    and two: "sync_subject F now (us_status q) (subject_id u) w1 = (Inr (), w2)" "home w2 = home w'"
    by (rule update_account_status_run [OF assms])
  have "users (home w2) = users (home w1)"
    using two(1) by (auto simp: sync_subject_def dest: sync_root_users split: option.splits)
  then show ?thesis using one two(2) by simp
qed

lemma update_account_status_success:
  assumes run: "update_account_status F A now uid q by' ctx w = (Inr r, w')"
    and st: "us_status q \<noteq> AccActive" and up: "F (lit ''find_record_by_field'') 0 = None"
    and root: "actor_of_user_row uid (home w) = Some actor" "bare_key (lit ''actor_identity:'') actor"
  shows "user_record_id uid = Inr (normalize_user_id uid)"
    "closed_account (normalize_user_id uid) actor (home w')"
proof -
  obtain u :: user and w1 w2 where rid: "user_record_id uid = Inr (normalize_user_id uid)"
    and u: "find (\<lambda>u. user_key u = normalize_user_id uid) (users (home w)) = Some u"
    and sync: "sync_subject F now (us_status q) (subject_id u) w1 = (Inr (), w2)" "home w2 = home w'"
    by (rule update_account_status_run [OF run])
  have a: "subject_id u = Some actor" using root(1) u by (simp add: actor_of_user_row_def)
  then have "sync_root F now (us_status q) actor w1 = (Inr (), w2)" using sync(1) by (simp add: sync_subject_def)
  from sync_root_success [OF this st up root(2)]
  have "\<forall>a. actor_row actor (home w') = Some a \<longrightarrow> actor_status a \<noteq> lit ''active''" using sync(2) by auto
  moreover have "actor_of_user_row (normalize_user_id uid) (home w') = Some actor"
    using u a by (simp add: actor_of_user_row_def update_account_status_users [OF run] find_changed
        normalize_user_id_fixed [OF normalize_user_id_bare])
  moreover have "\<forall>u\<in>set (users (home w')). user_key u = normalize_user_id uid \<longrightarrow> user_status u \<noteq> lit ''Active''"
    using st by (simp add: update_account_status_users [OF run] ball_update_where account_status_str_active)
  ultimately show "closed_account (normalize_user_id uid) actor (home w')" by (simp add: closed_account_def)
  show "user_record_id uid = Inr (normalize_user_id uid)" by (rule rid)
qed

lemma closed_account_refused:
  assumes "closed_account (user_key v) actor s" "bare_key (lit ''actor_identity:'') actor"
  shows "outcome (authed_user F E now inst header) (request_world c s) \<noteq> Inr v"
proof
  assume "outcome (authed_user F E now inst header) (request_world c s) = Inr v"
  then obtain z where "authed_user F E now inst header (request_world c s) = (Inr v, z)"
    by (auto simp: outcome_Inr_iff)
  from authed_user_success [OF this] assms show False
    by (auto simp: closed_account_def admitted_def split: option.splits)
qed

text \<open>The handler also ends the sessions and tokens; a user key is never read as an actor's.\<close>

lemma user_key_not_actor:
  assumes "user_record_id uid = Inr k" "k \<noteq> lit ''actor_identity:''" shows "normalize_actor_id k = k"
proof (rule normalize_actor_id_fixed)
  have "list_all table_char (lit ''actor_identity'')" by (simp add: lit_def table_char_def char_classes)
  then have "k \<noteq> lit ''actor_identity'' @ 58 # rest" for rest
    using user_record_id_accepts(3) [OF assms(1), of "lit ''actor_identity''" rest] assms(2) by (auto simp: lit_def)
  then show "bare_key (lit ''actor_identity:'') k"
    using user_record_id_accepts(2) [OF assms(1)] by (auto simp: bare_key_def strip_prefix_None lit_def)
qed

text \<open>
  C21: when an administrator takes a user out of the active state and the database answers, then no
  request of any instance is admitted as that user, whatever its bearer token, its cache and the time,
  and no session, access token or refresh token of the user is left.
\<close>

theorem suspended_everywhere:
  assumes run: "update_status_route F A now admin uid q ctx w = (Inr r, w')" and st: "us_status q \<noteq> AccActive"
    and root: "actor_of_user_row uid (home w) = Some actor" "bare_key (lit ''actor_identity:'') actor"
    and key: "normalize_user_id uid \<noteq> lit ''actor_identity:''"
    and up: "F (lit ''find_record_by_field'') 0 = None" "F (lit ''delete_sessions_by_user_id'') 0 = None"
      "F (lit ''oidc_revoke_all_access_tokens'') 0 = None" "F (lit ''oidc_revoke_all_refresh_tokens'') 0 = None"
    and v: "user_key v = normalize_user_id uid"
  shows "outcome (authed_user F' E now' inst header) (request_world c (home w')) \<noteq> Inr v \<and>
    actor \<notin> session_actor ` set (sessions (home w')) \<and>
    actor \<notin> access_actor ` set (access_tokens (home w')) \<and>
    actor \<notin> refresh_actor ` set (refresh_tokens (home w'))"
proof -
  let ?k = "normalize_user_id uid"
  obtain w0 w1 where perm: "on_home (require_permission F (user_key admin) users_write) w = (Inr (), w0)"
    and change: "update_account_status F A now uid q admin ctx w0 = (Inr r, w1)"
    and rest: "revoke_issued F ?k (auth_entries_update (invalidate_user (ad_ttl A) ?k) w1) = (Inr (), w')"
    using run st by (auto simp: update_status_route_def Let_def op_success simp del: on_home_success)
  have w0: "w0 = w" using perm by (auto simp: on_home_success dest: require_permission_pure)
  note closed = update_account_status_success [OF change st up(1), unfolded w0, OF root]
  have idem: "normalize_user_id ?k = ?k" by (rule normalize_user_id_fixed [OF normalize_user_id_bare])
  let ?s = "home w1"
  let ?s1 = "sessions_update (delete_where (\<lambda>r. Some (session_actor r) = actor_of_user_row ?k ?s)) ?s"
  have d1: "delete_sessions_by_user_id F ?k ?s = (Inr (), ?s1)"
    by (simp add: delete_sessions_by_user_id_def op_success up(2))
  let ?s2 = "access_tokens_update (delete_where (\<lambda>t. owned_by ?k ?s1 (access_actor t))) ?s1"
  let ?s3 = "refresh_tokens_update (delete_where (\<lambda>t. owned_by ?k ?s2 (refresh_actor t))) ?s2"
  have d2: "revoke_all_tokens_for_user F ?k ?s1 = (Inr (), ?s3)"
    by (simp add: revoke_all_tokens_for_user_def as_text_def op_success up(3,4))
  have home: "home w' = ?s3"
    using rest d1 d2 by (auto simp: revoke_issued_def op_success op_failure)
  have mine: "actor_of_user_row ?k ?s = Some actor" using closed(2) by (simp add: closed_account_def)
  then have "owned_by ?k t actor" if "users t = users ?s" for t :: oidc_world
    using that user_key_not_actor [OF closed(1) key]
    by (auto simp: owned_by_def Let_def actor_of_user_row_def idem)
  then have gone: "actor \<notin> session_actor ` set (sessions ?s3)" "actor \<notin> access_actor ` set (access_tokens ?s3)"
      "actor \<notin> refresh_actor ` set (refresh_tokens ?s3)"
    using mine by auto
  have "closed_account (user_key v) actor ?s3"
    using closed(2) by (simp add: closed_account_def actor_of_user_row_def actor_row_def v)
  from closed_account_refused [OF this root(2)] gone show ?thesis by (simp add: home)
qed

section \<open>Membership\<close>

lemma membership_row_success: "membership_row F now uid m s = (Inr u, t) \<Longrightarrow>
  t = s \<and> (\<exists>v level. user_by_id uid s = Some v \<and> normalize_membership_level (mr_level m) = Inr level \<and>
    u = v\<lparr>membership_level := level, membership_expiry := mr_expiry m, user_updated_at := now\<rparr>)"
  by (auto simp: membership_row_def op_success)

lemma update_user_success: "update_user F V l u s = (Inr (), t) \<Longrightarrow>
  user_key u \<in> user_key ` set (users s) \<and> t = users_update (update_where (\<lambda>q. user_key q = user_key u) (\<lambda>_. u)) s"
  by (auto simp: update_user_def replace_row_def op_success split: if_splits option.splits)

lemma find_replaced: "key u \<in> key ` set rows \<Longrightarrow>
  find (\<lambda>q. key q = key u) (update_where (\<lambda>q. key q = key u) (\<lambda>_. u) rows) = Some u"
  by (induction rows) auto

text \<open>
  C26: a change of membership that was begun before an administrator took the account out of the
  active state, and is written after it, makes the account row active again.
\<close>

theorem membership_undoes_suspension:
  assumes begun: "membership_row F now uid m (home w) = (Inr u, s)"
    and active: "ensure_usable u = Inr ()" and key: "user_key u = normalize_user_id uid"
    and change: "update_account_status F' A now' uid q admin ctx w = (Inr r, w')" "us_status q \<noteq> AccActive"
    and ended: "update_user F'' V ''update_record'' u (home w') = (Inr (), t)"
  shows "(\<exists>v. find (\<lambda>v. user_key v = user_key u) (users (home w')) = Some v \<and> ensure_usable v \<noteq> Inr ()) \<and>
    find (\<lambda>v. user_key v = user_key u) (users t) = Some u \<and> ensure_usable u = Inr ()"
proof -
  have there: "user_key u \<in> user_key ` set (users (home w'))" and t: "find (\<lambda>v. user_key v = user_key u) (users t) = Some u"
    using update_user_success [OF ended] by (auto simp: find_replaced)
  obtain v where v: "find (\<lambda>v. user_key v = user_key u) (users (home w')) = Some v"
    using there by (cases "find (\<lambda>v. user_key v = user_key u) (users (home w'))") (auto simp: find_None_all)
  then obtain v0 where "v = v0\<lparr>user_status := account_status_str (us_status q), user_updated_at := now'\<rparr>"
    unfolding update_account_status_users [OF change(1)] key by (auto simp: find_changed)
  then have "ensure_usable v \<noteq> Inr ()" using change(2) by (simp add: account_status_str_active)
  with v t active show ?thesis by blast
qed

section \<open>The activity log\<close>

text \<open>
  The activity log of a user id that names no user lists, unfiltered, every event that has no
  actor at all; and no row of any log says whose it is.
\<close>

theorem unknown_user_log:
  assumes run: "get_user_activity_log F A uid q w = (Inr p, w')"
    and none: "actor_of_user_row uid (home w) = None"
    and plain: "al_category q = None" "al_status q = None" "al_start q = None" "al_end q = None"
  shows "map ar_action (page_items p) = map act_action (page_of (page_window (al_page q) (al_limit q))
      (rev (sort_key act_timestamp (filter (\<lambda>r. act_actor r = None) (activity_rows w))))) \<and>
    page_total p = count_where (\<lambda>r. act_actor r = None) (activity_rows w) \<and>
    ar_actor ` set (page_items p) \<subseteq> {[]}"
proof -
  have m: "activity_matches uid q w = (\<lambda>r. act_actor r = None)"
    by (rule ext) (simp add: activity_matches_def none plain matches_opt_def)
  have shown: "those (map (activity_response_of A) rows) = Some items \<Longrightarrow>
      map ar_action items = map act_action rows \<and> ar_actor ` set items \<subseteq> {[]}" for rows items
  proof (induction rows arbitrary: items)
    case (Cons r rows)
    then obtain x xs where x: "activity_response_of A r = Some x" and xs: "items = x # xs"
      "those (map (activity_response_of A) rows) = Some xs"
      by (auto split: option.splits)
    have "ar_action x = act_action r \<and> ar_actor x = []"
      using x by (auto simp: activity_response_of_def strip_table_def split: option.splits)
    then show ?case using Cons.IH [OF xs(2)] xs(1) by simp
  qed simp
  from run show ?thesis
    by (clarsimp simp: get_user_activity_log_def Let_def op_success m page_response_of_def dest!: shown)
qed

section \<open>Profiles\<close>

lemma find_at_end: "find P (xs @ [x]) = (case find P xs of None \<Rightarrow> if P x then Some x else None | Some y \<Rightarrow> Some y)"
  by (induction xs) auto

lemma get_user_profile_pure: "get_user_profile F uid w = (x, w') \<Longrightarrow> w' = w"
  by (cases x) (auto simp: get_user_profile_def actor_ref_of_user_def op_success op_failure)

text \<open>
  a profile that was created is the one that is read back, a second one is refused, and an update
  changes exactly the fields it names.
\<close>

theorem profile_round_trip:
  assumes run: "create_user_profile F A now key uid q ctx w = (Inr p, w')"
  shows "get_user_profile no_faults uid w' = (Inr p, w') \<and>
    outcome (create_user_profile no_faults A now2 key2 uid q2 ctx2) w' =
      Inl (ValidationError (lit ''User profile already exists'')) \<and>
    outcome (update_user_profile no_faults A now3 uid q3 ctx3) w' = Inr (patch_profile now3 q3 p)"
proof -
  obtain actor where a: "actor_of_user_row uid (home w) = Some actor"
    and there: "list_ex (\<lambda>r. actor_key r = actor) (actors (home w))"
    and p: "p = new_profile now key actor q"
    and free: "index_conflict profile_indexes p (profiles w) = None"
    and w': "home w' = home w" "profiles w' = profiles w @ [p]"
    using run
    by (auto simp: create_user_profile_def actor_ref_of_user_def Let_def op_success insert_row_def
        log_user_activity_def split: option.splits if_splits dest!: get_user_profile_pure)
  have "find (\<lambda>r. pf_actor r = actor) (profiles w) = None"
    using free by (auto simp: index_conflict_None profile_indexes_def p new_profile_def find_None_all)
  then have found: "find (\<lambda>r. pf_actor r = actor) (profiles w') = Some p"
    by (simp add: w' find_at_end p new_profile_def split: option.split)
  have get: "get_user_profile no_faults uid w' = (Inr p, w')"
    using a found by (simp add: get_user_profile_def actor_ref_of_user_def on_home_def zoom_def as_db_error_def op_eval w')
  have same: "w'\<lparr>home := home w\<rparr> = w'" by (simp add: w'(1) [symmetric])
  have get1: "get_user_profile (later_faults no_faults 1) uid w' = (Inr p, w')"
    using get by (simp add: later_faults_def no_faults_def)
  have again: "outcome (create_user_profile no_faults A now2 key2 uid q2 ctx2) w' =
      Inl (ValidationError (lit ''User profile already exists''))"
    using a there get1 by (simp add: outcome_def create_user_profile_def actor_ref_of_user_def on_home_def zoom_def
        as_db_error_def op_eval w' same)
  have mine: "find (\<lambda>r. Some (pf_actor r) = actor_of_user_row uid (home w'))
      (update_where (\<lambda>r. Some (pf_actor r) = actor_of_user_row uid (home w')) (patch_profile now3 q3) (profiles w'))
      = Some (patch_profile now3 q3 p)"
    using found find_changed [of pf_actor "patch_profile now3 q3" actor "profiles w'"]
    by (simp add: w' a patch_profile_def)
  have "outcome (update_user_profile no_faults A now3 uid q3 ctx3) w' = Inr (patch_profile now3 q3 p)"
    using get mine by (simp add: outcome_def update_user_profile_def as_db_error_def op_eval log_user_activity_def Let_def)
  with get again show ?thesis by blast
qed

section \<open>Examples\<close>

definition admin_home :: oidc_world where
  "admin_home = store.extend (empty_store\<lparr>users := [sample_user],
       actors := [new_local (lit ''a1'') (lit ''s1'') Human 0]\<rparr>)
     \<lparr>roles = [demo_admin], permissions = [demo_permission\<lparr>permission_name := users_write\<rparr>],
      user_roles = [\<lparr>ur_key = lit ''l1'', ur_actor = lit ''a1'', ur_role = lit ''admin'', ur_assigned_at = 0,
        ur_assigned_by = lit ''system''\<rparr>],
      role_permissions = [\<lparr>rp_key = lit ''g1'', rp_role = lit ''admin'', rp_permission = lit ''p1'', rp_granted_at = 0,
        rp_granted_by = lit ''system''\<rparr>],
      clients = [], codes = [], access_tokens = [], refresh_tokens = []\<rparr>"

definition admin_demo :: admin_world where
  "admin_demo = \<lparr>home = admin_home, profiles = [], preference_rows = [],
     activity_rows = [\<lparr>act_actor = None, act_action = lit ''login_failed'', act_category = lit ''Security'',
       act_status = lit ''Failed'', act_ip_address = [], act_user_agent = [], act_details = JObj [],
       act_timestamp = 3, act_chain = None, act_seq = None, act_previous = None, act_hash = None,
       act_key = lit ''e1''\<rparr>],
     auth_entries = Mapping.empty, journal = []\<rparr>"

definition admin_conditions :: admin_env where
  "admin_conditions = \<lparr>ad_ttl = Some 30, ad_logger = True, ad_conflict = (\<lambda>n. DatabaseError (lit n)),
     ad_row_text = (\<lambda>r. lit ''user_activity:'' @ act_key r), ad_parse_error = (\<lambda>_. [])\<rparr>"

definition suspension :: status_request where
  "suspension = \<lparr>us_status = AccSuspended, us_reason = None\<rparr>"

abbreviation no_context :: request_context where
  "no_context \<equiv> \<lparr>ctx_ip = [], ctx_agent = []\<rparr>"

lemma admin_tables [simp]:
  "users admin_home = [sample_user]" "actors admin_home = [new_local (lit ''a1'') (lit ''s1'') Human 0]"
  "home admin_demo = admin_home" "admin_demo\<lparr>home := admin_home\<rparr> = admin_demo" "profiles admin_demo = []" "journal admin_demo = []"
  by (simp_all add: admin_home_def admin_demo_def empty_store_def store.defs)

lemma admin_keys: "user_key sample_user = lit ''u1''" "subject_id sample_user = Some (lit ''a1'')"
  "bare_key (lit ''actor_identity:'') (lit ''a1'')" "lit ''u1'' \<noteq> lit ''actor_identity:''"
  by (simp_all add: sample_user_def bare_key_eval lit_def delim_def delimiters_def is_whitespace_def)

lemma admin_row: "actor_of_user_row (lit ''u1'') admin_home = Some (lit ''a1'')"
  by (simp add: actor_of_user_row_def demo_key admin_keys)

lemma admin_permitted: "require_permission no_faults (lit ''u1'') users_write admin_home = (Inr (), admin_home)"
proof -
  have "permissions admin_home = [demo_permission\<lparr>permission_name := users_write\<rparr>]"
      "map ur_actor (user_roles admin_home) = [lit ''a1'']" "map ur_role (user_roles admin_home) = [lit ''admin'']"
      "map rp_role (role_permissions admin_home) = [lit ''admin'']"
      "map rp_permission (role_permissions admin_home) = [lit ''p1'']"
    by (simp_all add: admin_home_def empty_store_def store.defs)
  then have "0 < permission_count (lit ''u1'') users_write admin_home"
    by (simp add: permission_count_def assignments_of_def admin_row count_where_def demo_permission_def
        map_eq_Cons_conv) auto
  then show ?thesis
    by (simp add: require_permission_def check_user_permission_def demo_key op_eval)
qed

lemma admin_user_id: "user_record_id_err (lit ''u1'') = Inr (lit ''u1'')"
proof -
  have "foreign_table_prefix (lit ''u1'') = None" by (simp add: foreign_table_prefix_def lit_def)
  then show ?thesis by (simp add: user_record_id_err_def user_record_id_def demo_key)
qed

lemma admin_suspends: "\<exists>r w'. update_account_status no_faults admin_conditions 5 (lit ''u1'') suspension sample_user
    no_context admin_demo = (Inr r, w')"
proof -
  have sync: "\<exists>w'. sync_subject no_faults 5 AccSuspended (Some a) w = (Inr (), w')" for a w
    by (cases "actor_by_id (lit ''actor_identity:'' @ a) (home w)")
      (simp_all add: sync_subject_def sync_root_def set_status_def on_home_def zoom_def op_eval db_read_def
        db_write_def database_up_def no_faults_def)
  let ?w = "admin_demo\<lparr>home := users_update (update_where (\<lambda>v. user_key v = lit ''u1'')
    (\<lambda>v. v\<lparr>user_status := account_status_str AccSuspended, user_updated_at := 5\<rparr>)) admin_home\<rparr>"
  obtain w' where "sync_subject no_faults 5 AccSuspended (Some (lit ''a1'')) ?w = (Inr (), w')" using sync by blast
  then show ?thesis
    by (simp add: update_account_status_def admin_user_id op_eval on_home_def zoom_def as_db_error_def
        db_read_def db_write_def database_up_def no_faults_def admin_keys suspension_def log_user_activity_def)
qed

theorem suspended_everywhere_witness:
  "\<exists>r w'. update_status_route no_faults admin_conditions 5 sample_user (lit ''u1'') suspension no_context admin_demo
      = (Inr r, w') \<and>
    (\<forall>E now inst header c. outcome (authed_user no_faults E now inst header) (request_world c (home w')) \<noteq> Inr sample_user)"
proof -
  obtain r w1 where "update_account_status no_faults admin_conditions 5 (lit ''u1'') suspension sample_user
    no_context admin_demo = (Inr r, w1)" using admin_suspends by blast
  moreover have "\<exists>w'. revoke_issued no_faults (lit ''u1'') w = (Inr (), w')" for w
    by (simp add: revoke_issued_def delete_sessions_by_user_id_def revoke_all_tokens_for_user_def as_text_def
        on_home_def zoom_def op_eval db_write_def database_up_def no_faults_def)
  then obtain w' where "revoke_issued no_faults (lit ''u1'')
      (auth_entries_update (invalidate_user (ad_ttl admin_conditions) (lit ''u1'')) w1) = (Inr (), w')" by blast
  ultimately have run: "update_status_route no_faults admin_conditions 5 sample_user (lit ''u1'') suspension
      no_context admin_demo = (Inr r, w')"
    by (simp add: update_status_route_def op_success on_home_def zoom_def admin_permitted admin_keys demo_key
        Let_def op_eval suspension_def)
  show ?thesis
    using run suspended_everywhere [OF run, of "lit ''a1''" sample_user no_faults]
    by (fastforce simp: suspension_def demo_key admin_keys admin_row no_faults_def)
qed

definition gold :: membership_request where
  "gold = \<lparr>mr_level = lit ''gold'', mr_expiry = None\<rparr>"

theorem membership_undoes_suspension_witness:
  "\<exists>u r w' t. membership_row no_faults 4 (lit ''u1'') gold admin_home = (Inr u, admin_home) \<and>
    update_account_status no_faults admin_conditions 5 (lit ''u1'') suspension sample_user no_context admin_demo
      = (Inr r, w') \<and>
    update_user no_faults (\<lambda>n. DatabaseError (lit n)) ''update_record'' u (home w') = (Inr (), t) \<and>
    find (\<lambda>v. user_key v = lit ''u1'') (users t) = Some u \<and> ensure_usable u = Inr ()"
proof -
  let ?u = "sample_user\<lparr>membership_level := lit ''GOLD'', membership_expiry := None, user_updated_at := 4\<rparr>"
  obtain r w' where change: "update_account_status no_faults admin_conditions 5 (lit ''u1'') suspension sample_user
    no_context admin_demo = (Inr r, w')" using admin_suspends by blast
  have "user_by_id (lit ''u1'') admin_home = Some sample_user"
    by (simp add: user_by_id_def record_address_key_def admin_keys) (simp add: lit_def)
  moreover have "normalize_membership_level (lit ''gold'') = Inr (lit ''GOLD'')"
    by (simp add: normalize_membership_level_def lit_def trim_by_def is_whitespace_def ascii_upper_def char_classes
        byte_len_def utf8_char_def)
  ultimately have begun: "membership_row no_faults 4 (lit ''u1'') gold (home admin_demo) = (Inr ?u, admin_home)"
    by (simp add: membership_row_def gold_def op_eval)
  have rows: "users (home w') = [sample_user\<lparr>user_status := account_status_str AccSuspended, user_updated_at := 5\<rparr>]"
    using update_account_status_users [OF change] by (simp add: demo_key admin_keys suspension_def)
  have "\<exists>t. update_user no_faults (\<lambda>n. DatabaseError (lit n)) ''update_record'' ?u (home w') = (Inr (), t)"
    by (simp add: update_user_def replace_row_def rows index_conflict_def user_indexes_def
        op_eval database_up_def no_faults_def)
  then obtain t where ended: "update_user no_faults (\<lambda>n. DatabaseError (lit n)) ''update_record'' ?u (home w')
      = (Inr (), t)" by blast
  have "ensure_usable ?u = Inr ()" by (simp add: sample_user_def)
  from membership_undoes_suspension [OF begun this _ change _ ended] begun change ended
  show ?thesis by (fastforce simp: admin_keys demo_key suspension_def)
qed

definition whole_log :: activity_log_request where
  "whole_log = \<lparr>al_page = None, al_limit = None, al_category = None, al_status = None, al_start = None, al_end = None\<rparr>"

theorem unknown_user_log_witness:
  "\<exists>p. fst (get_user_activity_log no_faults admin_conditions (lit ''u2'') whole_log admin_demo) = Inr p \<and>
    page_total p = 1 \<and> map ar_action (page_items p) = [lit ''login_failed'']"
proof -
  have none: "actor_of_user_row (lit ''u2'') (home admin_demo) = None"
    by (simp add: actor_of_user_row_def demo_key admin_keys)
  then have m: "activity_matches (lit ''u2'') whole_log admin_demo = (\<lambda>r. act_actor r = None)"
    by (simp add: fun_eq_iff activity_matches_def whole_log_def matches_opt_def)
  have "\<exists>p. get_user_activity_log no_faults admin_conditions (lit ''u2'') whole_log admin_demo = (Inr p, admin_demo)"
    by (simp add: get_user_activity_log_def Let_def m as_db_error_def op_eval)
      (simp add: admin_demo_def page_of_def page_window_def whole_log_def activity_response_of_def
        parse_category_def parse_activity_status_def category_str_def activity_status_str_def lit_def op_eval
        db_read_def database_up_def no_faults_def)
  then obtain p where run: "get_user_activity_log no_faults admin_conditions (lit ''u2'') whole_log admin_demo
      = (Inr p, admin_demo)" by blast
  from unknown_user_log [OF run none] run show ?thesis
    by (simp add: whole_log_def) (simp add: admin_demo_def count_where_def page_of_def page_window_def)
qed

definition plain_form :: profile_request where
  "plain_form = \<lparr>pq_first_name = Some (lit ''Ann''), pq_last_name = None, pq_display_name = None, pq_phone = None,
     pq_date_of_birth = None, pq_timezone = None, pq_locale = None, pq_bio = None, pq_website = None,
     pq_location = None\<rparr>"

theorem profile_round_trip_witness:
  "\<exists>p w'. create_user_profile no_faults admin_conditions 5 (lit ''f1'') (lit ''u1'') plain_form no_context admin_demo
      = (Inr p, w') \<and> get_user_profile no_faults (lit ''u1'') w' = (Inr p, w')"
proof -
  have "\<exists>p w'. create_user_profile no_faults admin_conditions 5 (lit ''f1'') (lit ''u1'') plain_form no_context admin_demo
      = (Inr p, w')"
    by (simp add: create_user_profile_def get_user_profile_def actor_ref_of_user_def on_home_def zoom_def as_db_error_def
        op_eval db_read_def database_up_def admin_row Let_def new_local_def insert_row_def index_conflict_def
        log_user_activity_def later_faults_def no_faults_def profile_indexes_def)
  then show ?thesis using profile_round_trip by blast
qed

end
