(* ===== verification/Ai_Actor.thy ===== *)
theory Ai_Actor
  imports Auth_Service Audit_Log Rbac_Routes Config
begin

text \<open>
  AI actors: \<^verbatim>\<open>src/services/ai_actor.rs\<close> with the rows of \<^verbatim>\<open>src/models/ai_actor.rs\<close> and the handlers of
  \<^verbatim>\<open>src/routes/actors.rs\<close>.  An agent proves possession of an Ed25519 key: it signs a challenge that
  is stored once, bound to the actor and consumed by one conditional statement.  Ed25519, base64 and
  the JWT library are parameters; nonces, keys and clocks are arguments.
\<close>

section \<open>Rows\<close>

definition ai_actor_auth_domain :: str where
  "ai_actor_auth_domain = lit ''soulauth-ai-actor-auth/v1''"

definition challenge_ttl_seconds :: int where
  "challenge_ttl_seconds = 120"

definition allowed_algorithms :: "str list" where
  "allowed_algorithms = [lit ''ed25519'']"

definition ed25519_public_key_len :: nat where
  "ed25519_public_key_len = 32"

definition ed25519_signature_len :: nat where
  "ed25519_signature_len = 64"

record agent_key =
  ak_key :: str
  ak_actor :: str
  ak_public_key :: str
  ak_algorithm :: str
  ak_label :: str
  ak_status :: str
  ak_created_at :: int
  ak_revoked_at :: "int option"
  ak_last_used_at :: "int option"

definition new_agent_key :: "int \<Rightarrow> str \<Rightarrow> str \<Rightarrow> str \<Rightarrow> str \<Rightarrow> agent_key" where
  "new_agent_key now key actor public label =
    \<lparr>ak_key = key, ak_actor = actor, ak_public_key = public, ak_algorithm = hd allowed_algorithms,
     ak_label = label, ak_status = credential_status_str CredentialActive, ak_created_at = now,
     ak_revoked_at = None, ak_last_used_at = None\<rparr>"

definition key_can_authenticate :: "agent_key \<Rightarrow> bool" where
  "key_can_authenticate k \<longleftrightarrow> parse_credential_status (ak_status k) = CredentialActive \<and>
    ak_algorithm k \<in> set allowed_algorithms"

record agent_challenge =
  ch_key :: str
  ch_actor :: str
  ch_nonce :: str
  ch_issued_at :: int
  ch_expires_at :: int
  ch_consumed :: bool

text \<open>The text that is signed: four lines, without a line break at the end.\<close>

definition canonical_payload :: "str \<Rightarrow> str \<Rightarrow> str \<Rightarrow> str" where
  "canonical_payload issuer actor nonce =
    ai_actor_auth_domain @ [10] @ trim_end_matches 47 issuer @ [10] @ actor @ [10] @ nonce"

definition agent_key_indexes :: "agent_key index list" where
  "agent_key_indexes = [(''id'', \<lambda>r. [ak_key r]), (''ai_actor_credential_key_idx'', \<lambda>r. [ak_public_key r])]"

definition challenge_indexes :: "agent_challenge index list" where
  "challenge_indexes = [(''id'', \<lambda>r. [ch_key r]), (''ai_actor_challenge_nonce_idx'', \<lambda>r. [ch_nonce r])]"

section \<open>State and environment\<close>

record agent_world = rbac_world +
  agent_keys :: "agent_key list"
  challenges :: "agent_challenge list"
  agent_journal :: "audit_event list"

type_synonym 'a agent_op = "(agent_world, 'a) handler"

record agent_env = auth_env +
  url_decode :: "str \<Rightarrow> bytes option"
  url_encode :: "bytes \<Rightarrow> str"
  curve_point :: "bytes \<Rightarrow> bool"
  ed_check :: "bytes \<Rightarrow> bytes \<Rightarrow> bytes \<Rightarrow> bool"
  agent_app_url :: str
  key_ref_text :: "str \<Rightarrow> str"

section \<open>Keys and signatures\<close>

definition actor_address :: "str \<Rightarrow> str" where
  "actor_address key = lit ''actor_identity:'' @ key"

definition key_reference :: "str \<Rightarrow> str" where
  "key_reference key = lit ''ai_actor_credential:'' @ key"

definition validate_public_key :: "agent_env \<Rightarrow> str \<Rightarrow> auth_error + unit" where
  "validate_public_key A public =
    (case url_decode A public of
       None \<Rightarrow> Inl (BadRequest (lit ''public_key must be base64url (no padding)''))
     | Some raw \<Rightarrow>
         if length raw \<noteq> ed25519_public_key_len
         then Inl (BadRequest (lit ''public_key must decode to exactly 32 bytes''))
         else if \<not> curve_point A raw
         then Inl (BadRequest (lit ''public_key is not a valid Ed25519 key''))
         else Inr ())"

definition decode_signature :: "agent_env \<Rightarrow> str \<Rightarrow> auth_error + bytes" where
  "decode_signature A sig =
    (case url_decode A sig of
       None \<Rightarrow> Inl (BadRequest (lit ''signature must be base64url (no padding)''))
     | Some raw \<Rightarrow>
         if length raw \<noteq> ed25519_signature_len
         then Inl (BadRequest (lit ''signature must decode to exactly 64 bytes''))
         else Inr raw)"

text \<open>A key that cannot be read does not match.\<close>

definition verify_with :: "agent_env \<Rightarrow> str \<Rightarrow> bytes \<Rightarrow> bytes \<Rightarrow> bool" where
  "verify_with A public payload sig =
    (case url_decode A public of
       None \<Rightarrow> False
     | Some raw \<Rightarrow> length raw = ed25519_public_key_len \<and> curve_point A raw \<and> ed_check A raw payload sig)"

section \<open>Registration and keys\<close>

definition require_ai_actor :: "faults \<Rightarrow> str \<Rightarrow> ('x store_scheme, actor_identity) handler" where
  "require_ai_actor F key =
    bind (find_actor_by_id F key) (\<lambda>found.
    bind (the_or found (NotFound (lit ''Actor not found''))) (\<lambda>a.
    seq (require (actor_kind a = kind_str AiActor) (NotFound (lit ''Actor not found''))) (ret a)))"

definition duplicate_key_error :: "auth_error \<Rightarrow> auth_error" where
  "duplicate_key_error e =
    (case e of
       DatabaseError m \<Rightarrow>
         if contains (lit ''already contains'') m \<and> contains (lit ''ai_actor_credential_key_idx'') m
         then BadRequest (lit ''This public key is already registered'') else e
     | _ \<Rightarrow> e)"

definition add_credential_for :: "faults \<Rightarrow> conflict_report \<Rightarrow> int \<Rightarrow> str \<Rightarrow> str \<Rightarrow> str \<Rightarrow> str \<Rightarrow> agent_key agent_op" where
  "add_credential_for F V now key actor public label =
    (let k = new_agent_key now key actor public label in
     map_error duplicate_key_error (seq (database_up F ''create_ai_actor_credential'')
       (seq (insert_row V agent_key_indexes agent_keys agent_keys_update k) (ret k))))"

definition register_agent :: "faults \<Rightarrow> conflict_report \<Rightarrow> agent_env \<Rightarrow> int \<Rightarrow> str \<Rightarrow> str \<Rightarrow> str \<Rightarrow> str \<Rightarrow> str \<Rightarrow>
    (actor_identity \<times> agent_key) agent_op" where
  "register_agent F V A now actor subject key public label =
    seq (lift_result (validate_public_key A public))
    (bind (create_ai_actor F V now actor subject) (\<lambda>a.
     bind (add_credential_for F V now key (actor_key a) public label) (\<lambda>k.
     ret (a, k))))"

definition add_credential :: "faults \<Rightarrow> conflict_report \<Rightarrow> agent_env \<Rightarrow> int \<Rightarrow> str \<Rightarrow> str \<Rightarrow> str \<Rightarrow> str \<Rightarrow>
    agent_key agent_op" where
  "add_credential F V A now key actor public label =
    seq (lift_result (validate_public_key A public))
    (bind (require_ai_actor F actor) (\<lambda>a.
     add_credential_for F V now key (actor_key a) public label))"

text \<open>
  Revocation changes the status of the one key, if it belongs to the actor and is active, and then
  deletes the sessions whose reference equals the text the database gave for that key.
\<close>

definition revocable :: "str \<Rightarrow> str \<Rightarrow> agent_key \<Rightarrow> bool" where
  "revocable actor key k \<longleftrightarrow> ak_key k = key \<and> ak_actor k = actor \<and>
    ak_status k = credential_status_str CredentialActive"

definition revoke_credential :: "faults \<Rightarrow> agent_env \<Rightarrow> int \<Rightarrow> str \<Rightarrow> str \<Rightarrow> unit agent_op" where
  "revoke_credential F A now actor key =
    bind (db_exec F ''ai_actor_revoke_credential'' (\<lambda>s.
      (map (\<lambda>k. key_ref_text A (ak_key k)) (filter (revocable actor key) (agent_keys s)),
       agent_keys_update (update_where (revocable actor key) (\<lambda>k. k\<lparr>
         ak_status := credential_status_str CredentialRevoked, ak_revoked_at := Some now\<rparr>)) s))) (\<lambda>updated.
    seq (require (updated \<noteq> []) (NotFound (lit ''Credential not found'')))
    (if hd updated = [] then ret ()
     else db_write F ''ai_actor_revoke_sessions_of_credential'' (sessions_update
       (delete_where (\<lambda>r. session_actor r = actor \<and> session_credential_ref r = Some (hd updated))))))"

definition set_actor_status :: "faults \<Rightarrow> int \<Rightarrow> str \<Rightarrow> actor_status \<Rightarrow> ('x store_scheme, unit) handler" where
  "set_actor_status F now key st =
    bind (find_actor_by_id F key) (\<lambda>found.
    bind (the_or found (NotFound (lit ''Actor not found''))) (\<lambda>a.
    seq (require (parse_kind (actor_kind a) = Some AiActor)
      (Forbidden (lit ''This endpoint only manages AI actors'')))
    (seq (require (parse_actor_status (actor_status a) \<noteq> ActorRetired)
      (Forbidden (lit ''A retired actor cannot change status; its subject must never be reused'')))
    (seq (set_status F now (actor_key a) st)
    (if st \<noteq> ActorActive
     then db_write F ''ai_actor_revoke_sessions_on_status_change''
       (sessions_update (delete_where (\<lambda>r. session_actor r = key)))
     else ret ())))))"

definition list_credentials :: "faults \<Rightarrow> str \<Rightarrow> agent_key list agent_op" where
  "list_credentials F actor =
    db_read F ''ai_actor_list_credentials'' (\<lambda>s.
      rev (sort_key ak_created_at (filter (\<lambda>k. ak_actor k = actor) (agent_keys s))))"

section \<open>Authentication\<close>

record issued_challenge =
  ic_actor_id :: str
  ic_nonce :: str
  ic_expires_at :: int
  ic_payload :: str
  ic_algorithm :: str

definition issue_challenge :: "faults \<Rightarrow> conflict_report \<Rightarrow> agent_env \<Rightarrow> int \<Rightarrow> str \<Rightarrow> bytes \<Rightarrow> str \<Rightarrow>
    issued_challenge agent_op" where
  "issue_challenge F V A now key raw actor =
    bind (map_error (\<lambda>_. InvalidCredentials) (require_ai_actor F actor)) (\<lambda>a.
    seq (require (actor_can_authenticate a) InvalidCredentials)
    (let nonce = url_encode A raw in
     seq (database_up F ''create_ai_actor_challenge'')
     (seq (insert_row V challenge_indexes challenges challenges_update
       \<lparr>ch_key = key, ch_actor = actor_key a, ch_nonce = nonce, ch_issued_at = now,
        ch_expires_at = now + challenge_ttl_seconds, ch_consumed = False\<rparr>)
     (ret \<lparr>ic_actor_id = actor_address actor, ic_nonce = nonce, ic_expires_at = now + challenge_ttl_seconds,
       ic_payload = canonical_payload (agent_app_url A) (actor_address actor) nonce,
       ic_algorithm = hd allowed_algorithms\<rparr>))))"

definition claimable_challenge :: "int \<Rightarrow> str \<Rightarrow> str \<Rightarrow> agent_challenge \<Rightarrow> bool" where
  "claimable_challenge now actor nonce c \<longleftrightarrow> ch_nonce c = nonce \<and> \<not> ch_consumed c \<and>
    now < ch_expires_at c \<and> ch_actor c = actor"

definition consume_challenge :: "faults \<Rightarrow> int \<Rightarrow> str \<Rightarrow> str \<Rightarrow> nat agent_op" where
  "consume_challenge F now actor nonce =
    db_exec F ''ai_actor_consume_challenge'' (\<lambda>s.
      (count_where (claimable_challenge now actor nonce) (challenges s),
       challenges_update (update_where (claimable_challenge now actor nonce) (\<lambda>c. c\<lparr>ch_consumed := True\<rparr>)) s))"

text \<open>The proof of possession: everything of \<^verbatim>\<open>authenticate\<close> up to the key that matched.\<close>

definition prove_possession :: "faults \<Rightarrow> agent_env \<Rightarrow> int \<Rightarrow> str \<Rightarrow> str \<Rightarrow> str \<Rightarrow> str \<Rightarrow>
    (actor_identity \<times> agent_key) agent_op" where
  "prove_possession F A now actor nonce algorithm sig64 =
    seq (require (algorithm \<in> set allowed_algorithms)
      (BadRequest (lit ''Unsupported algorithm; only ed25519 is accepted'')))
    (bind (lift_result (decode_signature A sig64)) (\<lambda>sig.
     bind (consume_challenge F now actor nonce) (\<lambda>n.
     seq (require (n = 1) InvalidCredentials)
     (bind (map_error (\<lambda>_. InvalidCredentials) (require_ai_actor F actor)) (\<lambda>a.
      seq (require (actor_can_authenticate a) InvalidCredentials)
      (bind (list_credentials F actor) (\<lambda>ks.
       bind (the_or (find (\<lambda>k. key_can_authenticate k \<and> verify_with A (ak_public_key k)
           (as_bytes (canonical_payload (agent_app_url A) (actor_address actor) nonce)) sig) ks)
         InvalidCredentials) (\<lambda>k.
       ret (a, k)))))))))"

definition touch_credential :: "faults \<Rightarrow> int \<Rightarrow> agent_key \<Rightarrow> unit agent_op" where
  "touch_credential F now k =
    catch (db_write F ''ai_actor_touch_credential'' (agent_keys_update
      (update_where (\<lambda>r. ak_key r = ak_key k) (\<lambda>r. r\<lparr>ak_last_used_at := Some now\<rparr>)))) (\<lambda>_. ret ()) ret"

record authenticated_actor =
  aa_fact :: authentication_fact
  aa_token :: str
  aa_expires_at :: int
  aa_label :: str

definition agent_claims :: "agent_env \<Rightarrow> int \<Rightarrow> str \<Rightarrow> str \<Rightarrow> claims" where
  "agent_claims A now session actor =
    \<lparr>claims_sub = actor, claims_exp = now + session_ttl_seconds (auth_env.truncate A), claims_iat = now,
     claims_session = Some session, claims_subject = Some AgentSubject\<rparr>"

definition agent_session :: "agent_env \<Rightarrow> int \<Rightarrow> str \<Rightarrow> str \<Rightarrow> request_context \<Rightarrow> str \<Rightarrow> agent_key \<Rightarrow> session" where
  "agent_session A now session token ctx actor k =
    \<lparr>session_key = session, session_actor = actor, session_token_hash = hash_bearer (hashing A) token,
     session_expires_at = now + session_ttl_seconds (auth_env.truncate A), session_created_at = now,
     session_user_agent = ctx_agent ctx, session_ip = ctx_ip ctx,
     session_credential_kind = Some (method_str MEd25519Key),
     session_credential_ref = Some (key_reference (ak_key k)), session_credential_label = Some (ak_label k),
     session_authenticated_at = Some now, session_methods = Some [method_str MEd25519Key],
     session_credential_refs = Some [key_reference (ak_key k)]\<rparr>"

definition issue_session :: "faults \<Rightarrow> conflict_report \<Rightarrow> agent_env \<Rightarrow> int \<Rightarrow> str \<Rightarrow> request_context \<Rightarrow>
    actor_identity \<Rightarrow> agent_key \<Rightarrow> authenticated_actor agent_op" where
  "issue_session F V A now session ctx a k =
    bind (lift_result (case jwt_encode (jwt A) (config_jwt_secret A)
        (SessionToken (agent_claims A now session (actor_key a))) of
      Inl e \<Rightarrow> Inl (TokenError e) | Inr t \<Rightarrow> Inr t)) (\<lambda>token.
    seq (database_up F ''create_session'')
    (seq (insert_row V session_indexes sessions sessions_update (agent_session A now session token ctx (actor_key a) k))
    (ret \<lparr>aa_fact = fact_ai_actor (actor_address (actor_key a)) (key_reference (ak_key k)) now, aa_token = token,
       aa_expires_at = now + session_ttl_seconds (auth_env.truncate A), aa_label = ak_label k\<rparr>)))"

definition authenticate :: "faults \<Rightarrow> conflict_report \<Rightarrow> agent_env \<Rightarrow> int \<Rightarrow> str \<Rightarrow> request_context \<Rightarrow> str \<Rightarrow> str \<Rightarrow>
    str \<Rightarrow> str \<Rightarrow> authenticated_actor agent_op" where
  "authenticate F V A now session ctx actor nonce algorithm sig64 =
    bind (prove_possession F A now actor nonce algorithm sig64) (\<lambda>(a, k).
    seq (touch_credential F now k) (issue_session F V A now session ctx a k))"

section \<open>Handlers\<close>

definition strip_actor_prefix :: "str \<Rightarrow> str" where
  "strip_actor_prefix v = (case strip_prefix (lit ''actor_identity:'') v of None \<Rightarrow> v | Some k \<Rightarrow> k)"

definition normalize_label :: "str \<Rightarrow> str" where
  "normalize_label raw = (let t = trim raw in if t = [] then lit ''unnamed'' else take 64 t)"

definition register_route :: "faults \<Rightarrow> conflict_report \<Rightarrow> agent_env \<Rightarrow> int \<Rightarrow> str \<Rightarrow> str \<Rightarrow> str \<Rightarrow> user \<Rightarrow> str \<Rightarrow> str \<Rightarrow>
    (actor_identity \<times> agent_key) agent_op" where
  "register_route F V A now actor subject key u public label =
    seq (require_permission F (user_key u) actors_write)
      (register_agent F V A now actor subject key public (normalize_label label))"

definition list_actors_route :: "faults \<Rightarrow> user \<Rightarrow> actor_identity list agent_op" where
  "list_actors_route F u = seq (require_permission F (user_key u) actors_read) (list_ai_actors F)"

definition get_actor_route :: "faults \<Rightarrow> user \<Rightarrow> str \<Rightarrow> actor_identity agent_op" where
  "get_actor_route F u actor =
    seq (require_permission F (user_key u) actors_read)
    (bind (find_actor_by_id F (strip_actor_prefix actor)) (\<lambda>found.
     the_or found (NotFound (lit ''Actor not found''))))"

definition list_credentials_route :: "faults \<Rightarrow> user \<Rightarrow> str \<Rightarrow> agent_key list agent_op" where
  "list_credentials_route F u actor =
    seq (require_permission F (user_key u) actors_read) (list_credentials F (strip_actor_prefix actor))"

definition add_credential_route :: "faults \<Rightarrow> conflict_report \<Rightarrow> agent_env \<Rightarrow> int \<Rightarrow> str \<Rightarrow> user \<Rightarrow> str \<Rightarrow> str \<Rightarrow> str \<Rightarrow>
    agent_key agent_op" where
  "add_credential_route F V A now key u actor public label =
    seq (require_permission F (user_key u) actors_write)
      (add_credential F V A now key (strip_actor_prefix actor) public (normalize_label label))"

definition revoke_credential_route :: "faults \<Rightarrow> agent_env \<Rightarrow> int \<Rightarrow> user \<Rightarrow> str \<Rightarrow> str \<Rightarrow> unit agent_op" where
  "revoke_credential_route F A now u actor credential =
    seq (require_permission F (user_key u) actors_write)
      (revoke_credential F A now (strip_actor_prefix actor)
        (case strip_prefix (lit ''ai_actor_credential:'') credential of None \<Rightarrow> credential | Some k \<Rightarrow> k))"

definition parse_requested_status :: "str \<Rightarrow> auth_error + actor_status" where
  "parse_requested_status raw =
    (if raw = lit ''active'' then Inr ActorActive
     else if raw = lit ''suspended'' then Inr ActorSuspended
     else if raw = lit ''retired'' then Inr ActorRetired
     else Inl (ValidationError (lit ''Unknown actor status `'' @ raw @
       lit ''`; expected active, suspended or retired'')))"

definition set_status_route :: "faults \<Rightarrow> int \<Rightarrow> user \<Rightarrow> str \<Rightarrow> str \<Rightarrow> str agent_op" where
  "set_status_route F now u actor raw =
    seq (require_permission F (user_key u) actors_write)
    (bind (lift_result (parse_requested_status raw)) (\<lambda>st.
     seq (set_actor_status F now (strip_actor_prefix actor) st) (ret (actor_status_str st))))"

definition challenge_route :: "faults \<Rightarrow> conflict_report \<Rightarrow> agent_env \<Rightarrow> int \<Rightarrow> str \<Rightarrow> bytes \<Rightarrow> str \<Rightarrow>
    issued_challenge agent_op" where
  "challenge_route F V A now key raw actor = issue_challenge F V A now key raw (strip_actor_prefix actor)"

text \<open>Success is attributed to the actor; a failure only records whom the request claims to be.\<close>

definition login_success_event :: "request_context \<Rightarrow> authentication_fact \<Rightarrow> audit_event" where
  "login_success_event ctx f = with_details (JObj
      [(lit ''authenticated_at'', JNum (fact_at f)),
       (lit ''credential_refs'', JArr (map JStr (fact_credential_refs f))),
       (lit ''methods'', JArr (map (\<lambda>m. JStr (method_str m)) (fact_methods f))),
       (lit ''subject_type'', JStr (lit ''agent''))])
    (with_actor (fact_actor f)
      (new_event (lit ''login_success'') CatAuthentication StatusSuccess (ctx_ip ctx) (ctx_agent ctx)))"

definition login_failed_event :: "request_context \<Rightarrow> str \<Rightarrow> auth_error \<Rightarrow> audit_event" where
  "login_failed_event ctx claimed e = with_details (JObj
      [(lit ''claimed_actor_id'', JStr claimed), (lit ''reason'', JStr (error_code e)),
       (lit ''subject_type'', JStr (lit ''agent''))])
    (new_event (lit ''login_failed'') CatAuthentication StatusFailed (ctx_ip ctx) (ctx_agent ctx))"

definition record_agent_event :: "audit_event \<Rightarrow> unit agent_op" where
  "record_agent_event ev = writes (agent_journal_update (\<lambda>j. j @ [ev]))"

definition authenticate_route :: "faults \<Rightarrow> conflict_report \<Rightarrow> agent_env \<Rightarrow> int \<Rightarrow> str \<Rightarrow> request_context \<Rightarrow> str \<Rightarrow>
    str \<Rightarrow> str \<Rightarrow> str \<Rightarrow> authenticated_actor agent_op" where
  "authenticate_route F V A now session ctx actor nonce algorithm sig64 =
    catch (authenticate F V A now session ctx (strip_actor_prefix actor) nonce algorithm sig64)
      (\<lambda>e. seq (record_agent_event (login_failed_event ctx actor e)) (throw e))
      (\<lambda>out. seq (record_agent_event (login_success_event ctx (aa_fact out))) (ret out))"

definition me_route :: "faults \<Rightarrow> agent_env \<Rightarrow> int \<Rightarrow> str option \<Rightarrow> actor_identity agent_op" where
  "me_route F A now header = authed_actor F (jwt_env.truncate A) now header"

end
