(* ===== verification/Ai_Safety.thy ===== *)
theory Ai_Safety
  imports Ai_Actor Account_Life
begin

text \<open>
  What the authentication of agents guarantees: the grounds of a session, the single use of a nonce
  over all runs, the finality of retirement, what the revocation of a key reaches, and two places
  where the service leaves more behind than it means to.
\<close>

section \<open>The signed text\<close>

lemma split_at_line: "10 \<notin> set a \<Longrightarrow> 10 \<notin> set b \<Longrightarrow> a @ 10 # r = b @ 10 # r' \<longleftrightarrow> a = b \<and> r = r'"
  for a b :: str
proof (induction a arbitrary: b)
  case Nil
  then show ?case by (cases b) auto
next
  case (Cons x xs)
  then show ?case by (cases b) auto
qed

lemma set_trim_end: "c \<notin> set s \<Longrightarrow> c \<notin> set (trim_end_matches d s)"
  unfolding trim_end_matches_def by (auto dest: set_dropWhileD)

lemma canonical_payload_binds:
  assumes "10 \<notin> set i" "10 \<notin> set i'" "10 \<notin> set a" "10 \<notin> set a'"
  shows "canonical_payload i a n = canonical_payload i' a' n' \<longleftrightarrow>
    trim_end_matches 47 i = trim_end_matches 47 i' \<and> a = a' \<and> n = n'"
  using assms by (simp add: canonical_payload_def split_at_line set_trim_end)

section \<open>Inversion\<close>

lemma require_ai_actor_success: "require_ai_actor F key s = (Inr a, t) \<Longrightarrow>
  t = s \<and> actor_by_id (lit ''actor_identity:'' @ key) s = Some a \<and> actor_kind a = kind_str AiActor"
  by (auto simp: require_ai_actor_def find_actor_by_id_def op_success)

definition claimed :: "int \<Rightarrow> str \<Rightarrow> str \<Rightarrow> agent_challenge list \<Rightarrow> agent_challenge list" where
  "claimed now actor nonce =
    update_where (claimable_challenge now actor nonce) (\<lambda>c. c\<lparr>ch_consumed := True\<rparr>)"

definition proof_grounds :: "agent_env \<Rightarrow> int \<Rightarrow> str \<Rightarrow> str \<Rightarrow> str \<Rightarrow> agent_world \<Rightarrow> actor_identity \<Rightarrow> agent_key \<Rightarrow> bool" where
  "proof_grounds A now actor nonce sig64 s a k \<longleftrightarrow>
    count_where (claimable_challenge now actor nonce) (challenges s) = 1 \<and>
    actor_by_id (lit ''actor_identity:'' @ actor) s = Some a \<and> actor_kind a = kind_str AiActor \<and>
    actor_can_authenticate a \<and> k \<in> set (agent_keys s) \<and> ak_actor k = actor \<and> key_can_authenticate k \<and>
    (\<exists>sig. decode_signature A sig64 = Inr sig \<and> verify_with A (ak_public_key k)
      (as_bytes (canonical_payload (agent_app_url A) (actor_address actor) nonce)) sig)"

lemma prove_possession_success:
  assumes "prove_possession F A now actor nonce algorithm sig64 s = (Inr (a, k), t)"
  shows "algorithm = lit ''ed25519'' \<and> proof_grounds A now actor nonce sig64 s a k \<and>
    t = challenges_update (claimed now actor nonce) s"
proof -
  obtain sig where alg: "algorithm \<in> set allowed_algorithms" and sig: "decode_signature A sig64 = Inr sig"
    and n: "count_where (claimable_challenge now actor nonce) (challenges s) = 1"
    and a: "actor_by_id (lit ''actor_identity:'' @ actor) (challenges_update (claimed now actor nonce) s) = Some a"
      "actor_kind a = kind_str AiActor" "actor_can_authenticate a"
    and k: "find (\<lambda>k. key_can_authenticate k \<and> verify_with A (ak_public_key k)
        (as_bytes (canonical_payload (agent_app_url A) (actor_address actor) nonce)) sig)
      (rev (sort_key ak_created_at (filter (\<lambda>k. ak_actor k = actor) (agent_keys s)))) = Some k"
    and t: "t = challenges_update (claimed now actor nonce) s"
    using assms
    by (auto simp: prove_possession_def consume_challenge_def list_credentials_def claimed_def op_success
        dest!: require_ai_actor_success simp del: One_nat_def)
  have "actor_by_id (lit ''actor_identity:'' @ actor) (challenges_update f s) =
      actor_by_id (lit ''actor_identity:'' @ actor) s" for f
    by (simp add: actor_by_id_def)
  then show ?thesis
    using alg sig n a t find_Some_in [OF k]
    by (auto simp: proof_grounds_def allowed_algorithms_def)
qed

lemma issue_session_success: "issue_session F V A now session ctx a k s = (Inr out, t) \<Longrightarrow>
  \<exists>token. t = s\<lparr>sessions := sessions s @ [agent_session A now session token ctx (actor_key a) k]\<rparr> \<and>
    aa_token out = token \<and> aa_fact out = fact_ai_actor (actor_address (actor_key a)) (key_reference (ak_key k)) now"
  by (auto simp: issue_session_def insert_row_def op_success split: option.splits sum.splits)

lemma touch_credential_any: "touch_credential F now k s = (x, t) \<Longrightarrow>
  x = Inr () \<and> actors t = actors s \<and> challenges t = challenges s \<and> sessions t = sessions s"
  by (cases "F (lit ''ai_actor_touch_credential'') 0")
    (auto simp: touch_credential_def db_write_def op_eval database_up_def)

section \<open>The grounds of a session\<close>

lemma agent_login_grounds_facts:
  assumes "authenticate F V A now session ctx actor nonce algorithm sig64 s = (Inr out, t)"
  shows "\<exists>a k. algorithm = lit ''ed25519'' \<and> proof_grounds A now actor nonce sig64 s a k \<and>
    challenges t = claimed now actor nonce (challenges s) \<and>
    sessions t = sessions s @ [agent_session A now session (aa_token out) ctx (actor_key a) k] \<and>
    aa_fact out = fact_ai_actor (actor_address (actor_key a)) (key_reference (ak_key k)) now"
proof -
  obtain a k s1 s2 where p: "prove_possession F A now actor nonce algorithm sig64 s = (Inr (a, k), s1)"
    and m: "touch_credential F now k s1 = (Inr (), s2)"
    and i: "issue_session F V A now session ctx a k s2 = (Inr out, t)"
    using assms by (auto simp: authenticate_def op_success)
  note p = prove_possession_success [OF p]
  show ?thesis using p touch_credential_any [OF m] issue_session_success [OF i] by fastforce
qed

text \<open>
  C22: an agent gets a session only after presenting a signature, by a key of its own that is active,
  over the text that names this deployment, this actor and a nonce that was issued to it, is not
  expired and was not used; the actor is an active AI actor; the nonce is spent by it, and the one new
  session carries the key that was used.
\<close>

theorem agent_login_grounds:
  assumes "authenticate F V A now session ctx actor nonce algorithm sig64 s = (Inr out, t)"
  shows "\<exists>a k. algorithm = lit ''ed25519'' \<and> proof_grounds A now actor nonce sig64 s a k \<and>
    challenges t = claimed now actor nonce (challenges s) \<and>
    sessions t = sessions s @ [agent_session A now session (aa_token out) ctx (actor_key a) k] \<and>
    aa_fact out = fact_ai_actor (actor_address (actor_key a)) (key_reference (ak_key k)) now"
  using assms by (rule agent_login_grounds_facts)

section \<open>Runs\<close>

inductive agent_step :: "agent_env \<Rightarrow> agent_world \<Rightarrow> agent_world \<Rightarrow> bool" for A where
  step_register: "register_agent F V A now a subj key public label s = (r1, t) \<Longrightarrow> agent_step A s t"
| step_add: "add_credential F V A now key actor public label s = (r2, t) \<Longrightarrow> agent_step A s t"
| step_revoke: "revoke_credential F A now actor key s = (r3, t) \<Longrightarrow> agent_step A s t"
| step_status: "set_actor_status F now actor st s = (r4, t) \<Longrightarrow> agent_step A s t"
| step_challenge: "issue_challenge F V A now key raw actor s = (r5, t) \<Longrightarrow> agent_step A s t"
| step_authenticate: "authenticate F V A now session ctx actor nonce algorithm sig64 s = (r6, t) \<Longrightarrow> agent_step A s t"
| step_elsewhere: "challenges t = challenges s \<Longrightarrow> actors t = actors s \<Longrightarrow> agent_step A s t"

definition nonce_spent :: "str \<Rightarrow> agent_world \<Rightarrow> bool" where
  "nonce_spent n s \<longleftrightarrow> unique_ok challenge_indexes (challenges s) \<and>
    (\<exists>c\<in>set (challenges s). ch_nonce c = n \<and> ch_consumed c)"

definition retired :: "str \<Rightarrow> agent_world \<Rightarrow> bool" where
  "retired key s \<longleftrightarrow> (\<exists>a. actor_by_id (lit ''actor_identity:'' @ key) s = Some a \<and>
    parse_actor_status (actor_status a) = ActorRetired)"

text \<open>What each operation does to the challenges and the actors, whether it succeeds or not.\<close>

definition challenge_change :: "agent_world \<Rightarrow> agent_world \<Rightarrow> bool" where
  "challenge_change s t \<longleftrightarrow> challenges t = challenges s \<or>
    (\<exists>P. challenges t = update_where P (\<lambda>c. c\<lparr>ch_consumed := True\<rparr>) (challenges s)) \<or>
    (\<exists>c. index_conflict challenge_indexes c (challenges s) = None \<and> challenges t = challenges s @ [c])"

definition actor_change :: "agent_world \<Rightarrow> agent_world \<Rightarrow> bool" where
  "actor_change s t \<longleftrightarrow> actors t = actors s \<or> (\<exists>a. actors t = actors s @ [a]) \<or>
    (\<exists>key a st now. actor_by_id (lit ''actor_identity:'' @ key) s = Some a \<and>
      parse_actor_status (actor_status a) \<noteq> ActorRetired \<and>
      actors t = update_where (\<lambda>q. actor_key q = actor_key a)
        (\<lambda>q. q\<lparr>actor_status := actor_status_str st, actor_updated_at := now\<rparr>) (actors s))"

lemma actor_change_status:
  "Some a = actor_by_id (lit ''actor_identity:'' @ key) s \<Longrightarrow> parse_actor_status (actor_status a) \<noteq> ActorRetired \<Longrightarrow>
    actors t = update_where (\<lambda>q. actor_key q = actor_key a)
      (\<lambda>q. q\<lparr>actor_status := actor_status_str st, actor_updated_at := now\<rparr>) (actors s) \<Longrightarrow> actor_change s t"
  unfolding actor_change_def by (intro disjI2 exI conjI) (auto intro: sym)

lemma same_changes: "challenges t = challenges s \<Longrightarrow> challenge_change s t" "actors t = actors s \<Longrightarrow> actor_change s t"
  by (simp_all add: challenge_change_def actor_change_def)

lemma find_actor_any: "find_actor_by_id F key s = (x, t) \<Longrightarrow>
  t = s \<and> (x = Inr (actor_by_id (lit ''actor_identity:'' @ key) s) \<or> (\<exists>e. x = Inl e))"
  by (cases x) (auto simp: find_actor_by_id_def op_success op_failure)

lemma require_ai_actor_any: "require_ai_actor F key s = (x, t) \<Longrightarrow> t = s"
  by (cases x) (auto simp: require_ai_actor_def op_success op_failure dest: find_actor_any)

lemma insert_row_any: "insert_row V ixs get upd r s = (x, t) \<Longrightarrow>
  (\<exists>e. x = Inl e) \<and> t = s \<or> x = Inr () \<and> index_conflict ixs r (get s) = None \<and> t = upd (\<lambda>rows. rows @ [r]) s"
  by (auto simp: insert_row_def split: option.splits)

lemma add_credential_for_any: "add_credential_for F V now key actor public label s = (x, t) \<Longrightarrow>
  actors t = actors s \<and> challenges t = challenges s"
  by (cases x) (auto simp: add_credential_for_def Let_def op_success op_failure dest!: insert_row_any)

lemma create_ai_actor_any: "create_ai_actor F V now key subject s = (x, t) \<Longrightarrow>
  t = s \<or> t = actors_update (\<lambda>rows. rows @ [new_local key subject AiActor now]) s"
  by (cases x) (auto simp: create_ai_actor_def Let_def op_success op_failure dest!: insert_row_any)

lemma prove_possession_any:
  assumes "prove_possession F A now actor nonce algorithm sig64 s = (x, t)"
  shows "t = s \<or> t = challenges_update (claimed now actor nonce) s"
proof (cases x)
  case (Inl e)
  then show ?thesis using assms
    by (auto simp: prove_possession_def consume_challenge_def list_credentials_def claimed_def op_failure op_success
        dest!: require_ai_actor_any)
next
  case (Inr ak)
  then show ?thesis using assms prove_possession_success by (cases ak) blast
qed

lemma authenticate_any:
  assumes "authenticate F V A now session ctx actor nonce algorithm sig64 s = (x, t)"
  shows "actors t = actors s \<and> (challenges t = challenges s \<or> challenges t = claimed now actor nonce (challenges s))"
proof -
  obtain y s1 where p: "prove_possession F A now actor nonce algorithm sig64 s = (y, s1)" by fastforce
  have one: "actors s1 = actors s \<and> (challenges s1 = challenges s \<or> challenges s1 = claimed now actor nonce (challenges s))"
    using prove_possession_any [OF p] by auto
  show ?thesis
  proof (cases y)
    case (Inl e)
    then show ?thesis using assms p one by (auto simp: authenticate_def bind_def)
  next
    case (Inr ak)
    obtain a k where ak: "ak = (a, k)" by fastforce
    obtain z s2 where m: "touch_credential F now k s1 = (z, s2)" by fastforce
    note s2 = touch_credential_any [OF m]
    then have "issue_session F V A now session ctx a k s2 = (x, t)"
      using assms p Inr ak m by (simp add: authenticate_def bind_def seq_def)
    then have "actors t = actors s2 \<and> challenges t = challenges s2"
      by (cases x) (auto simp: issue_session_def op_success op_failure dest!: insert_row_any)
    then show ?thesis using one s2 by simp
  qed
qed

lemma agent_step_changes: "agent_step A s t \<Longrightarrow> challenge_change s t \<and> actor_change s t"
proof (induction rule: agent_step.induct)
  case (step_register F V now a subj key public label s r1 t)
  then obtain s1 where s1: "s1 = s \<or> s1 = actors_update (\<lambda>rows. rows @ [new_local a subj AiActor now]) s"
    "actors t = actors s1 \<and> challenges t = challenges s1"
    by (cases r1) (fastforce simp: register_agent_def op_success op_failure
      dest: create_ai_actor_any add_credential_for_any)+
  then show ?case by (auto simp: challenge_change_def actor_change_def)
next
  case (step_add F V now key actor public label s r2 t)
  then have "actors t = actors s \<and> challenges t = challenges s"
    by (cases r2) (auto simp: add_credential_def op_success op_failure
      dest!: require_ai_actor_any add_credential_for_any)
  then show ?case by (auto simp: challenge_change_def actor_change_def)
next
  case (step_revoke F now actor key s r3 t)
  then have "challenges t = challenges s \<and> actors t = actors s"
    by (cases r3) (auto simp: revoke_credential_def op_success op_failure split: if_splits)
  then show ?case by (simp add: challenge_change_def actor_change_def)
next
  case (step_status F now actor st s r4 t)
  then have "challenges t = challenges s"
    by (cases r4) (auto simp: set_actor_status_def set_status_def op_success op_failure split: if_splits
      dest!: find_actor_any)
  moreover have "actor_change s t" using step_status
    by (cases r4) (auto simp: set_actor_status_def set_status_def op_success op_failure split: if_splits
      dest!: find_actor_any intro: actor_change_status same_changes)
  ultimately show ?case by (simp add: same_changes)
next
  case (step_challenge F V now key raw actor s r5 t)
  then have "actors t = actors s" "challenge_change s t"
    by (cases r5; auto simp: issue_challenge_def Let_def op_success op_failure challenge_change_def
      dest!: require_ai_actor_any insert_row_any)+
  then show ?case by (simp add: actor_change_def)
next
  case (step_authenticate F V now session ctx actor nonce algorithm sig64 s r6 t)
  then show ?case
    using authenticate_any [OF step_authenticate] by (auto simp: challenge_change_def actor_change_def claimed_def)
next
  case (step_elsewhere t s)
  then show ?case by (simp add: challenge_change_def actor_change_def)
qed

section \<open>A nonce is used once\<close>

lemma spent_change: "challenge_change s t \<Longrightarrow> nonce_spent n s \<Longrightarrow> nonce_spent n t"
  unfolding nonce_spent_def challenge_change_def
  by (auto simp: challenge_indexes_def set_update_where intro!: unique_ok_update unique_ok_append) force+

lemma agent_run_keeps:
  assumes "(agent_step A)\<^sup>*\<^sup>* s t" and "\<And>s t. challenge_change s t \<and> actor_change s t \<Longrightarrow> P s \<Longrightarrow> P t" and "P s"
  shows "P t"
  using assms(1,3) by (induction rule: rtranclp_induct) (auto dest: agent_step_changes intro: assms(2))

lemma claimed_spent:
  assumes "unique_ok challenge_indexes (challenges (s :: agent_world))" "count_where (claimable_challenge now actor n) (challenges s) = 1"
    and "challenges t = claimed now actor n (challenges s)"
  shows "nonce_spent n (t :: agent_world)"
proof -
  have "filter (claimable_challenge now actor n) (challenges s) \<noteq> []" using assms(2) by (auto simp: count_where_def)
  then obtain c where c: "c \<in> set (challenges s)" "claimable_challenge now actor n c" by (auto simp: filter_empty_conv)
  have "challenge_change s t" using assms(3) by (auto simp: challenge_change_def claimed_def)
  then have "unique_ok challenge_indexes (challenges t)"
    using assms(1) by (auto simp: challenge_change_def challenge_indexes_def intro!: unique_ok_update unique_ok_append)
  moreover have "c\<lparr>ch_consumed := True\<rparr> \<in> set (challenges t)"
    using c by (auto simp: assms(3) claimed_def set_update_where intro!: rev_image_eqI [of c])
  ultimately show ?thesis using c(2) unfolding nonce_spent_def claimable_challenge_def
    by (intro conjI bexI [of _ "c\<lparr>ch_consumed := True\<rparr>"]) simp_all
qed

lemma spent_not_claimable: "nonce_spent n s \<Longrightarrow> count_where (claimable_challenge now actor n) (challenges s) = 0"
proof -
  assume "nonce_spent n s"
  then obtain c where "distinct (map ch_nonce (challenges s))" "c \<in> set (challenges s)" "ch_nonce c = n" "ch_consumed c"
    by (auto simp: nonce_spent_def unique_ok_def challenge_indexes_def distinct_map inj_on_def)
  then have "\<not> claimable_challenge now actor n d" if "d \<in> set (challenges s)" for d
    using that by (auto simp: distinct_map inj_on_def claimable_challenge_def)
  then show ?thesis by (auto simp: count_where_def filter_empty_conv)
qed

text \<open>
  C23: a challenge lets one agent in once.  After a login with a nonce, no login with that nonce
  succeeds in any later state, whatever actors and keys are registered, challenges are issued, keys
  revoked and logins attempted in between, at any time and under any faults.
\<close>

theorem agent_nonce_once:
  assumes "authenticate F V A now session ctx actor nonce algorithm sig64 s = (Inr out, s1)"
    and "unique_ok challenge_indexes (challenges s)" and "(agent_step A)\<^sup>*\<^sup>* s1 s2"
  shows "\<not> succeeds (authenticate F' V' A now' session' ctx' actor' nonce algorithm' sig') s2"
proof
  have "nonce_spent nonce s1"
    using agent_login_grounds_facts [OF assms(1)] assms(2) by (auto simp: proof_grounds_def intro: claimed_spent)
  then have "nonce_spent nonce s2"
    by (rule agent_run_keeps [OF assms(3), where P = "nonce_spent nonce", rotated]) (auto intro: spent_change)
  then have "count_where (claimable_challenge now' actor' nonce) (challenges s2) = 0" by (rule spent_not_claimable)
  moreover assume "succeeds (authenticate F' V' A now' session' ctx' actor' nonce algorithm' sig') s2"
  ultimately show False by (auto simp: succeeds_iff proof_grounds_def dest!: agent_login_grounds_facts)
qed

section \<open>Retirement is final\<close>

lemma actor_by_id_first: "actor_by_id v s = Some a \<Longrightarrow> find (\<lambda>q. actor_key q = actor_key a) (actors s) = Some a"
proof -
  assume a: "actor_by_id v s = Some a"
  then have "Some (actor_key a) = record_address_key ''actor_identity'' v"
    unfolding actor_by_id_def by (auto dest: find_Some_in)
  then have "record_address_key ''actor_identity'' v = Some (actor_key a)" by simp
  then show ?thesis using a by (simp add: actor_by_id_def)
qed

lemma retired_change:
  assumes "actor_change s t" "retired key s" shows "retired key t"
proof -
  let ?v = "lit ''actor_identity:'' @ key"
  obtain a where a: "actor_by_id ?v s = Some a" "parse_actor_status (actor_status a) = ActorRetired"
    using assms(2) by (auto simp: retired_def)
  have key: "record_address_key ''actor_identity'' ?v = Some (actor_key a)"
    using a(1) unfolding actor_by_id_def by (auto dest: find_Some_in)
  have by_key: "actor_by_id ?v r = find (\<lambda>q. actor_key q = actor_key a) (actors r)" for r :: agent_world
    by (simp add: actor_by_id_def key)
  from assms(1) consider "actors t = actors s" | b where "actors t = actors s @ [b]"
    | k b st now where "actor_by_id (lit ''actor_identity:'' @ k) s = Some b"
        "parse_actor_status (actor_status b) \<noteq> ActorRetired"
        "actors t = update_where (\<lambda>q. actor_key q = actor_key b)
          (\<lambda>q. q\<lparr>actor_status := actor_status_str st, actor_updated_at := now\<rparr>) (actors s)"
    unfolding actor_change_def by blast
  then have "actor_by_id ?v t = Some a"
  proof cases
    case 1
    then show ?thesis using a(1) by (simp add: actor_by_id_def)
  next
    case (2 b)
    have "find P (xs @ [b]) = Some a" if "find P xs = Some a" for P and xs :: "actor_identity list"
      using that by (induction xs) auto
    then show ?thesis using 2 a(1) by (simp add: actor_by_id_def)
  next
    case (3 k b st now)
    have "actor_key b \<noteq> actor_key a"
      using actor_by_id_first [OF a(1)] actor_by_id_first [OF 3(1)] a(2) 3(2) by auto
    then show ?thesis
      using a(1) 3(3) by (auto simp: by_key find_update_where_key dest: find_Some_in)
  qed
  then show ?thesis using a(2) by (auto simp: retired_def)
qed

text \<open>
  retirement is final.  Once an actor has been retired, no later request gets it a session and no
  later request changes its status, whatever happens to the agents in between.
\<close>

theorem agent_retirement_final:
  assumes "set_actor_status F now actor ActorRetired s = (Inr (), s1)" "(agent_step A)\<^sup>*\<^sup>* s1 s2"
  shows "\<not> succeeds (authenticate F' V' A now' session' ctx' actor nonce algorithm sig') s2 \<and>
    \<not> succeeds (set_actor_status F'' now'' actor st) s2 \<and> actor \<notin> session_actor ` set (sessions s1)"
proof -
  let ?v = "lit ''actor_identity:'' @ actor"
  obtain a where a: "actor_by_id ?v s = Some a" and gone: "actor \<notin> session_actor ` set (sessions s1)"
    and s1: "actors s1 = update_where (\<lambda>q. actor_key q = actor_key a)
      (\<lambda>q. q\<lparr>actor_status := actor_status_str ActorRetired, actor_updated_at := now\<rparr>) (actors s)"
    using assms(1)
    by (auto simp: set_actor_status_def set_status_def find_actor_by_id_def op_success intro!: that)
  have key: "record_address_key ''actor_identity'' ?v = Some (actor_key a)"
    using a unfolding actor_by_id_def by (auto dest: find_Some_in)
  have "retired actor s1"
    using a by (auto simp: retired_def actor_by_id_def key s1 find_update_where_key parse_actor_status_def
        actor_status_str_def lit_def dest: find_Some_in)
  then have r: "retired actor s2"
    by (rule agent_run_keeps [OF assms(2), where P = "retired actor", rotated]) (auto intro: retired_change)
  have "\<not> succeeds (authenticate F' V' A now' session' ctx' actor nonce algorithm sig') s2"
    using r by (auto simp: succeeds_iff retired_def proof_grounds_def actor_can_authenticate_def dest!: agent_login_grounds_facts)
  moreover have "\<not> succeeds (set_actor_status F'' now'' actor st) s2"
    using r by (auto simp: succeeds_iff retired_def set_actor_status_def find_actor_by_id_def op_success)
  ultimately show ?thesis using gone by blast
qed

section \<open>Revocation of a key\<close>

lemma revoke_credential_success:
  assumes "revoke_credential F A now actor key s = (Inr (), t)" "key_ref_text A key = key_reference key"
  shows "\<exists>k\<in>set (agent_keys s). revocable actor key k"
    "agent_keys t = update_where (revocable actor key) (\<lambda>k. k\<lparr>
       ak_status := credential_status_str CredentialRevoked, ak_revoked_at := Some now\<rparr>) (agent_keys s)"
    "sessions t = delete_where (\<lambda>r. session_actor r = actor \<and> session_credential_ref r = Some (key_reference key)) (sessions s)"
proof -
  let ?texts = "map (\<lambda>k. key_ref_text A (ak_key k)) (filter (revocable actor key) (agent_keys s))"
  have ne: "?texts \<noteq> []" using assms(1) by (auto simp: revoke_credential_def op_success)
  then show "\<exists>k\<in>set (agent_keys s). revocable actor key k" by (auto simp: filter_empty_conv)
  have "hd ?texts \<in> set ?texts" using ne by (rule hd_in_set)
  then have "hd ?texts = key_reference key" using assms(2) by (auto simp: revocable_def)
  moreover have "key_reference key \<noteq> []" by (simp add: key_reference_def lit_def)
  ultimately show "agent_keys t = update_where (revocable actor key) (\<lambda>k. k\<lparr>
       ak_status := credential_status_str CredentialRevoked, ak_revoked_at := Some now\<rparr>) (agent_keys s)"
    "sessions t = delete_where (\<lambda>r. session_actor r = actor \<and> session_credential_ref r = Some (key_reference key)) (sessions s)"
    using assms(1) by (simp_all add: revoke_credential_def op_success)
qed

text \<open>
  revoking a key ends exactly the sessions that this key established, and the key proves nothing
  any more; the actor's other keys and their sessions are untouched.
\<close>

theorem key_revocation_exact:
  assumes run: "revoke_credential F A now actor key s = (Inr (), t)"
    and ref: "key_ref_text A key = key_reference key"
    and unique: "unique_ok agent_key_indexes (agent_keys s)"
  shows "set (sessions t) = {r \<in> set (sessions s). session_actor r \<noteq> actor \<or> session_credential_ref r \<noteq> Some (key_reference key)} \<and>
    filter (\<lambda>k. ak_key k \<noteq> key) (agent_keys t) = filter (\<lambda>k. ak_key k \<noteq> key) (agent_keys s) \<and>
    outcome (prove_possession F' A' now' actor' nonce algorithm sig64) t \<noteq> Inr (a, k\<lparr>ak_key := key\<rparr>)"
proof -
  note r = revoke_credential_success [OF run ref]
  have "filter (\<lambda>k. ak_key k \<noteq> key) (update_where (revocable actor key) f ks) = filter (\<lambda>k. ak_key k \<noteq> key) ks"
    if "\<And>k. ak_key (f k) = ak_key k" for f ks
    using that by (induction ks) (auto simp: revocable_def)
  then have "filter (\<lambda>k. ak_key k \<noteq> key) (agent_keys t) = filter (\<lambda>k. ak_key k \<noteq> key) (agent_keys s)"
    by (simp add: r(2))
  moreover have "\<not> key_can_authenticate q" if q: "q \<in> set (agent_keys t)" "ak_key q = key" for q
  proof -
    obtain k0 where k0: "k0 \<in> set (agent_keys s)" "revocable actor key k0" using r(1) by blast
    have inj: "inj_on ak_key (set (agent_keys s))"
      using unique by (auto simp: unique_ok_def agent_key_indexes_def distinct_map inj_on_def)
    from q(1) obtain k1 where k1: "k1 \<in> set (agent_keys s)" "q = (if revocable actor key k1 then
        k1\<lparr>ak_status := credential_status_str CredentialRevoked, ak_revoked_at := Some now\<rparr> else k1)"
      unfolding r(2) set_update_where by blast
    then have "ak_key k1 = ak_key k0" using q(2) k0(2) by (auto simp: revocable_def split: if_splits)
    then have "k1 = k0" using inj k0(1) k1(1) by (simp add: inj_on_def)
    then show ?thesis
      using k1(2) k0(2) by (simp add: key_can_authenticate_def parse_credential_status_def credential_status_str_def lit_def)
  qed
  then have "outcome (prove_possession F' A' now' actor' nonce algorithm sig64) t \<noteq> Inr (a, k\<lparr>ak_key := key\<rparr>)"
    by (fastforce simp: outcome_Inr_iff proof_grounds_def dest!: prove_possession_success)
  ultimately show ?thesis using r(3) by auto
qed

text \<open>
  C24: a login that had checked its key before the key was revoked still gets a session, which the
  revocation does not reach: afterwards there is a session of the actor whose reference is a revoked
  key, valid for the whole session time.
\<close>

theorem revoked_key_keeps_session:
  assumes proven: "prove_possession F A now actor nonce algorithm sig64 s = (Inr (a, k), s1)"
    and revoked: "revoke_credential F' A now' actor (ak_key k) s1 = (Inr (), s2)"
      "key_ref_text A (ak_key k) = key_reference (ak_key k)"
    and issued: "issue_session F'' V A now session ctx a k s2 = (Inr out, s3)"
  shows "(\<exists>r\<in>set (sessions s3). session_credential_ref r = Some (key_reference (ak_key k)) \<and>
      session_token_hash r = hash_bearer (hashing A) (aa_token out) \<and> now < session_expires_at r) \<and>
    (\<exists>q\<in>set (agent_keys s3). ak_key q = ak_key k \<and> ak_actor q = actor \<and> \<not> key_can_authenticate q)"
proof -
  note r = revoke_credential_success [OF revoked]
  obtain token where s3: "s3 = s2\<lparr>sessions := sessions s2 @ [agent_session A now session token ctx (actor_key a) k]\<rparr>"
    "aa_token out = token" using issue_session_success [OF issued] by blast
  obtain q where q: "q \<in> set (agent_keys s1)" "revocable actor (ak_key k) q" using r(1) by blast
  let ?q = "q\<lparr>ak_status := credential_status_str CredentialRevoked, ak_revoked_at := Some now'\<rparr>"
  have "?q \<in> set (agent_keys s3)" using q by (auto simp: s3(1) r(2) set_update_where intro!: rev_image_eqI [of q])
  moreover have "\<not> key_can_authenticate ?q" "ak_key ?q = ak_key k" "ak_actor ?q = actor"
    using q(2) by (simp_all add: key_can_authenticate_def parse_credential_status_def credential_status_str_def
        lit_def revocable_def)
  moreover have "now < session_expires_at (agent_session A now session token ctx (actor_key a) k)"
    by (simp add: agent_session_def session_ttl_seconds_def default_session_ttl_seconds_def)
  ultimately show ?thesis using s3 by (auto simp: agent_session_def intro!: bexI [of _ ?q])
qed

section \<open>Registration\<close>

text \<open>
  registering an agent with a public key that is already registered is refused, but leaves a new
  actor behind that has no key.
\<close>

theorem refused_registration_leaves_actor:
  assumes run: "register_agent F V A now actor subject key public label s = (r, t)"
    and valid: "validate_public_key A public = Inr ()" and taken: "public \<in> ak_public_key ` set (agent_keys s)"
    and fresh: "actor \<notin> actor_key ` set (actors s)" "subject \<notin> subject_key ` set (actors s)"
      "key \<notin> ak_key ` set (agent_keys s)"
    and report: "V ''ai_actor_credential_key_idx'' = DatabaseError m" "contains (lit ''already contains'') m"
      "contains (lit ''ai_actor_credential_key_idx'') m"
    and up: "F (lit ''create_actor_identity'') 0 = None" "F (lit ''create_ai_actor_credential'') 0 = None"
  shows "r = Inl (BadRequest (lit ''This public key is already registered'')) \<and>
    actors t = actors s @ [new_local actor subject AiActor now] \<and> agent_keys t = agent_keys s"
proof -
  have "index_conflict actor_indexes (new_local actor subject AiActor now) (actors s) = None"
    using fresh by (auto simp: index_conflict_None actor_indexes_def new_local_def)
  moreover have "index_conflict agent_key_indexes (new_agent_key now key actor public label) (agent_keys s)
      = Some ''ai_actor_credential_key_idx''"
    using taken fresh(3) by (auto simp: index_conflict_def agent_key_indexes_def new_agent_key_def)
  ultimately show ?thesis
    using run valid up report
    by (auto simp: register_agent_def create_ai_actor_def add_credential_for_def insert_row_def database_up_def
        duplicate_key_error_def new_local_def op_eval Let_def)
qed

section \<open>Examples\<close>

definition agent_tools :: agent_env where
  "agent_tools = auth_env.extend auth_demo (agent_env.fields
     (\<lambda>t. if t = lit ''pk'' then Some (replicate 32 0) else if t = lit ''sig'' then Some (replicate 64 1) else None)
     (\<lambda>b. lit ''nonce'') (\<lambda>_. True) (\<lambda>k p g. g = replicate 64 1) (lit ''https://a'') key_reference)"

definition agent_demo :: agent_world where
  "agent_demo = store.extend (empty_store\<lparr>actors := [new_local (lit ''a1'') (lit ''s1'') AiActor 0]\<rparr>)
     \<lparr>roles = [], permissions = [], user_roles = [], role_permissions = [],
      agent_keys = [new_agent_key 0 (lit ''k1'') (lit ''a1'') (lit ''pk'') (lit ''ci'')],
      challenges = [\<lparr>ch_key = lit ''c1'', ch_actor = lit ''a1'', ch_nonce = lit ''n1'', ch_issued_at = 0,
        ch_expires_at = 120, ch_consumed = False\<rparr>],
      agent_journal = []\<rparr>"

lemma agent_demo_tables [simp]:
  "actors agent_demo = [new_local (lit ''a1'') (lit ''s1'') AiActor 0]" "sessions agent_demo = []"
  "agent_keys agent_demo = [new_agent_key 0 (lit ''k1'') (lit ''a1'') (lit ''pk'') (lit ''ci'')]"
  "challenges agent_demo = [\<lparr>ch_key = lit ''c1'', ch_actor = lit ''a1'', ch_nonce = lit ''n1'', ch_issued_at = 0,
    ch_expires_at = 120, ch_consumed = False\<rparr>]"
  by (simp_all add: agent_demo_def empty_store_def store.defs)

lemma agent_demo_row: "actor_by_id (lit ''actor_identity:'' @ lit ''a1'') s = find (\<lambda>a. actor_key a = lit ''a1'') (actors s)"
  using actor_by_id_row [of "lit ''a1''" s] by (simp add: actor_row_def)

lemma agent_demo_key: "key_can_authenticate (new_agent_key n k a p l)" "actor_can_authenticate (new_local k b x n)"
  by (simp_all add: key_can_authenticate_def new_agent_key_def allowed_algorithms_def parse_credential_status_def
      credential_status_str_def actor_can_authenticate_def new_local_def parse_actor_status_def actor_status_str_def)

lemma agent_demo_tools [simp]:
  "url_decode agent_tools (lit ''pk'') = Some (replicate 32 0)" "url_decode agent_tools (lit ''sig'') = Some (replicate 64 1)"
  "curve_point agent_tools b" "ed_check agent_tools k p g \<longleftrightarrow> g = replicate 64 1" "key_ref_text agent_tools = key_reference"
  by (simp_all add: agent_tools_def auth_env.defs agent_env.defs lit_def)

abbreviation agent_proof :: "(actor_identity \<times> agent_key) agent_op" where
  "agent_proof \<equiv> prove_possession no_faults agent_tools 5 (lit ''a1'') (lit ''n1'') (lit ''ed25519'') (lit ''sig'')"

abbreviation agent_login :: "authenticated_actor agent_op" where
  "agent_login \<equiv> authenticate no_faults demo_report agent_tools 5 (lit ''t1'') demo_ctx (lit ''a1'') (lit ''n1'')
     (lit ''ed25519'') (lit ''sig'')"

abbreviation proven_world :: agent_world where
  "proven_world \<equiv> challenges_update (claimed 5 (lit ''a1'') (lit ''n1'')) agent_demo"

lemma agent_demo_proof: "agent_proof agent_demo = (Inr (new_local (lit ''a1'') (lit ''s1'') AiActor 0,
    new_agent_key 0 (lit ''k1'') (lit ''a1'') (lit ''pk'') (lit ''ci'')), proven_world)"
proof -
  have sig: "decode_signature agent_tools (lit ''sig'') = Inr (replicate 64 1)"
    by (simp add: decode_signature_def ed25519_signature_len_def)
  have ver: "verify_with agent_tools (lit ''pk'') payload (replicate 64 1)" for payload
    by (simp add: verify_with_def ed25519_public_key_len_def)
  have row: "actor_by_id (lit ''actor_identity:'' @ lit ''a1'') proven_world = Some (new_local (lit ''a1'') (lit ''s1'') AiActor 0)"
    by (simp add: agent_demo_row) (simp add: new_local_def)
  have pub: "ak_public_key (new_agent_key 0 (lit ''k1'') (lit ''a1'') (lit ''pk'') (lit ''ci'')) = lit ''pk''"
    "ak_actor (new_agent_key 0 (lit ''k1'') (lit ''a1'') (lit ''pk'') (lit ''ci'')) = lit ''a1''"
    by (simp_all add: new_agent_key_def)
  have kind: "actor_kind (new_local k b AiActor n) = kind_str AiActor" for k b n by (simp add: new_local_def)
  have claim: "consume_challenge no_faults 5 (lit ''a1'') (lit ''n1'') agent_demo = (Inr 1, proven_world)"
    by (simp add: consume_challenge_def claimed_def claimable_challenge_def count_where_def db_exec_def seq_def bind_def
        database_up_def no_faults_def)
  have req: "require_ai_actor no_faults (lit ''a1'') proven_world = (Inr (new_local (lit ''a1'') (lit ''s1'') AiActor 0), proven_world)"
    by (simp add: require_ai_actor_def find_actor_by_id_def row kind op_eval db_read_def database_up_def no_faults_def)
  have keys: "list_credentials no_faults (lit ''a1'') proven_world = (Inr (agent_keys agent_demo), proven_world)"
    by (simp add: list_credentials_def op_eval db_read_def database_up_def no_faults_def pub)
  show ?thesis
    by (simp add: prove_possession_def allowed_algorithms_def op_eval sig claim req keys agent_demo_key pub ver)
qed

lemma agent_demo_issue: "\<exists>out. issue_session no_faults demo_report agent_tools 5 (lit ''t1'') demo_ctx a k s =
    (Inr out, s\<lparr>sessions := [agent_session agent_tools 5 (lit ''t1'') (aa_token out) demo_ctx (actor_key a) k]\<rparr>)"
  if "sessions s = []" for s
  using that
  by (simp add: issue_session_def op_eval database_up_def no_faults_def agent_tools_def auth_env.defs agent_env.defs
      auth_demo_def insert_row_def index_conflict_def session_indexes_def)

lemma agent_demo_login: "\<exists>out t. agent_login agent_demo = (Inr out, t)"
proof -
  let ?k = "new_agent_key 0 (lit ''k1'') (lit ''a1'') (lit ''pk'') (lit ''ci'')"
  obtain t where t: "touch_credential no_faults 5 ?k proven_world = (Inr (), t)"
    using touch_credential_any [of no_faults 5 ?k proven_world] by (metis surj_pair)
  then have "sessions t = []" using touch_credential_any [OF t] by simp
  from agent_demo_issue [OF this] t show ?thesis
    by (fastforce simp: authenticate_def agent_demo_proof bind_def seq_def)
qed

lemma agent_demo_unique: "unique_ok challenge_indexes (challenges agent_demo)" "unique_ok agent_key_indexes (agent_keys agent_demo)"
  by (simp_all add: unique_ok_def challenge_indexes_def agent_key_indexes_def)

theorem agent_login_grounds_witness:
  "\<exists>out t a k. agent_login agent_demo = (Inr out, t) \<and>
    proof_grounds agent_tools 5 (lit ''a1'') (lit ''n1'') (lit ''sig'') agent_demo a k \<and> length (sessions t) = 1"
proof -
  obtain out t where "agent_login agent_demo = (Inr out, t)" using agent_demo_login by blast
  from agent_login_grounds [OF this] this show ?thesis by fastforce
qed

theorem agent_nonce_once_witness:
  "\<exists>out t. agent_login agent_demo = (Inr out, t) \<and> \<not> succeeds agent_login t"
proof -
  obtain out t where run: "agent_login agent_demo = (Inr out, t)" using agent_demo_login by blast
  from agent_nonce_once [OF run agent_demo_unique(1) rtranclp.rtrancl_refl] run show ?thesis by blast
qed

theorem agent_retirement_final_witness:
  "\<exists>t. set_actor_status no_faults 5 (lit ''a1'') ActorRetired agent_demo = (Inr (), t) \<and> \<not> succeeds agent_login t"
proof -
  have "\<exists>t. set_actor_status no_faults 5 (lit ''a1'') ActorRetired agent_demo = (Inr (), t)"
    by (simp add: set_actor_status_def find_actor_by_id_def set_status_def agent_demo_row op_eval db_read_def db_write_def
        database_up_def no_faults_def) (simp add: new_local_def parse_kind_def kind_str_def parse_actor_status_def
        actor_status_str_def lit_def)
  then obtain t where run: "set_actor_status no_faults 5 (lit ''a1'') ActorRetired agent_demo = (Inr (), t)" by blast
  from agent_retirement_final [OF run rtranclp.rtrancl_refl] run show ?thesis by blast
qed

lemma agent_demo_revoke: "\<exists>t. revoke_credential no_faults agent_tools 6 (lit ''a1'') (lit ''k1'') s = (Inr (), t) \<and>
    (sessions s = [] \<longrightarrow> sessions t = [])" if "agent_keys s = agent_keys agent_demo" for s
  using that
  by (simp add: revoke_credential_def revocable_def new_agent_key_def op_eval db_exec_def db_write_def database_up_def
      no_faults_def)

theorem key_revocation_exact_witness:
  "\<exists>t. revoke_credential no_faults agent_tools 6 (lit ''a1'') (lit ''k1'') agent_demo = (Inr (), t) \<and>
    outcome agent_proof t \<noteq> outcome agent_proof agent_demo"
proof -
  let ?k = "new_agent_key 0 (lit ''k1'') (lit ''a1'') (lit ''pk'') (lit ''ci'')"
  obtain t where run: "revoke_credential no_faults agent_tools 6 (lit ''a1'') (lit ''k1'') agent_demo = (Inr (), t)"
    using agent_demo_revoke [OF refl] by blast
  have "?k\<lparr>ak_key := lit ''k1''\<rparr> = ?k" by (simp add: new_agent_key_def)
  then show ?thesis
    using key_revocation_exact [OF run _ agent_demo_unique(2), where k = ?k] run
    by (fastforce simp: outcome_def agent_demo_proof)
qed

theorem revoked_key_keeps_session_witness:
  "\<exists>t u out. revoke_credential no_faults agent_tools 6 (lit ''a1'') (lit ''k1'') proven_world = (Inr (), t) \<and>
    issue_session no_faults demo_report agent_tools 5 (lit ''t1'') demo_ctx (hd (actors agent_demo)) (hd (agent_keys agent_demo)) t
      = (Inr out, u) \<and>
    (\<exists>q\<in>set (agent_keys u). ak_key q = lit ''k1'' \<and> \<not> key_can_authenticate q) \<and> length (sessions u) = 1"
proof -
  let ?k = "new_agent_key 0 (lit ''k1'') (lit ''a1'') (lit ''pk'') (lit ''ci'')"
  have k: "ak_key ?k = lit ''k1''" by (simp add: new_agent_key_def)
  obtain t where run: "revoke_credential no_faults agent_tools 6 (lit ''a1'') (ak_key ?k) proven_world = (Inr (), t)"
    and none: "sessions t = []"
    using agent_demo_revoke [of proven_world] k by auto
  obtain out where out: "issue_session no_faults demo_report agent_tools 5 (lit ''t1'') demo_ctx
      (new_local (lit ''a1'') (lit ''s1'') AiActor 0) ?k t = (Inr out, t\<lparr>sessions := [agent_session agent_tools 5 (lit ''t1'')
        (aa_token out) demo_ctx (actor_key (new_local (lit ''a1'') (lit ''s1'') AiActor 0)) ?k]\<rparr>)"
    using agent_demo_issue [OF none] by blast
  have "\<exists>q\<in>set (agent_keys t). ak_key q = ak_key ?k \<and> \<not> key_can_authenticate q"
    using revoked_key_keeps_session [OF agent_demo_proof run _ out] by auto
  with run out k show ?thesis by fastforce
qed

theorem refused_registration_leaves_actor_witness:
  "\<exists>t. register_agent no_faults (\<lambda>n. DatabaseError (lit ''already contains '' @ lit n)) agent_tools 7 (lit ''a2'') (lit ''s2'')
      (lit ''k2'') (lit ''pk'') (lit ''dup'') agent_demo =
      (Inl (BadRequest (lit ''This public key is already registered'')), t) \<and> length (actors t) = 2"
proof -
  let ?V = "\<lambda>n. DatabaseError (lit ''already contains '' @ lit n)"
  obtain r t where run: "register_agent no_faults ?V agent_tools 7 (lit ''a2'') (lit ''s2'')
      (lit ''k2'') (lit ''pk'') (lit ''dup'') agent_demo = (r, t)" by fastforce
  have "validate_public_key agent_tools (lit ''pk'') = Inr ()"
    by (simp add: validate_public_key_def ed25519_public_key_len_def)
  from refused_registration_leaves_actor [OF run this, of "lit ''already contains '' @ lit ''ai_actor_credential_key_idx''"] run
  show ?thesis by (simp add: new_agent_key_def new_local_def no_faults_def) (simp add: lit_def)
qed

end
