(* ===== verification/Oauth.thy ===== *)
theory Oauth
  imports Auth_Service Config
begin

text \<open>
  The client side of an external login, \<^verbatim>\<open>src/services/oauth.rs\<close>: the endpoints of Google and GitHub, the
  clients built from the configuration, the authorization links and the two callbacks, and the redaction
  of a proxy address in the log.  The network and the OAuth library are \<open>oauth_net\<close>: whether a URL parses,
  the text of an authorization link, and what the providers answer.
\<close>

section \<open>Providers\<close>

record google_user =
  gu_id :: str
  gu_email :: str
  gu_verified :: bool
  gu_name :: "str option"
  gu_picture :: "str option"

record github_user =
  hu_id :: int
  hu_name :: "str option"
  hu_avatar :: "str option"

record github_email =
  he_email :: str
  he_primary :: bool
  he_verified :: bool

record oauth_client =
  oc_id :: str
  oc_secret :: str
  oc_auth_uri :: str
  oc_token_uri :: str
  oc_redirect :: str

record oauth_net =
  parse_url :: "str \<Rightarrow> str + unit"
  authorize_link :: "oauth_client \<Rightarrow> str \<Rightarrow> str list \<Rightarrow> str"
  proxy_all :: "str \<Rightarrow> str + unit"
  build_client :: "str option \<Rightarrow> str + unit"
  exchange_code :: "oauth_client \<Rightarrow> str \<Rightarrow> str + str"
  fetch_google_user :: "str \<Rightarrow> str \<Rightarrow> str + google_user"
  fetch_github_user :: "str \<Rightarrow> str \<Rightarrow> str + github_user"
  fetch_github_emails :: "str \<Rightarrow> str \<Rightarrow> str + github_email list"

record oauth_service =
  os_config :: config
  os_google :: "oauth_client option"
  os_github :: "oauth_client option"
  os_google_userinfo :: str
  os_github_user :: str
  os_github_emails :: str

text \<open>The endpoints, and their shape under another base address.\<close>

definition google_endpoints :: "str option \<Rightarrow> str \<times> str \<times> str" where
  "google_endpoints base =
    (case base of
       Some b \<Rightarrow> (b @ lit ''/o/oauth2/v2/auth'', b @ lit ''/token'', b @ lit ''/oauth2/v2/userinfo'')
     | None \<Rightarrow> (lit ''https://accounts.google.com/o/oauth2/v2/auth'', lit ''https://oauth2.googleapis.com/token'',
         lit ''https://www.googleapis.com/oauth2/v2/userinfo''))"

definition github_endpoints :: "str option \<Rightarrow> str \<times> str \<times> str \<times> str" where
  "github_endpoints base =
    (case base of
       Some b \<Rightarrow> (b @ lit ''/login/oauth/authorize'', b @ lit ''/login/oauth/access_token'',
         b @ lit ''/api/v3/user'', b @ lit ''/api/v3/user/emails'')
     | None \<Rightarrow> (lit ''https://github.com/login/oauth/authorize'', lit ''https://github.com/login/oauth/access_token'',
         lit ''https://api.github.com/user'', lit ''https://api.github.com/user/emails''))"

section \<open>The service\<close>

definition oauth_url :: "oauth_net \<Rightarrow> str \<Rightarrow> ('s, unit) handler" where
  "oauth_url N url = map_error OAuthError (lift_result (parse_url N url))"

definition provider_client :: "oauth_net \<Rightarrow> config \<Rightarrow> string \<Rightarrow> str option \<Rightarrow> str option \<Rightarrow> str \<Rightarrow> str \<Rightarrow>
    ('s, oauth_client) handler" where
  "provider_client N cfg name cid secret auth token =
    (let redirect = (case cfg_oauth_redirect_url cfg of None \<Rightarrow> [] | Some b \<Rightarrow> b) @ 47 # lit name in
     seq (oauth_url N auth) (seq (oauth_url N token) (seq (oauth_url N redirect)
     (ret \<lparr>oc_id = (case cid of None \<Rightarrow> [] | Some c \<Rightarrow> c), oc_secret = (case secret of None \<Rightarrow> [] | Some c \<Rightarrow> c),
           oc_auth_uri = auth, oc_token_uri = token, oc_redirect = redirect\<rparr>))))"

definition endpoint_base :: "str option \<Rightarrow> str option" where
  "endpoint_base v = Option.bind (map_option trim v) non_empty"

definition new_oauth_service :: "oauth_net \<Rightarrow> config \<Rightarrow> ('s, oauth_service) handler" where
  "new_oauth_service N cfg =
    (let (google_auth, google_token, google_userinfo) = google_endpoints (endpoint_base (cfg_google_oauth_base_url cfg));
         (github_auth, github_token, github_user, github_emails) =
           github_endpoints (endpoint_base (cfg_github_oauth_base_url cfg)) in
     bind (if google_configured cfg
         then bind (provider_client N cfg ''google'' (cfg_google_client_id cfg) (cfg_google_client_secret cfg)
           google_auth google_token) (\<lambda>c. ret (Some c))
         else ret None) (\<lambda>google.
     bind (if github_configured cfg
         then bind (provider_client N cfg ''github'' (cfg_github_client_id cfg) (cfg_github_client_secret cfg)
           github_auth github_token) (\<lambda>c. ret (Some c))
         else ret None) (\<lambda>github.
     ret \<lparr>os_config = cfg, os_google = google, os_github = github, os_google_userinfo = google_userinfo,
          os_github_user = github_user, os_github_emails = github_emails\<rparr>)))"

definition create_http_client :: "oauth_net \<Rightarrow> oauth_service \<Rightarrow> ('s, unit) handler" where
  "create_http_client N S =
    (let proxy = (if cfg_proxy_enabled (os_config S) then cfg_proxy_url (os_config S) else None) in
     seq (case proxy of
         None \<Rightarrow> ret ()
       | Some url \<Rightarrow> map_error (\<lambda>e. OAuthError (lit ''Failed to create proxy: '' @ e)) (lift_result (proxy_all N url)))
     (map_error (\<lambda>e. OAuthError (lit ''Failed to create HTTP client: '' @ e)) (lift_result (build_client N proxy))))"

definition configured_client :: "oauth_client option \<Rightarrow> string \<Rightarrow> ('s, oauth_client) handler" where
  "configured_client c name =
    the_or c (NotConfigured (lit name @ lit '' sign-in is not enabled on this deployment''))"

definition google_auth_url :: "oauth_net \<Rightarrow> oauth_service \<Rightarrow> str \<Rightarrow> ('s, str) handler" where
  "google_auth_url N S state =
    bind (configured_client (os_google S) ''Google'') (\<lambda>c.
    ret (authorize_link N c state [lit ''https://www.googleapis.com/auth/userinfo.email'',
      lit ''https://www.googleapis.com/auth/userinfo.profile'']))"

definition github_auth_url :: "oauth_net \<Rightarrow> oauth_service \<Rightarrow> str \<Rightarrow> ('s, str) handler" where
  "github_auth_url N S state =
    bind (configured_client (os_github S) ''GitHub'') (\<lambda>c. ret (authorize_link N c state [lit ''user:email'']))"

definition oauth_answer :: "str + 'a \<Rightarrow> ('s, 'a) handler" where
  "oauth_answer r = map_error OAuthError (lift_result r)"

definition google_identity :: "oauth_net \<Rightarrow> oauth_service \<Rightarrow> str \<Rightarrow> ('s, oauth_user_info) handler" where
  "google_identity N S code =
    seq (create_http_client N S)
    (bind (configured_client (os_google S) ''Google'') (\<lambda>c.
    bind (oauth_answer (exchange_code N c code)) (\<lambda>token.
    bind (oauth_answer (fetch_google_user N (os_google_userinfo S) token)) (\<lambda>g.
    seq (require (gu_verified g) EmailNotVerified)
    (ret \<lparr>oauth_provider = lit ''google'', oauth_subject = gu_id g, oauth_email = gu_email g,
          oauth_name = gu_name g, oauth_picture = gu_picture g\<rparr>)))))"

definition github_identity :: "oauth_net \<Rightarrow> oauth_service \<Rightarrow> str \<Rightarrow> ('s, oauth_user_info) handler" where
  "github_identity N S code =
    seq (create_http_client N S)
    (bind (configured_client (os_github S) ''GitHub'') (\<lambda>c.
    bind (oauth_answer (exchange_code N c code)) (\<lambda>token.
    bind (oauth_answer (fetch_github_user N (os_github_user S) token)) (\<lambda>h.
    bind (oauth_answer (fetch_github_emails N (os_github_emails S) token)) (\<lambda>mails.
    bind (the_or (find (\<lambda>m. he_primary m \<and> he_verified m) mails) EmailNotVerified) (\<lambda>m.
    ret \<lparr>oauth_provider = lit ''github'', oauth_subject = dec_int (hu_id h), oauth_email = he_email m,
         oauth_name = hu_name h, oauth_picture = hu_avatar h\<rparr>))))))"

section \<open>Redaction\<close>

text \<open>\<^verbatim>\<open>rsplit_once\<close>: the parts before and after the last occurrence.\<close>

definition rsplit_once :: "nat \<Rightarrow> str \<Rightarrow> (str \<times> str) option" where
  "rsplit_once d s = map_option (\<lambda>(r, l). (rev l, rev r)) (split_once d (rev s))"

definition authority_end :: "nat \<Rightarrow> bool" where
  "authority_end c \<longleftrightarrow> c = 47 \<or> c = 63 \<or> c = 35"

definition redact_credentials :: "str \<Rightarrow> str" where
  "redact_credentials url =
    (case cut_at (lit ''://'') url of
       None \<Rightarrow> lit ''<malformed proxy url>''
     | Some (scheme, rest) \<Rightarrow>
         let authority = takeWhile (\<lambda>c. \<not> authority_end c) rest;
             tail = dropWhile (\<lambda>c. \<not> authority_end c) rest in
         (case rsplit_once 64 authority of
            Some (_, host) \<Rightarrow> scheme @ lit ''://***@'' @ host @ tail
          | None \<Rightarrow> url))"

section \<open>What an external identity has shown\<close>

lemma google_identity_success: "google_identity N S code s = (Inr info, t) \<Longrightarrow>
  t = s \<and> oauth_provider info = lit ''google'' \<and>
  (\<exists>c token g. os_google S = Some c \<and> exchange_code N c code = Inr token \<and>
    fetch_google_user N (os_google_userinfo S) token = Inr g \<and> gu_verified g \<and>
    oauth_subject info = gu_id g \<and> oauth_email info = gu_email g)"
  by (fastforce simp: google_identity_def create_http_client_def configured_client_def oauth_answer_def Let_def
      op_success split: option.splits)

lemma github_identity_success: "github_identity N S code s = (Inr info, t) \<Longrightarrow>
  t = s \<and> oauth_provider info = lit ''github'' \<and>
  (\<exists>c token h mails m. os_github S = Some c \<and> exchange_code N c code = Inr token \<and>
    fetch_github_user N (os_github_user S) token = Inr h \<and>
    fetch_github_emails N (os_github_emails S) token = Inr mails \<and>
    m \<in> set mails \<and> he_primary m \<and> he_verified m \<and>
    oauth_subject info = dec_int (hu_id h) \<and> oauth_email info = he_email m)"
  by (fastforce simp: github_identity_def create_http_client_def configured_client_def oauth_answer_def Let_def
      op_success eq_commute [of "Some _" "find _ _"] split: option.splits dest: find_Some_in)

end
