(* ===== verification/Auth_Routes.thy ===== *)
theory Auth_Routes
  imports Oauth Oidc_Routes Lockout Rate_Limiter Audit_Log
begin

text \<open>
  The handlers of \<^verbatim>\<open>src/routes/auth.rs\<close>: login with its lock-out check, the second step, sessions,
  passwords and the external logins.  They work on a \<open>site\<close>: the database and, beside it, the cache, the
  second factors, the outgoing mail, the lock-out records, the queue of the audit logger, and the tasks a
  handler spawned that have not run yet.  Every handler reads the clock once; the subject of an
  authenticated request comes from the extractors of \<open>Jwt\<close>.
\<close>

section \<open>State\<close>

datatype lockout_task = ClearFailures str str | CountFailure str str

record site =
  base :: oidc_world
  login_cache :: auth_cache
  second_factors :: mfa_table
  mails :: "mail list"
  locks :: lockout_world
  audit_queue :: "audit_event list"
  spawned :: "lockout_task list"

type_synonym 'a site_op = "(site, 'a) handler"

record site_env =
  auth_conf :: auth_env
  site_conf :: config
  lock_conf :: lockout_config
  mfa_conf :: mfa_env
  web_conf :: web_env

definition auth_part :: "site \<Rightarrow> auth_world" where
  "auth_part w = store.extend (store.truncate (base w))
    \<lparr>cache = login_cache w, mfa_rows = second_factors w, outbox = mails w\<rparr>"

definition put_auth :: "auth_world \<Rightarrow> site \<Rightarrow> site" where
  "put_auth a w = w\<lparr>base := store.extend (store.truncate a) (store.more (base w)), login_cache := cache a,
    second_factors := mfa_rows a, mails := outbox a\<rparr>"

definition on_auth :: "(auth_world, 'e, 'a) op \<Rightarrow> (site, 'e, 'a) op" where
  "on_auth = zoom auth_part put_auth"

definition on_base :: "(oidc_world, 'e, 'a) op \<Rightarrow> (site, 'e, 'a) op" where
  "on_base = zoom base (\<lambda>t w. w\<lparr>base := t\<rparr>)"

definition on_mfa :: "(mfa_table, 'e, 'a) op \<Rightarrow> (site, 'e, 'a) op" where
  "on_mfa = zoom second_factors (\<lambda>t w. w\<lparr>second_factors := t\<rparr>)"

definition on_locks :: "(lockout_world, 'e, 'a) op \<Rightarrow> (site, 'e, 'a) op" where
  "on_locks = zoom locks (\<lambda>t w. w\<lparr>locks := t\<rparr>)"

definition record_audit :: "audit_event \<Rightarrow> unit site_op" where
  "record_audit ev = writes (audit_queue_update (\<lambda>q. q @ [ev]))"

definition spawn :: "lockout_task \<Rightarrow> unit site_op" where
  "spawn t = writes (spawned_update (\<lambda>ts. ts @ [t]))"

text \<open>A spawned task, when it runs: a failure of either statement is only logged.\<close>

definition run_lockout_task :: "faults \<Rightarrow> lockout_config \<Rightarrow> int \<Rightarrow> lockout_task \<Rightarrow> lockout_world \<Rightarrow> lockout_world" where
  "run_lockout_task F cfg at task w =
    (case task of
       ClearFailures mail ip \<Rightarrow>
         after (reset_ip_attempts (later_faults F 1) at ip) (after (reset_user_attempts F at mail) w)
     | CountFailure mail ip \<Rightarrow>
         after (record_failed_ip_attempt (later_faults F 1) cfg at ip) (after (record_failed_user_attempt F cfg at mail) w))"

section \<open>Contexts, events and cookies\<close>

definition request_agent :: "(str \<Rightarrow> str option) \<Rightarrow> str" where
  "request_agent headers =
    (case headers (lit ''user-agent'') of
       None \<Rightarrow> lit ''Unknown''
     | Some v \<Rightarrow> let a = take 256 (filter (\<lambda>c. \<not> is_control c) v) in if a = [] then lit ''Unknown'' else a)"

definition request_context_of :: "str \<Rightarrow> (str \<Rightarrow> str option) \<Rightarrow> config \<Rightarrow> request_context" where
  "request_context_of addr headers cfg =
    \<lparr>ctx_ip = client_ip addr headers (cfg_trust_proxy_headers cfg), ctx_agent = request_agent headers\<rparr>"

definition authentication_details :: "authentication_fact \<Rightarrow> json" where
  "authentication_details f =
    (let base = obj_insert (lit ''authenticated_at'') (JNum (fact_at f))
        (obj_insert (lit ''methods'') (JArr (map (\<lambda>m. JStr (method_str m)) (fact_methods f)))
          (obj_insert (lit ''actor_kind'') (JStr (kind_str (fact_kind f))) [])) in
     JObj (if fact_credential_refs f = [] then base
       else obj_insert (lit ''credential_refs'') (JArr (map JStr (fact_credential_refs f))) base))"

fun merge_details :: "json \<Rightarrow> json \<Rightarrow> json" where
  "merge_details (JObj b) (JObj e) = JObj (fold (\<lambda>(k, v). obj_insert k v) e b)"
| "merge_details b _ = b"

definition ctx_event :: "string \<Rightarrow> activity_category \<Rightarrow> activity_status \<Rightarrow> request_context \<Rightarrow> audit_event" where
  "ctx_event action cat st ctx = new_event (lit action) cat st (ctx_ip ctx) (ctx_agent ctx)"

definition failure_reason :: "auth_error \<Rightarrow> str" where
  "failure_reason e = lit (case e of
      InvalidCredentials \<Rightarrow> ''invalid_credentials''
    | UserNotFound \<Rightarrow> ''invalid_credentials''
    | EmailNotVerified \<Rightarrow> ''email_not_verified''
    | AccountSuspended \<Rightarrow> ''account_suspended''
    | AccountInactive \<Rightarrow> ''account_inactive''
    | AccountDeleted \<Rightarrow> ''account_deleted''
    | _ \<Rightarrow> ''internal_error'')"

datatype login_response = AuthenticatedResponse str user_response | MfaRequiredResponse str mfa_method

definition no_session :: auth_error where
  "no_session = ServerError (lit ''Failed to establish session'')"

definition login_answer :: "site_env \<Rightarrow> int \<Rightarrow> login_response \<Rightarrow> str option \<Rightarrow> (login_response \<times> str option) site_op" where
  "login_answer S now out key =
    (case (out, key) of
       (AuthenticatedResponse _ u, Some k) \<Rightarrow>
         bind (map_error (\<lambda>_. no_session) (lift_result
           (create_browser_session_token (web_conf S) now (response_id u) k (cfg_jwt_secret (site_conf S))))) (\<lambda>t.
         bind (map_error (\<lambda>_. no_session) (lift_result (header_value (web_conf S)
           (build_cookie (web_conf S) soulauth_session_cookie t Oidc_Routes.session_ttl_seconds
             (cookies_secure (site_conf S)))))) (\<lambda>v.
         ret (out, Some v)))
     | _ \<Rightarrow> ret (out, None))"

section \<open>The lock-out check\<close>

text \<open>
  Lock-out times are instants in nanoseconds, everything else counts whole seconds: a handler that needs
  both reads the instant \<open>at\<close> and passes its second on.
\<close>

definition unix_seconds :: "int \<Rightarrow> int" where
  "unix_seconds at = at div 1000000000"

definition try_later :: auth_error where
  "try_later = ServiceUnavailable (lit ''Please retry in a moment'')"

definition run_lockout_check_with_reauth :: "lockout_check_result site_op \<Rightarrow> unit site_op \<Rightarrow>
    lockout_check_result site_op \<Rightarrow> lockout_check_result site_op" where
  "run_lockout_check_with_reauth check reauth again =
    catch check (\<lambda>_. catch reauth (\<lambda>_. throw try_later) (\<lambda>_. catch again (\<lambda>_. throw try_later) ret)) ret"

definition locked_response :: "lockout_check_result \<Rightarrow> auth_error" where
  "locked_response r = AccountLocked (res_message r) (remaining_seconds r)"

definition ensure_not_locked_out :: "faults \<Rightarrow> site_env \<Rightarrow> int \<Rightarrow> str \<Rightarrow> str \<Rightarrow> unit site_op" where
  "ensure_not_locked_out F S at mail ip =
    bind (run_lockout_check_with_reauth (on_locks (check_ip_lockout F (lock_conf S) at ip))
        (database_up F ''reauth'') (on_locks (check_ip_lockout (later_faults F 1) (lock_conf S) at ip))) (\<lambda>r.
    seq (require (\<not> res_locked r) (locked_response r))
    (bind (run_lockout_check_with_reauth (on_locks (check_user_lockout (later_faults F 2) (lock_conf S) at mail))
        (database_up (later_faults F 1) ''reauth'') (on_locks (check_user_lockout (later_faults F 3) (lock_conf S) at mail))) (\<lambda>r.
    require (\<not> res_locked r) (locked_response r))))"

section \<open>Administrators\<close>

definition fill_is_admin :: "faults \<Rightarrow> str \<Rightarrow> ('x, bool) rbac_op" where
  "fill_is_admin F uid = catch (check_user_role F (normalize_user_id uid) (lit ''admin'')) (\<lambda>_. ret False) ret"

definition admin_console_read :: "str list" where
  "admin_console_read = [users_read, roles_read, security_read, audit_read]"

fun any_permission :: "faults \<Rightarrow> str \<Rightarrow> nat \<Rightarrow> str list \<Rightarrow> ('x, bool) rbac_op" where
  "any_permission F uid n [] = ret False"
| "any_permission F uid n (p # ps) =
    catch (check_user_permission (later_faults F n) uid p)
      (\<lambda>_. any_permission F uid (n + 1) ps)
      (\<lambda>ok. if ok then ret True else any_permission F uid (n + 1) ps)"

definition is_admin_console_user :: "faults \<Rightarrow> str \<Rightarrow> ('x, bool) rbac_op" where
  "is_admin_console_user F uid =
    bind (check_user_role F uid (lit ''admin'')) (\<lambda>admin.
    if admin then ret True else any_permission F uid 0 admin_console_read)"

definition no_console :: auth_error where
  "no_console = Forbidden (lit ''Current account does not have admin console access'')"

definition ensure_admin_console_access :: "faults \<Rightarrow> str \<Rightarrow> unit site_op" where
  "ensure_admin_console_access F uid =
    bind (map_error (\<lambda>_. ServerError (lit ''Failed to verify admin permissions''))
      (on_base (is_admin_console_user F uid))) (\<lambda>ok. require ok no_console)"

section \<open>Registration and login\<close>

definition register_handler :: "faults \<Rightarrow> conflict_report \<Rightarrow> site_env \<Rightarrow> int \<Rightarrow> register_draws \<Rightarrow> request_context \<Rightarrow>
    create_user_request \<Rightarrow> (str \<times> user_response) site_op" where
  "register_handler F V S now d ctx req =
    bind (on_auth (register F V (auth_conf S) now d ctx req)) (\<lambda>(answer, _). ret answer)"

definition refuse_login :: "request_context \<Rightarrow> str \<Rightarrow> auth_error \<Rightarrow> 'a site_op" where
  "refuse_login ctx mail e =
    seq (if e = InvalidCredentials \<or> e = UserNotFound then spawn (CountFailure mail (ctx_ip ctx)) else ret ())
    (seq (record_audit (with_details (JObj [(lit ''reason'', JStr (failure_reason e))])
      (ctx_event ''login_failed'' CatAuthentication StatusFailed ctx)))
    (throw (if e = UserNotFound then InvalidCredentials else e)))"

definition accept_login :: "faults \<Rightarrow> request_context \<Rightarrow> str \<Rightarrow> issued_session \<Rightarrow>
    (login_response \<times> str option) site_op" where
  "accept_login F ctx mail i =
    seq (spawn (ClearFailures mail (ctx_ip ctx)))
    (bind (on_base (fill_is_admin F (response_id (issued_user i)))) (\<lambda>admin.
    seq (record_audit (with_details (authentication_details (issued_fact i))
      (with_actor (fact_actor (issued_fact i)) (ctx_event ''login_success'' CatAuthentication StatusSuccess ctx))))
    (ret (AuthenticatedResponse (issued_token i) ((issued_user i)\<lparr>response_is_admin := admin\<rparr>), Some (issued_key i)))))"

definition perform_login :: "faults \<Rightarrow> conflict_report \<Rightarrow> site_env \<Rightarrow> int \<Rightarrow> str \<Rightarrow> str \<Rightarrow> request_context \<Rightarrow> str \<Rightarrow> str \<Rightarrow>
    (login_response \<times> str option) site_op" where
  "perform_login F V S at probe key ctx mail pw =
    seq (ensure_not_locked_out F S at mail (ctx_ip ctx))
    (catch (on_auth (login F V (auth_conf S) (unix_seconds at) probe key ctx mail pw)) (refuse_login ctx mail)
      (\<lambda>out. case out of
         Authenticated i \<Rightarrow> accept_login F ctx mail i
       | MfaRequired t m \<Rightarrow> ret (MfaRequiredResponse t m, None)))"

definition login_handler :: "faults \<Rightarrow> conflict_report \<Rightarrow> site_env \<Rightarrow> int \<Rightarrow> str \<Rightarrow> str \<Rightarrow> request_context \<Rightarrow> str \<Rightarrow> str \<Rightarrow>
    (login_response \<times> str option) site_op" where
  "login_handler F V S at probe key ctx mail pw =
    bind (perform_login F V S at probe key ctx mail pw) (\<lambda>(out, session). login_answer S (unix_seconds at) out session)"

definition admin_login_handler :: "faults \<Rightarrow> conflict_report \<Rightarrow> site_env \<Rightarrow> int \<Rightarrow> str \<Rightarrow> str \<Rightarrow> request_context \<Rightarrow> str \<Rightarrow>
    str \<Rightarrow> (login_response \<times> str option) site_op" where
  "admin_login_handler F V S at probe key ctx mail pw =
    bind (perform_login F V S at probe key ctx mail pw) (\<lambda>(out, session).
    seq (case out of
        AuthenticatedResponse _ u \<Rightarrow> ensure_admin_console_access (later_faults F 1) (response_id u)
      | MfaRequiredResponse _ _ \<Rightarrow> ret ())
    (login_answer S (unix_seconds at) out session))"

definition verify_email_handler :: "faults \<Rightarrow> conflict_report \<Rightarrow> site_env \<Rightarrow> int \<Rightarrow> str \<Rightarrow> request_context \<Rightarrow> str \<Rightarrow>
    (str \<times> user_response) site_op" where
  "verify_email_handler F V S now key ctx token =
    bind (on_base (verify_email F V (auth_conf S) now key ctx token)) (\<lambda>i. ret (issued_token i, issued_user i))"

definition resend_verification_handler :: "faults \<Rightarrow> conflict_report \<Rightarrow> site_env \<Rightarrow> int \<Rightarrow> str \<Rightarrow> str \<Rightarrow> unit site_op" where
  "resend_verification_handler F V S now token mail =
    on_auth (resend_verification_email F V (auth_conf S) now token mail)"

section \<open>The subject of a request\<close>

definition current_user_handler :: "faults \<Rightarrow> user \<Rightarrow> user_response site_op" where
  "current_user_handler F u =
    (let uid = normalize_user_id (user_key u) in
     bind (on_base (catch (actor_ref_of_user F uid) (\<lambda>_. ret False)
         (\<lambda>actor. catch (has_password F actor) (\<lambda>_. ret False) ret))) (\<lambda>has.
     bind (on_base (fill_is_admin F uid)) (\<lambda>admin.
     ret ((user_response_of u has)\<lparr>response_is_admin := admin\<rparr>))))"

record fact_view =
  view_actor :: str
  view_kind :: str
  view_methods :: "str list"
  view_at :: "int option"
  view_refs :: "str list"

record introspection =
  in_fact :: fact_view
  in_session :: str
  in_created :: int
  in_expires :: int

definition introspect_handler :: "actor_identity \<times> session \<Rightarrow> introspection" where
  "introspect_handler subject =
    (let (a, r) = subject in
     \<lparr>in_fact = \<lparr>view_actor = lit ''actor_identity:'' @ actor_key a, view_kind = actor_kind a,
        view_methods = session_method_names r, view_at = session_authenticated_at r, view_refs = credential_ref_list r\<rparr>,
      in_session = session_key r, in_created = session_created_at r, in_expires = session_expires_at r\<rparr>)"

section \<open>The second factor\<close>

definition mfa_status_handler :: "faults \<Rightarrow> user \<Rightarrow> mfa_status_response site_op" where
  "mfa_status_handler F u = on_mfa (get_mfa_status F (user_key u))"

definition mfa_setup_handler :: "faults \<Rightarrow> site_env \<Rightarrow> setup_rand \<Rightarrow> int \<Rightarrow> user \<Rightarrow> totp_setup_response site_op" where
  "mfa_setup_handler F S d now u = on_mfa (setup_totp F (mfa_conf S) d now (user_key u))"

definition bad_totp :: auth_error where
  "bad_totp = ValidationError (lit ''Invalid TOTP code'')"

definition mfa_enable_handler :: "faults \<Rightarrow> site_env \<Rightarrow> bytes \<Rightarrow> int \<Rightarrow> user \<Rightarrow> str \<Rightarrow> unit site_op" where
  "mfa_enable_handler F S nonce now u code =
    bind (on_mfa (enable_totp F (mfa_conf S) nonce now (user_key u) code)) (\<lambda>ok. require ok bad_totp)"

definition mfa_disable_handler :: "faults \<Rightarrow> site_env \<Rightarrow> bytes \<Rightarrow> int \<Rightarrow> user \<Rightarrow> str \<Rightarrow> unit site_op" where
  "mfa_disable_handler F S nonce now u code =
    bind (on_mfa (verify_totp F (mfa_conf S) nonce now (user_key u) code)) (\<lambda>v.
    seq (require (verified v) bad_totp)
    (bind (on_mfa (disable_mfa (later_faults F 1) (user_key u))) (\<lambda>_. ret ())))"

record second_step_request =
  ss_token :: str
  ss_totp :: "str option"
  ss_backup :: "str option"
  ss_admin :: bool

text \<open>The code is checked before anything else happens; which kind it is goes into the session.\<close>

definition verify_second_factor :: "faults \<Rightarrow> site_env \<Rightarrow> bytes \<Rightarrow> int \<Rightarrow> str \<Rightarrow> second_step_request \<Rightarrow>
    (auth_method \<times> mfa_verification_response) site_op" where
  "verify_second_factor F S nonce now uid q =
    (let failed = ServerError (lit ''MFA verification failed'') in
     case (ss_totp q, ss_backup q) of
       (Some code, _) \<Rightarrow>
         bind (map_error (\<lambda>_. failed) (on_mfa (verify_totp F (mfa_conf S) nonce now uid code))) (\<lambda>v. ret (MTotp, v))
     | (None, Some code) \<Rightarrow>
         bind (map_error (\<lambda>_. failed) (on_mfa (use_backup_code F (mfa_conf S) now uid code))) (\<lambda>v. ret (MBackupCode, v))
     | (None, None) \<Rightarrow> throw (ValidationError (lit ''Either totp_code or backup_code is required'')))"

definition finish_second_step :: "faults \<Rightarrow> conflict_report \<Rightarrow> site_env \<Rightarrow> int \<Rightarrow> str \<Rightarrow> request_context \<Rightarrow> mfa_challenge \<Rightarrow>
    auth_method \<Rightarrow> (login_response \<times> str option) site_op" where
  "finish_second_step F V S now key ctx ch method =
    bind (on_base (complete_mfa_login F V (auth_conf S) now key ctx (challenged_user ch) method)) (\<lambda>i.
    seq (spawn (ClearFailures (challenged_email ch) (ctx_ip ctx)))
    (seq (record_audit (with_details (merge_details (JObj [(lit ''mfa'', JBool True)]) (authentication_details (issued_fact i)))
      (with_actor (fact_actor (issued_fact i)) (ctx_event ''login_success'' CatAuthentication StatusSuccess ctx))))
    (login_answer S now (AuthenticatedResponse (issued_token i) (issued_user i)) (Some (issued_key i)))))"

definition reject_second_step :: "request_context \<Rightarrow> mfa_challenge \<Rightarrow> 'a site_op" where
  "reject_second_step ctx ch =
    seq (spawn (CountFailure (challenged_email ch) (ctx_ip ctx)))
    (seq (record_audit (with_user (challenged_user ch) (ctx_event ''mfa_failed'' CatAuthentication StatusFailed ctx)))
    (throw InvalidCredentials))"

definition mfa_login_verify_handler :: "faults \<Rightarrow> conflict_report \<Rightarrow> site_env \<Rightarrow> int \<Rightarrow> bytes \<Rightarrow> str \<Rightarrow> request_context \<Rightarrow>
    second_step_request \<Rightarrow> (login_response \<times> str option) site_op" where
  "mfa_login_verify_handler F V S at nonce key ctx q =
    (let now = unix_seconds at in
    bind (map_error (\<lambda>_. TokenError (lit ''Invalid or expired MFA token'')) (lift_result
      (decode_mfa_challenge_token (jwt (auth_conf S)) now (ss_token q) (cfg_jwt_secret (site_conf S))))) (\<lambda>ch.
    seq (ensure_not_locked_out F S at (challenged_email ch) (ctx_ip ctx))
    (bind (verify_second_factor F S nonce now (challenged_user ch) q) (\<lambda>(method, v).
    if \<not> verified v then reject_second_step ctx ch
    else seq (if ss_admin q then ensure_admin_console_access F (challenged_user ch) else ret ())
      (finish_second_step F V S now key ctx ch method)))))"

section \<open>Passwords and sessions\<close>

definition initialize_password_handler :: "faults \<Rightarrow> conflict_report \<Rightarrow> site_env \<Rightarrow> int \<Rightarrow> bytes \<Rightarrow> str \<Rightarrow> user \<Rightarrow> str \<Rightarrow>
    user_response site_op" where
  "initialize_password_handler F V S now salt key u pw =
    bind (on_base (initialize_password F V (auth_conf S) now salt key (user_key u) pw)) (\<lambda>v.
    ret (user_response_of v True))"

definition request_password_reset_handler :: "faults \<Rightarrow> conflict_report \<Rightarrow> site_env \<Rightarrow> int \<Rightarrow> str \<Rightarrow> str \<Rightarrow> str \<Rightarrow>
    unit site_op" where
  "request_password_reset_handler F V S now key token mail =
    on_auth (request_password_reset F V (auth_conf S) now key token mail)"

definition reset_password_handler :: "faults \<Rightarrow> conflict_report \<Rightarrow> site_env \<Rightarrow> int \<Rightarrow> bytes \<Rightarrow> str \<Rightarrow> request_context \<Rightarrow> str \<Rightarrow>
    str \<Rightarrow> unit site_op" where
  "reset_password_handler F V S now salt key ctx token pw =
    bind (on_auth (reset_password F V (auth_conf S) now salt key token pw)) (\<lambda>uid.
    seq (map_error (\<lambda>_. ServerError (lit ''Password was reset but issued tokens could not be revoked; retry or revoke them from the admin surface''))
      (on_base (revoke_all_tokens_for_user F uid)))
    (record_audit (with_user uid (ctx_event ''password_reset'' CatSecurity StatusSuccess ctx))))"

definition forget_token :: "jwt_env \<Rightarrow> str \<Rightarrow> auth_cache \<Rightarrow> auth_cache" where
  "forget_token J token c =
    (case cache_ttl J of None \<Rightarrow> c | Some ttl \<Rightarrow> invalidate_token (hashing J) ttl token c)"

definition expire_session_cookie :: "site_env \<Rightarrow> str site_op" where
  "expire_session_cookie S =
    map_error (\<lambda>e. ServerError (lit ''Invalid session cookie: '' @ e)) (lift_result (header_value (web_conf S)
      (build_expired_cookie (web_conf S) soulauth_session_cookie (cookies_secure (site_conf S)))))"

definition logout_handler :: "faults \<Rightarrow> site_env \<Rightarrow> request_context \<Rightarrow> user \<Rightarrow> str \<Rightarrow> str site_op" where
  "logout_handler F S ctx u token =
    (let J = jwt_env.truncate (auth_conf S) in
     seq (record_audit (with_user (user_key u) (ctx_event ''logout'' CatAuthentication StatusSuccess ctx)))
     (seq (on_auth (logout F J token))
     (seq (writes (login_cache_update (forget_token J token)))
     (expire_session_cookie S))))"

definition logout_all_handler :: "faults \<Rightarrow> site_env \<Rightarrow> user \<Rightarrow> str site_op" where
  "logout_all_handler F S u =
    (let J = jwt_env.truncate (auth_conf S) in
     seq (on_auth (logout_all_sessions F J (user_key u)))
     (seq (writes (login_cache_update (\<lambda>c. case cache_ttl J of None \<Rightarrow> c | Some ttl \<Rightarrow> invalidate_user ttl (user_key u) c)))
     (seq (map_error (\<lambda>_. ServerError (lit ''Sessions were ended but issued tokens could not be revoked; retry logout-all''))
       (on_base (revoke_all_tokens_for_user F (user_key u))))
     (expire_session_cookie S))))"

definition sessions_handler :: "faults \<Rightarrow> site_env \<Rightarrow> int \<Rightarrow> user \<Rightarrow> str \<Rightarrow> session_info list site_op" where
  "sessions_handler F S now u token =
    on_base (get_user_sessions F (jwt_env.truncate (auth_conf S)) now (user_key u) token)"

section \<open>External logins\<close>

definition resolve_login_state :: "site_env \<Rightarrow> int \<Rightarrow> str \<Rightarrow> str option \<Rightarrow> (str \<times> str) site_op" where
  "resolve_login_state S now nonce incoming =
    (case incoming of
       Some state \<Rightarrow>
         bind (map_error (\<lambda>_. BadRequest (lit ''Invalid state parameter'')) (lift_result
           (decode_oauth_state_token (web_conf S) now state (cfg_jwt_secret (site_conf S))))) (\<lambda>(own, _).
         ret (state, own))
     | None \<Rightarrow> lift_result (create_oauth_state_token (web_conf S) now nonce None (cfg_jwt_secret (site_conf S))))"

definition oauth_login_redirect :: "site_env \<Rightarrow> str \<Rightarrow> str \<Rightarrow> http_redirect site_op" where
  "oauth_login_redirect S url nonce =
    bind (map_error (\<lambda>e. ServerError (lit ''Invalid oauth state cookie: '' @ e)) (lift_result (header_value (web_conf S)
      (build_cookie (web_conf S) oauth_state_cookie nonce oauth_state_ttl_seconds (cookies_secure (site_conf S)))))) (\<lambda>v.
    ret \<lparr>location = url, set_cookie = Some v\<rparr>)"

definition google_login_handler :: "oauth_net \<Rightarrow> oauth_service \<Rightarrow> site_env \<Rightarrow> int \<Rightarrow> str \<Rightarrow> str option \<Rightarrow> http_redirect site_op" where
  "google_login_handler N svc S now nonce incoming =
    bind (resolve_login_state S now nonce incoming) (\<lambda>(state, n).
    bind (google_auth_url N svc state) (\<lambda>url. oauth_login_redirect S url n))"

definition github_login_handler :: "oauth_net \<Rightarrow> oauth_service \<Rightarrow> site_env \<Rightarrow> int \<Rightarrow> str \<Rightarrow> str option \<Rightarrow> http_redirect site_op" where
  "github_login_handler N svc S now nonce incoming =
    bind (resolve_login_state S now nonce incoming) (\<lambda>(state, n).
    bind (github_auth_url N svc state) (\<lambda>url. oauth_login_redirect S url n))"

definition bad_state :: auth_error where
  "bad_state = BadRequest (lit ''Invalid or expired state parameter'')"

definition verify_callback_state :: "site_env \<Rightarrow> int \<Rightarrow> str option \<Rightarrow> str list \<Rightarrow> str option site_op" where
  "verify_callback_state S now state cookies =
    bind (the_or state (BadRequest (lit ''Missing state parameter''))) (\<lambda>text.
    bind (map_error (\<lambda>_. bad_state) (lift_result
      (decode_oauth_state_token (web_conf S) now text (cfg_jwt_secret (site_conf S))))) (\<lambda>(nonce, target).
    bind (the_or (cookie_value (web_conf S) cookies oauth_state_cookie) bad_state) (\<lambda>held.
    seq (require (constant_time_eq (as_bytes held) (as_bytes nonce)) bad_state) (ret target))))"

record oauth_landing =
  landing :: str
  landing_cookies :: "str list"

definition oauth_cookie :: "site_env \<Rightarrow> string \<Rightarrow> str \<Rightarrow> str site_op" where
  "oauth_cookie S what text =
    map_error (\<lambda>e. ServerError (lit ''Invalid '' @ lit what @ lit '' cookie: '' @ e)) (lift_result (header_value (web_conf S) text))"

definition landing_page :: "config \<Rightarrow> issued_session \<Rightarrow> str" where
  "landing_page cfg i = trim_end_matches 47 (cfg_app_url cfg) @
    (if response_has_password (issued_user i) then lit ''/oauth/callback'' else lit ''/initialize-password'')"

definition build_oauth_redirect :: "site_env \<Rightarrow> int \<Rightarrow> str list \<Rightarrow> issued_session \<Rightarrow> str option \<Rightarrow> oauth_landing site_op" where
  "build_oauth_redirect S now cookies i state_target =
    (let W = web_conf S; cfg = site_conf S; secret = cfg_jwt_secret cfg; secure = cookies_secure cfg in
     bind (lift_result (create_browser_session_token W now (response_id (issued_user i)) (issued_key i) secret)) (\<lambda>token.
     let returned = Option.bind (cookie_value W cookies oidc_return_cookie)
           (\<lambda>t. case decode_oidc_return_token W now t secret of Inl _ \<Rightarrow> None | Inr url \<Rightarrow> Some url);
         target = (case state_target of Some url \<Rightarrow> Some url | None \<Rightarrow> returned) in
     bind (oauth_cookie S ''session'' (build_cookie W soulauth_session_cookie token Oidc_Routes.session_ttl_seconds secure)) (\<lambda>c.
     bind (case target of
         None \<Rightarrow> ret []
       | Some _ \<Rightarrow> bind (oauth_cookie S ''return'' (build_expired_cookie W oidc_return_cookie secure)) (\<lambda>r. ret [r])) (\<lambda>r.
     bind (oauth_cookie S ''oauth state'' (build_expired_cookie W oauth_state_cookie secure)) (\<lambda>s.
     ret \<lparr>landing = (case target of Some url \<Rightarrow> url | None \<Rightarrow> landing_page cfg i), landing_cookies = c # r @ [s]\<rparr>)))))"

definition oauth_callback_handler :: "faults \<Rightarrow> conflict_report \<Rightarrow> site_env \<Rightarrow> int \<Rightarrow> aggregate_keys \<Rightarrow> str \<Rightarrow> string \<Rightarrow>
    auth_error + oauth_user_info \<Rightarrow> request_context \<Rightarrow> str option \<Rightarrow> str list \<Rightarrow> oauth_landing site_op" where
  "oauth_callback_handler F V S now keys key name answer ctx state cookies =
    bind (verify_callback_state S now state cookies) (\<lambda>target.
    bind (on_base (handle_oauth_callback F V (auth_conf S) now keys key ctx answer)) (\<lambda>i.
    seq (record_audit (with_details (merge_details (JObj [(lit ''provider'', JStr (lit name))]) (authentication_details (issued_fact i)))
      (with_actor (fact_actor (issued_fact i)) (ctx_event ''oauth_login'' CatAuthentication StatusSuccess ctx))))
    (build_oauth_redirect S now cookies i target)))"

definition google_callback_handler :: "oauth_net \<Rightarrow> oauth_service \<Rightarrow> faults \<Rightarrow> conflict_report \<Rightarrow> site_env \<Rightarrow> int \<Rightarrow> aggregate_keys \<Rightarrow>
    str \<Rightarrow> request_context \<Rightarrow> str \<Rightarrow> str option \<Rightarrow> str list \<Rightarrow> oauth_landing site_op" where
  "google_callback_handler N svc F V S now keys key ctx code state cookies =
    oauth_callback_handler F V S now keys key ''google'' (outcome (google_identity N svc code) ()) ctx state cookies"

definition github_callback_handler :: "oauth_net \<Rightarrow> oauth_service \<Rightarrow> faults \<Rightarrow> conflict_report \<Rightarrow> site_env \<Rightarrow> int \<Rightarrow> aggregate_keys \<Rightarrow>
    str \<Rightarrow> request_context \<Rightarrow> str \<Rightarrow> str option \<Rightarrow> str list \<Rightarrow> oauth_landing site_op" where
  "github_callback_handler N svc F V S now keys key ctx code state cookies =
    oauth_callback_handler F V S now keys key ''github'' (outcome (github_identity N svc code) ()) ctx state cookies"

end
