(* ===== verification/Login_Safety.thy ===== *)
theory Login_Safety
  imports Auth_Routes Account_Safety Config_Safety
begin

text \<open>
  What the handlers of \<^verbatim>\<open>src/routes/auth.rs\<close> promise: a refused login tells nothing about the account, the
  lock-out check comes first and fails closed, the second step rests on its challenge and its code, an
  external login needs the browser that began it and never takes over an account by its address.  Three
  theorems record where the code falls short of what it means to do.
\<close>

section \<open>The parts of a site\<close>

lemma auth_part_tables [simp]:
  "users (auth_part w) = users (base w)" "actors (auth_part w) = actors (base w)"
  "accounts (auth_part w) = accounts (base w)" "sessions (auth_part w) = sessions (base w)"
  "credentials (auth_part w) = credentials (base w)" "reset_tokens (auth_part w) = reset_tokens (base w)"
  "bindings (auth_part w) = bindings (base w)" "mfa_rows (auth_part w) = second_factors w" "cache (auth_part w) = login_cache w"
  by (simp_all add: auth_part_def store.defs)

lemma put_auth_parts [simp]:
  "users (base (put_auth a w)) = users a" "actors (base (put_auth a w)) = actors a"
  "accounts (base (put_auth a w)) = accounts a" "sessions (base (put_auth a w)) = sessions a"
  "credentials (base (put_auth a w)) = credentials a" "reset_tokens (base (put_auth a w)) = reset_tokens a"
  "access_tokens (base (put_auth a w)) = access_tokens (base w)"
  "refresh_tokens (base (put_auth a w)) = refresh_tokens (base w)"
  "second_factors (put_auth a w) = mfa_rows a" "login_cache (put_auth a w) = cache a"
  "locks (put_auth a w) = locks w" "audit_queue (put_auth a w) = audit_queue w" "spawned (put_auth a w) = spawned w"
  by (cases "base w"; simp add: put_auth_def store.defs)+

lemma put_auth_part [simp]: "put_auth (auth_part w) w = w"
  by (cases w; cases "base w") (simp add: put_auth_def auth_part_def store.defs)

lemma put_auth_rows [simp]:
  "actor_of_user_row uid (auth_part w) = actor_of_user_row uid (base w)"
  "actor_row key (auth_part w) = actor_row key (base w)"
  by (simp_all add: actor_of_user_row_def actor_row_def)

lemmas on_defs = on_auth_def on_base_def on_mfa_def on_locks_def

text \<open>The lock-out check touches the lock-out records only.\<close>

definition locks_only :: "site \<Rightarrow> site \<Rightarrow> bool" where
  "locks_only w v \<longleftrightarrow> (\<exists>l. v = w\<lparr>locks := l\<rparr>)"

lemma preserves_locks_only [preserve]:
  "preserves (locks_only w) (on_locks m)" "preserves (locks_only w) (database_up F l)"
  by (auto simp: preserves_def locks_only_def on_locks_def zoom_def database_up_def split: prod.split option.split)

lemma ensure_not_locked_out_frame:
  assumes "ensure_not_locked_out F S at mail ip w = (r, w1)" shows "w1 = w\<lparr>locks := locks w1\<rparr>"
proof -
  have "preserves (locks_only w) (ensure_not_locked_out F S at mail ip)"
    unfolding ensure_not_locked_out_def run_lockout_check_with_reauth_def by (intro preserve)
  from preserves_step [OF this assms] show ?thesis by (force simp: locks_only_def intro: exI [of _ "locks w"])
qed

section \<open>A refused login\<close>

text \<open>The address is unknown, or its account has no usable password, or the password is another one.\<close>

definition wrong_credentials :: "auth_env \<Rightarrow> str \<Rightarrow> str \<Rightarrow> str \<Rightarrow> 'x store_scheme \<Rightarrow> bool" where
  "wrong_credentials E probe mail pw s \<longleftrightarrow>
    (case user_by_email mail s of
       None \<Rightarrow> True
     | Some u \<Rightarrow>
         (case find (password_of (case subject_id u of None \<Rightarrow> probe | Some a \<Rightarrow> a)) (credentials s) of
            None \<Rightarrow> True
          | Some c \<Rightarrow> \<not> is_usable c \<or> (case secret_hash c of None \<Rightarrow> True | Some h \<Rightarrow> argon2_check E h pw = Inr False)))"

lemma login_refused:
  assumes "validate_email mail = Inr m" "wrong_credentials E probe m pw a"
    and "F (lit ''user.email'') 0 = None" "F (lit ''credential_find_password'') 0 = None"
  shows "login F V E now probe key ctx mail pw a = (Inl InvalidCredentials, a)"
  using assms
  by (auto simp: login_def wrong_credentials_def find_user_by_email_def active_password_def find_password_def
      verify_password_def database_up_def db_read_def op_defs split: option.splits)

text \<open>
  C11: a login with a well-formed address that fails on the credentials has one visible effect, whether
  the account does not exist, has no usable password, or the password is wrong: the same error, one
  journal entry with the same reason, and one more failure to count; the rest of the site is untouched.
\<close>

theorem refused_login_uniform:
  assumes "ensure_not_locked_out F S at mail (ctx_ip ctx) w = (Inr (), w1)"
    and "validate_email mail = Inr m" "wrong_credentials (auth_conf S) probe m pw (base w)"
    and "F (lit ''user.email'') 0 = None" "F (lit ''credential_find_password'') 0 = None"
  shows "perform_login F V S at probe key ctx mail pw w =
    (Inl InvalidCredentials,
     w1\<lparr>audit_queue := audit_queue w @ [with_details (JObj [(lit ''reason'', JStr (lit ''invalid_credentials''))])
          (ctx_event ''login_failed'' CatAuthentication StatusFailed ctx)],
        spawned := spawned w @ [CountFailure mail (ctx_ip ctx)]\<rparr>)"
proof -
  have w1: "w1 = w\<lparr>locks := locks w1\<rparr>" by (rule ensure_not_locked_out_frame [OF assms(1)])
  then have same: "base w1 = base w" "audit_queue w1 = audit_queue w" "spawned w1 = spawned w"
    by (metis site.select_convs(1,6,7) site.surjective site.update_convs(5))+
  have "wrong_credentials (auth_conf S) probe m pw (auth_part w1)"
    using assms(3) by (auto simp: wrong_credentials_def user_by_email_def same split: option.splits)
  then have "on_auth (login F V (auth_conf S) (unix_seconds at) probe key ctx mail pw) w1 = (Inl InvalidCredentials, w1)"
    by (simp add: on_auth_def zoom_def login_refused [where m = m] assms(2,4,5))
  then show ?thesis
    using assms(1) by (simp add: perform_login_def refuse_login_def op_defs spawn_def record_audit_def
        failure_reason_def same)
qed

section \<open>The lock-out check\<close>

lemma on_locks_success [op_success]:
  "on_locks m w = (Inr a, w') \<longleftrightarrow> (\<exists>t. m (locks w) = (Inr a, t) \<and> w' = w\<lparr>locks := t\<rparr>)"
  by (simp add: on_locks_def zoom_success)

lemma on_auth_success [op_success]:
  "on_auth m w = (Inr a, w') \<longleftrightarrow> (\<exists>t. m (auth_part w) = (Inr a, t) \<and> w' = put_auth t w)"
  by (simp add: on_auth_def zoom_success)

lemma on_base_success' [op_success]:
  "Auth_Routes.on_base m w = (Inr a, w') \<longleftrightarrow> (\<exists>t. m (base w) = (Inr a, t) \<and> w' = w\<lparr>base := t\<rparr>)"
  by (simp add: on_base_def zoom_success)

lemma accept_login_succeeds: "succeeds (accept_login F ctx mail i) w"
  by (simp add: succeeds_def accept_login_def op_defs spawn_def record_audit_def on_base_def zoom_def fill_is_admin_def
      split: prod.split sum.split)

lemma perform_login_succeeds:
  assumes "ensure_not_locked_out F S at mail (ctx_ip ctx) w = (Inr (), w)"
  shows "succeeds (perform_login F V S at probe key ctx mail pw) w \<longleftrightarrow>
    succeeds (login F V (auth_conf S) (unix_seconds at) probe key ctx mail pw) (auth_part w)"
proof (cases "login F V (auth_conf S) (unix_seconds at) probe key ctx mail pw (auth_part w)")
  case (Pair r t)
  then show ?thesis
    using assms accept_login_succeeds [of F ctx mail]
    by (cases r) (auto simp: succeeds_def perform_login_def op_defs on_auth_def zoom_def refuse_login_def spawn_def
        record_audit_def split: login_outcome.split)
qed

text \<open>What a check says of the record it read, and what it leaves alone.\<close>

lemma check_lockout_error: "check_lockout F cfg now en ty who l = (Inl e, l') \<Longrightarrow> l' = l"
  by (auto simp: check_lockout_def get_lockout_record_def save_lockout_record_def Let_def db_defs op_defs
      split: if_splits option.splits)

lemma check_lockout_answer:
  assumes "check_lockout F cfg now True ty who l = (Inr res, l')" "\<not> res_locked res"
    and "rows_ok (lockouts l)" "record_for l who ty = Some r"
  shows "\<not> is_locked now r"
proof -
  have "F (lit ''get_lockout_record'') 0 = None"
  proof (rule ccontr)
    assume "F (lit ''get_lockout_record'') 0 \<noteq> None"
    then show False using assms(1) by (auto simp: check_lockout_def get_lockout_record_def db_defs op_defs)
  qed
  then have "get_lockout_record F who ty l = (Inr r, l)" using assms(3,4) by (simp add: get_lockout_record_eq)
  then show ?thesis using assms(1,2)
    by (auto simp: check_lockout_def op_defs Let_def is_lock_expired_def is_locked_def locked_result_def
        split: if_splits option.splits prod.splits sum.splits lockout_status.splits)
qed

lemma save_keeps_other:
  assumes "lock_type r \<noteq> ty'"
  shows "preserves (\<lambda>l. record_for l who' ty' = x) (save_lockout_record F r)"
proof -
  have "lockout_record_id (lock_ident r) (lock_type r) \<noteq> lockout_record_id who' ty'"
    using assms lockout_record_id_type by metis
  then show ?thesis
    unfolding save_lockout_record_def
    by (intro preserve preserves_db_write) (auto simp: record_for_def split: option.splits)
qed

lemma check_lockout_other:
  assumes run: "check_lockout F cfg now en ty who l = (res, l')" and other: "ty' \<noteq> ty"
  shows "record_for l' who' ty' = record_for l who' ty'"
proof -
  let ?I = "\<lambda>t. record_for t who' ty' = record_for l who' ty'"
  obtain g where get: "get_lockout_record F who ty l = (g, l)"
    using get_lockout_record_frame [of F who ty l] by (cases "get_lockout_record F who ty l") auto
  have "?I (snd (check_lockout F cfg now en ty who l))"
  proof (cases g)
    case (Inl e)
    then show ?thesis by (simp add: check_lockout_def catch_def get)
  next
    case (Inr r)
    then have r: "lock_type r = ty" using get by (auto simp: get_lockout_record_def op_success dest!: find_Some_in)
    have keep: "preserves ?I (save_lockout_record F q)" if "lock_type q = ty" for q
      using save_keeps_other that other by metis
    have "preserves ?I (if is_lock_expired now r \<and> lock_status r \<noteq> Normal
            then seq (save_lockout_record F (unlock_account now r)) (ret (normal_result (max_attempts cfg)))
            else let reset = should_reset_attempts cfg now r \<and> lock_status r = Normal;
                  r' = (if reset then r\<lparr>failed_attempts := 0, updated_at := now\<rparr> else r)
              in seq (if reset then save_lockout_record F r' else ret ())
                   (ret (if is_locked now r' then locked_result ty (remaining_lockout_seconds now r')
                         else normal_result (max_attempts cfg - failed_attempts r'))))"
      unfolding Let_def by (intro preserve keep) (auto simp: r unlock_account_def)
    from preservesD [OF this, of l] show ?thesis by (simp add: check_lockout_def catch_def get Inr)
  qed
  then show ?thesis by (simp add: run)
qed

text \<open>Past the two-step check of one identifier, with its second try.\<close>

lemma retried_check:
  assumes "run_lockout_check_with_reauth (on_locks check) (database_up F l) (on_locks again) w = (Inr res, w')"
    and "\<forall>e t. check (locks w) = (Inl e, t) \<longrightarrow> t = locks w"
  shows "\<exists>t. w' = w\<lparr>locks := t\<rparr> \<and> (check (locks w) = (Inr res, t) \<or> again (locks w) = (Inr res, t))"
  using assms
  by (auto simp: run_lockout_check_with_reauth_def op_success on_locks_def zoom_def split: prod.splits)

lemma check_readable:
  "check_lockout F cfg now True ty who l = (Inr res, l') \<Longrightarrow> F (lit ''get_lockout_record'') 0 = None"
  by (rule ccontr) (auto simp: check_lockout_def get_lockout_record_def db_defs op_defs)

lemma check_unreadable:
  "F (lit ''get_lockout_record'') 0 = Some e \<Longrightarrow> \<exists>x. check_lockout F cfg now True ty who l = (Inl x, l)"
  by (simp add: check_lockout_def get_lockout_record_def db_defs op_defs)

lemma check_locked:
  assumes "rows_ok (lockouts l)" "record_for l who ty = Some r" "is_locked now r"
  shows "check_lockout no_faults cfg now True ty who l = (Inr (locked_result ty (remaining_lockout_seconds now r)), l)"
proof -
  have "\<not> is_lock_expired now r" "lock_status r \<noteq> Normal"
    using assms(3) by (auto simp: is_locked_def is_lock_expired_def split: option.splits lockout_status.splits)
  then show ?thesis using get_lockout_record_eq [of l no_faults who ty] assms
    by (simp add: check_lockout_def op_defs no_faults_def)
qed

lemma check_absent:
  assumes "rows_ok (lockouts l)" "record_for l who ty = None"
  shows "check_lockout no_faults cfg now en ty who l = (Inr (normal_result (max_attempts cfg)), l)"
  using get_lockout_record_eq [of l no_faults who ty] assms by (simp add: check_lockout_def op_defs no_faults_def)

text \<open>The \<open>n\<close>-th look-up of a record in a login is answered: two tries for the address, then two for the e-mail.\<close>

abbreviation lock_read :: "faults \<Rightarrow> nat \<Rightarrow> bool" where
  "lock_read F n \<equiv> later_faults F n (lit ''get_lockout_record'') 0 = None"

lemma later_faults_0: "later_faults F 0 = F"
  by (simp add: later_faults_def)

lemma unreadable_refused:
  assumes "enable_ip_lockout (lock_conf S)" "\<not> lock_read F 0" "\<not> lock_read F 1"
  shows "perform_login F V S at probe key ctx mail pw w = (Inl try_later, w)"
proof -
  obtain x y where
    "check_lockout F (lock_conf S) at True IpAddressLockout (ctx_ip ctx) (locks w) = (Inl x, locks w)"
    "check_lockout (later_faults F 1) (lock_conf S) at True IpAddressLockout (ctx_ip ctx) (locks w) = (Inl y, locks w)"
    using assms(2,3) check_unreadable unfolding later_faults_0 by blast
  then show ?thesis using assms(1)
    by (simp add: perform_login_def ensure_not_locked_out_def run_lockout_check_with_reauth_def check_ip_lockout_def
        op_defs on_locks_def zoom_def database_up_def split: option.split)
qed

text \<open>
  C4: the lock-out check comes first and fails closed.  In a well-formed table, a login that gets any kind
  of answer has found, when the lock-out by network address is enabled, no record of that address that is
  locked at this moment, and, when the lock-out by e-mail is enabled, none of the e-mail address as it
  was typed; each record it had to look at was read in one of its two tries.  When the record of the
  network address cannot be read, not even after a new authentication at the database, the answer is to
  try later, and nothing has changed.
\<close>

theorem locked_never_logs_in:
  assumes inv: "lockout_inv (locks w)"
  shows "(perform_login F V S at probe key ctx mail pw w = (Inr out, w') \<longrightarrow>
      (enable_ip_lockout (lock_conf S) \<longrightarrow> (lock_read F 0 \<or> lock_read F 1) \<and>
        (\<nexists>r. record_for (locks w) (ctx_ip ctx) IpAddressLockout = Some r \<and> is_locked at r)) \<and>
      (enable_user_lockout (lock_conf S) \<longrightarrow> (lock_read F 2 \<or> lock_read F 3) \<and>
        (\<nexists>r. record_for (locks w) mail UserLockout = Some r \<and> is_locked at r))) \<and>
    (enable_ip_lockout (lock_conf S) \<and> \<not> lock_read F 0 \<and> \<not> lock_read F 1 \<longrightarrow>
      perform_login F V S at probe key ctx mail pw w = (Inl try_later, w))"
proof (intro conjI impI)
  assume "enable_ip_lockout (lock_conf S) \<and> \<not> lock_read F 0 \<and> \<not> lock_read F 1"
  then show "perform_login F V S at probe key ctx mail pw w = (Inl try_later, w)" using unreadable_refused by blast
next
  let ?cfg = "lock_conf S" and ?ip = "ctx_ip ctx"
  assume run: "perform_login F V S at probe key ctx mail pw w = (Inr out, w')"
  have error: "\<forall>e t. check_ip_lockout F' ?cfg at ?ip l = (Inl e, t) \<longrightarrow> t = l"
    "\<forall>e t. check_user_lockout F' ?cfg at mail l = (Inl e, t) \<longrightarrow> t = l" for F' l
    by (auto simp: check_ip_lockout_def check_user_lockout_def dest: check_lockout_error)
  obtain r1 w2 r2 w3 where
    ip: "run_lockout_check_with_reauth (on_locks (check_ip_lockout F ?cfg at ?ip)) (database_up F ''reauth'')
      (on_locks (check_ip_lockout (later_faults F 1) ?cfg at ?ip)) w = (Inr r1, w2)" "\<not> res_locked r1"
    and user: "run_lockout_check_with_reauth (on_locks (check_user_lockout (later_faults F 2) ?cfg at mail))
      (database_up (later_faults F 1) ''reauth'') (on_locks (check_user_lockout (later_faults F 3) ?cfg at mail)) w2
      = (Inr r2, w3)" "\<not> res_locked r2"
    using run by (auto simp: perform_login_def ensure_not_locked_out_def op_success)
  have rows: "rows_ok (lockouts (locks w))" using inv by (simp add: lockout_inv_def)
  obtain t n where w2: "w2 = w\<lparr>locks := t\<rparr>" and n: "n = 0 \<or> n = (1 :: nat)"
    and c1: "check_lockout (later_faults F n) ?cfg at (enable_ip_lockout ?cfg) IpAddressLockout ?ip (locks w) = (Inr r1, t)"
    using retried_check [OF ip(1) error(1)] later_faults_0 [of F] unfolding check_ip_lockout_def by metis
  obtain t' m where m: "m = 2 \<or> m = (3 :: nat)"
    and c2: "check_lockout (later_faults F m) ?cfg at (enable_user_lockout ?cfg) UserLockout mail (locks w2) = (Inr r2, t')"
    using retried_check [OF user(1) error(2)] by (auto simp: check_user_lockout_def)
  show "lock_read F 0 \<or> lock_read F 1" if "enable_ip_lockout ?cfg"
    using check_readable [of "later_faults F n" ?cfg at IpAddressLockout ?ip "locks w" r1 t] c1 n that by auto
  show "lock_read F 2 \<or> lock_read F 3" if "enable_user_lockout ?cfg"
    using check_readable [of "later_faults F m" ?cfg at UserLockout mail "locks w2" r2 t'] c2 m that by auto
  show "\<nexists>r. record_for (locks w) ?ip IpAddressLockout = Some r \<and> is_locked at r" if "enable_ip_lockout ?cfg"
    using check_lockout_answer [OF _ ip(2) rows, of "later_faults F n" ?cfg at IpAddressLockout ?ip t] c1 that by auto
  have "lockout_inv t" by (rule preserves_step [OF preserves_check c1 inv])
  then have rows': "rows_ok (lockouts t)" by (simp add: lockout_inv_def)
  have "record_for t mail UserLockout = record_for (locks w) mail UserLockout"
    by (rule check_lockout_other [OF c1]) simp
  then show "\<nexists>r. record_for (locks w) mail UserLockout = Some r \<and> is_locked at r" if "enable_user_lockout ?cfg"
    using check_lockout_answer [OF _ user(2), of "later_faults F m" ?cfg at UserLockout mail "locks w2" t'] c2 rows' that
    by (auto simp: w2)
qed

text \<open>
  C36: the lock-out check takes the address as it was typed, the login normalises it.  In a database
  without faults, let the record of one spelling of an address be locked, and let another spelling, with
  the same normal form, and the network address have no record: then the login with the first is refused
  as locked, and the login with the second passes the check unhindered and succeeds exactly when the
  service accepts the first spelling with that password.
\<close>

theorem respelled_address_evades_lockout:
  assumes "validate_email mail' = validate_email mail" and inv: "lockout_inv (locks w)"
    and "enable_user_lockout (lock_conf S)"
    and locked: "record_for (locks w) mail UserLockout = Some r" "is_locked at r"
    and absent: "record_for (locks w) mail' UserLockout = None"
      "record_for (locks w) (ctx_ip ctx) IpAddressLockout = None"
  shows "(\<exists>msg left. perform_login no_faults V S at probe key ctx mail pw w = (Inl (AccountLocked msg left), w)) \<and>
    ensure_not_locked_out no_faults S at mail' (ctx_ip ctx) w = (Inr (), w) \<and>
    (succeeds (perform_login no_faults V S at probe key ctx mail' pw) w \<longleftrightarrow>
     succeeds (login no_faults V (auth_conf S) (unix_seconds at) probe key ctx mail pw) (auth_part w))"
proof (intro conjI)
  have rows: "rows_ok (lockouts (locks w))" using inv by (simp add: lockout_inv_def)
  have later: "later_faults no_faults n = no_faults" for n by (simp add: later_faults_def no_faults_def fun_eq_iff)
  have same: "w\<lparr>locks := locks w\<rparr> = w" by simp
  note run = perform_login_def ensure_not_locked_out_def run_lockout_check_with_reauth_def check_ip_lockout_def
    check_user_lockout_def op_defs on_locks_def zoom_def later
  show "\<exists>msg left. perform_login no_faults V S at probe key ctx mail pw w = (Inl (AccountLocked msg left), w)"
    using check_locked [OF rows locked] assms(3)
    by (simp add: run check_absent [OF rows absent(2)] normal_result_def locked_result_def locked_response_def)
  show free: "ensure_not_locked_out no_faults S at mail' (ctx_ip ctx) w = (Inr (), w)"
    by (simp add: run check_absent [OF rows absent(1)] check_absent [OF rows absent(2)] normal_result_def)
  have "login no_faults V (auth_conf S) (unix_seconds at) probe key ctx mail' pw =
      login no_faults V (auth_conf S) (unix_seconds at) probe key ctx mail pw"
    by (simp add: login_def assms(1))
  then show "succeeds (perform_login no_faults V S at probe key ctx mail' pw) w \<longleftrightarrow>
      succeeds (login no_faults V (auth_conf S) (unix_seconds at) probe key ctx mail pw) (auth_part w)"
    using perform_login_succeeds [OF free, of V probe key pw] by simp
qed

section \<open>What a login leaves behind\<close>

lemma pure_roles [preserve]:
  "preserves I (check_user_role F uid r)" "preserves I (check_user_permission F uid p)" "preserves I (fill_is_admin F uid)"
  unfolding check_user_role_def check_user_permission_def fill_is_admin_def
  by (intro preserve preserves_db_read)+

lemma pure_any_permission [preserve]: "preserves I (any_permission F uid n ps)"
proof (induction ps arbitrary: n)
  case (Cons p ps)
  then show ?case by (auto intro!: preserve)
qed (simp add: preserve)

lemma pure_console [preserve]: "preserves I (is_admin_console_user F uid)"
  unfolding is_admin_console_user_def by (intro preserve)

lemma fill_is_admin_state: "fill_is_admin F uid s = (r, t) \<Longrightarrow> t = s"
  using unchanged [OF pure_roles(3), of F uid s] by simp

lemma accept_login_success: "accept_login F ctx mail i w = (Inr (out, session), w') \<Longrightarrow>
  \<exists>b. out = AuthenticatedResponse (issued_token i) ((issued_user i)\<lparr>response_is_admin := b\<rparr>) \<and>
    session = Some (issued_key i) \<and>
    w' = w\<lparr>audit_queue := audit_queue w @ [with_details (authentication_details (issued_fact i))
        (with_actor (fact_actor (issued_fact i)) (ctx_event ''login_success'' CatAuthentication StatusSuccess ctx))],
      spawned := spawned w @ [ClearFailures mail (ctx_ip ctx)]\<rparr>"
  by (cases w) (auto simp: accept_login_def op_success spawn_def record_audit_def dest!: fill_is_admin_state)

lemma perform_login_cases:
  assumes "perform_login F V S at probe key ctx mail pw w = (Inr (out, session), w')"
  obtains l t i b where "login F V (auth_conf S) (unix_seconds at) probe key ctx mail pw (auth_part w) = (Inr (Authenticated i), t)"
    "out = AuthenticatedResponse (issued_token i) ((issued_user i)\<lparr>response_is_admin := b\<rparr>)" "session = Some (issued_key i)"
    "w' = (put_auth t w)\<lparr>locks := l, audit_queue := audit_queue w @ [with_details (authentication_details (issued_fact i))
        (with_actor (fact_actor (issued_fact i)) (ctx_event ''login_success'' CatAuthentication StatusSuccess ctx))],
      spawned := spawned w @ [ClearFailures mail (ctx_ip ctx)]\<rparr>"
  | l t token m where "login F V (auth_conf S) (unix_seconds at) probe key ctx mail pw (auth_part w) = (Inr (MfaRequired token m), t)"
    "out = MfaRequiredResponse token m" "session = None" "w' = (put_auth t w)\<lparr>locks := l\<rparr>"
proof -
  obtain w1 where lock: "ensure_not_locked_out F S at mail (ctx_ip ctx) w = (Inr (), w1)"
    and rest: "catch (on_auth (login F V (auth_conf S) (unix_seconds at) probe key ctx mail pw)) (refuse_login ctx mail)
      (\<lambda>out. case out of
         Authenticated i \<Rightarrow> accept_login F ctx mail i
       | MfaRequired t m \<Rightarrow> ret (MfaRequiredResponse t m, None)) w1 = (Inr (out, session), w')"
    using assms by (auto simp: perform_login_def seq_success)
  have w1: "w1 = w\<lparr>locks := locks w1\<rparr>" by (rule ensure_not_locked_out_frame [OF lock])
  have part: "auth_part w1 = auth_part w" "audit_queue w1 = audit_queue w" "spawned w1 = spawned w"
    by (subst w1, simp add: auth_part_def)+
  have put: "put_auth t w1 = (put_auth t w)\<lparr>locks := locks w1\<rparr>" for t
    by (subst w1) (simp add: put_auth_def)
  have "\<not> (\<exists>e x. refuse_login ctx mail e x = (Inr (out, session), w'))"
    by (auto simp: refuse_login_def op_success op_failure)
  then obtain lo t where login: "login F V (auth_conf S) (unix_seconds at) probe key ctx mail pw (auth_part w) = (Inr lo, t)"
    and go: "(case lo of
         Authenticated i \<Rightarrow> accept_login F ctx mail i
       | MfaRequired t m \<Rightarrow> ret (MfaRequiredResponse t m, None)) (put_auth t w1) = (Inr (out, session), w')"
    using rest by (auto simp: catch_success on_auth_success part)
  show thesis
  proof (cases lo)
    case (Authenticated i)
    then show thesis using that(1) [OF login [unfolded Authenticated]] accept_login_success [of F ctx mail i "put_auth t w1"] go
      by (fastforce simp: put part)
  next
    case (MfaRequired token m)
    then show thesis using that(2) [OF login [unfolded MfaRequired]] go by (auto simp: put)
  qed
qed

text \<open>
  with a second factor still to come, a login gives a challenge and nothing else: no cookie, no
  session, no journal entry, and the failures counted so far stay counted.
\<close>

theorem challenge_changes_nothing:
  assumes run: "login_handler F V S at probe key ctx mail pw w = (Inr (MfaRequiredResponse token m, cookie), w')"
    and faults: "database_faults F"
  shows "cookie = None \<and> w' = w\<lparr>locks := locks w'\<rparr> \<and>
    (\<exists>u c. login_grounds (auth_conf S) (auth_part w) mail pw u c \<and> mfa_on (user_key u) (auth_part w) = Some m)"
proof -
  have ans: "login_answer S now out session x = (Inr (y, c), x') \<Longrightarrow> y = out \<and> x' = x \<and> (out = MfaRequiredResponse token m \<longrightarrow> c = None)"
    for now out session x y c x'
    by (auto simp: login_answer_def op_success split: login_response.splits option.splits)
  obtain out session w1 where p: "perform_login F V S at probe key ctx mail pw w = (Inr (out, session), w1)"
    and a: "login_answer S (unix_seconds at) out session w1 = (Inr (MfaRequiredResponse token m, cookie), w')"
    using run by (auto simp: login_handler_def bind_success)
  from p ans [OF a] show ?thesis
  proof (cases rule: perform_login_cases)
    case (2 l t tok m')
    then show ?thesis using login_checked_facts [OF 2(1) faults] ans [OF a] by auto
  qed auto
qed

text \<open>
  a login at the administration entry that is refused for want of rights has logged in all the
  same: the session row is there, the journal says \<open>login_success\<close> and the failures are to be cleared,
  only the token is withheld.
\<close>

theorem refused_admin_login_keeps_session:
  assumes run: "perform_login F V S at probe key ctx mail pw w = (Inr (AuthenticatedResponse token u, session), w1)"
    and no: "outcome (is_admin_console_user (later_faults F 1) (response_id u)) (base w1) = Inr False"
    and faults: "database_faults F"
  shows "admin_login_handler F V S at probe key ctx mail pw w = (Inl no_console, w1) \<and>
    (\<exists>r. sessions (base w1) = sessions (base w) @ [r] \<and> session_token_hash r = hash_bearer (hashing (auth_conf S)) token \<and>
      session_expires_at r = unix_seconds at + Auth_Service.session_ttl_seconds (auth_conf S)) \<and>
    ev_action (last (audit_queue w1)) = lit ''login_success'' \<and> spawned w1 = spawned w @ [ClearFailures mail (ctx_ip ctx)]"
proof
  have "snd (is_admin_console_user (later_faults F 1) (response_id u) (base w1)) = base w1"
    by (rule unchanged) (rule pure_console)
  then have "is_admin_console_user (later_faults F 1) (response_id u) (base w1) = (Inr False, base w1)"
    using no by (simp add: outcome_def prod_eq_iff)
  then show "admin_login_handler F V S at probe key ctx mail pw w = (Inl no_console, w1)"
    using run by (simp add: admin_login_handler_def ensure_admin_console_access_def op_defs on_base_def zoom_def)
  show "(\<exists>r. sessions (base w1) = sessions (base w) @ [r] \<and> session_token_hash r = hash_bearer (hashing (auth_conf S)) token \<and>
      session_expires_at r = unix_seconds at + Auth_Service.session_ttl_seconds (auth_conf S)) \<and>
    ev_action (last (audit_queue w1)) = lit ''login_success'' \<and> spawned w1 = spawned w @ [ClearFailures mail (ctx_ip ctx)]"
    using run
  proof (cases rule: perform_login_cases)
    case (1 l t i b)
    then show ?thesis using login_checked_facts [OF 1(1) faults]
      by (auto simp: session_row_def with_details_def with_actor_def ctx_event_def new_event_def)
  qed auto
qed

section \<open>The second step\<close>

lemma complete_mfa_login_success:
  assumes "complete_mfa_login F V E now key ctx uid m s = (Inr i, t)"
  shows "\<exists>u a refs. user_by_id uid s = Some u \<and> user_status u = lit ''Active'' \<and> subject_id u = Some a \<and>
    (\<exists>k q. actor_of_user_row uid s = Some k \<and> actor_row k s = Some q \<and> admitted q s) \<and>
    issued_key i = key \<and> fact_methods (issued_fact i) = [MPassword, m] \<and>
    sessions t = sessions s @ [session_row E now key a (issued_token i) ctx [MPassword, m] refs]"
proof -
  obtain u g s1 v s2 pref s3 where u: "user_by_id uid s = Some u" "user_status u = lit ''Active''"
    and g: "authenticable_actor_of_user F uid s = (Inr g, s1)"
    and v: "touch_last_login F V now ctx u s1 = (Inr v, s2)"
    and ref: "password_ref_of F v s2 = (Inr pref, s3)"
    and mk: "create_session F V E now key ctx v [MPassword, m] (case pref of None \<Rightarrow> [] | Some p \<Rightarrow> [p]) s3 = (Inr i, t)"
    using assms unfolding complete_mfa_login_def find_user_by_id_def
    by (auto simp: bind_success seq_success the_or_success lift_result_success db_read_success)
  have s3: "s3 = s2" using unchanged [of "password_ref_of F v" s2] ref
    by (simp add: password_ref_of_def preserve preserves_case_option split: option.splits)
  note g' = gate_of_user_admits [OF g] and v' = touch_success [OF v] and mk' = create_session_success [OF mk]
  have "sessions s3 = sessions s" using v' g' s3 by auto
  moreover have "subject_id v = subject_id u" using v' by simp
  ultimately show ?thesis using u g' mk' by (auto simp: fact_human_def)
qed

lemma on_mfa_success [op_success]:
  "on_mfa m w = (Inr a, w') \<longleftrightarrow> (\<exists>t. m (second_factors w) = (Inr a, t) \<and> w' = w\<lparr>second_factors := t\<rparr>)"
  by (simp add: on_mfa_def zoom_success)

text \<open>The code of a request has been accepted by the second factors of the user.\<close>

definition factor_accepted :: "faults \<Rightarrow> mfa_env \<Rightarrow> bytes \<Rightarrow> int \<Rightarrow> str \<Rightarrow> second_step_request \<Rightarrow> auth_method \<Rightarrow>
    mfa_table \<Rightarrow> mfa_table \<Rightarrow> bool" where
  "factor_accepted F E nonce now uid q m f f' \<longleftrightarrow>
    (\<exists>code v. verified v \<and>
      (ss_totp q = Some code \<and> m = MTotp \<and> verify_totp F E nonce now uid code f = (Inr v, f') \<or>
       ss_totp q = None \<and> ss_backup q = Some code \<and> m = MBackupCode \<and> use_backup_code F E now uid code f = (Inr v, f')))"

lemma verify_second_factor_success:
  "verify_second_factor F S nonce now uid q w = (Inr (m, v), w') \<Longrightarrow> verified v \<Longrightarrow>
    \<exists>f'. w' = w\<lparr>second_factors := f'\<rparr> \<and> factor_accepted F (mfa_conf S) nonce now uid q m (second_factors w) f'"
  by (auto simp: verify_second_factor_def factor_accepted_def op_success Let_def split: option.splits)

text \<open>
  C5: who completes a login has presented a challenge this service signed for the second step, from
  an address and for an account that are not locked out, and a code the user's second factor accepted;
  the account is active behind an active identity, at the administration entry it has the rights for it,
  and the session says by which two methods it came about.
\<close>

theorem second_step_checked:
  assumes run: "mfa_login_verify_handler F V S at nonce key ctx q w = (Inr (out, cookie), w')"
  shows "\<exists>ch f' m u a tok refs. decode_mfa_challenge_token (jwt (auth_conf S)) (unix_seconds at) (ss_token q)
        (cfg_jwt_secret (site_conf S)) = Inr ch \<and>
    succeeds (ensure_not_locked_out F S at (challenged_email ch) (ctx_ip ctx)) w \<and>
    factor_accepted F (mfa_conf S) nonce (unix_seconds at) (challenged_user ch) q m (second_factors w) f' \<and>
    (ss_admin q \<longrightarrow> outcome (is_admin_console_user F (challenged_user ch)) (base w) = Inr True) \<and>
    user_by_id (challenged_user ch) (base w) = Some u \<and> user_status u = lit ''Active'' \<and> subject_id u = Some a \<and>
    (\<exists>k r. actor_of_user_row (challenged_user ch) (base w) = Some k \<and> actor_row k (base w) = Some r \<and> admitted r (base w)) \<and>
    sessions (base w') = sessions (base w) @
      [session_row (auth_conf S) (unix_seconds at) key a tok ctx [MPassword, m] refs]"
proof -
  let ?now = "unix_seconds at"
  obtain ch w1 m v w2 w3 where ch: "decode_mfa_challenge_token (jwt (auth_conf S)) ?now (ss_token q)
        (cfg_jwt_secret (site_conf S)) = Inr ch"
    and lock: "ensure_not_locked_out F S at (challenged_email ch) (ctx_ip ctx) w = (Inr (), w1)"
    and code: "verify_second_factor F S nonce ?now (challenged_user ch) q w1 = (Inr (m, v), w2)" "verified v"
    and console: "(if ss_admin q then ensure_admin_console_access F (challenged_user ch) else ret ()) w2 = (Inr (), w3)"
    and fin: "finish_second_step F V S ?now key ctx ch m w3 = (Inr (out, cookie), w')"
  proof -
    obtain ch w1 m v w2 where "decode_mfa_challenge_token (jwt (auth_conf S)) ?now (ss_token q)
        (cfg_jwt_secret (site_conf S)) = Inr ch"
      "ensure_not_locked_out F S at (challenged_email ch) (ctx_ip ctx) w = (Inr (), w1)"
      "verify_second_factor F S nonce ?now (challenged_user ch) q w1 = (Inr (m, v), w2)"
      and rest: "(if \<not> verified v then reject_second_step ctx ch
        else seq (if ss_admin q then ensure_admin_console_access F (challenged_user ch) else ret ())
          (finish_second_step F V S ?now key ctx ch m)) w2 = (Inr (out, cookie), w')"
      using run by (auto simp: mfa_login_verify_handler_def Let_def bind_success seq_success map_error_success
          lift_result_success split del: if_split)
    moreover have "verified v" using rest by (auto simp: reject_second_step_def op_success split: if_splits)
    ultimately show thesis using that rest by (auto simp: seq_success split del: if_split)
  qed
  have w1: "base w1 = base w" "second_factors w1 = second_factors w"
    by (subst ensure_not_locked_out_frame [OF lock], simp)+
  obtain f' where f': "w2 = w1\<lparr>second_factors := f'\<rparr>"
    "factor_accepted F (mfa_conf S) nonce ?now (challenged_user ch) q m (second_factors w1) f'"
    using verify_second_factor_success [OF code] by blast
  have same: "snd (is_admin_console_user F (challenged_user ch) x) = x" for x :: oidc_world
    by (rule unchanged) (rule pure_console)
  have w3: "base w3 = base w" using console w1 f' same [of "base w2"]
    by (auto simp: ensure_admin_console_access_def op_success split: if_splits)
  have admin: "ss_admin q \<longrightarrow> outcome (is_admin_console_user F (challenged_user ch)) (base w) = Inr True"
    using console w1 f' by (auto simp: ensure_admin_console_access_def op_success outcome_def split: if_splits)
  obtain i t where fin': "complete_mfa_login F V (auth_conf S) ?now key ctx (challenged_user ch) m (base w) = (Inr i, t)"
    and w': "base w' = t"
    using fin by (auto simp: finish_second_step_def bind_success seq_success on_base_success' w3 login_answer_def
        spawn_def record_audit_def op_success)
  show ?thesis
    using ch lock f'(2) admin complete_mfa_login_success [OF fin'] unfolding succeeds_iff w' w1(2) by blast
qed

section \<open>Witnesses\<close>

definition no_locks :: lockout_world where
  "no_locks = \<lparr>lockouts = [], lock_events = []\<rparr>"

definition site_of :: "auth_world \<Rightarrow> lockout_world \<Rightarrow> site" where
  "site_of a l = \<lparr>base = store.extend (store.truncate a) \<lparr>roles = [], permissions = [], user_roles = [], role_permissions = [],
      clients = [], codes = [], access_tokens = [], refresh_tokens = []\<rparr>,
     login_cache = cache a, second_factors = mfa_rows a, mails = outbox a, locks = l, audit_queue = [], spawned = []\<rparr>"

lemma site_of_parts [simp]:
  "auth_part (site_of a l) = a" "locks (site_of a l) = l" "audit_queue (site_of a l) = []" "spawned (site_of a l) = []"
  "users (base (site_of a l)) = users a" "credentials (base (site_of a l)) = credentials a"
  "roles (base (site_of a l)) = []" "permissions (base (site_of a l)) = []" "role_permissions (base (site_of a l)) = []"
  "user_roles (base (site_of a l)) = []" "sessions (base (site_of a l)) = sessions a"
  by (cases a; simp add: site_of_def auth_part_def store.defs)+

definition demo_state :: browser_claims where
  "demo_state = StateClaims (lit ''n'') None 605 5"

definition login_web :: web_env where
  "login_web = \<lparr>url_encode = id, url_decode = Some, header_value = Inr,
     sign_browser = (\<lambda>_ c. case c of StateClaims _ _ _ _ \<Rightarrow> if c = demo_state then Inr (lit ''st'') else Inl [] | _ \<Rightarrow> Inr (lit ''signed'')),
     read_browser = (\<lambda>_ now t. if t = lit ''st'' \<and> now < 605 then Some demo_state else None)\<rparr>"

definition demo_conf :: site_env where
  "demo_conf = \<lparr>auth_conf = auth_demo, site_conf = demo_config, lock_conf = default_lockout_config, mfa_conf = demo_env,
     web_conf = login_web\<rparr>"

definition noon :: int where "noon = 5000000000"

lemma noon_seconds [simp]: "unix_seconds noon = 5" by (simp add: unix_seconds_def noon_def)

lemma demo_conf_parts [simp]: "auth_conf demo_conf = auth_demo" "site_conf demo_conf = demo_config"
  "lock_conf demo_conf = default_lockout_config" "mfa_conf demo_conf = demo_env" "web_conf demo_conf = login_web"
  by (simp_all add: demo_conf_def)

lemma no_later_faults [simp]: "later_faults no_faults n = no_faults"
  by (simp add: later_faults_def no_faults_def fun_eq_iff)

lemma site_locks [simp]: "(site_of a l)\<lparr>locks := l\<rparr> = site_of a l" by (simp add: site_of_def)

text \<open>No record is locked: the check lets everybody pass.\<close>

lemma check_free: "find (\<lambda>(_, r). lock_ident r = who \<and> lock_type r = ty) (lockouts l) = None \<Longrightarrow>
  check_lockout no_faults cfg now en ty who l = (Inr (normal_result (max_attempts cfg)), l)"
  by (simp add: check_lockout_def get_lockout_record_def db_defs op_defs no_faults_def)

lemma demo_pass:
  assumes "find (\<lambda>(_, r). lock_ident r = ip \<and> lock_type r = IpAddressLockout) (lockouts l) = None"
    "find (\<lambda>(_, r). lock_ident r = mail \<and> lock_type r = UserLockout) (lockouts l) = None"
  shows "ensure_not_locked_out no_faults demo_conf at mail ip (site_of a l) = (Inr (), site_of a l)"
  using assms by (simp add: ensure_not_locked_out_def run_lockout_check_with_reauth_def check_ip_lockout_def
      check_user_lockout_def op_defs on_locks_def zoom_def check_free normal_result_def)

theorem refused_login_uniform_witness:
  "fst (perform_login no_faults demo_report demo_conf noon (lit ''x'') (lit ''k'') demo_ctx (lit ''A@b.c'') (lit ''nope'')
      (site_of demo_world no_locks)) = Inl InvalidCredentials"
proof -
  have pass: "ensure_not_locked_out no_faults demo_conf noon (lit ''A@b.c'') (ctx_ip demo_ctx) (site_of demo_world no_locks)
      = (Inr (), site_of demo_world no_locks)" by (rule demo_pass) (simp_all add: no_locks_def)
  have "wrong_credentials (auth_conf demo_conf) (lit ''x'') (lit ''a@b.c'') (lit ''nope'') (base (site_of demo_world no_locks))"
    by (simp add: wrong_credentials_def user_by_email_def)
      (simp add: demo_world_def sample_user_def password_of_def new_password_def auth_demo_def lit_def)
  from refused_login_uniform [OF pass demo_mail(1) this] show ?thesis by (simp add: no_faults_def)
qed

definition locked_row :: account_lockout where
  "locked_row = \<lparr>lock_ident = lit ''a@b.c'', lock_type = UserLockout, failed_attempts = 5, lock_status = Locked,
     locked_at = Some 0, locked_until = Some (noon + 60000000000), last_attempt_at = noon, created_at = 0, updated_at = 0\<rparr>"

definition one_lock :: lockout_world where
  "one_lock = \<lparr>lockouts = [(lockout_record_id (lit ''a@b.c'') UserLockout, locked_row)], lock_events = []\<rparr>"

lemma respelled: "login F V E now probe key ctx (lit ''a@b.c'') pw = login F V E now probe key ctx (lit ''A@b.c'') pw"
  by (simp add: login_def demo_mail)

theorem respelled_address_evades_lockout_witness:
  "(\<exists>msg secs. outcome (perform_login no_faults demo_report demo_conf noon (lit ''x'') (lit ''k'') demo_ctx (lit ''a@b.c'')
      (lit ''pass'')) (site_of demo_world one_lock) = Inl (AccountLocked msg secs)) \<and>
    succeeds (perform_login no_faults demo_report demo_conf noon (lit ''x'') (lit ''k'') demo_ctx (lit ''A@b.c'')
      (lit ''pass'')) (site_of demo_world one_lock)"
proof -
  have mails: "validate_email (lit ''A@b.c'') = validate_email (lit ''a@b.c'')" by (simp add: demo_mail)
  have inv: "lockout_inv (locks (site_of demo_world one_lock))"
    by (simp add: lockout_inv_def rows_ok_def one_lock_def locked_row_def)
  have on: "enable_user_lockout (lock_conf demo_conf)" by (simp add: demo_conf_def default_lockout_config_def)
  have row: "record_for (locks (site_of demo_world one_lock)) (lit ''a@b.c'') UserLockout = Some locked_row" "is_locked noon locked_row"
    by (simp_all add: record_for_def one_lock_def locked_row_def is_locked_def)
  have absent: "record_for (locks (site_of demo_world one_lock)) (lit ''A@b.c'') UserLockout = None"
    "record_for (locks (site_of demo_world one_lock)) (ctx_ip demo_ctx) IpAddressLockout = None"
    by (auto simp: record_for_def one_lock_def locked_row_def lit_def split: if_splits)
  from respelled_address_evades_lockout [OF mails inv on row absent, of demo_report "lit ''x''" "lit ''k''" "lit ''pass''"]
  show ?thesis
    using demo_login unfolding respelled by (auto simp: succeeds_iff outcome_def)
qed

lemma demo_perform: "\<exists>token u session w'. perform_login no_faults demo_report demo_conf noon (lit ''x'') (lit ''k'') demo_ctx
    (lit ''A@b.c'') (lit ''pass'') (site_of demo_world no_locks) = (Inr (AuthenticatedResponse token u, session), w')"
proof -
  have pass: "ensure_not_locked_out no_faults demo_conf noon (lit ''A@b.c'') (ctx_ip demo_ctx) (site_of demo_world no_locks)
      = (Inr (), site_of demo_world no_locks)" by (rule demo_pass) (simp_all add: no_locks_def)
  obtain i t where "login no_faults demo_report auth_demo 5 (lit ''x'') (lit ''k'') demo_ctx (lit ''A@b.c'') (lit ''pass'')
      demo_world = (Inr (Authenticated i), t)" using demo_login by blast
  then have login: "on_auth (login no_faults demo_report auth_demo 5 (lit ''x'') (lit ''k'') demo_ctx (lit ''A@b.c'') (lit ''pass''))
      (site_of demo_world no_locks) = (Inr (Authenticated i), put_auth t (site_of demo_world no_locks))"
    by (simp add: on_auth_success)
  obtain r w' where "accept_login no_faults demo_ctx (lit ''A@b.c'') i (put_auth t (site_of demo_world no_locks)) = (Inr r, w')"
    using accept_login_succeeds unfolding succeeds_iff by blast
  moreover from this obtain token u session where "r = (AuthenticatedResponse token u, session)"
    using accept_login_success by (cases r) blast
  ultimately show ?thesis by (simp add: perform_login_def op_defs pass login)
qed

theorem locked_never_logs_in_witness:
  "succeeds (perform_login no_faults demo_report demo_conf noon (lit ''x'') (lit ''k'') demo_ctx (lit ''A@b.c'') (lit ''pass''))
      (site_of demo_world no_locks) \<and>
    (\<nexists>r. record_for no_locks (lit ''A@b.c'') UserLockout = Some r \<and> is_locked noon r)"
proof -
  obtain out w' where run: "perform_login no_faults demo_report demo_conf noon (lit ''x'') (lit ''k'') demo_ctx
    (lit ''A@b.c'') (lit ''pass'') (site_of demo_world no_locks) = (Inr out, w')" using demo_perform by blast
  have "lockout_inv (locks (site_of demo_world no_locks))" by (simp add: lockout_inv_def rows_ok_def no_locks_def)
  from locked_never_logs_in [OF this, of no_faults demo_report demo_conf noon "lit ''x''" "lit ''k''" demo_ctx "lit ''A@b.c''"
      "lit ''pass''" out w'] run show ?thesis
    by (simp add: succeeds_iff default_lockout_config_def)
qed

theorem refused_admin_login_keeps_session_witness:
  "\<exists>w'. admin_login_handler no_faults demo_report demo_conf noon (lit ''x'') (lit ''k'') demo_ctx (lit ''A@b.c'') (lit ''pass'')
      (site_of demo_world no_locks) = (Inl no_console, w') \<and> length (sessions (base w')) = 1"
proof -
  obtain token u session w' where run: "perform_login no_faults demo_report demo_conf noon (lit ''x'') (lit ''k'') demo_ctx
    (lit ''A@b.c'') (lit ''pass'') (site_of demo_world no_locks) = (Inr (AuthenticatedResponse token u, session), w')"
    using demo_perform by blast
  have tables: "roles (base w') = []" "role_permissions (base w') = []" "user_roles (base w') = []" using run
    by (auto elim!: perform_login_cases simp: put_auth_def site_of_def store.defs)
  have any: "any_permission no_faults uid n ps (base w') = (Inr False, base w')" for uid n ps
    by (induction ps arbitrary: n) (simp_all add: check_user_permission_def permission_count_def tables count_where_def op_eval)
  have "outcome (is_admin_console_user (later_faults no_faults 1) (response_id u)) (base w') = Inr False"
    by (simp add: is_admin_console_user_def check_user_role_def role_count_def tables count_where_def op_eval any outcome_def)
  from refused_admin_login_keeps_session [OF run this database_faults_no_faults] show ?thesis
    by (auto simp: demo_world_def empty_world_def empty_store_def store.defs)
qed

text \<open>The same account with a second factor, and an environment that reads its challenges back.\<close>

definition guarded_world :: auth_world where
  "guarded_world = demo_world\<lparr>mfa_rows := [lit ''u1'' \<mapsto> demo_row\<lparr>mfa_user_id := lit ''u1''\<rparr>]\<rparr>"

definition challenge_claims :: mfa_challenge_claims where
  "challenge_claims = \<lparr>challenge_sub = lit ''u1'', challenge_email = lit ''a@b.c'', challenge_exp = 305, challenge_iat = 5,
     challenge_purpose = mfa_challenge_purpose\<rparr>"

definition guarded_conf :: site_env where
  "guarded_conf = demo_conf\<lparr>auth_conf := auth_demo\<lparr>jwt := (jwt auth_demo)\<lparr>jwt_decode :=
     (\<lambda>_ now t. if t = lit ''challenge'' \<and> now < 305 then Some (ChallengeToken challenge_claims) else None)\<rparr>\<rparr>\<rparr>"

lemma guarded_tables: "users guarded_world = [sample_user]" "sessions guarded_world = []"
  "credentials guarded_world = [new_password (lit ''c1'') (lit ''a1'') (lit ''pass'') 1]"
  "mfa_rows guarded_world (lit ''u1'') = Some (demo_row\<lparr>mfa_user_id := lit ''u1''\<rparr>)"
  by (simp_all add: guarded_world_def demo_world_def empty_world_def empty_store_def store.defs)

lemma demo_account: "email sample_user = lit ''a@b.c''" "subject_id sample_user = Some (lit ''a1'')"
  "user_key sample_user = lit ''u1''" "user_status sample_user = lit ''Active''"
  "username_normalized sample_user = lit ''ann''"
  by (simp_all add: sample_user_def)

lemma demo_gate_of:
  assumes "users s = [sample_user]" "actors s = actors demo_world" "accounts s = accounts demo_world"
  shows "authenticable_actor_of_user no_faults (lit ''u1'') s =
    (Inr \<lparr>gate_actor = hd (actors demo_world), gate_account = Some (hd (accounts demo_world))\<rparr>, s)"
proof -
  have rows: "actors demo_world = [aggregate_actor 1 demo_keys]" by (simp add: demo_world_def)
  have "\<exists>f. accounts demo_world = [aggregate_account 1 demo_keys f]" unfolding demo_world_def by auto
  then obtain f where f: "accounts demo_world = [aggregate_account 1 demo_keys f]" by blast
  show ?thesis
    by (simp add: authenticable_actor_of_user_def actor_ref_of_user_def actor_of_user_row_def op_eval
        gate_eq gate_decision_def actor_row_def account_row_def assms rows f demo_account
        demo_keys_def aggregate_actor_def aggregate_account_def new_local_def parse_kind_def kind_str_def
        parse_actor_status_def actor_status_str_def)
qed

lemma guarded_gate: "authenticable_actor_of_user no_faults (lit ''u1'') guarded_world =
    (Inr \<lparr>gate_actor = hd (actors demo_world), gate_account = Some (hd (accounts demo_world))\<rparr>, guarded_world)"
  by (rule demo_gate_of) (simp_all add: guarded_tables, simp_all add: guarded_world_def)

lemma demo_credential: "is_usable (new_password (lit ''c1'') (lit ''a1'') (lit ''pass'') 1)"
  "secret_hash (new_password (lit ''c1'') (lit ''a1'') (lit ''pass'') 1) = Some (lit ''pass'')"
  "password_of (lit ''a1'') (new_password (lit ''c1'') (lit ''a1'') (lit ''pass'') 1)"
  by (simp_all, simp_all add: new_password_def password_of_def)

lemma guarded_login: "login no_faults demo_report auth_demo 5 (lit ''x'') (lit ''k'') demo_ctx (lit ''A@b.c'') (lit ''pass'')
    guarded_world = (Inr (MfaRequired (lit ''challenge'') Totp), guarded_world)"
proof -
  have env: "email_verification_enabled auth_demo = False" "argon2_check auth_demo h p = Inr (h = p)"
    "jwt_encode (jwt auth_demo) s (ChallengeToken m) = Inr (lit ''challenge'')" for h p s m
    by (simp_all add: auth_demo_def)
  have admit: "admit_login no_faults demo_report auth_demo 5 (lit ''k'') demo_ctx sample_user
      (new_password (lit ''c1'') (lit ''a1'') (lit ''pass'') 1) guarded_world = (Inr (MfaRequired (lit ''challenge'') Totp), guarded_world)"
    by (simp add: admit_login_def issue_login_def op_eval zoom_def enabled_method_def get_user_mfa_def guarded_gate
        guarded_tables demo_account env create_mfa_challenge_token_def ensure_usable_def parse_account_status_def)
      (simp add: demo_row_def)
  show ?thesis
    by (simp add: login_def demo_mail find_user_by_email_def user_by_email_def active_password_def
        find_password_def op_eval guarded_tables demo_credential demo_account env verify_password_def admit)
qed

theorem challenge_changes_nothing_witness:
  "\<exists>token m w'. login_handler no_faults demo_report demo_conf noon (lit ''x'') (lit ''k'') demo_ctx (lit ''A@b.c'') (lit ''pass'')
      (site_of guarded_world no_locks) = (Inr (MfaRequiredResponse token m, None), w') \<and> w' = site_of guarded_world no_locks"
proof -
  let ?w = "site_of guarded_world no_locks"
  have pass: "ensure_not_locked_out no_faults demo_conf noon (lit ''A@b.c'') (ctx_ip demo_ctx) ?w = (Inr (), ?w)"
    by (rule demo_pass) (simp_all add: no_locks_def)
  have put: "put_auth guarded_world ?w = ?w" by (metis put_auth_part site_of_parts(1))
  have run: "login_handler no_faults demo_report demo_conf noon (lit ''x'') (lit ''k'') demo_ctx (lit ''A@b.c'') (lit ''pass'') ?w
      = (Inr (MfaRequiredResponse (lit ''challenge'') Totp, None), ?w)"
    by (simp add: login_handler_def perform_login_def op_defs pass on_auth_def zoom_def guarded_login put login_answer_def)
  from challenge_changes_nothing [OF run database_faults_no_faults] run show ?thesis by blast
qed

lemma site_of_people [simp]: "actors (base (site_of a l)) = actors a" "accounts (base (site_of a l)) = accounts a"
  "bindings (base (site_of a l)) = bindings a" "reset_tokens (base (site_of a l)) = reset_tokens a"
  by (cases a; simp add: site_of_def store.defs)+

lemma guarded_base_gate: "authenticable_actor_of_user no_faults (lit ''u1'') (base (site_of guarded_world l)) =
    (Inr \<lparr>gate_actor = hd (actors demo_world), gate_account = Some (hd (accounts demo_world))\<rparr>, base (site_of guarded_world l))"
  by (rule demo_gate_of) (simp_all add: guarded_tables, simp_all add: guarded_world_def)

lemma guarded_second_step: "\<exists>i t. complete_mfa_login no_faults demo_report (auth_conf guarded_conf) 5 (lit ''k'') demo_ctx (lit ''u1'')
    MBackupCode (base (site_of guarded_world l)) = (Inr i, t)"
proof -
  have bare: "split_once 58 (lit ''u1'') = None" by (simp add: lit_def)
  show ?thesis
    by (simp add: complete_mfa_login_def find_user_by_id_def user_by_id_def record_address_key_def bare op_eval guarded_tables
      guarded_base_gate demo_account ensure_usable_def parse_account_status_def touch_last_login_def update_user_def
      replace_row_def create_session_def insert_row_def index_conflict_def user_indexes_def session_indexes_def
      has_password_def active_password_hash_def password_ref_of_def active_password_def find_password_def demo_credential
      guarded_conf_def auth_demo_def Let_def split: prod.split sum.split option.split)
qed

theorem second_step_checked_witness:
  "\<exists>out cookie w'. mfa_login_verify_handler no_faults demo_report guarded_conf noon [] (lit ''k'') demo_ctx
      \<lparr>ss_token = lit ''challenge'', ss_totp = None, ss_backup = Some (lit ''ABCDEFGH''), ss_admin = False\<rparr>
      (site_of guarded_world no_locks) = (Inr (out, cookie), w') \<and> length (sessions (base w')) = 1"
proof -
  let ?w = "site_of guarded_world no_locks"
  let ?q = "\<lparr>ss_token = lit ''challenge'', ss_totp = None, ss_backup = Some (lit ''ABCDEFGH''), ss_admin = False\<rparr>"
  let ?ch = "\<lparr>challenged_user = lit ''u1'', challenged_email = lit ''a@b.c''\<rparr>"
  have challenge: "decode_mfa_challenge_token (jwt (auth_conf guarded_conf)) 5 (lit ''challenge'') s = Inr ?ch" for s
    by (simp add: decode_mfa_challenge_token_def guarded_conf_def challenge_claims_def)
  have pass: "ensure_not_locked_out no_faults guarded_conf noon (lit ''a@b.c'') (ctx_ip demo_ctx) ?w = (Inr (), ?w)"
    using demo_pass [of "ctx_ip demo_ctx" no_locks "lit ''a@b.c''" noon guarded_world]
    by (simp add: no_locks_def ensure_not_locked_out_def guarded_conf_def demo_conf_def)
  have "verify_backup_code (prims demo_env) (lit ''ABCDEFGH'') (lit ''ABCDEFGH'')"
    by (simp add: verify_backup_code_def constant_time_eq_iff) (simp add: lit_def)
  then have "\<exists>f'. use_backup_code no_faults demo_env 5 (lit ''u1'') (lit ''ABCDEFGH'') (mfa_rows guarded_world) = (Inr mfa_accepted, f')"
    by (simp add: use_backup_code_def get_user_mfa_def db_defs op_defs guarded_tables demo_row_def no_faults_def
        consume_backup_code_def Let_def)
  then obtain f' where code: "use_backup_code no_faults demo_env 5 (lit ''u1'') (lit ''ABCDEFGH'') (mfa_rows guarded_world)
      = (Inr mfa_accepted, f')" by blast
  have factor: "verify_second_factor no_faults guarded_conf [] 5 (lit ''u1'') ?q ?w = (Inr (MBackupCode, mfa_accepted), ?w\<lparr>second_factors := f'\<rparr>)"
    using code by (simp add: verify_second_factor_def op_defs on_mfa_def zoom_def guarded_conf_def site_of_def)
  obtain i t where fin: "complete_mfa_login no_faults demo_report (auth_conf guarded_conf) 5 (lit ''k'') demo_ctx (lit ''u1'')
    MBackupCode (base ?w) = (Inr i, t)" using guarded_second_step by blast
  have "\<exists>out cookie w'. mfa_login_verify_handler no_faults demo_report guarded_conf noon [] (lit ''k'') demo_ctx ?q ?w
      = (Inr (out, cookie), w')"
    by (simp add: mfa_login_verify_handler_def op_defs challenge pass factor mfa_accepted_def finish_second_step_def
        on_base_def zoom_def fin spawn_def record_audit_def login_answer_def)
      (simp add: guarded_conf_def create_browser_session_token_def signed_def login_web_def demo_state_def op_defs)
  then obtain out cookie w' where run: "mfa_login_verify_handler no_faults demo_report guarded_conf noon [] (lit ''k'') demo_ctx ?q ?w
      = (Inr (out, cookie), w')" by blast
  from second_step_checked [OF run] run show ?thesis by (fastforce simp: guarded_tables)
qed

end
