(* ===== verification/External_Safety.thy ===== *)
theory External_Safety
  imports Login_Safety
begin

text \<open>
  External logins and the reset of a password, at the level of the handlers of \<^verbatim>\<open>src/routes/auth.rs\<close> and
  of the client of \<^verbatim>\<open>src/services/oauth.rs\<close>.
\<close>

section \<open>The state of an external login\<close>

text \<open>The nonce of a state this service signed, still valid, with its way back.\<close>

definition signed_state :: "site_env \<Rightarrow> int \<Rightarrow> str \<Rightarrow> str \<Rightarrow> str option \<Rightarrow> bool" where
  "signed_state S now text nonce way \<longleftrightarrow>
    (\<exists>exp iat. read_browser (web_conf S) (cfg_jwt_secret (site_conf S)) now text = Some (StateClaims nonce way exp iat)) \<and>
    (\<forall>url. way = Some url \<longrightarrow> is_valid_oidc_return_target url)"

lemma decode_oauth_state_iff: "decode_oauth_state_token (web_conf S) now text (cfg_jwt_secret (site_conf S)) = Inr (nonce, way) \<longleftrightarrow>
  signed_state S now text nonce way"
  by (auto simp: decode_oauth_state_token_def signed_state_def split: option.splits browser_claims.splits)

lemma callback_state_exact: "verify_callback_state S now state cookies w = (Inr way, w') \<longleftrightarrow>
  w' = w \<and> (\<exists>text nonce held. state = Some text \<and> signed_state S now text nonce way \<and>
    cookie_value (web_conf S) cookies oauth_state_cookie = Some held \<and> as_bytes held = as_bytes nonce)"
  by (auto simp: verify_callback_state_def op_success decode_oauth_state_iff constant_time_eq_iff)

lemma callback_state_refused: "verify_callback_state S now state cookies w = (Inl e, w') \<Longrightarrow> w' = w"
  by (auto simp: verify_callback_state_def op_failure op_success)

text \<open>
  C10: a callback does nothing unless the browser holds the nonce of its state: if the site changed, or
  a session came out, then the state was signed by this service, is valid now, and the cookie of the
  request holds the very nonce of it.
\<close>

theorem callback_needs_own_browser:
  assumes "oauth_callback_handler F V S now keys key prov answer ctx state cookies w = (r, w')"
    and "w' \<noteq> w \<or> (\<exists>l. r = Inr l)"
  shows "\<exists>text nonce way held. state = Some text \<and> signed_state S now text nonce way \<and>
    cookie_value (web_conf S) cookies oauth_state_cookie = Some held \<and> as_bytes held = as_bytes nonce"
proof (cases "verify_callback_state S now state cookies w")
  case (Pair v t)
  show ?thesis
  proof (cases v)
    case (Inl e)
    then show ?thesis using assms Pair callback_state_refused [of S now state cookies w e t]
      by (auto simp: oauth_callback_handler_def bind_def)
  next
    case (Inr way)
    then show ?thesis using Pair callback_state_exact [of S now state cookies w way t] by auto
  qed
qed

text \<open>What the signing library promises: a signed value reads back until it expires.\<close>

definition signing_law :: "web_env \<Rightarrow> str \<Rightarrow> bool" where
  "signing_law W secret \<longleftrightarrow> (\<forall>nonce way exp iat t now.
    sign_browser W secret (StateClaims nonce way exp iat) = Inr t \<longrightarrow> now < exp \<longrightarrow>
    read_browser W secret now t = Some (StateClaims nonce way exp iat))"

text \<open>
  What the libraries promise of a cookie: percent-encoding leaves no semicolon and no white space and is
  undone by the decoder, and a header value holds the text it was made of.
\<close>

definition cookie_law :: "web_env \<Rightarrow> bool" where
  "cookie_law W \<longleftrightarrow>
    (\<forall>v. url_decode W (url_encode W v) = Some v \<and> (\<forall>c\<in>set (url_encode W v). c \<noteq> 59 \<and> \<not> is_whitespace c)) \<and>
    (\<forall>t h. header_value W t = Inr h \<longrightarrow> h = t)"

text \<open>
  What a browser does with a \<^verbatim>\<open>Set-Cookie\<close> header (RFC 6265): it keeps the pair before the first semicolon,
  and sends it back, joined with the other cookies it holds, in one \<^verbatim>\<open>Cookie\<close> header.
\<close>

definition kept_pair :: "str \<Rightarrow> str" where
  "kept_pair header = takeWhile (\<lambda>c. c \<noteq> 59) header"

definition cookie_header :: "str list \<Rightarrow> str" where
  "cookie_header pairs = join (lit ''; '') pairs"

definition other_pair :: "str \<Rightarrow> str \<Rightarrow> bool" where
  "other_pair name p \<longleftrightarrow> 59 \<notin> set p \<and> (\<forall>n v. split_once 61 (trim p) = Some (n, v) \<longrightarrow> n \<noteq> name)"

lemma kept_pair_built: "cookie_law W \<Longrightarrow> 59 \<notin> set name \<Longrightarrow>
    kept_pair (build_cookie W name v age secure) = name @ 61 # url_encode W v"
proof -
  assume "cookie_law W" "59 \<notin> set name"
  then have clean: "\<forall>c\<in>set (name @ 61 # url_encode W v). c \<noteq> 59" by (auto simp: cookie_law_def)
  have "build_cookie W name v age secure = (name @ 61 # url_encode W v) @ 59 # tl (lit ''; Path=/; Max-Age='') @
      dec_int age @ lit ''; HttpOnly'' @ (if secure then lit ''; Secure'' else []) @ lit ''; SameSite=Lax''"
    by (simp add: build_cookie_def) (simp add: lit_def)
  then show ?thesis using clean unfolding kept_pair_def by (simp only: takeWhile_append2) simp
qed

lemma split_on_space: "split_on (\<lambda>c. c = 59) (32 # s) =
    (32 # hd (split_on (\<lambda>c. c = 59) s)) # tl (split_on (\<lambda>c. c = 59) s)"
  by (cases "split_on (\<lambda>c. c = 59) s") auto

lemma split_cookie_header: "\<forall>q\<in>set (p # ps). 59 \<notin> set q \<Longrightarrow>
    split_on (\<lambda>c. c = 59) (cookie_header (p # ps)) = p # map ((#) 32) ps"
proof (induction ps arbitrary: p)
  case Nil
  then show ?case by (simp add: cookie_header_def) (rule split_on_word, auto)
next
  case (Cons q ps)
  have p: "\<forall>c\<in>set p. \<not> c = 59" using Cons.prems by auto
  have "cookie_header (p # q # ps) = p @ 59 # 32 # cookie_header (q # ps)"
    by (simp add: cookie_header_def) (simp add: lit_def)
  then show ?case
    using split_on_append_sep [OF p, of 59 "32 # cookie_header (q # ps)"] split_on_space Cons.IH [of q] Cons.prems by simp
qed

lemma trim_space [simp]: "trim (32 # s) = trim s"
  by (simp add: trim_by_def is_whitespace_def)

lemma first_some_map: "(\<And>x. f (g x) = f x) \<Longrightarrow> first_some f (map g xs) = first_some f xs"
  by (induction xs) (simp_all split: option.split)

lemma first_some_append: "(\<forall>x\<in>set xs. f x = None) \<Longrightarrow> first_some f (xs @ ys) = first_some f ys"
  by (induction xs) auto

lemma cookie_comes_back:
  assumes law: "cookie_law W" and name: "59 \<notin> set name" "61 \<notin> set name" "name \<noteq> []" "\<not> is_whitespace (hd name)"
    and before: "\<forall>p\<in>set before. other_pair name p" and later: "\<forall>p\<in>set later. 59 \<notin> set p"
  shows "cookie_value W [cookie_header (before @ (name @ 61 # url_encode W v) # later)] name = Some v"
proof -
  let ?pair = "name @ 61 # url_encode W v" and ?ps = "before @ (name @ 61 # url_encode W v) # later"
  let ?f = "\<lambda>c. case split_once 61 (trim c) of None \<Rightarrow> None | Some (n, v) \<Rightarrow> if n = name then url_decode W v else None"
  have clean: "\<forall>p\<in>set ?ps. 59 \<notin> set p" using before later law name(1) by (auto simp: other_pair_def cookie_law_def)
  obtain q qs where ps: "?ps = q # qs" by (cases ?ps) auto
  have "trim ?pair = ?pair"
  proof -
    have "\<forall>c\<in>set (61 # url_encode W v). \<not> is_whitespace c"
      using law unfolding cookie_law_def by (simp add: is_whitespace_def [of 61])
    moreover have "last ?pair = last (61 # url_encode W v)" by simp
    then have "last ?pair \<in> set (61 # url_encode W v)" using last_in_set [of "61 # url_encode W v"] by simp
    moreover have "hd ?pair = hd name" using name(3) by simp
    ultimately show ?thesis using name(4) unfolding trim_by_fixed_iff by metis
  qed
  then have mine: "?f ?pair = Some v" using split_once_append [OF name(2)] law by (simp add: cookie_law_def)
  have none: "?f p = None" if "p \<in> set before" for p
    using before that by (auto simp: other_pair_def split: option.split)
  have f32: "first_some ?f (q # map ((#) 32) qs) = first_some ?f (q # qs)"
  proof -
    have "first_some ?f (map ((#) 32) qs) = first_some ?f qs" by (rule first_some_map) simp
    then show ?thesis by (simp only: first_some.simps)
  qed
  have "cookie_value W [cookie_header ?ps] name = first_some ?f (split_on (\<lambda>c. c = 59) (cookie_header ?ps))"
    by (simp add: cookie_value_def)
  also have "\<dots> = first_some ?f ?ps" using split_cookie_header [of q qs] clean f32 unfolding ps by simp
  also have "\<dots> = Some v" using first_some_append [of before ?f] none mine by simp
  finally show ?thesis .
qed

text \<open>A state this service issued at time \<open>t0\<close> with the way back \<open>way\<close>: the incoming one, or the one made now.\<close>

definition issued_state :: "site_env \<Rightarrow> int \<Rightarrow> int \<Rightarrow> str option \<Rightarrow> str option \<Rightarrow> bool" where
  "issued_state S now t0 way incoming \<longleftrightarrow>
    (case incoming of
       None \<Rightarrow> t0 = now \<and> way = None
     | Some s \<Rightarrow> \<exists>n. create_oauth_state_token (web_conf S) t0 n way (cfg_jwt_secret (site_conf S)) = Inr (s, n))"

lemma own_state_reads_back:
  assumes "signing_law (web_conf S) (cfg_jwt_secret (site_conf S))" "at < t0 + oauth_state_ttl_seconds"
    and "create_oauth_state_token (web_conf S) t0 nonce way (cfg_jwt_secret (site_conf S)) = Inr (state, n)"
  shows "n = nonce \<and> signed_state S at state nonce way"
  using assms by (auto simp: create_oauth_state_token_def signed_def signed_state_def signing_law_def
      split: sum.splits if_splits option.splits)

lemma resolved_state:
  assumes "resolve_login_state S now nonce incoming w = (Inr (state, n), w')" "issued_state S now t0 way incoming"
    and law: "signing_law (web_conf S) (cfg_jwt_secret (site_conf S))"
    and soon: "now < t0 + oauth_state_ttl_seconds" "at < t0 + oauth_state_ttl_seconds"
  shows "w' = w \<and> signed_state S at state n way"
proof (cases incoming)
  case None
  then show ?thesis using assms(1,2) own_state_reads_back [OF law soon(2)]
    by (auto simp: resolve_login_state_def issued_state_def op_success)
next
  case (Some s)
  then obtain k where "create_oauth_state_token (web_conf S) t0 k way (cfg_jwt_secret (site_conf S)) = Inr (s, k)"
    using assms(2) by (auto simp: issued_state_def)
  from own_state_reads_back [OF law soon(1) this] own_state_reads_back [OF law soon(2) this]
  show ?thesis using assms(1) Some
    by (auto simp: resolve_login_state_def op_success decode_oauth_state_iff) (auto simp: signed_state_def)
qed

lemma preserves_redirect [preserve]: "preserves I (build_oauth_redirect S now cookies i target)"
  unfolding build_oauth_redirect_def oauth_cookie_def Let_def by (intro preserve; auto intro!: preserve split: option.split)

lemma record_audit_base: "record_audit e v = (r, v') \<Longrightarrow> base v' = base v"
  by (auto simp: record_audit_def op_defs)

lemma callback_after_check:
  assumes "verify_callback_state S now state cookies v = (Inr way, v)"
  shows "base (after (oauth_callback_handler F V S now keys key name answer ctx state cookies) v) =
    after (handle_oauth_callback F V (auth_conf S) now keys key ctx answer) (base v)"
proof (cases "handle_oauth_callback F V (auth_conf S) now keys key ctx answer (base v)")
  case (Pair r t)
  have keep: "snd (build_oauth_redirect S now cookies i way x) = x" for i x
    by (rule unchanged) (rule preserves_redirect)
  show ?thesis
  proof (cases r)
    case (Inl e)
    then show ?thesis using assms Pair by (simp add: oauth_callback_handler_def after_def op_defs on_base_def zoom_def)
  next
    case (Inr i)
    then show ?thesis using assms Pair keep
      by (simp add: oauth_callback_handler_def after_def op_defs on_base_def zoom_def record_audit_def)
  qed
qed

text \<open>
  C35: the round trip: a login the service itself began, at either provider, with a state of its own or
  with one it issued before, sends the browser away with a link carrying the state and a cookie.  A
  browser that keeps the pair of that cookie and sends it back among others comes back, within ten minutes
  of the state's issue, past the state check of the callback, with the way back the state was issued for,
  and the external login of the provider's answer is carried out.
\<close>

theorem own_login_comes_back:
  assumes run: "google_login_handler N svc S now nonce incoming w = (Inr there, w') \<and> app = os_google svc \<or>
      github_login_handler N svc S now nonce incoming w = (Inr there, w') \<and> app = os_github svc"
    and origin: "issued_state S now t0 way incoming"
    and soon: "now < t0 + oauth_state_ttl_seconds" "now' < t0 + oauth_state_ttl_seconds"
    and laws: "signing_law (web_conf S) (cfg_jwt_secret (site_conf S))" "cookie_law (web_conf S)"
    and jar: "\<forall>p\<in>set before. other_pair oauth_state_cookie p" "\<forall>p\<in>set later. 59 \<notin> set p"
    and sent: "cookies = [cookie_header (before @ kept_pair (the (set_cookie there)) # later)]"
  shows "w' = w \<and> (\<exists>state c scopes. app = Some c \<and> location there = authorize_link N c state scopes \<and>
    (\<forall>v. verify_callback_state S now' (Some state) cookies v = (Inr way, v)) \<and>
    (\<forall>F V keys key name answer ctx v.
      base (after (oauth_callback_handler F V S now' keys key name answer ctx (Some state) cookies) v) =
      after (handle_oauth_callback F V (auth_conf S) now' keys key ctx answer) (base v)))"
proof -
  obtain state n w1 c scopes where res: "resolve_login_state S now nonce incoming w = (Inr (state, n), w1)"
    and link: "app = Some c" "location there = authorize_link N c state scopes" "w' = w1"
      "header_value (web_conf S) (build_cookie (web_conf S) oauth_state_cookie n oauth_state_ttl_seconds
        (cookies_secure (site_conf S))) = Inr (the (set_cookie there))"
    using run by (auto simp: google_login_handler_def github_login_handler_def google_auth_url_def github_auth_url_def
        configured_client_def oauth_login_redirect_def op_success)
  have state: "w1 = w \<and> signed_state S now' state n way" by (rule resolved_state [OF res origin laws(1) soon])
  have name: "59 \<notin> set oauth_state_cookie" "61 \<notin> set oauth_state_cookie" "oauth_state_cookie \<noteq> []"
    "\<not> is_whitespace (hd oauth_state_cookie)"
    by (simp_all add: oauth_state_cookie_def lit_def is_whitespace_def)
  have "the (set_cookie there) = build_cookie (web_conf S) oauth_state_cookie n oauth_state_ttl_seconds (cookies_secure (site_conf S))"
    using link(4) laws(2) by (auto simp: cookie_law_def)
  then have "kept_pair (the (set_cookie there)) = oauth_state_cookie @ 61 # url_encode (web_conf S) n"
    using kept_pair_built [OF laws(2) name(1)] by simp
  then have "cookie_value (web_conf S) cookies oauth_state_cookie = Some n"
    using cookie_comes_back [OF laws(2) name jar, of n] sent by simp
  then have check: "verify_callback_state S now' (Some state) cookies v = (Inr way, v)" for v
    using state by (auto simp: callback_state_exact)
  from callback_after_check [OF check] check state link show ?thesis by blast
qed

section \<open>Whose account an external login opens\<close>

lemma resolve_binding_success: "resolve_binding F p sub s = (Inr r, t) \<Longrightarrow>
  t = s \<and> (\<forall>a. r = Some a \<longrightarrow> (\<exists>b\<in>set (bindings s). provider b = p \<and> provider_subject b = sub \<and> binding_is_active b \<and>
    actor_by_id (lit ''actor_identity:'' @ binding_actor b) s = Some a))"
  by (auto simp: resolve_binding_def find_actor_by_id_def op_success split: option.splits if_splits dest!: find_Some_in)

lemma created_for_login:
  assumes run: "find_or_create_oauth_user F V now keys info s = (Inr u, t)"
    and free: "resolve_binding F (oauth_provider info) (oauth_subject info) s = (Inr None, s)"
  obtains m f ids where "validate_email (oauth_email info) = Inr m" "user_by_email m s = None"
    "create_human_aggregate F V now keys f s = (Inr ids, t)" "user_by_id (lit ''user:'' @ snd ids) t = Some u"
proof -
  obtain m name norm s0 s1 ids s2 where m: "validate_email (oauth_email info) = Inr m" "find_user_by_email F m s = (Inr None, s0)"
    and name: "generate_unique_username F (hd (split_on (\<lambda>c. c = 64) m)) s0 = (Inr (name, norm), s1)"
    and made: "create_human_aggregate F V now keys
          \<lparr>form_email = m, form_username = name, form_normalized = norm, form_verified = True,
           form_token_hash = None, form_token_expires = None, form_password = None,
           form_binding = Some (oauth_provider info, oauth_subject info)\<rparr> s1 = (Inr ids, s2)"
    and found: "find_user_by_id F (lit ''user:'' @ snd ids) s2 = (Inr (Some u), t)"
    using run free by (auto simp: find_or_create_oauth_user_def op_success)
  have "s0 = s" using find_user_by_email_success [OF m(2)] by simp
  then have "s1 = s" using unchanged [OF preserves_generate, of F _ s] name by (metis snd_conv)
  moreover have "t = s2" "user_by_id (lit ''user:'' @ snd ids) s2 = Some u"
    using found by (auto simp: find_user_by_id_def op_success)
  moreover have "user_by_email m s = None" using find_user_by_email_success [OF m(2)] \<open>s0 = s\<close> by simp
  ultimately show thesis using that [OF m(1), of _ ids] made by simp
qed

text \<open>
  C6: an external login opens an account only by its provider and subject: the session belongs to the
  actor an active binding of that subject points to, or to an actor created by this login for an address
  no account had; an account with the same address is never opened.
\<close>

theorem external_login_by_binding:
  assumes run: "handle_oauth_callback F V E now keys key ctx (Inr info) s = (Inr i, t)"
    and bare: "record_address_key ''user'' (lit ''user:'' @ new_user keys) = Some (new_user keys)"
  shows "\<exists>a. fact_actor (issued_fact i) = lit ''actor_identity:'' @ a \<and>
    ((\<exists>b\<in>set (bindings s). provider b = oauth_provider info \<and> provider_subject b = oauth_subject info \<and>
        binding_is_active b \<and> map_option actor_key (actor_by_id (lit ''actor_identity:'' @ binding_actor b) s) = Some a) \<or>
     a = new_actor keys \<and> (\<exists>m. validate_email (oauth_email info) = Inr m \<and> (\<forall>u\<in>set (users s). email u \<noteq> m)))"
proof -
  obtain u g s1 s2 v s3 where user: "find_or_create_oauth_user F V now keys info s = (Inr u, s1)"
    and v: "touch_last_login F V now ctx u s2 = (Inr v, s3)"
    and mk: "create_session F V E now key ctx v [MExternalIdentity] [] s3 = (Inr i, t)"
    using run by (auto simp: handle_oauth_callback_def op_success)
  obtain a where a: "subject_id u = Some a" "fact_actor (issued_fact i) = lit ''actor_identity:'' @ a"
    using create_session_success [OF mk] touch_success [OF v] by (auto simp: fact_human_def)
  obtain bound where bound: "resolve_binding F (oauth_provider info) (oauth_subject info) s = (Inr bound, s)"
    using user by (auto simp: find_or_create_oauth_user_def bind_success dest: resolve_binding_success)
  show ?thesis
  proof (cases bound)
    case (Some q)
    then have "subject_id u = Some (actor_key q)"
      using user bound by (auto simp: find_or_create_oauth_user_def op_success dest!: resolve_binding_success find_Some_in)
    then show ?thesis using resolve_binding_success [OF bound] Some a by auto
  next
    case None
    obtain m f ids where mail: "validate_email (oauth_email info) = Inr m" "user_by_email m s = None"
      and made: "create_human_aggregate F V now keys f s = (Inr ids, s1)"
      and found: "user_by_id (lit ''user:'' @ snd ids) s1 = Some u"
      using created_for_login [OF user] bound None by blast
    note new = create_human_aggregate_state [OF made, simplified]
    have "user_key u = new_user keys" "u \<in> set (users s1)" using found new bare
      by (auto simp: user_by_id_def dest!: find_Some_in)
    moreover have "new_user keys \<notin> user_key ` set (users s)"
      using new by (auto simp: index_conflict_None user_indexes_def aggregate_user_def)
    moreover have "users s1 = users s @ [aggregate_user now keys f]" using new by simp
    ultimately have "u = aggregate_user now keys f" by (metis Un_iff imageI list.set(1,2) set_append singletonD)
    then have "a = new_actor keys" using a by (simp add: aggregate_user_def)
    moreover have "\<forall>v\<in>set (users s). email v \<noteq> m" using mail(2) by (auto simp: user_by_email_def find_None_all)
    ultimately show ?thesis using a mail(1) by auto
  qed
qed

section \<open>A reset whose revocation fails\<close>

lemma revoke_all_failure: "revoke_all_tokens_for_user F uid s = (Inl e, t) \<Longrightarrow>
  refresh_tokens t = refresh_tokens s \<and> store.truncate t = store.truncate s"
  by (auto simp: revoke_all_tokens_for_user_def as_text_def db_defs op_defs store.defs split: option.splits)

lemma auth_part_of_put:
  "store.truncate t = store.truncate (base (put_auth a w)) \<Longrightarrow> auth_part ((put_auth a w)\<lparr>base := t\<rparr>) = a"
  by (cases a; cases t) (simp add: auth_part_def put_auth_def store.defs)

text \<open>
  C37: when a reset cannot revoke the tokens already issued, its answer says to try again, but nothing can
  be tried again: the password has changed, the refresh tokens are all still there, and every further
  request with the same reset token is refused, whatever the password and the time.
\<close>

theorem failed_reset_cannot_be_retried:
  assumes reset: "reset_password F V (auth_conf S) now salt key token pw (auth_part w) = (Inr uid, a)"
    and failed: "revoke_all_tokens_for_user F uid (base (put_auth a w)) = (Inl e, t)"
    and ok: "store_ok (base w)"
  shows "\<exists>w'. reset_password_handler F V S now salt key ctx token pw w =
      (Inl (ServerError (lit ''Password was reset but issued tokens could not be revoked; retry or revoke them from the admin surface'')), w') \<and>
    refresh_tokens (base w') = refresh_tokens (base w) \<and>
    \<not> succeeds (reset_password_handler F' V' S now' salt' key' ctx' token pw') w'"
proof -
  let ?w' = "(put_auth a w)\<lparr>base := t\<rparr>" and ?h = "hash_bearer (hashing (auth_conf S)) token"
  have "reset_password_handler F V S now salt key ctx token pw w =
      (Inl (ServerError (lit ''Password was reset but issued tokens could not be revoked; retry or revoke them from the admin surface'')), ?w')"
    using failed by (simp add: reset_password_handler_def op_defs on_auth_def on_base_def zoom_def reset)
  moreover have "refresh_tokens (base ?w') = refresh_tokens (base w)" using revoke_all_failure [OF failed] by simp
  moreover have "\<not> succeeds (reset_password_handler F' V' S now' salt' key' ctx' token pw') ?w'"
  proof
    assume "succeeds (reset_password_handler F' V' S now' salt' key' ctx' token pw') ?w'"
    moreover have same: "auth_part ?w' = a" using revoke_all_failure [OF failed] by (intro auth_part_of_put) simp
    ultimately obtain uid' a' where "reset_password F' V' (auth_conf S) now' salt' key' token pw' a = (Inr uid', a')"
      by (auto simp: succeeds_iff reset_password_handler_def op_success)
    then have again: "fst (claim_reset_token ?h now' a) = 1" by (auto elim!: reset_password_success)
    obtain w0 where c: "claim_reset_token ?h now (auth_part w) = (1, w0)"
      and fin: "finish_reset F V (auth_conf S) now salt key ?h pw w0 = (Inr uid, a)"
      using reset by (rule reset_password_success)
    have "spent ?h a" by (rule preserves_step [where I = "spent ?h", OF preserves_spent_finish_reset fin claim_spends [OF c]])
    moreover have "store_ok a"
      using kept_reset_password [of "auth_part w" F V "auth_conf S" now salt key token pw] reset ok
      by (simp add: holds_def store_ok_def)
    ultimately show False using no_unused_unclaimable [OF spent_no_unused, of ?h a now'] again by simp
  qed
  ultimately show ?thesis by blast
qed

section \<open>Redaction\<close>

lemma cut_at_first: "58 \<notin> set l \<Longrightarrow> cut_at (lit ''://'') (l @ lit ''://'' @ r) = Some (l, r)"
  by (induction l) (auto simp: lit_def split: option.split)

lemma rsplit_once_append: "d \<notin> set h \<Longrightarrow> rsplit_once d (l @ d # h) = Some (l, h)"
  by (simp add: rsplit_once_def split_once_append)

lemma rsplit_once_None: "rsplit_once d s = None \<longleftrightarrow> d \<notin> set s"
  by (simp add: rsplit_once_def split_once_None)

text \<open>
  The redaction of a proxy address hides user and password, whatever is in them, as long as no
  character that ends the authority is: with a slash, a question mark or a hash in the password the
  address goes to the log as it is.
\<close>

theorem redaction_misses_slashes:
  assumes "58 \<notin> set scheme" "\<forall>c\<in>set host. \<not> authority_end c \<and> c \<noteq> 64" "tail = [] \<or> authority_end (hd tail)"
  defines "url \<equiv> \<lambda>creds. scheme @ lit ''://'' @ creds @ 64 # host @ tail"
  shows "((\<forall>c\<in>set creds. \<not> authority_end c) \<longrightarrow> redact_credentials (url creds) = scheme @ lit ''://***@'' @ host @ tail) \<and>
    ((\<exists>p d q. creds = p @ d # q \<and> authority_end d \<and> 64 \<notin> set p) \<longrightarrow> redact_credentials (url creds) = url creds)"
proof (intro conjI impI)
  assume clean: "\<forall>c\<in>set creds. \<not> authority_end c"
  have at: "\<not> authority_end 64" by (simp add: authority_end_def)
  have "takeWhile (\<lambda>c. \<not> authority_end c) (creds @ 64 # host @ tail) = creds @ 64 # host"
    "dropWhile (\<lambda>c. \<not> authority_end c) (creds @ 64 # host @ tail) = tail"
    using clean assms(2,3) at by (auto simp: takeWhile_append2 dropWhile_append2 takeWhile_eq_Nil_iff dropWhile_eq_self_iff)
  then show "redact_credentials (url creds) = scheme @ lit ''://***@'' @ host @ tail"
    using assms(2) rsplit_once_append [of 64 host creds]
    by (auto simp: redact_credentials_def url_def cut_at_first [OF assms(1)])
next
  assume "\<exists>p d q. creds = p @ d # q \<and> authority_end d \<and> 64 \<notin> set p"
  then obtain p d q where creds: "creds = p @ d # q" "authority_end d" "64 \<notin> set p" by blast
  have "takeWhile (\<lambda>c. \<not> authority_end c) (p @ d # x) = takeWhile (\<lambda>c. \<not> authority_end c) p" for x
    using creds(2) by (induction p) auto
  moreover have "64 \<notin> set (takeWhile (\<lambda>c. \<not> authority_end c) p)" using creds(3) by (auto dest: set_takeWhileD)
  ultimately have "rsplit_once 64 (takeWhile (\<lambda>c. \<not> authority_end c) (creds @ 64 # host @ tail)) = None"
    by (simp add: creds(1) rsplit_once_None)
  then show "redact_credentials (url creds) = url creds"
    by (simp add: redact_credentials_def url_def cut_at_first [OF assms(1)] Let_def)
qed

section \<open>Witnesses\<close>

definition linked_world :: auth_world where
  "linked_world = demo_world\<lparr>bindings := [new_federated (lit ''b1'') (lit ''a1'') (lit ''google'') (lit ''g1'') 1]\<rparr>"

definition ann_at_google :: oauth_user_info where
  "ann_at_google = \<lparr>oauth_provider = lit ''google'', oauth_subject = lit ''g1'', oauth_email = lit ''x@y.z'', oauth_name = None,
     oauth_picture = None\<rparr>"

lemma linked_tables: "users linked_world = [sample_user]" "sessions linked_world = []" "actors linked_world = actors demo_world"
  "accounts linked_world = accounts demo_world" "credentials linked_world = credentials demo_world"
  "bindings linked_world = [new_federated (lit ''b1'') (lit ''a1'') (lit ''google'') (lit ''g1'') 1]"
  by (simp_all add: linked_world_def demo_world_def empty_world_def empty_store_def store.defs)

lemma linked_login: "\<exists>i t. handle_oauth_callback no_faults demo_report auth_demo 5 demo_keys (lit ''k'') demo_ctx (Inr ann_at_google)
    (base (site_of linked_world l)) = (Inr i, t)"
proof -
  let ?s = "base (site_of linked_world l)"
  let ?a = "aggregate_actor 1 demo_keys"
  have key: "record_address_key ''actor_identity'' (lit ''actor_identity:'' @ lit ''a1'') = Some (lit ''a1'')" 
    by (simp add: record_address_key_def lit_def trim_by_def trim_char_def is_whitespace_def)
  have a: "actor_key ?a = lit ''a1''" by (simp add: aggregate_actor_def demo_keys_def new_local_def)
  have "resolve_binding no_faults (lit ''google'') (lit ''g1'') ?s = (Inr (Some ?a), ?s)"
    by (simp add: resolve_binding_def find_actor_by_id_def actor_by_id_def op_eval linked_tables new_federated_def
        binding_is_active_def) (simp add: demo_world_def a key parse_verification_state_def verification_state_str_def)
  then have user: "find_or_create_oauth_user no_faults demo_report 5 demo_keys ann_at_google ?s = (Inr sample_user, ?s)"
    by (simp add: find_or_create_oauth_user_def ann_at_google_def op_eval linked_tables demo_account a)
  have gate: "authenticable_actor_of_user no_faults (lit ''u1'') ?s =
    (Inr \<lparr>gate_actor = hd (actors demo_world), gate_account = Some (hd (accounts demo_world))\<rparr>, ?s)"
    by (rule demo_gate_of) (simp_all add: linked_tables)
  show ?thesis
    by (simp add: handle_oauth_callback_def op_eval user gate demo_account touch_last_login_def update_user_def
      replace_row_def create_session_def insert_row_def index_conflict_def user_indexes_def session_indexes_def
      has_password_def active_password_hash_def active_password_def find_password_def linked_tables
      auth_demo_def Let_def split: prod.split sum.split option.split)
qed

theorem external_login_by_binding_witness:
  "\<exists>i t a. handle_oauth_callback no_faults demo_report auth_demo 5 demo_keys (lit ''k'') demo_ctx (Inr ann_at_google)
    (base (site_of linked_world no_locks)) = (Inr i, t) \<and> fact_actor (issued_fact i) = lit ''actor_identity:'' @ a"
proof -
  obtain i t where run: "handle_oauth_callback no_faults demo_report auth_demo 5 demo_keys (lit ''k'') demo_ctx (Inr ann_at_google)
    (base (site_of linked_world no_locks)) = (Inr i, t)" using linked_login by blast
  have "record_address_key ''user'' (lit ''user:'' @ new_user demo_keys) = Some (new_user demo_keys)"
    by (simp add: record_address_key_def lit_def trim_by_def trim_char_def is_whitespace_def demo_keys_def)
  from external_login_by_binding [OF run this] run show ?thesis by blast
qed

theorem callback_needs_own_browser_witness:
  "succeeds (oauth_callback_handler no_faults demo_report demo_conf 5 demo_keys (lit ''k'') ''google'' (Inr ann_at_google) demo_ctx
      (Some (lit ''st'')) [lit ''soulauth_oauth_state=n'']) (site_of linked_world no_locks) \<and>
    cookie_value login_web [lit ''soulauth_oauth_state=n''] oauth_state_cookie \<noteq> None"
proof -
  have held: "cookie_value login_web [lit ''soulauth_oauth_state=n''] oauth_state_cookie = Some (lit ''n'')"
    by (simp add: cookie_value_def login_web_def oauth_state_cookie_def lit_def trim_by_def is_whitespace_def)
  have state: "verify_callback_state demo_conf 5 (Some (lit ''st'')) [lit ''soulauth_oauth_state=n''] w = (Inr None, w)" for w
    by (simp add: callback_state_exact held signed_state_def) (simp add: login_web_def demo_state_def)
  obtain i t where "handle_oauth_callback no_faults demo_report auth_demo 5 demo_keys (lit ''k'') demo_ctx (Inr ann_at_google)
    (base (site_of linked_world no_locks)) = (Inr i, t)" using linked_login by blast
  moreover have "cookie_value login_web [lit ''soulauth_oauth_state=n''] oidc_return_cookie = None"
    by (simp add: cookie_value_def login_web_def oidc_return_cookie_def lit_def trim_by_def is_whitespace_def)
  ultimately have "\<exists>out w'. oauth_callback_handler no_faults demo_report demo_conf 5 demo_keys (lit ''k'') ''google'' (Inr ann_at_google) demo_ctx
      (Some (lit ''st'')) [lit ''soulauth_oauth_state=n''] (site_of linked_world no_locks) = (Inr out, w')"
    by (simp add: oauth_callback_handler_def op_defs state on_base_def zoom_def record_audit_def build_oauth_redirect_def
        oauth_cookie_def Let_def)
      (simp add: login_web_def create_browser_session_token_def signed_def op_defs)
  then obtain out w' where run: "oauth_callback_handler no_faults demo_report demo_conf 5 demo_keys (lit ''k'') ''google'' (Inr ann_at_google) demo_ctx
      (Some (lit ''st'')) [lit ''soulauth_oauth_state=n''] (site_of linked_world no_locks) = (Inr out, w')" by blast
  from callback_needs_own_browser [OF run] run show ?thesis by (auto simp: succeeds_iff)
qed

definition demo_client :: oauth_client where
  "demo_client = \<lparr>oc_id = lit ''id'', oc_secret = lit ''s'', oc_auth_uri = [], oc_token_uri = [], oc_redirect = []\<rparr>"

definition demo_oauth :: oauth_service where
  "demo_oauth = \<lparr>os_config = demo_config, os_google = Some demo_client, os_github = None, os_google_userinfo = [],
     os_github_user = [], os_github_emails = []\<rparr>"

definition demo_net :: oauth_net where
  "demo_net = \<lparr>parse_url = (\<lambda>_. Inr ()), authorize_link = (\<lambda>_ state _. state), proxy_all = (\<lambda>_. Inr ()),
     build_client = (\<lambda>_. Inr ()), exchange_code = (\<lambda>_ c. Inr c),
     fetch_google_user = (\<lambda>_ _. Inl []), fetch_github_user = (\<lambda>_ _. Inl []), fetch_github_emails = (\<lambda>_ _. Inl [])\<rparr>"

text \<open>An encoding that satisfies the law of cookies: a character is counted out in one letter and ended by another.\<close>

definition travel_web :: web_env where
  "travel_web = login_web\<lparr>url_encode := (\<lambda>v. concat (map (\<lambda>c. replicate c 97 @ [98]) v)),
     url_decode := (\<lambda>s. Some (map length (butlast (split_on (\<lambda>c. c = 98) s))))\<rparr>"

definition travel_conf :: site_env where
  "travel_conf = demo_conf\<lparr>web_conf := travel_web\<rparr>"

lemma travel_law: "cookie_law travel_web"
proof -
  have decode: "map length (butlast (split_on (\<lambda>c. c = 98) (concat (map (\<lambda>c. replicate c 97 @ [98]) v)))) = v" for v :: str
  proof (induction v)
    case (Cons c v)
    have "\<forall>x\<in>set (replicate c (97 :: nat)). \<not> x = 98" by simp
    from split_on_append_sep [OF this, of 98] Cons show ?case by simp
  qed simp
  show ?thesis by (auto simp: cookie_law_def travel_web_def login_web_def decode is_whitespace_def)
qed

theorem own_login_comes_back_witness:
  "\<exists>there state. google_login_handler demo_net demo_oauth travel_conf 5 (lit ''n'') None (site_of demo_world no_locks)
      = (Inr there, site_of demo_world no_locks) \<and>
    verify_callback_state travel_conf 6 (Some state) [cookie_header [lit ''lang=en'', kept_pair (the (set_cookie there))]]
      (site_of demo_world no_locks) = (Inr None, site_of demo_world no_locks)"
proof -
  have law: "signing_law (web_conf travel_conf) (cfg_jwt_secret (site_conf travel_conf))" "cookie_law (web_conf travel_conf)"
    using travel_law
    by (auto simp: signing_law_def travel_conf_def travel_web_def login_web_def demo_state_def split: if_splits)
  have "\<exists>there. google_login_handler demo_net demo_oauth travel_conf 5 (lit ''n'') None (site_of demo_world no_locks)
      = (Inr there, site_of demo_world no_locks)"
    by (simp add: google_login_handler_def resolve_login_state_def create_oauth_state_token_def signed_def google_auth_url_def
        configured_client_def demo_oauth_def oauth_login_redirect_def op_defs travel_conf_def travel_web_def login_web_def
        demo_state_def oauth_state_ttl_seconds_def)
  then obtain there where run: "google_login_handler demo_net demo_oauth travel_conf 5 (lit ''n'') None (site_of demo_world no_locks)
      = (Inr there, site_of demo_world no_locks)" by blast
  have origin: "issued_state travel_conf 5 5 None None" by (simp add: issued_state_def)
  have jar: "\<forall>p\<in>set [lit ''lang=en'']. other_pair oauth_state_cookie p" "\<forall>p\<in>set []. 59 \<notin> set (p :: str)"
    by (simp_all add: other_pair_def oauth_state_cookie_def lit_def trim_by_def is_whitespace_def)
  have soon: "5 < 5 + oauth_state_ttl_seconds" "6 < 5 + oauth_state_ttl_seconds" by (simp_all add: oauth_state_ttl_seconds_def)
  from own_login_comes_back [OF disjI1 [OF conjI [OF run refl]] origin soon law jar refl]
  show ?thesis using run by auto
qed

definition tokens_stay :: faults where
  "tokens_stay l i = (if l = lit ''oidc_revoke_all_refresh_tokens'' then Some (DatabaseError []) else None)"

lemma tokens_stay_elsewhere: "l \<noteq> ''oidc_revoke_all_refresh_tokens'' \<Longrightarrow> tokens_stay (lit l) i = None"
  by (simp add: tokens_stay_def)

lemma reset_demo_later: "\<exists>a. reset_password tokens_stay demo_report auth_demo 5 [] (lit ''c2'') (lit ''t1'') (lit ''Passw0rd'')
    reset_world = (Inr (lit ''u1''), a)"
proof -
  have up: "database_up tokens_stay l = database_up no_faults l" if "l \<noteq> ''oidc_revoke_all_refresh_tokens''" for l
    using tokens_stay_elsewhere [OF that] by (simp add: fun_eq_iff database_up_def no_faults_def)
  have reading: "db_read tokens_stay l g = db_read no_faults l g" and writing: "db_write tokens_stay l f = db_write no_faults l f"
    and executing: "db_exec tokens_stay l h = db_exec no_faults l h"
    if "l \<noteq> ''oidc_revoke_all_refresh_tokens''" for l g f h
    by (simp_all add: db_read_def db_write_def db_exec_def up [OF that])
  have rotate: "rotate_password tokens_stay l a h n = rotate_password no_faults l a h n"
    if "l \<noteq> ''oidc_revoke_all_refresh_tokens''" for l a h n
    by (simp add: rotate_password_def executing [OF that])
  have set: "set_password tokens_stay V n k a h = set_password no_faults V n k a h" for V n k a h
    by (simp add: set_password_alone rotate up cong: if_cong)
  have "reset_password tokens_stay demo_report auth_demo 5 [] (lit ''c2'') (lit ''t1'') (lit ''Passw0rd'') =
      reset_password no_faults demo_report auth_demo 5 [] (lit ''c2'') (lit ''t1'') (lit ''Passw0rd'')"
    by (simp add: reset_password_def finish_reset_def find_user_by_email_def update_user_def
        invalidate_password_reset_tokens_def delete_sessions_by_user_id_def set up reading writing executing)
  then show ?thesis using reset_demo by simp
qed

theorem failed_reset_cannot_be_retried_witness:
  "\<exists>e w'. reset_password_handler tokens_stay demo_report demo_conf 5 [] (lit ''c2'') demo_ctx (lit ''t1'') (lit ''Passw0rd'')
      (site_of reset_world no_locks) = (Inl (ServerError e), w') \<and>
    \<not> succeeds (reset_password_handler no_faults demo_report demo_conf 6 [] (lit ''c3'') demo_ctx (lit ''t1'') (lit ''Passw0rd'')) w'"
proof -
  obtain a where reset: "reset_password tokens_stay demo_report (auth_conf demo_conf) 5 [] (lit ''c2'') (lit ''t1'') (lit ''Passw0rd'')
    (auth_part (site_of reset_world no_locks)) = (Inr (lit ''u1''), a)" using reset_demo_later by auto
  have "\<exists>e t. revoke_all_tokens_for_user tokens_stay (lit ''u1'') s = (Inl e, t)" for s
    by (simp add: revoke_all_tokens_for_user_def as_text_def op_defs db_defs tokens_stay_elsewhere)
      (simp add: tokens_stay_def)
  then obtain e t where failed: "revoke_all_tokens_for_user tokens_stay (lit ''u1'') (base (put_auth a (site_of reset_world no_locks)))
      = (Inl e, t)" by blast
  have "store_ok (base (site_of reset_world no_locks))" using reset_world_ok by (simp add: store_ok_def reset_world_def)
  from failed_reset_cannot_be_retried [OF reset failed this] show ?thesis by blast
qed

theorem redaction_misses_slashes_witness:
  "redact_credentials (lit ''http://u:p@h/x'') = lit ''http://***@h/x'' \<and>
   redact_credentials (lit ''http://u:p/q@h/x'') = lit ''http://u:p/q@h/x''"
proof -
  note use = redaction_misses_slashes [of "lit ''http''" "lit ''h''" "lit ''/x''"]
  have url: "lit ''http'' @ lit ''://'' @ lit c @ 64 # lit ''h'' @ lit ''/x'' = lit (''http://'' @ c @ ''@h/x'')" for c
    by (simp add: lit_def)
  have "redact_credentials (lit (''http://'' @ ''u:p'' @ ''@h/x'')) = lit ''http'' @ lit ''://***@'' @ lit ''h'' @ lit ''/x''"
    using use [of "lit ''u:p''"] unfolding url by (simp add: lit_def authority_end_def)
  moreover have "\<exists>p d q. lit ''u:p/q'' = p @ d # q \<and> authority_end d \<and> 64 \<notin> set p"
    by (intro exI [of _ "lit ''u:p''"] exI [of _ 47] exI [of _ "lit ''q''"]) (simp add: lit_def authority_end_def)
  then have "redact_credentials (lit (''http://'' @ ''u:p/q'' @ ''@h/x'')) = lit (''http://'' @ ''u:p/q'' @ ''@h/x'')"
    using use [of "lit ''u:p/q''"] unfolding url by (simp add: lit_def authority_end_def)
  ultimately show ?thesis by (simp add: lit_def)
qed

end
