(* ===== verification/Bootstrap.thy ===== *)
theory Bootstrap
  imports Auth_Routes
begin

text \<open>
  \<^verbatim>\<open>src/routes/bootstrap.rs\<close>, the way to the first administrator, and \<^verbatim>\<open>src/routes/security.rs\<close>, the
  operator's view of the lock-outs.  The only atomic step of a bootstrap is the creation of the single row
  of \<^verbatim>\<open>bootstrap_claim\<close>; \<open>boot_site\<close> is the site with that row.
\<close>

section \<open>The gate\<close>

definition bootstrap_token_len :: nat where
  "bootstrap_token_len = 32"

text \<open>A gate holds the token that opens it, \<open>None\<close> when it is shut; \<open>draw\<close> is the random token.\<close>

definition bootstrap_gate :: "str option \<Rightarrow> str \<Rightarrow> str option" where
  "bootstrap_gate configured draw =
    (case configured of
       Some v \<Rightarrow> if v = [] then None else Some v
     | None \<Rightarrow> Some (take bootstrap_token_len draw))"

definition gate_verify :: "str option \<Rightarrow> str \<Rightarrow> bool" where
  "gate_verify gate presented =
    (case gate of None \<Rightarrow> False | Some expected \<Rightarrow> constant_time_eq (as_bytes expected) (as_bytes presented))"

definition bootstrap_rejected :: auth_error where
  "bootstrap_rejected = Forbidden (lit ''Bootstrap is not available'')"

section \<open>The claim\<close>

datatype claim_stage = Claiming | RolePending | Finished

record claim_row =
  claim_email :: str
  claim_stage :: claim_stage
  claim_user :: "str option"
  claim_at :: int

record boot_site =
  boot_base :: site
  boot_claim :: "claim_row option"

type_synonym 'a boot_op = "(boot_site, 'a) handler"

definition on_site :: "(site, 'e, 'a) op \<Rightarrow> (boot_site, 'e, 'a) op" where
  "on_site = zoom boot_base (\<lambda>t w. w\<lparr>boot_base := t\<rparr>)"

datatype bootstrap_claim = Fresh | Resumed str

definition create_claim :: "faults \<Rightarrow> int \<Rightarrow> str \<Rightarrow> unit boot_op" where
  "create_claim F now mail =
    seq (database_up F ''bootstrap_claim'') (\<lambda>w. case boot_claim w of
       Some _ \<Rightarrow> (Inl (DatabaseError (lit ''already exists'')), w)
     | None \<Rightarrow> (Inr (), w\<lparr>boot_claim := Some \<lparr>claim_email = mail, claim_stage = Claiming, claim_user = None, claim_at = now\<rparr>\<rparr>))"

definition resumable :: "str \<Rightarrow> claim_row \<Rightarrow> str option" where
  "resumable mail r =
    (case claim_user r of
       Some uid \<Rightarrow> if claim_stage r = RolePending \<and> claim_email r = mail \<and> uid \<noteq> [] then Some uid else None
     | None \<Rightarrow> None)"

definition claim_bootstrap :: "faults \<Rightarrow> int \<Rightarrow> str \<Rightarrow> bootstrap_claim boot_op" where
  "claim_bootstrap F now mail =
    catch (create_claim F now mail)
      (\<lambda>_. bind (as_db_error (db_read F ''bootstrap_claim_read'' boot_claim)) (\<lambda>row.
        bind (the_or row bootstrap_rejected) (\<lambda>r.
        bind (the_or (resumable mail r) bootstrap_rejected) (\<lambda>uid. ret (Resumed uid)))))
      (\<lambda>_. ret Fresh)"

text \<open>The three writes to the row: their failures are only logged.\<close>

definition quietly :: "('s, 'e, unit) op \<Rightarrow> ('s, 'f, unit) op" where
  "quietly m = catch m (\<lambda>_. ret ()) ret"

definition release_bootstrap :: "faults \<Rightarrow> unit boot_op" where
  "release_bootstrap F = quietly (db_write F ''bootstrap_release'' (\<lambda>w. w\<lparr>boot_claim := None\<rparr>))"

definition mark_role_pending :: "faults \<Rightarrow> str \<Rightarrow> unit boot_op" where
  "mark_role_pending F uid = quietly (db_write F ''bootstrap_mark_pending''
    (\<lambda>w. w\<lparr>boot_claim := map_option (\<lambda>r. r\<lparr>claim_stage := RolePending, claim_user := Some uid\<rparr>) (boot_claim w)\<rparr>))"

definition finish_bootstrap :: "faults \<Rightarrow> unit boot_op" where
  "finish_bootstrap F = quietly (db_write F ''bootstrap_finish''
    (\<lambda>w. w\<lparr>boot_claim := map_option (\<lambda>r. r\<lparr>claim_stage := Finished\<rparr>) (boot_claim w)\<rparr>))"

section \<open>The first administrator\<close>

definition has_admin :: "'x rbac_world_scheme \<Rightarrow> bool" where
  "has_admin s \<longleftrightarrow> 0 < count_where (\<lambda>l. ur_role l = lit ''admin'') (user_roles s)"

definition admin_exists :: "faults \<Rightarrow> ('x, bool) rbac_op" where
  "admin_exists F = as_db_error (db_read F ''bootstrap_admin_exists'' has_admin)"

record bootstrap_request =
  boot_token :: str
  boot_email :: str
  boot_username :: str
  boot_password :: str

record bootstrap_response =
  booted_user :: str
  booted_email :: str
  booted_admin :: bool

definition reject_bootstrap :: "request_context \<Rightarrow> string \<Rightarrow> 'a boot_op" where
  "reject_bootstrap ctx reason =
    seq (on_site (record_audit (with_details (JObj [(lit ''reason'', JStr (lit reason))])
      (ctx_event ''bootstrap_rejected'' CatSecurity StatusFailed ctx))))
    (throw bootstrap_rejected)"

definition create_first_account :: "faults \<Rightarrow> conflict_report \<Rightarrow> site_env \<Rightarrow> int \<Rightarrow> register_draws \<Rightarrow> request_context \<Rightarrow>
    bootstrap_request \<Rightarrow> str boot_op" where
  "create_first_account F V S now d ctx q =
    catch (on_site (on_auth (register F V (auth_conf S) now d ctx
        \<lparr>req_email = boot_email q, req_password = boot_password q, req_username = Some (boot_username q)\<rparr>)))
      (\<lambda>e. seq (release_bootstrap F) (throw e))
      (\<lambda>(answer, _). let uid = response_id (snd answer) in seq (mark_role_pending F uid) (ret uid))"

definition account_of_claim :: "faults \<Rightarrow> conflict_report \<Rightarrow> site_env \<Rightarrow> int \<Rightarrow> register_draws \<Rightarrow> request_context \<Rightarrow>
    bootstrap_request \<Rightarrow> bootstrap_claim \<Rightarrow> str boot_op" where
  "account_of_claim F V S now d ctx q c =
    (case c of Fresh \<Rightarrow> create_first_account F V S now d ctx q | Resumed uid \<Rightarrow> ret uid)"

text \<open>The statements of the assignment come after those of the registration: \<open>later_faults\<close>.\<close>

definition grant_admin :: "faults \<Rightarrow> conflict_report \<Rightarrow> int \<Rightarrow> str \<Rightarrow> str \<Rightarrow> unit boot_op" where
  "grant_admin F V now key uid =
    on_site (on_base (assign_role_as_system (later_faults F 1) V now key uid (lit ''admin'')))"

definition bootstrap_admin :: "faults \<Rightarrow> conflict_report \<Rightarrow> site_env \<Rightarrow> str option \<Rightarrow> int \<Rightarrow> register_draws \<Rightarrow> str \<Rightarrow>
    request_context \<Rightarrow> bootstrap_request \<Rightarrow> bootstrap_response boot_op" where
  "bootstrap_admin F V S gate now d key ctx q =
    bind (on_site (on_base (admin_exists F))) (\<lambda>exists.
    if exists then reject_bootstrap ctx ''already_initialized''
    else if \<not> gate_verify gate (boot_token q) then reject_bootstrap ctx ''invalid_bootstrap_token''
    else
      bind (claim_bootstrap F now (boot_email q)) (\<lambda>c.
      bind (account_of_claim F V S now d ctx q c) (\<lambda>uid.
      seq (grant_admin F V now key uid)
      (seq (finish_bootstrap F)
      (seq (on_site (record_audit (with_details (JObj [(lit ''email'', JStr (boot_email q))])
        (with_user uid (ctx_event ''bootstrap_admin_created'' CatSecurity StatusSuccess ctx)))))
      (ret \<lparr>booted_user = uid, booted_email = boot_email q, booted_admin = True\<rparr>))))))"

section \<open>Lock-outs, for operators\<close>

datatype lockout_scope = ScopeUser | ScopeIp

definition normalise :: "str \<Rightarrow> auth_error + str" where
  "normalise raw =
    (let t = trim raw in
     if t = [] then Inl (ValidationError (lit ''identifier is required''))
     else if \<exists>c\<in>set t. is_control c then Inl (ValidationError (lit ''identifier must not contain control characters''))
     else Inr t)"

definition get_lockout_status :: "faults \<Rightarrow> site_env \<Rightarrow> int \<Rightarrow> user \<Rightarrow> lockout_scope \<Rightarrow> str \<Rightarrow>
    lockout_check_result site_op" where
  "get_lockout_status F S at u scope raw =
    seq (on_base (require_permission F (user_key u) security_read))
    (bind (lift_result (normalise raw)) (\<lambda>ident.
    on_locks (case scope of
        ScopeUser \<Rightarrow> check_user_lockout F (lock_conf S) at ident
      | ScopeIp \<Rightarrow> check_ip_lockout F (lock_conf S) at ident)))"

definition scope_str :: "lockout_scope \<Rightarrow> str" where
  "scope_str sc = (case sc of ScopeUser \<Rightarrow> lit ''user'' | ScopeIp \<Rightarrow> lit ''ip'')"

definition unlock_handler :: "faults \<Rightarrow> int \<Rightarrow> request_context \<Rightarrow> user \<Rightarrow> lockout_scope \<Rightarrow> str \<Rightarrow> bool site_op" where
  "unlock_handler F at ctx u scope raw =
    seq (on_base (require_permission F (user_key u) security_write))
    (bind (lift_result (normalise raw)) (\<lambda>ident.
    bind (on_locks (case scope of ScopeUser \<Rightarrow> unlock_user F at ident | ScopeIp \<Rightarrow> unlock_ip F at ident)) (\<lambda>unlocked.
    seq (record_audit (with_details (JObj (obj_insert (lit ''was_locked'') (JBool unlocked)
        (obj_insert (lit ''scope'') (JStr (scope_str scope)) (obj_insert (lit ''identifier'') (JStr ident) []))))
      (with_user (user_key u) (ctx_event ''lockout_cleared'' CatSecurity StatusSuccess ctx))))
    (ret unlocked))))"

end
