(* ===== verification/Bootstrap_Safety.thy ===== *)
theory Bootstrap_Safety
  imports Bootstrap Login_Safety
begin

text \<open>
  The first administrator: who becomes one, that there is one bootstrap only, what a stopped bootstrap
  leaves and who may take it up, and where it leaves an instance without an administrator.
\<close>

section \<open>Frames\<close>

lemma on_site_success [op_success]:
  "on_site m w = (Inr a, w') \<longleftrightarrow> (\<exists>t. m (boot_base w) = (Inr a, t) \<and> w' = w\<lparr>boot_base := t\<rparr>)"
  by (simp add: on_site_def zoom_success)

lemma on_site_failure [op_failure]:
  "on_site m w = (Inl e, w') \<longleftrightarrow> (\<exists>t. m (boot_base w) = (Inl e, t) \<and> w' = w\<lparr>boot_base := t\<rparr>)"
  by (simp add: on_site_def zoom_failure)

lemma on_base_failure' [op_failure]:
  "Auth_Routes.on_base m w = (Inl e, w') \<longleftrightarrow> (\<exists>t. m (base w) = (Inl e, t) \<and> w' = w\<lparr>base := t\<rparr>)"
  by (simp add: on_base_def zoom_failure)

lemma on_auth_failure [op_failure]:
  "on_auth m w = (Inl e, w') \<longleftrightarrow> (\<exists>t. m (auth_part w) = (Inl e, t) \<and> w' = put_auth t w)"
  by (simp add: on_auth_def zoom_failure)

lemma put_auth_rbac [simp]:
  "user_roles (base (put_auth a w)) = user_roles (base w)" "roles (base (put_auth a w)) = roles (base w)"
  by (cases "base w"; simp add: put_auth_def store.defs)+

text \<open>The roles of the instance, and whether somebody holds the role of an administrator.\<close>

definition role_state :: "role list \<Rightarrow> bool \<Rightarrow> boot_site \<Rightarrow> bool" where
  "role_state R a w \<longleftrightarrow> roles (base (boot_base w)) = R \<and> (a \<longrightarrow> has_admin (base (boot_base w)))"

lemma role_state_frame [preserve]:
  "preserves (role_state R a) (on_site (on_auth m))" "preserves (role_state R a) (on_site (record_audit ev))"
  "preserves (role_state R a) (create_claim F now mail)"
  "(\<And>w. boot_base (f w) = boot_base w) \<Longrightarrow> preserves (role_state R a) (db_write F l f)"
  by (auto simp: preserves_def role_state_def on_site_def on_auth_def zoom_def has_admin_def record_audit_def create_claim_def
      db_write_def op_defs database_up_def split: prod.split option.split)

lemma admin_exists_pure [preserve]: "preserves I (on_site (on_base (admin_exists F)))"
  by (simp add: preserves_def on_site_def on_base_def zoom_def admin_exists_def as_db_error_def op_defs db_defs split: option.split)

lemma has_admin_more: "has_admin s \<Longrightarrow> user_roles t = user_roles s @ rs \<Longrightarrow> has_admin t"
  by (simp add: has_admin_def count_where_def)

text \<open>What the assignment of the role does.\<close>

lemma assign_role_success:
  assumes "assign_role_as_system F V now key uid rname s = (Inr u, t)"
  obtains r actor where "role_by_name rname s = Some r" "actor_of_user_row uid s = Some actor"
    "t = s\<lparr>user_roles := user_roles s @ [\<lparr>ur_key = key, ur_actor = actor, ur_role = role_key r, ur_assigned_at = now,
      ur_assigned_by = lit ''system''\<rparr>]\<rparr>"
  using assms
  by (auto simp: assign_role_as_system_def assign_role_def get_role_by_name_def as_db_error_def actor_ref_of_user_def
      op_success)

lemma assign_role_failure: "assign_role_as_system F V now key uid rname s = (Inl e, t) \<Longrightarrow> t = s"
  by (auto simp: assign_role_as_system_def assign_role_def get_role_by_name_def as_db_error_def actor_ref_of_user_def
      op_success op_failure split: option.splits if_splits)

lemma grant_admin_frame [preserve]: "preserves (role_state R a) (grant_admin F V now key uid)"
proof (rule preservesI)
  fix w assume old: "role_state R a w"
  let ?m = "assign_role_as_system (later_faults F 1) V now key uid (lit ''admin'')"
  obtain r t where run: "?m (base (boot_base w)) = (r, t)" by fastforce
  have "roles t = roles (base (boot_base w)) \<and> (has_admin (base (boot_base w)) \<longrightarrow> has_admin t)"
  proof (cases r)
    case (Inl e) then show ?thesis using assign_role_failure [OF run [unfolded Inl]] by simp
  next
    case (Inr u) with run show ?thesis by (auto elim!: assign_role_success intro: has_admin_more)
  qed
  then show "role_state R a (snd (grant_admin F V now key uid w))"
    using old run by (auto simp: grant_admin_def on_site_def on_base_def zoom_def role_state_def)
qed

lemma bootstrap_frame: "preserves (role_state R a) (bootstrap_admin F V S gate now d key ctx q)"
  unfolding bootstrap_admin_def reject_bootstrap_def claim_bootstrap_def account_of_claim_def create_first_account_def
    quietly_def mark_role_pending_def finish_bootstrap_def release_bootstrap_def as_db_error_def Let_def
  by (auto intro!: preserve split: bootstrap_claim.split prod.split)

section \<open>One bootstrap\<close>

lemma admin_exists_success [op_success]: "admin_exists F s = (Inr b, t) \<longleftrightarrow>
  F (lit ''bootstrap_admin_exists'') 0 = None \<and> b = has_admin s \<and> t = s"
  by (auto simp: admin_exists_def as_db_error_def op_success)

lemma reject_never_succeeds [op_success]: "reject_bootstrap ctx reason w = (Inr r, w') \<longleftrightarrow> False"
  by (simp add: reject_bootstrap_def op_defs on_site_def zoom_def record_audit_def)

lemma quietly_after: "quietly m w = (Inr (), snd (m w))"
  by (auto simp: quietly_def op_defs split: sum.split prod.split)

lemma finish_bootstrap_base: "finish_bootstrap F w = (r, w') \<Longrightarrow> boot_base w' = boot_base w"
  by (auto simp: finish_bootstrap_def quietly_after db_defs op_defs split: option.splits)

lemma bootstrap_cases:
  assumes "bootstrap_admin F V S gate now d key ctx q w = (Inr r, w')"
  obtains c w1 w2 uid role actor where "\<not> has_admin (base (boot_base w))" "gate_verify gate (boot_token q)"
    "claim_bootstrap F now (boot_email q) w = (Inr c, w1)" "account_of_claim F V S now d ctx q c w1 = (Inr uid, w2)"
    "role_by_name (lit ''admin'') (base (boot_base w2)) = Some role"
    "actor_of_user_row uid (base (boot_base w2)) = Some actor"
    "base (boot_base w') = (base (boot_base w2))\<lparr>user_roles := user_roles (base (boot_base w2)) @
      [\<lparr>ur_key = key, ur_actor = actor, ur_role = role_key role, ur_assigned_at = now, ur_assigned_by = lit ''system''\<rparr>]\<rparr>"
    "auth_part (boot_base w') = auth_part (boot_base w2)"
    "r = \<lparr>booted_user = uid, booted_email = boot_email q, booted_admin = True\<rparr>"
proof -
  from assms obtain c w1 w2 uid w3 w4 where open': "\<not> has_admin (base (boot_base w))" "gate_verify gate (boot_token q)"
    and claim: "claim_bootstrap F now (boot_email q) w = (Inr c, w1)"
    and account: "account_of_claim F V S now d ctx q c w1 = (Inr uid, w2)"
    and grant: "grant_admin F V now key uid w2 = (Inr (), w3)" and finish: "finish_bootstrap F w3 = (Inr (), w4)"
    and rest: "r = \<lparr>booted_user = uid, booted_email = boot_email q, booted_admin = True\<rparr>"
      "\<exists>f. boot_base w' = audit_queue_update f (boot_base w4)"
    by (fastforce simp: bootstrap_admin_def op_success record_audit_def split: if_splits)
  obtain t where t: "assign_role_as_system (later_faults F 1) V now key uid (lit ''admin'') (base (boot_base w2)) = (Inr (), t)"
    and w3: "boot_base w3 = (boot_base w2)\<lparr>base := t\<rparr>"
    using grant by (auto simp: grant_admin_def op_success)
  have w4: "boot_base w4 = boot_base w3" by (rule finish_bootstrap_base [OF finish])
  from assign_role_success [OF t] obtain role actor where
    "role_by_name (lit ''admin'') (base (boot_base w2)) = Some role" "actor_of_user_row uid (base (boot_base w2)) = Some actor"
    "t = (base (boot_base w2))\<lparr>user_roles := user_roles (base (boot_base w2)) @
      [\<lparr>ur_key = key, ur_actor = actor, ur_role = role_key role, ur_assigned_at = now, ur_assigned_by = lit ''system''\<rparr>]\<rparr>"
    by blast
  moreover from this have "auth_part (boot_base w') = auth_part (boot_base w2)"
    using w3 w4 rest(2) by (auto simp: auth_part_def store.defs)
  ultimately show thesis using open' claim account rest w3 w4 by (intro that) auto
qed

text \<open>The seed gives the role of an administrator the record id the bootstrap asks for.\<close>

definition seeded :: "boot_site \<Rightarrow> bool" where
  "seeded w \<longleftrightarrow> (\<forall>r. role_by_name (lit ''admin'') (base (boot_base w)) = Some r \<longrightarrow> role_key r = lit ''admin'')"

lemma seeded_roles: "roles (base (boot_base w')) = roles (base (boot_base w)) \<Longrightarrow> seeded w' \<longleftrightarrow> seeded w"
  by (simp add: seeded_def role_by_name_def)

lemma bootstrap_roles: "roles (base (boot_base (snd (bootstrap_admin F V S gate now d key ctx q w)))) = roles (base (boot_base w))"
  using preservesD [OF bootstrap_frame [of "roles (base (boot_base w))" False F V S gate now d key ctx q], of w]
  by (simp add: role_state_def)

lemma bootstrap_keeps_admin: "has_admin (base (boot_base w)) \<Longrightarrow>
  has_admin (base (boot_base (snd (bootstrap_admin F V S gate now d key ctx q w))))"
  using preservesD [OF bootstrap_frame [of "roles (base (boot_base w))" True F V S gate now d key ctx q], of w]
  by (simp add: role_state_def)

lemma claim_base: "claim_bootstrap F now mail w = (r, w1) \<Longrightarrow> boot_base w1 = boot_base w"
  by (auto simp: claim_bootstrap_def create_claim_def as_db_error_def db_defs op_defs split: option.splits)

lemma account_roles:
  assumes "account_of_claim F V S now d ctx q c w1 = (r, w2)" shows "roles (base (boot_base w2)) = roles (base (boot_base w1))"
proof -
  have "preserves (role_state (roles (base (boot_base w1))) False) (account_of_claim F V S now d ctx q c)"
    unfolding account_of_claim_def create_first_account_def quietly_def mark_role_pending_def release_bootstrap_def Let_def
    by (auto intro!: preserve split: bootstrap_claim.split prod.split)
  from preserves_step [OF this assms] show ?thesis by (simp add: role_state_def)
qed

lemma bootstrap_makes_admin:
  assumes "bootstrap_admin F V S gate now d key ctx q w = (Inr r, w')" "seeded w" shows "has_admin (base (boot_base w'))"
  using assms(1)
proof (cases rule: bootstrap_cases)
  case (1 c w1 w2 uid role actor)
  have "roles (base (boot_base w2)) = roles (base (boot_base w))" using account_roles [OF 1(4)] claim_base [OF 1(3)] by simp
  then have "role_key role = lit ''admin''" using assms(2) 1(5) by (simp add: seeded_def role_by_name_def)
  then show ?thesis using 1(7) by (simp add: has_admin_def count_where_def)
qed

record boot_call =
  call_faults :: faults
  call_conflicts :: conflict_report
  call_env :: site_env
  call_gate :: "str option"
  call_time :: int
  call_draws :: register_draws
  call_key :: str
  call_ctx :: request_context
  call_request :: bootstrap_request

definition serve_bootstrap :: "boot_call \<Rightarrow> boot_site \<Rightarrow> bool \<times> boot_site" where
  "serve_bootstrap c w = (let m = bootstrap_admin (call_faults c) (call_conflicts c) (call_env c) (call_gate c) (call_time c)
      (call_draws c) (call_key c) (call_ctx c) (call_request c) in (succeeds m w, after m w))"

interpretation first_admin: closing serve_bootstrap "\<lambda>_. ()" "\<lambda>_ w. \<not> has_admin (base (boot_base w))" "\<lambda>_ _. True" seeded
proof unfold_locales
  fix c w
  show "seeded w \<Longrightarrow> seeded (snd (serve_bootstrap c w))"
    by (simp add: serve_bootstrap_def after_def Let_def seeded_roles [OF bootstrap_roles])
  show "fst (serve_bootstrap c w) \<Longrightarrow> \<not> has_admin (base (boot_base w))"
    by (auto simp: serve_bootstrap_def Let_def succeeds_iff elim: bootstrap_cases)
  show "\<not> has_admin (base (boot_base (snd (serve_bootstrap c w)))) \<Longrightarrow> \<not> has_admin (base (boot_base w))"
    by (auto simp: serve_bootstrap_def after_def Let_def intro: bootstrap_keeps_admin)
  show "seeded w \<Longrightarrow> fst (serve_bootstrap c w) \<Longrightarrow> \<not> \<not> has_admin (base (boot_base (snd (serve_bootstrap c w))))"
    using bootstrap_makes_admin by (fastforce simp: serve_bootstrap_def after_def Let_def succeeds_iff)
qed

text \<open>
  C7: at most one bootstrap ever succeeds: in any run of requests, whatever their tokens, clocks, draws and
  database faults, a success makes every later request fail.
\<close>

theorem bootstrap_once:
  assumes "seeded w" "i < j" "j < length cs" "fst (run serve_bootstrap cs w) ! i"
  shows "\<not> fst (run serve_bootstrap cs w) ! j"
  by (rule first_admin.closed_after_success [OF assms(1-3) TrueI assms(4)])

section \<open>Refusals\<close>

text \<open>
  once there is an administrator, or with a wrong token, a request is refused by one and the same
  answer and leaves nothing but an entry in the journal, which alone tells the two reasons apart.
\<close>

theorem bootstrap_refusals_alike:
  assumes "F (lit ''bootstrap_admin_exists'') 0 = None"
    and "has_admin (base (boot_base w)) \<or> \<not> gate_verify gate (boot_token q)"
  shows "bootstrap_admin F V S gate now d key ctx q w = (Inl bootstrap_rejected,
    w\<lparr>boot_base := (boot_base w)\<lparr>audit_queue := audit_queue (boot_base w) @
      [with_details (JObj [(lit ''reason'', JStr (lit (if has_admin (base (boot_base w)) then ''already_initialized''
          else ''invalid_bootstrap_token'')))]) (ctx_event ''bootstrap_rejected'' CatSecurity StatusFailed ctx)]\<rparr>\<rparr>)"
  using assms
  by (auto simp: bootstrap_admin_def reject_bootstrap_def on_site_def on_base_def zoom_def record_audit_def admin_exists_def
      as_db_error_def op_defs db_defs)

section \<open>The claim is taken once\<close>

text \<open>
  Requests that run at the same time interleave at their statements.  The other statements of a bootstrap
  leave the row in place as long as no registration fails.
\<close>

datatype boot_other = MarkPending faults str | FinishClaim faults | OnSite "site \<Rightarrow> site"

definition boot_other_step :: "boot_other \<Rightarrow> boot_site \<Rightarrow> boot_site" where
  "boot_other_step x w =
    (case x of MarkPending F uid \<Rightarrow> after (mark_role_pending F uid) w | FinishClaim F \<Rightarrow> after (finish_bootstrap F) w
     | OnSite f \<Rightarrow> boot_base_update f w)"

fun fresh_claim :: "faults \<times> int \<times> str \<Rightarrow> boot_site \<Rightarrow> bool \<times> boot_site" where
  "fresh_claim (F, now, mail) w = (outcome (claim_bootstrap F now mail) w = Inr Fresh, after (claim_bootstrap F now mail) w)"

lemma claim_eq: "claim_bootstrap F now mail w =
  (if F (lit ''bootstrap_claim'') 0 = None \<and> boot_claim w = None
   then (Inr Fresh, w\<lparr>boot_claim := Some \<lparr>claim_email = mail, claim_stage = Claiming, claim_user = None, claim_at = now\<rparr>\<rparr>)
   else (case F (lit ''bootstrap_claim_read'') 0 of Some e \<Rightarrow> Inl (DatabaseError (display e)) | None \<Rightarrow>
     (case Option.bind (boot_claim w) (resumable mail) of None \<Rightarrow> Inl bootstrap_rejected | Some uid \<Rightarrow> Inr (Resumed uid)), w))"
  by (auto simp: claim_bootstrap_def create_claim_def as_db_error_def op_defs db_defs split: option.split)

interpretation bootstrap_row: spending_env fresh_claim "\<lambda>(F, _, _). F (lit ''bootstrap_claim'') 0 = None"
  "\<lambda>up w. up \<and> boot_claim w = None" "\<lambda>_ _. True" boot_other_step
  by unfold_locales
    (auto simp: claim_eq outcome_def after_def boot_other_step_def mark_role_pending_def finish_bootstrap_def quietly_after
      db_defs op_defs split: option.splits boot_other.splits if_splits prod.splits)

text \<open>
  C15: of all the requests that run at once exactly one can take the claim: in every interleaving of their
  statements, at most one creation of the row succeeds, until a failed registration releases it.
\<close>

theorem bootstrap_claimed_once:
  assumes "i < j" "j < length steps" "steps ! i = Claim a" "steps ! j = Claim b"
    and "fst (run (mixed_step fresh_claim boot_other_step) steps w) ! i"
  shows "\<not> fst (run (mixed_step fresh_claim boot_other_step) steps w) ! j"
  by (rule bootstrap_row.mixed.covered_refused [OF assms(1,2) _ assms(5)]) (simp add: assms(3,4))

section \<open>Who becomes the first administrator\<close>

lemma address_of_user: "bare_key (lit ''user:'') k \<Longrightarrow> record_address_key ''user'' (lit ''user:'' @ k) = Some k"
proof -
  assume "bare_key (lit ''user:'') k"
  then have "trim k = k" "trim_char 10216 k = k" "trim_char 10217 k = k"
    unfolding bare_key_def trim_char_def trim_by_fixed_iff by (auto simp: clean_ends_def delim_def delimiters_def)
  moreover have "split_once 58 (lit ''user:'' @ k) = Some (lit ''user'', k)" by (simp add: lit_def)
  ultimately show ?thesis by (simp add: record_address_key_def)
qed

lemma ensure_username_pure: "ensure_username_available F n s = (Inr m, t) \<Longrightarrow> t = s"
  by (auto simp: ensure_username_available_def find_user_by_name_def op_success Let_def)

lemma create_session_issues: "create_session F V E now key ctx u methods refs s = (Inr i, t) \<Longrightarrow>
  response_id (issued_user i) = user_key u"
  by (auto simp: create_session_def op_success user_response_of_def)

lemma register_new_account:
  assumes "register F V E now d ctx req s = (Inr (answer, v), t)" "bare_key (lit ''user:'') (new_user (draw_keys d))"
  shows "response_id (snd answer) = new_user (draw_keys d) \<and> new_user (draw_keys d) \<notin> user_key ` set (users s)"
proof -
  obtain f ids s2 u where agg: "create_human_aggregate F V now (draw_keys d) f s = (Inr ids, s2)"
    and found: "user_by_id (lit ''user:'' @ snd ids) s2 = Some u" and key: "response_id (snd answer) = user_key u"
  proof -
    assume that: "\<And>f ids s2 u. create_human_aggregate F V now (draw_keys d) f s = (Inr ids, s2) \<Longrightarrow>
      user_by_id (lit ''user:'' @ snd ids) s2 = Some u \<Longrightarrow> response_id (snd answer) = user_key u \<Longrightarrow> thesis"
    show thesis
      using assms(1) unfolding register_def Let_def
      by (auto simp: bind_success seq_success map_error_success lift_result_success the_or_success require_success
          find_user_by_id_def find_user_by_email_def db_read_success
          user_response_of_def intro!: that dest!: touch_success create_session_issues ensure_username_pure split: prod.splits option.splits if_splits)
  qed
  from create_human_aggregate_state [OF agg] have ids: "ids = (new_actor (draw_keys d), new_user (draw_keys d))"
    and new: "index_conflict user_indexes (aggregate_user now (draw_keys d) f) (users s) = None" by auto
  have "user_key u = new_user (draw_keys d)"
    using found ids address_of_user [OF assms(2)] by (auto simp: user_by_id_def dest!: find_Some_in)
  moreover have "new_user (draw_keys d) \<notin> user_key ` set (users s)"
    using new unfolding index_conflict_None by (auto simp: user_indexes_def aggregate_user_def)
  ultimately show ?thesis using key by simp
qed

lemma account_success:
  assumes "account_of_claim F V S now d ctx q c w = (Inr uid, w')"
  shows "(case c of
      Fresh \<Rightarrow> \<exists>answer t. register F V (auth_conf S) now d ctx
          \<lparr>req_email = boot_email q, req_password = boot_password q, req_username = Some (boot_username q)\<rparr>
          (auth_part (boot_base w)) = (Inr answer, t) \<and> uid = response_id (snd (fst answer)) \<and> boot_base w' = put_auth t (boot_base w)
    | Resumed kept_id \<Rightarrow> uid = kept_id \<and> w' = w)"
proof (cases c)
  case Fresh
  have "boot_base (snd (mark_role_pending F k v)) = boot_base v" for k v
    by (simp add: mark_role_pending_def quietly_after db_defs op_defs split: option.split)
  then show ?thesis using assms unfolding Fresh account_of_claim_def create_first_account_def Let_def
    by (fastforce simp: catch_success op_success quietly_after split: prod.splits dest: arg_cong [where f = snd])
qed (use assms in \<open>simp add: account_of_claim_def\<close>)

text \<open>
  C8: what a successful bootstrap rests on: nobody was an administrator, the request held the token, and
  the role went to an account made for this very request, with a key no account had, or to the account
  recorded by an earlier bootstrap for the same address that stopped before the role; an account that
  somebody else registered is never taken for it, whatever its address.
\<close>

theorem bootstrap_grounds:
  assumes "bootstrap_admin F V S gate now d key ctx q w = (Inr r, w')" "bare_key (lit ''user:'') (new_user (draw_keys d))"
  shows "\<not> has_admin (base (boot_base w)) \<and> gate_verify gate (boot_token q) \<and>
    (\<exists>role actor. role_by_name (lit ''admin'') (base (boot_base w')) = Some role \<and>
      actor_of_user_row (booted_user r) (base (boot_base w')) = Some actor \<and>
      (\<exists>l\<in>set (user_roles (base (boot_base w'))). ur_actor l = actor \<and> ur_role l = role_key role)) \<and>
    (case boot_claim w of
       None \<Rightarrow> booted_user r = new_user (draw_keys d) \<and> booted_user r \<notin> user_key ` set (users (base (boot_base w)))
     | Some row \<Rightarrow> resumable (boot_email q) row = Some (booted_user r) \<and>
         users (base (boot_base w')) = users (base (boot_base w)) \<and>
         credentials (base (boot_base w')) = credentials (base (boot_base w)))"
  using assms(1)
proof (cases rule: bootstrap_cases)
  case (1 c w1 w2 uid role actor)
  have same: "boot_base w1 = boot_base w" by (rule claim_base [OF 1(3)])
  have rows: "role_by_name (lit ''admin'') (base (boot_base w')) = Some role"
    "actor_of_user_row uid (base (boot_base w')) = Some actor"
    using 1(5,6) by (simp_all add: 1(7) role_by_name_def actor_of_user_row_def)
  have account: "case boot_claim w of
       None \<Rightarrow> uid = new_user (draw_keys d) \<and> uid \<notin> user_key ` set (users (base (boot_base w)))
     | Some row \<Rightarrow> resumable (boot_email q) row = Some uid \<and> boot_base w2 = boot_base w"
  proof (cases c)
    case Fresh
    then have "boot_claim w = None" using 1(3) by (auto simp: claim_eq split: if_splits option.splits)
    moreover obtain answer v t where "register F V (auth_conf S) now d ctx
        \<lparr>req_email = boot_email q, req_password = boot_password q, req_username = Some (boot_username q)\<rparr>
        (auth_part (boot_base w)) = (Inr (answer, v), t)" "uid = response_id (snd answer)"
      using account_success [OF 1(4)] unfolding Fresh same by auto
    moreover from register_new_account [OF this(1) assms(2)] have "response_id (snd answer) = new_user (draw_keys d)"
      "new_user (draw_keys d) \<notin> user_key ` set (users (base (boot_base w)))" by simp_all
    ultimately show ?thesis by simp
  next
    case (Resumed kept_id)
    then show ?thesis using 1(3) account_success [OF 1(4)] same
      by (auto simp: claim_eq split: if_splits option.splits)
  qed
  moreover have "\<exists>l\<in>set (user_roles (base (boot_base w'))). ur_actor l = actor \<and> ur_role l = role_key role"
    by (simp add: 1(7))
  moreover have "users (base (boot_base w')) = users (base (boot_base w2))"
    "credentials (base (boot_base w')) = credentials (base (boot_base w2))" by (simp_all add: 1(7))
  ultimately show ?thesis using 1(1,2) rows by (cases "boot_claim w") (auto simp: 1(9))
qed

lemma grant_run:
  assumes "seeded w" "\<not> has_admin (base (boot_base w))"
    and "role_by_name (lit ''admin'') (base (boot_base w)) = Some role"
    and "actor_of_user_row uid (base (boot_base w)) = Some actor"
    and "key \<notin> ur_key ` set (user_roles (base (boot_base w)))"
  shows "grant_admin no_faults V now key uid w = (Inr (), w\<lparr>boot_base := (boot_base w)\<lparr>base :=
      (base (boot_base w))\<lparr>user_roles := user_roles (base (boot_base w)) @
      [\<lparr>ur_key = key, ur_actor = actor, ur_role = lit ''admin'', ur_assigned_at = now, ur_assigned_by = lit ''system''\<rparr>]\<rparr>\<rparr>\<rparr>)"
proof -
  let ?b = "base (boot_base w)"
  have key': "role_key role = lit ''admin''" using assms(1,3) by (simp add: seeded_def)
  have nobody: "\<forall>l\<in>set (user_roles ?b). ur_role l \<noteq> lit ''admin''"
    using assms(2) by (simp add: has_admin_def count_where_0)
  then have none: "filter (\<lambda>l. ur_actor l = actor \<and> ur_role l = lit ''admin'') (user_roles ?b) = []"
    by (simp add: filter_empty_conv)
  have free: "index_conflict user_role_indexes \<lparr>ur_key = key, ur_actor = actor, ur_role = lit ''admin'', ur_assigned_at = now,
      ur_assigned_by = lit ''system''\<rparr> (user_roles ?b) = None"
    using nobody assms(5) unfolding index_conflict_None by (auto simp: user_role_indexes_def)
  have later: "later_faults no_faults n = no_faults" for n by (simp add: later_faults_def no_faults_def)
  show ?thesis by (simp add: grant_admin_def on_site_def on_base_def zoom_def assign_role_as_system_def assign_role_def get_role_by_name_def
      as_db_error_def actor_ref_of_user_def op_defs later assms(3,4) key' none insert_row_def free)
qed

lemma resume_run:
  assumes "boot_claim w = Some row" "resumable (boot_email q) row = Some uid" "seeded w"
    and "\<not> has_admin (base (boot_base w))" "gate_verify gate (boot_token q)"
    and "role_by_name (lit ''admin'') (base (boot_base w)) = Some role"
    and "actor_of_user_row uid (base (boot_base w)) = Some actor"
    and "key \<notin> ur_key ` set (user_roles (base (boot_base w)))"
  shows "\<exists>w'. bootstrap_admin no_faults V S gate now d key ctx q w =
      (Inr \<lparr>booted_user = uid, booted_email = boot_email q, booted_admin = True\<rparr>, w') \<and>
    base (boot_base w') = (base (boot_base w))\<lparr>user_roles := user_roles (base (boot_base w)) @
      [\<lparr>ur_key = key, ur_actor = actor, ur_role = lit ''admin'', ur_assigned_at = now, ur_assigned_by = lit ''system''\<rparr>]\<rparr> \<and>
    boot_claim w' = Some (row\<lparr>claim_stage := Finished\<rparr>)"
proof -
  show ?thesis
    using assms(1,2,4,5)
    by (simp add: bootstrap_admin_def on_site_def on_base_def zoom_def admin_exists_def as_db_error_def op_defs claim_eq
        account_of_claim_def grant_run [OF assms(3,4,6,7,8)] finish_bootstrap_def quietly_def record_audit_def)
qed

text \<open>
  C39: a bootstrap that stopped before the role can be taken up: while nobody is an administrator, a
  request with the token and the recorded address succeeds, gives the role to the recorded account and
  changes nothing else in the database.
\<close>

theorem bootstrap_resumes:
  assumes "boot_claim w = Some row" "resumable (boot_email q) row = Some uid" "seeded w"
    and "\<not> has_admin (base (boot_base w))" "gate_verify gate (boot_token q)"
    and "role_by_name (lit ''admin'') (base (boot_base w)) = Some role"
    and "actor_of_user_row uid (base (boot_base w)) = Some actor"
    and "key \<notin> ur_key ` set (user_roles (base (boot_base w)))"
  shows "\<exists>w'. bootstrap_admin no_faults V S gate now d key ctx q w =
      (Inr \<lparr>booted_user = uid, booted_email = boot_email q, booted_admin = True\<rparr>, w') \<and>
    base (boot_base w') = (base (boot_base w))\<lparr>user_roles := user_roles (base (boot_base w)) @
      [\<lparr>ur_key = key, ur_actor = actor, ur_role = lit ''admin'', ur_assigned_at = now, ur_assigned_by = lit ''system''\<rparr>]\<rparr> \<and>
    boot_claim w' = Some (row\<lparr>claim_stage := Finished\<rparr>)"
  using assms by (rule resume_run)

section \<open>Where it leaves an instance without an administrator\<close>

lemma auth_part_put [simp]: "auth_part (put_auth a w) = a"
  by (cases a; cases w; cases "base w") (simp add: put_auth_def auth_part_def store.defs)

text \<open>
  C9: on an instance that verifies addresses the first administrator can never log in with the password
  it was made with, whatever the authentication service does later, and the bootstrap is closed.
\<close>

theorem first_admin_never_logs_in:
  assumes "bootstrap_admin F V S gate now d key ctx q w = (Inr r, w')" "boot_claim w = None" "seeded w"
    and verifies: "email_verification_enabled (auth_conf S)" and ok: "store_ok (auth_part (boot_base w))"
    and keys: "bare_key (lit ''user:'') (new_user (draw_keys d))" "bare_key (lit ''actor_identity:'') (new_actor (draw_keys d))"
    and later: "(auth_step (auth_conf S))\<^sup>*\<^sup>* (auth_part (boot_base w')) a"
    and same: "validate_email input = validate_email (boot_email q)" and "database_faults F'"
  shows "\<not> succeeds (login F' V' (auth_conf S) now' probe key' ctx' input pw) a \<and> has_admin (base (boot_base w'))"
  using assms(1)
proof (cases rule: bootstrap_cases)
  case (1 c w1 w2 uid role actor)
  have "c = Fresh" using 1(3) assms(2) by (auto simp: claim_eq split: if_splits option.splits)
  with account_success [OF 1(4)] claim_base [OF 1(3)] obtain answer t where
    reg: "register F V (auth_conf S) now d ctx
        \<lparr>req_email = boot_email q, req_password = boot_password q, req_username = Some (boot_username q)\<rparr>
        (auth_part (boot_base w)) = (Inr answer, t)" and t: "boot_base w2 = put_auth t (boot_base w)" by auto
  then obtain mail where mail: "validate_email (boot_email q) = Inr mail" by (auto simp: register_def op_success)
  from register_unverified [OF reg verifies] mail obtain acc where
    acc: "stuck (new_user (draw_keys d)) mail (new_actor (draw_keys d)) acc t" by auto
  have "auth_step (auth_conf S) (auth_part (boot_base w)) t"
    using step_register [of "auth_conf S" _ F V now d ctx] reg by (metis after_def snd_conv)
  then have "store_ok t" using auth_step_keeps ok by blast
  moreover have "auth_part (boot_base w') = t" using 1(8) t by simp
  ultimately have "store_ok a" "grows t a" using auth_steps_keep [OF later] by simp_all
  then have "\<not> succeeds (login F' V' (auth_conf S) now' probe key' ctx' input pw) a"
    using stuck_no_login [OF stuck_grows [OF acc] _ verifies keys _ assms(10)] same mail by simp
  then show ?thesis using bootstrap_makes_admin [OF assms(1,3)] by simp
qed

lemma register_taken:
  assumes "validate_email (req_email req) = Inr m" "user_by_email m s \<noteq> None"
  shows "\<not> succeeds (register F V E now d ctx req) s"
  using assms by (auto simp: succeeds_iff register_def op_success find_user_by_email_def)

text \<open>
  C38: when the registration fails after it stored the account, the claim is given back although the
  address is now taken: the answer is the error, nobody is an administrator, and no later bootstrap with
  that address, in any spelling, succeeds as long as the account is there.
\<close>

theorem bootstrap_orphan:
  assumes reg: "register F V (auth_conf S) now d ctx
      \<lparr>req_email = boot_email q, req_password = boot_password q, req_username = Some (boot_username q)\<rparr>
      (auth_part (boot_base w)) = (Inl e, t)"
    and stored: "validate_email (boot_email q) = Inr m" "user_by_email m t \<noteq> None"
    and start: "boot_claim w = None" "\<not> has_admin (base (boot_base w))" "gate_verify gate (boot_token q)"
    and up: "F (lit ''bootstrap_admin_exists'') 0 = None" "F (lit ''bootstrap_claim'') 0 = None" "F (lit ''bootstrap_release'') 0 = None"
  shows "\<exists>w'. bootstrap_admin F V S gate now d key ctx q w = (Inl e, w') \<and> boot_claim w' = None \<and>
    \<not> has_admin (base (boot_base w')) \<and>
    (\<forall>F' V' S' gate' now' d' key' ctx' q'. validate_email (boot_email q') = Inr m \<longrightarrow>
      \<not> succeeds (bootstrap_admin F' V' S' gate' now' d' key' ctx' q') w')"
proof -
  let ?w = "w\<lparr>boot_base := put_auth t (boot_base w)\<rparr>"
  have run: "bootstrap_admin F V S gate now d key ctx q w = (Inl e, ?w)"
    using start up reg
    by (simp add: bootstrap_admin_def on_site_def on_base_def on_auth_def zoom_def admin_exists_def as_db_error_def op_defs
        db_defs claim_eq account_of_claim_def create_first_account_def release_bootstrap_def quietly_def)
  have "\<not> succeeds (bootstrap_admin F' V' S' gate' now' d' key' ctx' q') ?w" if m: "validate_email (boot_email q') = Inr m"
    for F' V' S' gate' now' d' key' ctx' q'
  proof
    assume "succeeds (bootstrap_admin F' V' S' gate' now' d' key' ctx' q') ?w"
    then obtain r w' where "bootstrap_admin F' V' S' gate' now' d' key' ctx' q' ?w = (Inr r, w')" by (auto simp: succeeds_iff)
    then show False
    proof (cases rule: bootstrap_cases)
      case (1 c w1 w2 uid role actor)
      have "c = Fresh" using 1(3) start by (auto simp: claim_eq split: if_splits option.splits)
      with account_success [OF 1(4)] claim_base [OF 1(3)] obtain answer t' where
        "register F' V' (auth_conf S') now' d' ctx'
          \<lparr>req_email = boot_email q', req_password = boot_password q', req_username = Some (boot_username q')\<rparr> t = (Inr answer, t')"
        by auto
      then have "succeeds (register F' V' (auth_conf S') now' d' ctx'
          \<lparr>req_email = boot_email q', req_password = boot_password q', req_username = Some (boot_username q')\<rparr>) t"
        by (simp add: succeeds_iff)
      moreover have "\<not> succeeds (register F' V' (auth_conf S') now' d' ctx'
          \<lparr>req_email = boot_email q', req_password = boot_password q', req_username = Some (boot_username q')\<rparr>) t"
        by (rule register_taken [OF _ stored(2)]) (simp add: m)
      ultimately show False by contradiction
    qed
  qed
  with run start show ?thesis by (intro exI [of _ ?w]) (auto simp: has_admin_def)
qed

section \<open>Lock-outs, for operators\<close>

definition scope_type :: "lockout_scope \<Rightarrow> lockout_type" where
  "scope_type sc = (case sc of ScopeUser \<Rightarrow> UserLockout | ScopeIp \<Rightarrow> IpAddressLockout)"

definition held :: "int \<Rightarrow> lockout_world \<Rightarrow> str \<Rightarrow> lockout_type \<Rightarrow> bool" where
  "held at l who ty \<longleftrightarrow> (\<exists>r. record_for l who ty = Some r \<and> is_locked at r)"

lemma unlock_releases:
  assumes "unlock F at ty who l = (Inr b, l')" "lockout_inv l"
  shows "(b \<longleftrightarrow> held at l who ty) \<and> \<not> held at l' who ty"
proof -
  have up: "F (lit ''get_lockout_record'') 0 = None"
  proof (rule ccontr)
    assume "F (lit ''get_lockout_record'') 0 \<noteq> None"
    then show False using assms(1) by (auto simp: unlock_def get_lockout_record_def db_defs op_defs)
  qed
  have read: "get_lockout_record F who ty l =
      (case record_for l who ty of Some r \<Rightarrow> (Inr r, l) | None \<Rightarrow> (Inl UserNotFound, l))"
    using assms(2) up by (simp add: get_lockout_record_eq lockout_inv_def)
  show ?thesis
  proof (cases "\<exists>r. record_for l who ty = Some r \<and> is_locked at r")
    case True
    then obtain r where r: "record_for l who ty = Some r" "is_locked at r" by blast
    then have "lock_ident r = who" "lock_type r = ty" by (auto simp: record_for_def split: option.splits if_splits)
    moreover from r have "b" "l' = l\<lparr>lockouts := upsert (lockout_record_id (lock_ident r) (lock_type r)) (\<lambda>_. unlock_account at r)
        (lockouts l)\<rparr>"
      using assms(1) by (auto simp: unlock_def read op_success save_lockout_record_def op_defs db_defs unlock_account_def
          split: option.splits)
    ultimately have "record_for l' who ty = Some (unlock_account at r)"
      by (simp add: record_for_def unlock_account_def)
    then show ?thesis using True \<open>b\<close> by (simp add: held_def is_locked_def unlock_account_def)
  next
    case False
    then have "l' = l" "\<not> b" using assms(1) by (auto simp: unlock_def read op_defs split: option.splits)
    then show ?thesis using False by (simp add: held_def)
  qed
qed

text \<open>
  an operator's unlock needs the permission, opens the record of the identifier it was given, says
  whether it was held, touches nothing in the database, and leaves an entry in the journal.
\<close>

theorem unlock_opens:
  assumes "unlock_handler F at ctx u scope raw w = (Inr b, w')" "lockout_inv (locks w)"
  shows "\<exists>who d. normalise raw = Inr who \<and> has_permission (user_key u) security_write (base w) \<and> base w' = base w \<and>
    (b \<longleftrightarrow> held at (locks w) who (scope_type scope)) \<and> \<not> held at (locks w') who (scope_type scope) \<and>
    audit_queue w' = audit_queue w @ [with_details d
      (with_user (user_key u) (ctx_event ''lockout_cleared'' CatSecurity StatusSuccess ctx))]"
proof -
  obtain t who l where guard: "require_permission F (user_key u) security_write (base w) = (Inr (), t)"
    and who: "normalise raw = Inr who" and run: "unlock F at (scope_type scope) who (locks w) = (Inr b, l)"
    and w': "\<exists>d. w' = audit_queue_update (\<lambda>q. q @ [with_details d
      (with_user (user_key u) (ctx_event ''lockout_cleared'' CatSecurity StatusSuccess ctx))]) (w\<lparr>base := t, locks := l\<rparr>)"
    using assms(1) by (cases scope) (fastforce simp: unlock_handler_def op_success record_audit_def scope_type_def
        unlock_user_def unlock_ip_def)+
  note pure = require_permission_pure [OF guard]
  show ?thesis using unlock_releases [OF run assms(2)] who pure w' by auto
qed

section \<open>Witnesses\<close>

definition admin_role :: role where
  "admin_role = \<lparr>role_key = lit ''admin'', role_name = lit ''admin'', role_display_name = lit ''Administrator'',
     role_description = None, role_is_system = True, role_created_at = 0, role_updated_at = 0\<rparr>"

definition boot_of :: "auth_world \<Rightarrow> claim_row option \<Rightarrow> boot_site" where
  "boot_of a row = \<lparr>boot_base = base_update (roles_update (\<lambda>_. [admin_role])) (site_of a no_locks), boot_claim = row\<rparr>"

definition pending_row :: claim_row where
  "pending_row = \<lparr>claim_email = lit ''a@b.c'', claim_stage = RolePending, claim_user = Some (lit ''u1''), claim_at = 0\<rparr>"

definition first_request :: bootstrap_request where
  "first_request = \<lparr>boot_token = lit ''t1'', boot_email = lit ''a@b.c'', boot_username = lit ''Ann'', boot_password = lit ''Passw0rd''\<rparr>"

lemma boot_of_parts [simp]:
  "boot_claim (boot_of a row) = row" "users (base (boot_base (boot_of a row))) = users a"
  "roles (base (boot_base (boot_of a row))) = [admin_role]" "user_roles (base (boot_base (boot_of a row))) = []"
  "auth_part (boot_base (boot_of a row)) = a" "audit_queue (boot_base (boot_of a row)) = []"
  by (simp_all add: boot_of_def) (cases a; simp add: site_of_def auth_part_def store.defs)

lemma boot_of_roles [simp]: "\<not> has_admin (base (boot_base (boot_of a row)))"
  "role_by_name (lit ''admin'') (base (boot_base (boot_of a row))) = Some admin_role" "seeded (boot_of a row)"
  by (simp_all add: has_admin_def role_by_name_def seeded_def) (simp_all add: admin_role_def count_where_def)

lemma first_gate [simp]: "gate_verify (Some (lit ''t1'')) (boot_token first_request)"
  by (simp add: gate_verify_def constant_time_eq_iff first_request_def)

lemma sample_row: "actor_of_user_row (lit ''u1'') (base (boot_base (boot_of demo_world row))) = Some (lit ''a1'')"
  by (simp add: actor_of_user_row_def demo_account demo_world_def)

lemma pending_resumes: "resumable (boot_email first_request) pending_row = Some (lit ''u1'')"
  by (simp add: resumable_def pending_row_def first_request_def)

lemma demo_resumed: "\<exists>w'. bootstrap_admin no_faults demo_report demo_conf (Some (lit ''t1'')) 5 demo_draws (lit ''r1'') demo_ctx first_request
    (boot_of demo_world (Some pending_row)) =
    (Inr \<lparr>booted_user = lit ''u1'', booted_email = boot_email first_request, booted_admin = True\<rparr>, w')"
proof -
  have "lit ''r1'' \<notin> ur_key ` set (user_roles (base (boot_base (boot_of demo_world (Some pending_row)))))" by simp
  from resume_run [where w = "boot_of demo_world (Some pending_row)" and q = first_request, OF boot_of_parts(1) pending_resumes
      boot_of_roles(3,1) first_gate boot_of_roles(2) sample_row this] show ?thesis by blast
qed

theorem bootstrap_resumes_witness:
  "\<exists>w'. bootstrap_admin no_faults demo_report demo_conf (Some (lit ''t1'')) 5 demo_draws (lit ''r1'') demo_ctx first_request
      (boot_of demo_world (Some pending_row)) =
      (Inr \<lparr>booted_user = lit ''u1'', booted_email = boot_email first_request, booted_admin = True\<rparr>, w') \<and>
    boot_claim w' = Some (pending_row\<lparr>claim_stage := Finished\<rparr>)"
proof -
  have "lit ''r1'' \<notin> ur_key ` set (user_roles (base (boot_base (boot_of demo_world (Some pending_row)))))" by simp
  from bootstrap_resumes [where w = "boot_of demo_world (Some pending_row)" and q = first_request, OF boot_of_parts(1) pending_resumes
      boot_of_roles(3,1) first_gate boot_of_roles(2) sample_row this] show ?thesis by blast
qed

definition first_call :: boot_call where
  "first_call = \<lparr>call_faults = no_faults, call_conflicts = demo_report, call_env = demo_conf, call_gate = Some (lit ''t1''),
     call_time = 5, call_draws = demo_draws, call_key = lit ''r1'', call_ctx = demo_ctx, call_request = first_request\<rparr>"

theorem bootstrap_once_witness:
  "\<exists>a. fst (run serve_bootstrap [first_call, first_call] (boot_of demo_world (Some pending_row))) = [True, a] \<and> \<not> a"
proof -
  have won: "fst (serve_bootstrap first_call (boot_of demo_world (Some pending_row)))"
    using demo_resumed by (auto simp: serve_bootstrap_def first_call_def succeeds_iff)
  then have "fst (run serve_bootstrap [first_call, first_call] (boot_of demo_world (Some pending_row))) ! 0"
    by (auto split: prod.split)
  from bootstrap_once [OF boot_of_roles(3) _ _ this, of 1] won show ?thesis by (auto split: prod.split)
qed

theorem bootstrap_grounds_witness:
  "\<exists>r w'. bootstrap_admin no_faults demo_report demo_conf (Some (lit ''t1'')) 5 demo_draws (lit ''r1'') demo_ctx first_request
      (boot_of demo_world (Some pending_row)) = (Inr r, w') \<and> resumable (boot_email first_request) pending_row = Some (booted_user r)"
proof -
  obtain r w' where run: "bootstrap_admin no_faults demo_report demo_conf (Some (lit ''t1'')) 5 demo_draws (lit ''r1'') demo_ctx
    first_request (boot_of demo_world (Some pending_row)) = (Inr r, w')" using demo_resumed by blast
  have "bare_key (lit ''user:'') (new_user (draw_keys demo_draws))" by (simp add: demo_draws_def demo_keys_def bare_eval)
  from bootstrap_grounds [OF run this] run show ?thesis by auto
qed

theorem bootstrap_refusals_alike_witness:
  "outcome (bootstrap_admin no_faults demo_report demo_conf (Some (lit ''t1'')) 5 demo_draws (lit ''r1'') demo_ctx
      (first_request\<lparr>boot_token := []\<rparr>)) (boot_of demo_world None) = Inl bootstrap_rejected"
proof -
  have "\<not> gate_verify (Some (lit ''t1'')) (boot_token (first_request\<lparr>boot_token := []\<rparr>))"
    by (simp add: gate_verify_def constant_time_eq_iff as_bytes_def utf8_def utf8_char_def lit_def)
  then have "has_admin (base (boot_base (boot_of demo_world None))) \<or>
    \<not> gate_verify (Some (lit ''t1'')) (boot_token (first_request\<lparr>boot_token := []\<rparr>))" by blast
  moreover have "no_faults (lit ''bootstrap_admin_exists'') 0 = None" by simp
  ultimately show ?thesis using bootstrap_refusals_alike [of no_faults "boot_of demo_world None" "Some (lit ''t1'')"
      "first_request\<lparr>boot_token := []\<rparr>"] by (simp add: outcome_def)
qed

theorem bootstrap_claimed_once_witness:
  "\<exists>b. fst (run (mixed_step fresh_claim boot_other_step) [Claim (no_faults, 5, lit ''a''), Claim (no_faults, 6, lit ''b'')]
      (boot_of demo_world None)) = [True, b] \<and> \<not> b"
proof -
  let ?steps = "[Claim (no_faults, 5, lit ''a''), Claim (no_faults, 6, lit ''b'')]"
  have won: "fst (mixed_step fresh_claim boot_other_step (hd ?steps) (boot_of demo_world None))"
    by (simp add: mixed_step_def claim_eq outcome_def)
  then have "fst (run (mixed_step fresh_claim boot_other_step) ?steps (boot_of demo_world None)) ! 0"
    by (auto split: prod.split)
  then have "\<not> fst (run (mixed_step fresh_claim boot_other_step) ?steps (boot_of demo_world None)) ! 1"
    by (rule bootstrap_claimed_once [of 0 1 ?steps, rotated 4]) simp_all
  then show ?thesis using won by (auto split: prod.split)
qed

text \<open>A first bootstrap on an empty instance that verifies addresses.\<close>

definition verifying_conf :: site_env where
  "verifying_conf = demo_conf\<lparr>auth_conf := verifying_demo\<rparr>"

lemma first_request_form: "\<lparr>req_email = boot_email first_request, req_password = boot_password first_request,
    req_username = Some (boot_username first_request)\<rparr> = demo_request"
  by (simp add: first_request_def demo_request_def)

lemma register_row:
  assumes "register F V E now d ctx req s = (Inr r, t)" "email_verification_enabled E"
  shows "\<exists>f. users t = users s @ [aggregate_user now (draw_keys d) f]"
proof -
  obtain f ids s2 u where agg: "create_human_aggregate F V now (draw_keys d) f s = (Inr ids, s2)" and t: "t = send_mail u s2"
  proof -
    assume that: "\<And>f ids s2 u. create_human_aggregate F V now (draw_keys d) f s = (Inr ids, s2) \<Longrightarrow> t = send_mail u s2 \<Longrightarrow> thesis"
    show thesis
      using assms unfolding register_def Let_def
      by (auto simp: bind_success seq_success map_error_success lift_result_success the_or_success
          require_success find_user_by_id_def find_user_by_email_def db_read_success intro!: that dest!: ensure_username_pure
          split: prod.splits)
  qed
  from create_human_aggregate_state [OF agg] show ?thesis unfolding t by (auto simp: send_mail_def)
qed

lemma demo_bootstrap: "\<exists>r w'. bootstrap_admin no_faults demo_report verifying_conf (Some (lit ''t1'')) 5 demo_draws (lit ''r1'') demo_ctx
    first_request (boot_of empty_world None) = (Inr r, w')"
proof -
  let ?w = "boot_of empty_world None"
  from demo_register obtain answer v t where
    reg: "register no_faults demo_report verifying_demo 5 demo_draws demo_ctx demo_request empty_world = (Inr (answer, v), t)"
    by fast
  have key: "response_id (snd answer) = lit ''u1''"
    using register_new_account [OF reg] by (simp add: demo_draws_def demo_keys_def bare_eval)
  obtain f where users: "users t = [aggregate_user 5 demo_keys f]"
    using register_row [OF reg] by (auto simp: verifying_demo_def demo_draws_def empty_world_def empty_store_def store.defs)
  have actor: "actor_of_user_row (lit ''u1'') t = Some (lit ''a1'')"
    by (simp add: actor_of_user_row_def users aggregate_user_def demo_keys_def)
  let ?row = "\<lparr>claim_email = boot_email first_request, claim_stage = RolePending, claim_user = Some (lit ''u1''), claim_at = 5\<rparr>"
  let ?w2 = "\<lparr>boot_base = put_auth t (boot_base ?w), boot_claim = Some ?row\<rparr>"
  have "account_of_claim no_faults demo_report verifying_conf 5 demo_draws demo_ctx first_request Fresh
      (?w\<lparr>boot_claim := Some \<lparr>claim_email = boot_email first_request, claim_stage = Claiming, claim_user = None, claim_at = 5\<rparr>\<rparr>) =
    (Inr (lit ''u1''), ?w2)"
    by (simp add: account_of_claim_def create_first_account_def first_request_form verifying_conf_def on_site_def on_auth_def
        zoom_def reg op_defs key mark_role_pending_def quietly_def Let_def)
  moreover have "\<exists>w3. grant_admin no_faults demo_report 5 (lit ''r1'') (lit ''u1'') ?w2 = (Inr (), w3)"
  proof -
    have roles: "roles (base (boot_base ?w2)) = [admin_role]" "user_roles (base (boot_base ?w2)) = []" by simp_all
    have "seeded ?w2" "role_by_name (lit ''admin'') (base (boot_base ?w2)) = Some admin_role"
      unfolding seeded_def role_by_name_def roles by (simp_all add: admin_role_def)
    moreover have "\<not> has_admin (base (boot_base ?w2))" "lit ''r1'' \<notin> ur_key ` set (user_roles (base (boot_base ?w2)))"
      unfolding has_admin_def roles by (simp_all add: count_where_def)
    moreover have "actor_of_user_row (lit ''u1'') (base (boot_base ?w2)) = Some (lit ''a1'')"
      using actor by (simp add: actor_of_user_row_def)
    ultimately show ?thesis by (intro exI) (rule grant_run)
  qed
  moreover have "claim_bootstrap no_faults 5 (boot_email first_request) ?w = (Inr Fresh,
      ?w\<lparr>boot_claim := Some \<lparr>claim_email = boot_email first_request, claim_stage = Claiming, claim_user = None, claim_at = 5\<rparr>\<rparr>)"
    by (simp add: claim_eq)
  ultimately show ?thesis
    by (auto simp: bootstrap_admin_def on_site_def on_base_def zoom_def admin_exists_def as_db_error_def op_defs
        finish_bootstrap_def quietly_def record_audit_def)
qed

theorem first_admin_never_logs_in_witness:
  "\<exists>r w'. bootstrap_admin no_faults demo_report verifying_conf (Some (lit ''t1'')) 5 demo_draws (lit ''r1'') demo_ctx
      first_request (boot_of empty_world None) = (Inr r, w') \<and> has_admin (base (boot_base w')) \<and>
    \<not> succeeds (login no_faults demo_report verifying_demo 9 (lit ''x'') (lit ''k'') demo_ctx (lit ''a@b.c'') (lit ''Passw0rd''))
      (auth_part (boot_base w'))"
proof -
  obtain r w' where run: "bootstrap_admin no_faults demo_report verifying_conf (Some (lit ''t1'')) 5 demo_draws (lit ''r1'') demo_ctx
    first_request (boot_of empty_world None) = (Inr r, w')" using demo_bootstrap by blast
  have verifies: "email_verification_enabled (auth_conf verifying_conf)" "auth_conf verifying_conf = verifying_demo"
    by (simp_all add: verifying_conf_def verifying_demo_def)
  have ok: "store_ok (auth_part (boot_base (boot_of empty_world None)))"
    by (simp add: empty_world_def empty_store_def store.defs store_ok_def unique_ok_def)
  have keys: "bare_key (lit ''user:'') (new_user (draw_keys demo_draws))"
    "bare_key (lit ''actor_identity:'') (new_actor (draw_keys demo_draws))"
    by (simp_all add: demo_draws_def demo_keys_def bare_eval)
  have same: "validate_email (lit ''a@b.c'') = validate_email (boot_email first_request)" by (simp add: first_request_def)
  from first_admin_never_logs_in [OF run boot_of_parts(1) boot_of_roles(3) verifies(1) ok keys rtranclp.rtrancl_refl same
      database_faults_no_faults] run show ?thesis unfolding verifies(2) by blast
qed

text \<open>A registration that cannot read the new row back.\<close>

definition lost_read :: faults where
  "lost_read l i = (if l = lit ''user.id'' then Some (DatabaseError []) else None)"

lemma lost_read_elsewhere: "l \<noteq> ''user.id'' \<Longrightarrow> lost_read (lit l) i = None"
  by (simp add: lost_read_def)

lemma demo_lost_register: "\<exists>t. register lost_read demo_report auth_demo 5 demo_draws demo_ctx demo_request empty_world =
    (Inl (DatabaseError []), t) \<and> user_by_email (lit ''a@b.c'') t \<noteq> None"
proof -
  have other: "db_read lost_read l g s = (Inr (g s), s)" "database_up lost_read l s = (Inr (), s)" if "l \<noteq> ''user.id''" for l g s
    by (simp_all add: db_defs op_defs lost_read_elsewhere [OF that])
  have lost: "db_read lost_read ''user.id'' g s = (Inl (DatabaseError []), s)" for g s
    by (simp add: db_defs op_defs lost_read_def)
  have start: "users empty_world = []" "actors empty_world = []" "accounts empty_world = []" "credentials empty_world = []"
    by (simp_all add: empty_world_def empty_store_def store.defs)
  let ?f = "\<lparr>form_email = lit ''a@b.c'', form_username = lit ''Ann'', form_normalized = lit ''ann'', form_verified = True,
       form_token_hash = None, form_token_expires = None, form_password = Some (lit ''Passw0rd''), form_binding = None\<rparr>"
  obtain t where agg: "create_human_aggregate lost_read demo_report 5 demo_keys ?f empty_world = (Inr (lit ''a1'', lit ''u1''), t)"
    by (simp add: create_human_aggregate_def transaction_def other insert_row_def index_conflict_def index_defs
        start demo_keys_def seq_def bind_def)
  have row: "user_by_email (lit ''a@b.c'') t \<noteq> None"
    using create_human_aggregate_state [OF agg] start by (simp add: user_by_email_def aggregate_user_def)
  have env: "email_verification_enabled auth_demo = False" "password_min_length auth_demo = 8" "argon2_hash auth_demo salt p = Inr p"
    for salt p by (simp_all add: auth_demo_def)
  have "register lost_read demo_report auth_demo 5 demo_draws demo_ctx demo_request empty_world = (Inl (DatabaseError []), t)"
    by (simp add: register_def demo_form_valid env start find_user_by_email_def user_by_email_def ensure_username_available_def
        find_user_by_name_def user_by_name_def find_user_by_id_def other lost op_defs hash_password_def agg demo_draws_def
        Let_def)
  with row show ?thesis by blast
qed

theorem bootstrap_orphan_witness:
  "\<exists>w'. bootstrap_admin lost_read demo_report demo_conf (Some (lit ''t1'')) 5 demo_draws (lit ''r1'') demo_ctx first_request
      (boot_of empty_world None) = (Inl (DatabaseError []), w') \<and> boot_claim w' = None \<and>
    \<not> succeeds (bootstrap_admin no_faults demo_report demo_conf (Some (lit ''t1'')) 9 demo_draws (lit ''r1'') demo_ctx first_request) w'"
proof -
  have conf: "auth_conf demo_conf = auth_demo" by (simp add: demo_conf_def)
  obtain t where reg: "register lost_read demo_report (auth_conf demo_conf) 5 demo_draws demo_ctx
      \<lparr>req_email = boot_email first_request, req_password = boot_password first_request,
       req_username = Some (boot_username first_request)\<rparr> (auth_part (boot_base (boot_of empty_world None))) = (Inl (DatabaseError []), t)"
    and row: "user_by_email (lit ''a@b.c'') t \<noteq> None" using demo_lost_register by (auto simp: first_request_form conf)
  have mail: "validate_email (boot_email first_request) = Inr (lit ''a@b.c'')" by (simp add: first_request_def demo_form_valid)
  from bootstrap_orphan [OF reg mail row boot_of_parts(1) boot_of_roles(1) first_gate] mail
  show ?thesis by (fastforce simp: lost_read_elsewhere)
qed

text \<open>An operator with the permission, and a lock to open.\<close>

definition operator_link :: user_role where
  "operator_link = \<lparr>ur_key = lit ''r1'', ur_actor = lit ''a1'', ur_role = lit ''admin'', ur_assigned_at = 0, ur_assigned_by = []\<rparr>"

definition operator_right :: permission where
  "operator_right = \<lparr>permission_key = lit ''p1'', permission_name = security_write, permission_display_name = [],
     permission_description = None, permission_resource = [], permission_action = [], permission_is_system = True,
     permission_created_at = 0, permission_updated_at = 0\<rparr>"

definition operator_grant :: role_permission where
  "operator_grant = \<lparr>rp_key = lit ''l1'', rp_role = lit ''admin'', rp_permission = lit ''p1'', rp_granted_at = 0, rp_granted_by = []\<rparr>"

definition operator_site :: site where
  "operator_site = base_update (\<lambda>b. b\<lparr>roles := [admin_role], permissions := [operator_right], user_roles := [operator_link],
     role_permissions := [operator_grant]\<rparr>) (site_of demo_world one_lock)"

lemma operator_tables: "users (base operator_site) = [sample_user]" "user_roles (base operator_site) = [operator_link]"
  "permissions (base operator_site) = [operator_right]" "role_permissions (base operator_site) = [operator_grant]"
  "locks operator_site = one_lock"
  by (simp_all add: operator_site_def) (simp add: demo_world_def)

lemma operator_may: "require_permission no_faults (lit ''u1'') security_write (base operator_site) = (Inr (), base operator_site)"
proof -
  have "actor_of_user_row (lit ''u1'') (base operator_site) = Some (lit ''a1'')"
    by (simp add: actor_of_user_row_def operator_tables demo_account)
  then have "permission_count (lit ''u1'') security_write (base operator_site) = 1"
    by (simp add: permission_count_def assignments_of_def count_where_def operator_tables)
      (simp add: operator_link_def operator_right_def operator_grant_def)
  then show ?thesis by (simp add: require_permission_def check_user_permission_def op_eval)
qed

theorem unlock_opens_witness:
  "\<exists>w'. unlock_handler no_faults noon demo_ctx sample_user ScopeUser (lit ''a@b.c'') operator_site = (Inr True, w') \<and>
    held noon (locks operator_site) (lit ''a@b.c'') UserLockout \<and> \<not> held noon (locks w') (lit ''a@b.c'') UserLockout"
proof -
  note start = operator_tables(5)
  have who: "normalise (lit ''a@b.c'') = Inr (lit ''a@b.c'')"
    by (simp add: normalise_def lit_def trim_by_def is_whitespace_def is_control_def Let_def)
  have inv: "lockout_inv (locks operator_site)" by (simp add: start one_lock_def lockout_inv_def rows_ok_def locked_row_def)
  have kept: "record_for one_lock (lit ''a@b.c'') UserLockout = Some locked_row" "is_locked noon locked_row"
    by (simp_all add: record_for_def one_lock_def locked_row_def is_locked_def)
  have "unlock no_faults noon UserLockout (lit ''a@b.c'') one_lock = (Inr True, after (unlock no_faults noon UserLockout (lit ''a@b.c'')) one_lock)"
    using inv kept by (simp add: unlock_def get_lockout_record_eq start lockout_inv_def op_defs save_lockout_record_def after_def)
  then obtain l where "unlock no_faults noon UserLockout (lit ''a@b.c'') one_lock = (Inr True, l)" by blast
  then obtain w' where run: "unlock_handler no_faults noon demo_ctx sample_user ScopeUser (lit ''a@b.c'') operator_site = (Inr True, w')"
    by (simp add: unlock_handler_def op_defs on_base_def on_locks_def zoom_def demo_account operator_may who unlock_user_def
        start record_audit_def)
  from unlock_opens [OF run inv] run who show ?thesis by (auto simp: scope_type_def)
qed

end
