(* ===== verification/Usernames.thy ===== *)
theory Usernames
  imports Account_Life
begin

text \<open>
  The user names the service makes up for external logins: the padding loop ends, a free name is found
  as long as there are fewer users than attempts, and the name keeps the rules for typed names but one.
\<close>

section \<open>The seed\<close>

lemma byte_len_snoc [simp]: "byte_len (s @ [48]) = Suc (byte_len s)"
  by (simp add: byte_len_def utf8_def utf8_char_def)

lemma pad_seed_eq: "pad_seed s = s @ replicate (3 - byte_len s) 48"
proof (induction s rule: pad_seed.induct)
  case (1 s)
  show ?case
  proof (cases "byte_len s < 3")
    case True
    then have "3 - byte_len s = Suc (3 - byte_len (s @ [48]))" by simp
    then show ?thesis using 1 [OF True] True by (subst pad_seed.simps) simp
  qed (simp add: pad_seed.simps)
qed

lemma byte_len_append: "byte_len (s @ t) = byte_len s + byte_len t"
  by (simp add: byte_len_def utf8_def)

lemma byte_len_zeros: "byte_len (replicate n 48) = n"
  by (induction n) (simp_all add: byte_len_def utf8_def utf8_char_def)

lemma pad_seed_long: "3 \<le> byte_len (pad_seed s)"
  by (simp add: pad_seed_eq byte_len_append byte_len_zeros)

lemma pad_seed_chars: "list_all username_char s \<Longrightarrow> list_all username_char (pad_seed s)"
  by (auto simp: pad_seed_eq list_all_iff username_char_def char_classes)

lemma seed_chars: "list_all username_char (username_seed base)"
  unfolding username_seed_def Let_def
  by (rule pad_seed_chars) (simp add: list_all_iff lit_def username_char_def char_classes)

section \<open>The candidates\<close>

lemma candidate_chars: "list_all username_char (username_candidate (username_seed base) n)"
  using seed_chars [of base] dec_digits [of _ n]
  by (auto simp: username_candidate_def list_all_iff username_char_def is_ascii_alphanumeric_def)

lemma candidate_long: "3 \<le> byte_len (username_candidate (username_seed base) n)"
proof -
  have "3 \<le> byte_len (username_seed base)" by (simp add: username_seed_def Let_def pad_seed_long)
  then show ?thesis by (simp add: username_candidate_def byte_len_append)
qed

lemma chars_trimmed: "list_all username_char s \<Longrightarrow> trim s = s"
proof -
  assume s: "list_all username_char s"
  have "\<not> is_whitespace c" if "username_char c" for c using that by (auto simp: username_char_def char_classes)
  then show ?thesis using s hd_in_set [of s] last_in_set [of s] by (auto simp: trim_by_fixed_iff list_all_iff)
qed

lemma normalized_candidate: "list_all username_char seed \<Longrightarrow> list_all username_char (username_candidate seed n) \<Longrightarrow>
  normalize_username (username_candidate seed n) = to_ascii_lowercase seed @ (if n = 0 then [] else dec n)"
proof -
  have "map ascii_lower (dec n) = dec n"
    by (rule map_idI) (auto dest!: dec_digits simp: ascii_lower_def is_ascii_digit_def is_ascii_uppercase_def)
  then show "list_all username_char seed \<Longrightarrow> list_all username_char (username_candidate seed n) \<Longrightarrow>
    normalize_username (username_candidate seed n) = to_ascii_lowercase seed @ (if n = 0 then [] else dec n)"
    by (simp add: normalize_username_def chars_trimmed) (simp add: username_candidate_def to_ascii_lowercase_def)
qed

lemma candidates_distinct: "inj (\<lambda>n. normalize_username (username_candidate (username_seed base) n))"
  by (rule injI) (simp add: normalized_candidate seed_chars candidate_chars dec_not_Nil [symmetric] split: if_splits)

lemma first_free_step: "first_free_username no_faults seed (n # ns) s =
  (if normalize_username (username_candidate seed n) \<in> username_normalized ` set (users s)
   then first_free_username no_faults seed ns s
   else (Inr (username_candidate seed n, normalize_username (username_candidate seed n)), s))"
proof -
  have "user_by_name k s = None \<longleftrightarrow> k \<notin> username_normalized ` set (users s)" for k
    by (auto simp: user_by_name_def find_None_iff)
  then show ?thesis by (simp add: find_user_by_name_def bind_def Let_def del: no_faults_simps(1))
qed

declare first_free_username.simps(2) [simp del]

lemma first_free_found:
  assumes "\<exists>n\<in>set ns. normalize_username (username_candidate seed n) \<notin> username_normalized ` set (users s)"
  shows "\<exists>n\<in>set ns. first_free_username no_faults seed ns s =
      (Inr (username_candidate seed n, normalize_username (username_candidate seed n)), s) \<and>
    normalize_username (username_candidate seed n) \<notin> username_normalized ` set (users s)"
  using assms by (induction ns) (auto simp: first_free_step)

text \<open>
  C40: The search for a user name ends with one: in a database without faults that holds fewer than a
  thousand users, every base gives, after the padding loop and at most a thousand look-ups, a name whose normal form nobody
  has, every character of it allowed and of at least three bytes, whatever its length; it is refused as a typed name exactly when it is
  longer than the 32 bytes the search never looks at.
\<close>

theorem username_found:
  assumes "length (users s) < 1000"
  shows "\<exists>name. generate_unique_username no_faults base s = (Inr (name, normalize_username name), s) \<and>
    normalize_username name \<notin> username_normalized ` set (users s) \<and>
    list_all username_char name \<and> 3 \<le> byte_len name \<and>
    (validate_username name = Inr name \<longleftrightarrow> byte_len name \<le> 32)"
proof -
  let ?name = "\<lambda>n. username_candidate (username_seed base) n"
  have "\<exists>n\<in>set [0..<1000]. normalize_username (?name n) \<notin> username_normalized ` set (users s)"
  proof (rule ccontr)
    assume "\<not> ?thesis"
    then have "(\<lambda>n. normalize_username (?name n)) ` set [0..<1000] \<subseteq> username_normalized ` set (users s)" by auto
    then have "card ((\<lambda>n. normalize_username (?name n)) ` set [0..<1000]) \<le> card (set (users s))"
      by (meson List.finite_set card_image_le card_mono finite_imageI order_trans)
    moreover have "card ((\<lambda>n. normalize_username (?name n)) ` set [0..<1000]) = 1000"
      using candidates_distinct [of base] by (subst card_image) (auto intro: inj_on_subset)
    ultimately show False using assms card_length [of "users s"] by simp
  qed
  from first_free_found [OF this] obtain n where
    n: "generate_unique_username no_faults base s = (Inr (?name n, normalize_username (?name n)), s)"
    "normalize_username (?name n) \<notin> username_normalized ` set (users s)"
    unfolding generate_unique_username_def by blast
  have "validate_username (?name n) = Inr (?name n) \<longleftrightarrow> byte_len (?name n) \<le> 32"
    using candidate_chars [of base n] candidate_long [of base n] chars_trimmed [OF candidate_chars, of base n]
    by (simp add: validate_username_def Let_def)
  with n candidate_chars [of base n] candidate_long [of base n] show ?thesis by blast
qed

theorem username_found_witness:
  "\<exists>name. generate_unique_username no_faults (lit ''Ann'') demo_world = (Inr (name, normalize_username name), demo_world) \<and>
    normalize_username name \<notin> username_normalized ` set (users demo_world) \<and>
    list_all username_char name \<and> 3 \<le> byte_len name"
proof -
  have "length (users demo_world) < 1000" by (simp add: demo_world_def)
  from username_found [OF this] show ?thesis by blast
qed

end
