(* ===== verification/Spec2Isabelle.thy ===== *)
theory Spec2Isabelle
  imports Validation Rate_Limiter Lockout_Runs Mfa Account_Safety Audit_History Oidc_Web User_Safety Ai_Safety
    External_Safety Bootstrap_Safety Usernames
begin

text \<open>
  SoulAuth is an authentication service in Rust: password login with a second factor, sessions and
  JSON web tokens, an OpenID provider, and a signed audit trail, over a SurrealDB store.  This
  development models its services as functions on explicit states and proves what makes them correct.

  \<^bold>\<open>How the program is modelled.\<close>  A handler or service method is an operation
  \<open>'s \<Rightarrow> ('e + 'a) \<times> 's\<close> (theory \<open>Prelude\<close>: \<open>ret\<close>, \<open>throw\<close>, \<open>bind\<close>, \<open>require\<close>, \<open>catch\<close>,
  \<open>map_error\<close> for \<^verbatim>\<open>?\<close>, \<^verbatim>\<open>Ok\<close>, \<^verbatim>\<open>Err\<close> and \<^verbatim>\<open>map_err\<close>).  Errors are values of \<open>auth_error\<close>
  (theory \<open>Errors\<close>, \<^verbatim>\<open>src/error.rs\<close>), or texts where the service uses \<^verbatim>\<open>anyhow\<close>.  Strings are lists
  of code points (\<open>str\<close>, theory \<open>Strings\<close>), numbers \<^verbatim>\<open>i64\<close> are integers, bytes are 8-bit words, rows of
  the database are records in lists, and each database statement is one atomic step that a parameter
  \<open>faults\<close> may fail (\<open>Store\<close>, \<open>Interfaces\<close>).  Clocks, random draws, the JWT library, password
  hashing, digests, ciphers and signatures are arguments.

  \<^bold>\<open>Parts and theories.\<close>
  \<^item> \<open>Prelude\<close>, \<open>Strings\<close>, \<open>Json\<close>: operations with errors, association lists, guarded updates of a
    table, texts and UTF-8, JSON values; the collections \<open>op_success\<close>, \<open>op_failure\<close>, \<open>op_eval\<close> and
    \<open>preserve\<close> carry the component proofs.
  \<^item> \<open>Errors\<close> (\<^verbatim>\<open>error.rs\<close>), \<open>Validation\<close> (\<^verbatim>\<open>utils/validation.rs\<close>, \<^verbatim>\<open>utils/record_id.rs\<close>).
  \<^item> \<open>Rate_Limiter\<close> (\<^verbatim>\<open>services/rate_limiter.rs\<close>, \<^verbatim>\<open>utils/rate_limit_middleware.rs\<close>): the local
    sliding window, the shared windows in the database with their retry loop, the middleware.
  \<^item> \<open>Lockout\<close>, \<open>Lockout_Runs\<close> (\<^verbatim>\<open>services/account_lockout.rs\<close>): counting failures, locking, unlocking,
    and the lock that no run of these operations gets around.
  \<^item> \<open>Crypto\<close> (\<^verbatim>\<open>utils/crypto.rs\<close>), \<open>Mfa\<close> (\<^verbatim>\<open>services/mfa.rs\<close>): secrets at rest, TOTP and
    recovery codes.
  \<^item> \<open>Interfaces\<close>: the locales that several components instantiate (one-shot claims, guarded counters).
  \<^item> \<open>Store\<close> (\<^verbatim>\<open>schema.sql\<close>, \<^verbatim>\<open>services/database.rs\<close>, \<^verbatim>\<open>models\<close>), \<open>Identity\<close>
    (\<^verbatim>\<open>services/identity.rs\<close>, \<^verbatim>\<open>services/credential.rs\<close>), \<open>Auth_Cache\<close>
    (\<^verbatim>\<open>services/auth_cache.rs\<close>), \<open>Jwt\<close> (\<^verbatim>\<open>utils/jwt.rs\<close>), \<open>Auth_Service\<close> (\<^verbatim>\<open>services/auth.rs\<close>);
    \<open>Account_Life\<close> and \<open>Account_Safety\<close> prove what they promise together.
  \<^item> \<open>Audit_Chain\<close>, \<open>Audit_Log\<close>, \<open>Audit_Verify\<close>, \<open>Audit_History\<close>
    (\<^verbatim>\<open>services/audit_logger.rs\<close>, \<^verbatim>\<open>services/audit_integrity.rs\<close>, \<^verbatim>\<open>routes/audit.rs\<close>): the hash
    chain, the queue and its writer, the verifier.
  \<^item> \<open>Oidc\<close>, \<open>Oidc_Safety\<close> (\<^verbatim>\<open>services/oidc.rs\<close>): authorization codes, tokens, refresh, UserInfo;
    \<open>Oidc_Clients\<close>, \<open>Oidc_Registry\<close> (\<^verbatim>\<open>services/oidc_client_management.rs\<close>, \<^verbatim>\<open>routes/oidc_client.rs\<close>): the
    registered clients; \<open>Oidc_Routes\<close>, \<open>Oidc_Web\<close> (\<^verbatim>\<open>routes/oidc.rs\<close>): the endpoints with their cookies.
  \<^item> \<open>Rbac\<close>, \<open>Rbac_Routes\<close>, \<open>Rbac_Safety\<close> (\<^verbatim>\<open>services/rbac.rs\<close>, \<^verbatim>\<open>routes/rbac.rs\<close>,
    \<^verbatim>\<open>utils/permission_middleware.rs\<close>): roles, permissions, assignments, the guard and the handlers.
  \<^item> \<open>Config\<close>, \<open>Config_Safety\<close> (\<^verbatim>\<open>config.rs\<close>): reading the environment and the start-up checks.
  \<^item> \<open>User_Management\<close>, \<open>User_Safety\<close> (\<^verbatim>\<open>services/user_management.rs\<close>, \<^verbatim>\<open>routes/user_management.rs\<close>):
    profiles, preferences, status, membership, the user list.
  \<^item> \<open>Ai_Actor\<close>, \<open>Ai_Safety\<close> (\<^verbatim>\<open>services/ai_actor.rs\<close>, \<^verbatim>\<open>routes/actors.rs\<close>): agents, their keys and challenges.
  \<^item> \<open>Oauth\<close>, \<open>Auth_Routes\<close>, \<open>Login_Safety\<close>, \<open>External_Safety\<close>, \<open>Usernames\<close> (\<^verbatim>\<open>services/oauth.rs\<close>,
    \<^verbatim>\<open>routes/auth.rs\<close>): the login endpoints over a \<open>site\<close> that joins the database, the cache, the second
    factors, the lock-outs, the mail and the journal; external logins and the names they make up.
  \<^item> \<open>Bootstrap\<close>, \<open>Bootstrap_Safety\<close> (\<^verbatim>\<open>routes/bootstrap.rs\<close>, \<^verbatim>\<open>routes/security.rs\<close>): the first
    administrator, and the operator's view of the lock-outs.

  \<^bold>\<open>How the parts meet.\<close>  Records extend one another: \<open>store\<close> is the database of identities,
  \<open>auth_world\<close> adds the cache, the second factors and the mail, \<open>rbac_world\<close> and \<open>oidc_world\<close> add their
  tables, \<open>site\<close> holds all of them beside the lock-outs and the journal, and \<open>boot_site\<close> the claim of the
  bootstrap.  An operation of a part runs on a larger state through \<open>zoom\<close>.  What several parts promise in
  the same way is a locale, interpreted on each of them: what is spent once (\<open>spending\<close>, \<open>one_shot\<close> and, for
  requests that may be refused for other reasons, \<open>closing\<close>), a guard (\<open>guarded\<close>), a counter.

  \<^bold>\<open>Interleaving.\<close>  A run is a sequence of whole operations in any order, each with its own faults, clock and
  draws.  Where the code is written for a race, or has one, the model goes between its statements: other
  requests write between the three statements of setting a password (\<open>set_password_racing\<close>), between the
  look-ups and the claim of the bootstrap, between the check of an agent's key and its session, and
  between the reading of a user's row and its being written back.

  \<^bold>\<open>Bounds and fuel.\<close>  No definition uses fuel: every loop of the modelled code is structural or has
  its own measure; the retry loops run over the list of their attempts.  Integers are not reduced
  modulo a width except where the code casts or counts in bytes; the properties hold for all integers.

  \<^bold>\<open>Not modelled.\<close>  The reports of \<^verbatim>\<open>services/audit.rs\<close> and \<^verbatim>\<open>routes/audit.rs\<close> (counts, trends and risk
  scores read from the journal), mail templates and delivery (\<^verbatim>\<open>services/email.rs\<close>), loading and printing the
  signing key (\<^verbatim>\<open>services/oidc_keys.rs\<close>), the database client with its connections and sign-in
  (\<^verbatim>\<open>services/database.rs\<close>), and the wiring of \<^verbatim>\<open>main.rs\<close>: they call libraries or present what the modelled
  parts hold, and no modelled operation depends on their state.  Log lines are left out everywhere.
\<close>

end
